(* ===== verification/Portal.thy ===== *)
theory Portal
  imports Prelude
begin

text \<open>
  The portal's script, \<open>internal/web/static/app.js\<close>. The page is the list of its elements in
  document order, an element is named by its position, and each listener of the script is a
  function of the page. The browser contributes what the script only calls: the answer of
  \<open>window.confirm\<close>, whether the clipboard API can be used, the outcome of its promise and of
  \<open>document.execCommand\<close>, and the matching of a selector taken from an attribute.

  The two listeners on \<open>document\<close> run after the listeners on the element itself (bubbling).
  The node lists the script captures at load are recomputed here: no listener adds or removes an
  element (the clipboard fallback removes the one it adds) nor changes an attribute they select on.
\<close>


section \<open>The document\<close>

record elem =
  tag :: string
  parent :: "nat option"
  attrs :: "(string \<times> string) list"
  classes :: "string list"
  hidden :: bool
  disabled :: bool
  checked :: bool
  indeterminate :: bool
  elem_value :: "string option"
  text_content :: string

type_synonym doc = "elem list"

definition get_attr :: "elem \<Rightarrow> string \<Rightarrow> string option" where
  "get_attr e a = map_of (attrs e) a"

definition has_attr :: "string \<Rightarrow> elem \<Rightarrow> bool" where
  "has_attr a e \<longleftrightarrow> get_attr e a \<noteq> None"

text \<open>The chain of ancestors, nearest first. In document order a parent stands before its child.\<close>

function ancestors :: "doc \<Rightarrow> nat \<Rightarrow> nat list" where
  "ancestors d i =
     (if i < length d
      then (case parent (d ! i) of
              None \<Rightarrow> []
            | Some j \<Rightarrow> if j < i then j # ancestors d j else [])
      else [])"
  by pat_completeness auto
termination
  by (relation "measure snd") auto

declare ancestors.simps [simp del]

definition closest :: "(elem \<Rightarrow> bool) \<Rightarrow> doc \<Rightarrow> nat \<Rightarrow> nat option" where
  "closest p d i = (if i < length d then find (\<lambda>j. p (d ! j)) (i # ancestors d i) else None)"

definition descends :: "doc \<Rightarrow> nat \<Rightarrow> nat \<Rightarrow> bool" where
  "descends d r i \<longleftrightarrow> r \<in> set (ancestors d i)"

text \<open>\<open>querySelectorAll\<close> on an element (\<open>Some r\<close>) or on the document (\<open>None\<close>).\<close>

definition in_scope :: "doc \<Rightarrow> nat option \<Rightarrow> nat \<Rightarrow> bool" where
  "in_scope d r i \<longleftrightarrow> (case r of None \<Rightarrow> True | Some k \<Rightarrow> descends d k i)"

definition query_all :: "(elem \<Rightarrow> bool) \<Rightarrow> doc \<Rightarrow> nat option \<Rightarrow> nat list" where
  "query_all p d r = filter (\<lambda>i. p (d ! i) \<and> in_scope d r i) [0..<length d]"

definition query :: "(elem \<Rightarrow> bool) \<Rightarrow> doc \<Rightarrow> nat option \<Rightarrow> nat option" where
  "query p d r = find (\<lambda>i. p (d ! i) \<and> in_scope d r i) [0..<length d]"

definition set_at :: "nat \<Rightarrow> (elem \<Rightarrow> elem) \<Rightarrow> doc \<Rightarrow> doc" where
  "set_at i f d = (if i < length d then d[i := f (d ! i)] else d)"

definition set_all :: "(nat \<Rightarrow> bool) \<Rightarrow> (elem \<Rightarrow> elem) \<Rightarrow> doc \<Rightarrow> doc" where
  "set_all P f d = map (\<lambda>i. if P i then f (d ! i) else d ! i) [0..<length d]"

text \<open>The selector \<open>input, select, textarea\<close>.\<close>

definition is_field :: "elem \<Rightarrow> bool" where
  "is_field e \<longleftrightarrow> tag e \<in> {''input'', ''select'', ''textarea''}"

definition named :: "string \<Rightarrow> elem \<Rightarrow> bool" where
  "named n e \<longleftrightarrow> get_attr e ''name'' = Some n"

definition attr_words :: "string \<Rightarrow> elem \<Rightarrow> string list" where
  "attr_words a e = split_on CHR '' '' (case get_attr e a of None \<Rightarrow> [] | Some v \<Rightarrow> v)"


section \<open>The page and the browser\<close>

datatype exec_copy = ExecThrows | ExecReturns bool

record browser =
  confirm_answer :: "string \<Rightarrow> bool"
  clipboard_api :: bool
  write_ok :: bool
  exec_result :: exec_copy
  selector :: "string \<Rightarrow> elem \<Rightarrow> bool"

record page =
  doc :: doc
  focus :: "nat option"
  clipboard :: "string option"
  timers :: "(nat \<times> string) list"


section \<open>Navigation, copy buttons, confirmations\<close>

definition toggle_class :: "string \<Rightarrow> elem \<Rightarrow> elem \<times> bool" where
  "toggle_class c e =
     (if c \<in> set (classes e) then (e\<lparr>classes := removeAll c (classes e)\<rparr>, False)
      else (e\<lparr>classes := classes e @ [c]\<rparr>, True))"

definition set_attribute :: "string \<Rightarrow> string \<Rightarrow> elem \<Rightarrow> elem" where
  "set_attribute a v e = e\<lparr>attrs := (a, v) # filter (\<lambda>kv. fst kv \<noteq> a) (attrs e)\<rparr>"

definition nav_toggle :: "doc \<Rightarrow> nat option" where
  "nav_toggle d = query (has_attr ''data-nav-toggle'') d None"

text \<open>Without an enclosing \<open>.topbar\<close> the listener throws before it changes anything.\<close>

definition on_nav_toggle :: "nat \<Rightarrow> doc \<Rightarrow> doc" where
  "on_nav_toggle t d =
     (case closest (\<lambda>e. ''topbar'' \<in> set (classes e)) d t of
        None \<Rightarrow> d
      | Some bar \<Rightarrow>
          let (e, opened) = toggle_class ''nav-open'' (d ! bar);
              d1 = d[bar := e]
          in set_at t (set_attribute ''aria-expanded'' (if opened then ''true'' else ''false'')) d1)"

text \<open>The \<open>done\<close> callback: label the button and schedule the old label.\<close>

definition copy_done :: "nat \<Rightarrow> page \<Rightarrow> page" where
  "copy_done btn p =
     p\<lparr>doc := set_at btn (\<lambda>e. e\<lparr>text_content := ''copied''\<rparr>) (doc p),
       timers := timers p @ [(btn, text_content (doc p ! btn))]\<rparr>"

text \<open>The textarea fallback. The label changes whatever \<open>execCommand\<close> returns, and is left alone
  only when it throws; the textarea is removed on every path.\<close>

definition scratch_area :: "doc \<Rightarrow> string \<Rightarrow> elem" where
  "scratch_area d s =
     \<lparr>tag = ''textarea'', parent = query (\<lambda>e. tag e = ''body'') d None, attrs = [], classes = [], hidden = False,
      disabled = False, checked = False, indeterminate = False,
      elem_value = Some s, text_content = []\<rparr>"

definition copy_fallback :: "browser \<Rightarrow> nat \<Rightarrow> string \<Rightarrow> page \<Rightarrow> page" where
  "copy_fallback b btn s p =
     (let p1 = p\<lparr>doc := doc p @ [scratch_area (doc p) s]\<rparr>;
          p2 = (case exec_result b of
                  ExecThrows \<Rightarrow> p1
                | ExecReturns ok \<Rightarrow>
                    copy_done btn (if ok then p1\<lparr>clipboard := Some s\<rparr> else p1))
      in p2\<lparr>doc := butlast (doc p2)\<rparr>)"

text \<open>The first \<open>click\<close> listener on the document: the new page and whether the default action
  was prevented.\<close>

definition on_click_copy :: "browser \<Rightarrow> nat \<Rightarrow> page \<Rightarrow> page \<times> bool" where
  "on_click_copy b t p =
     (case closest (has_attr ''data-copy'') (doc p) t of
        None \<Rightarrow> (p, False)
      | Some btn \<Rightarrow>
          (case query (selector b (the (get_attr (doc p ! btn) ''data-copy''))) (doc p) None of
             None \<Rightarrow> (p, True)
           | Some el \<Rightarrow>
               let s = (case elem_value (doc p ! el) of
                          Some v \<Rightarrow> v | None \<Rightarrow> text_content (doc p ! el))
               in (if clipboard_api b
                   then (if write_ok b then copy_done btn (p\<lparr>clipboard := Some s\<rparr>)
                         else copy_fallback b btn s p)
                   else copy_fallback b btn s p, True)))"

text \<open>The timer callback: the oldest one fires first, since every delay is the same.\<close>

definition on_timer :: "page \<Rightarrow> page" where
  "on_timer p =
     (case timers p of
        [] \<Rightarrow> p
      | (btn, old) # ts \<Rightarrow>
          p\<lparr>doc := set_at btn (\<lambda>e. e\<lparr>text_content := old\<rparr>) (doc p), timers := ts\<rparr>)"

text \<open>Confirmations. Each returns whether the default action is prevented; an empty message is
  falsy in the form's test only.\<close>

definition on_submit :: "browser \<Rightarrow> doc \<Rightarrow> nat \<Rightarrow> bool" where
  "on_submit b d f =
     (case get_attr (d ! f) ''data-confirm'' of
        None \<Rightarrow> False
      | Some msg \<Rightarrow> msg \<noteq> [] \<and> \<not> confirm_answer b msg)"

definition on_click_link :: "browser \<Rightarrow> doc \<Rightarrow> nat \<Rightarrow> bool" where
  "on_click_link b d t =
     (case closest (\<lambda>e. tag e = ''a'' \<and> has_attr ''data-confirm'' e) d t of
        None \<Rightarrow> False
      | Some l \<Rightarrow> \<not> confirm_answer b (the (get_attr (d ! l) ''data-confirm'')))"


section \<open>Conditional sections\<close>

text \<open>The rule of a \<open>data-show-when\<close> attribute: the control's name and the wanted values.\<close>

definition show_rule :: "elem \<Rightarrow> string \<times> string list" where
  "show_rule e =
     (let parts = split_on CHR ''='' (the (get_attr e ''data-show-when''))
      in (hd parts, split_on CHR '' '' (if length parts < 2 then [] else parts ! 1)))"

definition show_form :: "doc \<Rightarrow> nat \<Rightarrow> nat option" where
  "show_form d el = closest (\<lambda>e. tag e = ''form'') d el"

definition show_current :: "doc \<Rightarrow> nat \<Rightarrow> nat option" where
  "show_current d el =
     (let n = fst (show_rule (d ! el)); f = show_form d el
      in case query (\<lambda>e. named n e \<and> checked e) d f of
           Some i \<Rightarrow> Some i
         | None \<Rightarrow> query (\<lambda>e. tag e \<in> {''select'', ''input''} \<and> named n e) d f)"

definition show_visible :: "doc \<Rightarrow> nat \<Rightarrow> bool" where
  "show_visible d el =
     (case show_current d el of
        None \<Rightarrow> False
      | Some i \<Rightarrow>
          (case elem_value (d ! i) of
             None \<Rightarrow> False
           | Some v \<Rightarrow> v \<in> set (snd (show_rule (d ! el)))))"

text \<open>Hide or show one section, and disable or enable the fields inside it.\<close>

definition set_section :: "bool \<Rightarrow> nat \<Rightarrow> doc \<Rightarrow> doc" where
  "set_section h el d =
     set_all (\<lambda>i. is_field (d ! i) \<and> descends d el i) (\<lambda>e. e\<lparr>disabled := h\<rparr>)
       (set_at el (\<lambda>e. e\<lparr>hidden := h\<rparr>) d)"

definition show_apply :: "nat \<Rightarrow> doc \<Rightarrow> doc" where
  "show_apply el d = set_section (\<not> show_visible d el) el d"

definition show_sections :: "doc \<Rightarrow> nat list" where
  "show_sections d = query_all (has_attr ''data-show-when'') d None"

definition show_controls :: "doc \<Rightarrow> nat \<Rightarrow> nat list" where
  "show_controls d el = query_all (named (fst (show_rule (d ! el)))) d (show_form d el)"

definition on_change_show :: "nat \<Rightarrow> doc \<Rightarrow> doc" where
  "on_change_show t d =
     fold (\<lambda>el d'. if t \<in> set (show_controls d' el) then show_apply el d' else d')
       (show_sections d) d"

definition mode_inputs :: "doc \<Rightarrow> nat list" where
  "mode_inputs d = query_all (\<lambda>e. tag e = ''input'' \<and> named ''mode'' e) d None"

definition mode_current :: "doc \<Rightarrow> nat option" where
  "mode_current d = query (\<lambda>e. tag e = ''input'' \<and> named ''mode'' e \<and> checked e) d None"

definition mode_sections :: "doc \<Rightarrow> nat list" where
  "mode_sections d = query_all (has_attr ''data-mode'') d None"

definition mode_hidden :: "string option \<Rightarrow> elem \<Rightarrow> bool" where
  "mode_hidden v e = (case v of None \<Rightarrow> True | Some m \<Rightarrow> m \<notin> set (attr_words ''data-mode'' e))"

definition apply_mode :: "doc \<Rightarrow> doc" where
  "apply_mode d =
     (case mode_current d of
        None \<Rightarrow> d
      | Some m \<Rightarrow>
          let v = elem_value (d ! m)
          in fold (\<lambda>el d'. set_section (mode_hidden v (d' ! el)) el d') (mode_sections d) d)"

definition kind_inputs :: "doc \<Rightarrow> nat list" where
  "kind_inputs d = query_all (\<lambda>e. tag e = ''input'' \<and> named ''ca_kind'' e) d None"

definition kind_current :: "doc \<Rightarrow> nat option" where
  "kind_current d = query (\<lambda>e. tag e = ''input'' \<and> named ''ca_kind'' e \<and> checked e) d None"

definition kind_hidden :: "string option \<Rightarrow> elem \<Rightarrow> bool" where
  "kind_hidden v e = (case v of None \<Rightarrow> True | Some k \<Rightarrow> k \<notin> set (attr_words ''data-kind'' e))"

text \<open>The section of the CA form is hidden, its fields stay enabled.\<close>

definition apply_kind :: "doc \<Rightarrow> doc" where
  "apply_kind d =
     (case kind_current d of
        None \<Rightarrow> d
      | Some k \<Rightarrow>
          let v = elem_value (d ! k)
          in set_all (\<lambda>i. has_attr ''data-kind'' (d ! i))
               (\<lambda>e. e\<lparr>hidden := kind_hidden v e\<rparr>) d)"


section \<open>Bulk selection\<close>

definition select_all :: "doc \<Rightarrow> nat option" where
  "select_all d = query (has_attr ''data-select-all'') d None"

definition row_boxes :: "doc \<Rightarrow> nat list" where
  "row_boxes d = query_all (has_attr ''data-row-select'') d None"

definition bulk_bar :: "doc \<Rightarrow> nat option" where
  "bulk_bar d = query (has_attr ''data-bulk-bar'') d None"

definition bulk_count :: "doc \<Rightarrow> nat option" where
  "bulk_count d = query (has_attr ''data-bulk-count'') d None"

definition checked_count :: "doc \<Rightarrow> nat" where
  "checked_count d = length (filter (\<lambda>i. checked (d ! i)) (row_boxes d))"

definition set_opt :: "nat option \<Rightarrow> (elem \<Rightarrow> elem) \<Rightarrow> doc \<Rightarrow> doc" where
  "set_opt r f d = (case r of None \<Rightarrow> d | Some i \<Rightarrow> set_at i f d)"

definition refresh_bulk :: "doc \<Rightarrow> doc" where
  "refresh_bulk d =
     (let n = checked_count d; total = length (row_boxes d);
          d1 = set_opt (bulk_count d) (\<lambda>e. e\<lparr>text_content := string_of_nat n\<rparr>) d;
          d2 = set_opt (bulk_bar d) (\<lambda>e. e\<lparr>hidden := (n = 0)\<rparr>) d1
      in set_opt (select_all d)
           (\<lambda>e. e\<lparr>checked := (0 < n \<and> n = total), indeterminate := (0 < n \<and> n < total)\<rparr>) d2)"

definition on_change_select_all :: "nat \<Rightarrow> doc \<Rightarrow> doc" where
  "on_change_select_all sa d =
     refresh_bulk (set_all (\<lambda>i. has_attr ''data-row-select'' (d ! i))
                     (\<lambda>e. e\<lparr>checked := checked (d ! sa)\<rparr>) d)"

definition bulk_message :: "doc \<Rightarrow> nat \<Rightarrow> string" where
  "bulk_message d btn =
     the (get_attr (d ! btn) ''data-confirm-bulk'') @ [CHR 0x0A, CHR 0x0A]
       @ string_of_nat (checked_count d) @ '' certificate(s) selected.''"

definition on_click_bulk :: "browser \<Rightarrow> doc \<Rightarrow> nat \<Rightarrow> bool" where
  "on_click_bulk b d btn = (\<not> confirm_answer b (bulk_message d btn))"


section \<open>Loading the page and dispatching its events\<close>

text \<open>The top level of the script, in its order.\<close>

definition load :: "page \<Rightarrow> page" where
  "load p =
     (let d0 = set_opt (query (\<lambda>e. tag e = ''html'') (doc p) None)
                 (\<lambda>e. e\<lparr>classes := (if ''js'' \<in> set (classes e) then classes e
                                    else classes e @ [''js''])\<rparr>) (doc p);
          d1 = fold show_apply (show_sections d0) d0;
          d2 = (if mode_inputs d1 \<noteq> [] then apply_mode d1 else d1);
          d3 = (if kind_inputs d2 \<noteq> [] then apply_kind d2 else d2);
          d4 = (if row_boxes d3 \<noteq> [] then refresh_bulk d3 else d3)
      in p\<lparr>doc := d4,
           focus := (case query (has_attr ''data-autofocus'') d3 None of
                       Some q \<Rightarrow> Some q | None \<Rightarrow> focus p)\<rparr>)"

text \<open>A \<open>change\<close> event at control \<open>t\<close>, after the browser updated the control. The listeners
  are attached in this order.\<close>

definition on_change :: "nat \<Rightarrow> doc \<Rightarrow> doc" where
  "on_change t d =
     (let d1 = on_change_show t d;
          d2 = (if t \<in> set (mode_inputs d1) then apply_mode d1 else d1);
          d3 = (if t \<in> set (kind_inputs d2) then apply_kind d2 else d2);
          d4 = (if select_all d3 = Some t then on_change_select_all t d3 else d3)
      in if t \<in> set (row_boxes d4) then refresh_bulk d4 else d4)"

definition bulk_prevented :: "browser \<Rightarrow> doc \<Rightarrow> nat \<Rightarrow> bool" where
  "bulk_prevented b d t =
     (\<exists>btn \<in> set (t # ancestors d t).
        btn < length d \<and> has_attr ''data-confirm-bulk'' (d ! btn) \<and> on_click_bulk b d btn)"

text \<open>A click: the page after it and whether the default action (following the link, submitting
  the form) was prevented.\<close>

definition on_click :: "browser \<Rightarrow> nat \<Rightarrow> page \<Rightarrow> page \<times> bool" where
  "on_click b t p =
     (let d1 = (case nav_toggle (doc p) of
                  None \<Rightarrow> doc p
                | Some n \<Rightarrow> if n = t \<or> descends (doc p) n t then on_nav_toggle n (doc p) else doc p);
          p1 = p\<lparr>doc := d1\<rparr>;
          bulk = bulk_prevented b d1 t;
          (p2, copied) = on_click_copy b t p1
      in (p2, bulk \<or> copied \<or> on_click_link b (doc p2) t))"


section \<open>Elements under updates\<close>

lemma length_set_all [simp]: "length (set_all P f d) = length d"
  by (simp add: set_all_def)

lemma nth_set_all [simp]:
  "i < length d \<Longrightarrow> set_all P f d ! i = (if P i then f (d ! i) else d ! i)"
  by (simp add: set_all_def)

lemma length_set_at [simp]: "length (set_at i f d) = length d"
  by (simp add: set_at_def)

lemma nth_set_at [simp]:
  "j < length d \<Longrightarrow> set_at i f d ! j = (if i = j then f (d ! j) else d ! j)"
  by (auto simp: set_at_def)

lemma length_set_section [simp]: "length (set_section h el d) = length d"
  by (simp add: set_section_def)

text \<open>What every listener keeps of an element: all but its visibility and its enabled state.\<close>

definition core_elem :: "elem \<Rightarrow> elem" where
  "core_elem e = e\<lparr>hidden := False, disabled := False\<rparr>"

definition same_core :: "doc \<Rightarrow> doc \<Rightarrow> bool" where
  "same_core d d' \<longleftrightarrow> map core_elem d = map core_elem d'"

lemma same_core_length: "same_core d d' \<Longrightarrow> length d = length d'"
  by (metis same_core_def length_map)

lemma same_core_nth:
  assumes "same_core d d'" and "i < length d"
  shows "tag (d ! i) = tag (d' ! i) \<and> parent (d ! i) = parent (d' ! i) \<and> attrs (d ! i) = attrs (d' ! i)
       \<and> checked (d ! i) = checked (d' ! i) \<and> elem_value (d ! i) = elem_value (d' ! i)"
proof -
  have "core_elem (d ! i) = core_elem (d' ! i)"
    using assms same_core_length [OF assms(1)] unfolding same_core_def by (metis nth_map)
  then show ?thesis
    by (cases "d ! i"; cases "d' ! i") (simp add: core_elem_def)
qed

lemma same_core_refl [simp]: "same_core d d"
  by (simp add: same_core_def)

lemma same_core_sym: "same_core d d' \<Longrightarrow> same_core d' d"
  by (simp add: same_core_def)

lemma same_core_trans: "same_core a b \<Longrightarrow> same_core b c \<Longrightarrow> same_core a c"
  by (simp add: same_core_def)

lemma same_core_ancestors: "same_core d d' \<Longrightarrow> ancestors d i = ancestors d' i"
proof (induction i rule: less_induct)
  case (less i)
  show ?case
  proof (cases "i < length d")
    case True
    then have "parent (d ! i) = parent (d' ! i)" "i < length d'"
      using same_core_nth [OF less.prems True] same_core_length [OF less.prems] by auto
    with True less show ?thesis
      by (auto simp: ancestors.simps [of d i] ancestors.simps [of d' i] split: option.splits)
  next
    case False
    then show ?thesis
      using same_core_length [OF less.prems]
      by (simp add: ancestors.simps [of d i] ancestors.simps [of d' i])
  qed
qed

lemma same_core_descends: "same_core d d' \<Longrightarrow> descends d r i = descends d' r i"
  by (simp add: descends_def same_core_ancestors)

lemma same_core_is_field: "same_core d d' \<Longrightarrow> i < length d \<Longrightarrow> is_field (d ! i) = is_field (d' ! i)"
  by (simp add: is_field_def same_core_nth)

lemma same_core_set_section [simp]: "same_core (set_section h el d) d"
  by (auto simp: same_core_def set_section_def core_elem_def intro!: nth_equalityI)

lemma ancestors_cases:
  obtains (root) "ancestors d i = []"
  | (child) j where "parent (d ! i) = Some j" "j < i" "i < length d" "ancestors d i = j # ancestors d j"
  by (cases "i < length d"; cases "parent (d ! i)"; cases "the (parent (d ! i)) < i")
    (simp_all add: ancestors.simps [of d i])

lemma ancestors_less: "j \<in> set (ancestors d i) \<Longrightarrow> j < i \<and> i < length d"
proof (induction i rule: less_induct)
  case (less i)
  show ?case
  proof (cases d i rule: ancestors_cases)
    case root
    with less.prems show ?thesis by simp
  next
    case (child k)
    with less.prems less.IH [of k] show ?thesis by auto
  qed
qed

lemma sorted_ancestors: "sorted (rev (ancestors d i)) \<and> distinct (ancestors d i)"
proof (induction i rule: less_induct)
  case (less i)
  show ?case
  proof (cases d i rule: ancestors_cases)
    case root
    then show ?thesis by simp
  next
    case (child k)
    with less.IH [of k] ancestors_less [of _ d k] show ?thesis
      by (auto simp: sorted_append less_imp_le)
  qed
qed

lemma descends_trans: "descends d r k \<Longrightarrow> descends d k i \<Longrightarrow> descends d r i"
proof (induction i rule: less_induct)
  case (less i)
  show ?case
  proof (cases d i rule: ancestors_cases)
    case root
    with less.prems show ?thesis by (simp add: descends_def)
  next
    case (child j)
    with less.prems less.IH [of j] show ?thesis by (auto simp: descends_def)
  qed
qed

text \<open>The sections around a field, in document order, are the reverse of its ancestor chain, so the
  last of them is the innermost one.\<close>

lemma enclosing_in_order:
  "filter (\<lambda>i. q i \<and> descends d i j) [0..<length d] = rev (filter q (ancestors d j))"
proof (rule sorted_distinct_set_unique)
  show "sorted (rev (filter q (ancestors d j)))"
    using sorted_ancestors [of d j] by (simp add: rev_filter sorted_wrt_filter)
  show "set (filter (\<lambda>i. q i \<and> descends d i j) [0..<length d]) = set (rev (filter q (ancestors d j)))"
    using ancestors_less [of _ d j] by (fastforce simp: descends_def)
qed (use sorted_ancestors [of d j] in \<open>simp_all add: sorted_wrt_filter\<close>)

lemma last_enclosing:
  assumes "find q (ancestors d j) = Some el"
  shows "last (filter (\<lambda>i. q i \<and> descends d i j) [0..<length d]) = el"
proof -
  have "filter q xs = el # filter q (tl (dropWhile (\<lambda>x. \<not> q x) xs))" if "find q xs = Some el" for xs
    using that by (induction xs) (auto split: if_splits)
  from this [OF assms] show ?thesis by (simp add: enclosing_in_order)
qed


section \<open>Hiding sections one after the other\<close>

definition hide_fold :: "(doc \<Rightarrow> nat \<Rightarrow> bool) \<Rightarrow> nat list \<Rightarrow> doc \<Rightarrow> doc" where
  "hide_fold h ss d = fold (\<lambda>el d'. set_section (h d' el) el d') ss d"

lemma hide_fold_snoc:
  "hide_fold h (ss @ [el]) d = set_section (h (hide_fold h ss d) el) el (hide_fold h ss d)"
  by (simp add: hide_fold_def)

lemma hide_fold_core [simp]: "same_core (hide_fold h ss d) d"
proof (induction ss rule: rev_induct)
  case Nil
  show ?case by (simp add: hide_fold_def)
next
  case (snoc el ss)
  then show ?case
    unfolding hide_fold_snoc using same_core_set_section same_core_trans by blast
qed

lemma length_hide_fold [simp]: "length (hide_fold h ss d) = length d"
  using hide_fold_core same_core_length by blast

lemma nth_set_section:
  assumes "i < length d"
  shows "hidden (set_section h el d ! i) = (if i = el then h else hidden (d ! i))"
    and "disabled (set_section h el d ! i)
           = (if is_field (d ! i) \<and> descends d el i then h else disabled (d ! i))"
  using assms by (auto simp: set_section_def)

text \<open>
  The contract of a visibility rule: whether it hides a section depends on nothing that hiding
  sections changes. Both kinds of conditional sections of the script rely on it. Every section then
  ends up as the rule says, and a field follows the last section that contains it.
\<close>

locale section_rule =
  fixes hides :: "doc \<Rightarrow> nat \<Rightarrow> bool"
  assumes stable: "same_core d' d \<Longrightarrow> el < length d \<Longrightarrow> hides d' el = hides d el"
begin

lemma stable_fold: "el < length d \<Longrightarrow> hides (hide_fold h ss d) el = hides d el"
  by (rule stable) simp_all

lemma fold_hidden:
  assumes "\<forall>el \<in> set ss. el < length d" and i: "i < length d"
  shows "hidden (hide_fold hides ss d ! i) = (if i \<in> set ss then hides d i else hidden (d ! i))"
  using assms(1)
proof (induction ss rule: rev_induct)
  case Nil
  show ?case by (simp add: hide_fold_def)
next
  case (snoc el ss)
  then show ?case using i by (simp add: hide_fold_snoc nth_set_section stable_fold)
qed

lemma fold_disabled:
  assumes "\<forall>el \<in> set ss. el < length d" and j: "j < length d" "is_field (d ! j)"
  shows "disabled (hide_fold hides ss d ! j) =
           (if filter (\<lambda>el. descends d el j) ss = [] then disabled (d ! j)
            else hides d (last (filter (\<lambda>el. descends d el j) ss)))"
  using assms(1)
proof (induction ss rule: rev_induct)
  case Nil
  show ?case by (simp add: hide_fold_def)
next
  case (snoc el ss)
  have "is_field (hide_fold hides ss d ! j)"
    using j same_core_is_field [OF same_core_sym [OF hide_fold_core]] by blast
  moreover have "descends (hide_fold hides ss d) el j = descends d el j"
    by (rule same_core_descends) simp
  ultimately show ?case
    using snoc j by (simp add: hide_fold_snoc nth_set_section stable_fold)
qed

end

lemma query_all_None: "query_all p d None = filter (\<lambda>i. p (d ! i)) [0..<length d]"
  by (simp add: query_all_def in_scope_def)

lemma query_SomeD: "query p d r = Some i \<Longrightarrow> i < length d \<and> p (d ! i) \<and> in_scope d r i"
  unfolding query_def by (drule find_SomeD) simp

text \<open>A query whose test looks at nothing the listeners change gives the same answer after them.\<close>

lemma same_core_in_scope: "same_core d d' \<Longrightarrow> in_scope d r i = in_scope d' r i"
  by (simp add: in_scope_def same_core_descends split: option.split)

lemma same_core_query:
  assumes "same_core d d'" and "\<And>i. i < length d \<Longrightarrow> p (d ! i) = p (d' ! i)"
  shows "query p d r = query p d' r" "query_all p d r = query_all p d' r"
proof -
  have *: "p (d ! i) \<and> in_scope d r i \<longleftrightarrow> p (d' ! i) \<and> in_scope d' r i" if "i \<in> set [0..<length d]" for i
    using that assms by (simp add: same_core_in_scope)
  show "query p d r = query p d' r"
    unfolding query_def same_core_length [OF assms(1), symmetric]
    using * by (intro find_cong refl) auto
  show "query_all p d r = query_all p d' r"
    unfolding query_all_def same_core_length [OF assms(1), symmetric]
    using * by (intro filter_cong refl) auto
qed

lemma same_core_get_attr:
  "same_core d d' \<Longrightarrow> i < length d \<Longrightarrow> get_attr (d ! i) a = get_attr (d' ! i) a"
  by (simp add: get_attr_def same_core_nth)

lemma same_core_has_attr:
  "same_core d d' \<Longrightarrow> i < length d \<Longrightarrow> has_attr a (d ! i) = has_attr a (d' ! i)"
  by (simp add: has_attr_def same_core_get_attr)

lemma same_core_closest_tag:
  assumes "same_core d d'"
  shows "closest (\<lambda>e. tag e = t) d i = closest (\<lambda>e. tag e = t) d' i"
proof -
  have "find (\<lambda>j. tag (d ! j) = t) (i # ancestors d i) = find (\<lambda>j. tag (d' ! j) = t) (i # ancestors d i)"
    if "i < length d"
    using that assms ancestors_less [of _ d i] less_trans
    by (intro find_cong refl) (fastforce simp: same_core_nth)
  then show ?thesis
    using assms by (simp add: closest_def same_core_length [OF assms] same_core_ancestors [OF assms])
qed


section \<open>The request form's modes\<close>

lemma apply_mode_fold:
  "mode_current d = Some m \<Longrightarrow>
     apply_mode d = hide_fold (\<lambda>d' el. mode_hidden (elem_value (d ! m)) (d' ! el)) (mode_sections d) d"
  by (simp add: apply_mode_def hide_fold_def Let_def)

lemma mode_hidden_core:
  "same_core d' d \<Longrightarrow> el < length d \<Longrightarrow> mode_hidden v (d' ! el) = mode_hidden v (d ! el)"
  by (simp add: mode_hidden_def attr_words_def get_attr_def same_core_length [symmetric]
      same_core_nth [of d' d] split: option.split)

interpretation mode_rule: section_rule "\<lambda>d el. mode_hidden v (d ! el)" for v
  by unfold_locales (rule mode_hidden_core)

lemma apply_mode_hidden:
  assumes "mode_current d = Some m" and "i < length d"
  shows "hidden (apply_mode d ! i) =
           (if has_attr ''data-mode'' (d ! i) then mode_hidden (elem_value (d ! m)) (d ! i)
            else hidden (d ! i))"
proof -
  have "hidden (apply_mode d ! i) =
      (if i \<in> set (mode_sections d) then mode_hidden (elem_value (d ! m)) (d ! i) else hidden (d ! i))"
    unfolding apply_mode_fold [OF assms(1)]
    by (rule mode_rule.fold_hidden [OF _ assms(2)]) (auto simp: mode_sections_def query_all_def)
  with assms(2) show ?thesis by (simp add: mode_sections_def query_all_None)
qed

lemma apply_mode_field:
  assumes "mode_current d = Some m" and "j < length d" and "is_field (d ! j)"
    and "find (\<lambda>i. has_attr ''data-mode'' (d ! i)) (ancestors d j) = Some el"
  shows "disabled (apply_mode d ! j) = hidden (apply_mode d ! el)
       \<and> hidden (apply_mode d ! el) = mode_hidden (elem_value (d ! m)) (d ! el)"
proof -
  let ?q = "\<lambda>i. has_attr ''data-mode'' (d ! i)"
  from assms(4) have el: "el \<in> set (ancestors d j)" "?q el" "el < length d"
    using find_SomeD [OF assms(4)] ancestors_less [of el d j] by auto
  have inner: "filter (\<lambda>el. descends d el j) (mode_sections d)
      = filter (\<lambda>i. ?q i \<and> descends d i j) [0..<length d]"
    by (simp add: mode_sections_def query_all_None conj_commute)
  moreover have "\<dots> \<noteq> []"
    using el by (auto simp: filter_empty_conv descends_def)
  moreover have "last (filter (\<lambda>i. ?q i \<and> descends d i j) [0..<length d]) = el"
    by (rule last_enclosing [OF assms(4)])
  moreover have "disabled (apply_mode d ! j) =
      (if filter (\<lambda>el. descends d el j) (mode_sections d) = [] then disabled (d ! j)
       else mode_hidden (elem_value (d ! m)) (d ! last (filter (\<lambda>el. descends d el j) (mode_sections d))))"
    unfolding apply_mode_fold [OF assms(1)]
    by (rule mode_rule.fold_disabled [OF _ assms(2,3)])
      (auto simp: mode_sections_def query_all_def)
  ultimately show ?thesis
    using apply_mode_hidden [OF assms(1) el(3)] el(2) by simp
qed

text \<open>C38 (internal/web/static/app.js, applyMode): after a mode change, a field inside one or more
  \<open>data-mode\<close> sections is disabled exactly when the innermost of these sections is hidden, and
  that section is hidden exactly when the chosen mode is not one of the modes it lists.\<close>

theorem apply_mode_innermost:
  assumes "mode_current d = Some m" and "j < length d" and "is_field (d ! j)"
    and "find (\<lambda>i. has_attr ''data-mode'' (d ! i)) (ancestors d j) = Some el"
  shows "disabled (apply_mode d ! j) = hidden (apply_mode d ! el)
       \<and> hidden (apply_mode d ! el) = mode_hidden (elem_value (d ! m)) (d ! el)"
  using assms by (rule apply_mode_field)

text \<open>The sections of a form are nested consistently when an inner section lists only modes of the
  outer one.\<close>

definition nested_modes :: "doc \<Rightarrow> bool" where
  "nested_modes d \<longleftrightarrow>
     (\<forall>k \<in> set (mode_sections d). \<forall>i \<in> set (mode_sections d). descends d k i \<longrightarrow>
        set (attr_words ''data-mode'' (d ! i)) \<subseteq> set (attr_words ''data-mode'' (d ! k)))"

lemma nested_hidden:
  assumes "nested_modes d" and "descends d k i" and "i < length d" and "k < length d"
    and "has_attr ''data-mode'' (d ! k)" "has_attr ''data-mode'' (d ! i)"
    and "mode_hidden v (d ! k)"
  shows "mode_hidden v (d ! i)"
  using assms by (cases v) (auto simp: nested_modes_def mode_hidden_def mode_sections_def query_all_None)

lemma ancestors_chain:
  assumes "k \<in> set (ancestors d j)" and "find q (ancestors d j) = Some el" and "q k"
  shows "k = el \<or> descends d k el"
  using assms
proof (induction j rule: less_induct)
  case (less j)
  show ?case
  proof (cases d j rule: ancestors_cases)
    case root
    with less.prems show ?thesis by simp
  next
    case (child j0)
    with less show ?thesis by (auto simp: descends_def split: if_splits)
  qed
qed

text \<open>C37 (internal/web/static/app.js, applyMode): when sections are nested consistently, no field
  inside a section that is hidden after a mode change is enabled, so a stale value of another mode
  is never submitted with the form.\<close>

theorem apply_mode_no_stale_field:
  assumes "nested_modes d" and "mode_current d = Some m" and "j < length d" and "is_field (d ! j)"
    and "k \<in> set (ancestors d j)" and "has_attr ''data-mode'' (d ! k)"
    and "hidden (apply_mode d ! k)"
  shows "disabled (apply_mode d ! j)"
proof -
  let ?q = "\<lambda>i. has_attr ''data-mode'' (d ! i)"
  have k: "k < length d" using ancestors_less [OF assms(5)] by simp
  obtain el where el: "find ?q (ancestors d j) = Some el"
    using assms(5,6) by (cases "find ?q (ancestors d j)") (auto dest: find_NoneD)
  have el': "el < length d" "?q el"
    using find_SomeD [OF el] ancestors_less [of el d j] by auto
  have "mode_hidden (elem_value (d ! m)) (d ! k)"
    using assms(6,7) apply_mode_hidden [OF assms(2) k] by simp
  then have "mode_hidden (elem_value (d ! m)) (d ! el)"
    using ancestors_chain [OF assms(5) el assms(6)] nested_hidden [OF assms(1)] k el' assms(6) by blast
  then show ?thesis
    using apply_mode_field [OF assms(2-4) el] by simp
qed

definition example_elem :: "string \<Rightarrow> nat option \<Rightarrow> (string \<times> string) list \<Rightarrow> elem" where
  "example_elem t p as =
     \<lparr>tag = t, parent = p, attrs = as, classes = [], hidden = False, disabled = False,
      checked = False, indeterminate = False, elem_value = None, text_content = []\<rparr>"

text \<open>The shape of the CA import form: a section of two modes with a section of one of them inside.\<close>

definition example_form :: doc where
  "example_form =
     [example_elem ''form'' None [],
      (example_elem ''input'' (Some 0) [(''name'', ''mode'')])\<lparr>checked := True, elem_value := Some ''anchor''\<rparr>,
      example_elem ''fieldset'' (Some 0) [(''data-mode'', ''with-key anchor'')],
      example_elem ''div'' (Some 2) [(''data-mode'', ''with-key'')],
      (example_elem ''input'' (Some 3) [(''name'', ''days'')])\<lparr>elem_value := Some ''365''\<rparr>]"


theorem apply_mode_innermost_witness:
  "mode_current example_form = Some 1 \<and> disabled (apply_mode example_form ! 4) \<and>
   hidden (apply_mode example_form ! 3)"
proof -
  have m: "mode_current example_form = Some 1" by code_simp
  have j: "4 < length example_form" "is_field (example_form ! 4)" by code_simp+
  have el: "find (\<lambda>i. has_attr ''data-mode'' (example_form ! i)) (ancestors example_form 4) = Some 3"
    by code_simp
  have "mode_hidden (elem_value (example_form ! 1)) (example_form ! 3)" by code_simp
  with m apply_mode_innermost [OF m j el] show ?thesis by simp
qed

theorem apply_mode_no_stale_field_witness:
  "nested_modes example_form \<and> disabled (apply_mode example_form ! 4)"
proof -
  have n: "nested_modes example_form" by code_simp
  have m: "mode_current example_form = Some 1" by code_simp
  have j: "4 < length example_form" "is_field (example_form ! 4)" by code_simp+
  have k: "3 \<in> set (ancestors example_form 4)" "has_attr ''data-mode'' (example_form ! 3)"
    by code_simp+
  have h: "hidden (apply_mode example_form ! 3)" by code_simp
  from n apply_mode_no_stale_field [OF n m j k h] show ?thesis by simp
qed


section \<open>Sections shown by a control's value\<close>

lemma show_rule_core:
  "same_core d' d \<Longrightarrow> el < length d \<Longrightarrow> show_rule (d' ! el) = show_rule (d ! el)"
  by (simp add: show_rule_def get_attr_def same_core_length [symmetric] same_core_nth [of d' d])

lemma show_form_core: "same_core d' d \<Longrightarrow> show_form d' el = show_form d el"
  by (simp add: show_form_def same_core_closest_tag)

lemma show_current_core:
  assumes "same_core d' d" and "el < length d"
  shows "show_current d' el = show_current d el"
proof -
  have "query (\<lambda>e. named n e \<and> checked e) d' f = query (\<lambda>e. named n e \<and> checked e) d f" for n f
    using assms(1) by (intro same_core_query) (simp_all add: named_def get_attr_def same_core_nth)
  moreover have "query (\<lambda>e. tag e \<in> {''select'', ''input''} \<and> named n e) d' f
      = query (\<lambda>e. tag e \<in> {''select'', ''input''} \<and> named n e) d f" for n f
    using assms(1) by (intro same_core_query) (simp_all add: named_def get_attr_def same_core_nth)
  ultimately show ?thesis
    by (simp add: show_current_def show_rule_core [OF assms] show_form_core [OF assms(1)] Let_def
        del: insert_iff split: option.split)
qed

lemma show_visible_core:
  assumes "same_core d' d" and "el < length d"
  shows "show_visible d' el = show_visible d el"
proof -
  have "elem_value (d' ! i) = elem_value (d ! i)" if "show_current d el = Some i" for i
  proof -
    from that have "i < length d"
      by (auto simp: show_current_def Let_def dest!: query_SomeD split: option.splits)
    then show ?thesis
      using same_core_nth [OF assms(1)] same_core_length [OF assms(1)] by simp
  qed
  then show ?thesis
    using show_current_core [OF assms] show_rule_core [OF assms]
    by (simp add: show_visible_def split: option.split)
qed

interpretation show_rule: section_rule "\<lambda>d el. \<not> show_visible d el"
  by unfold_locales (simp add: show_visible_core)

lemma show_controls_core:
  assumes "same_core d' d" and "el < length d"
  shows "show_controls d' el = show_controls d el"
  using assms unfolding show_controls_def show_rule_core [OF assms] show_form_core [OF assms(1)]
  by (intro same_core_query) (simp_all add: named_def get_attr_def same_core_nth)

text \<open>Only the sections that follow the changed control are touched.\<close>

lemma on_change_show_fold:
  assumes "\<And>el. el \<in> set ss \<Longrightarrow> el < length d" and "same_core d' d"
  shows "fold (\<lambda>el d'. if t \<in> set (show_controls d' el) then show_apply el d' else d') ss d' =
         hide_fold (\<lambda>d' el. \<not> show_visible d' el) (filter (\<lambda>el. t \<in> set (show_controls d el)) ss) d'"
  using assms
proof (induction ss arbitrary: d')
  case Nil
  then show ?case by (simp add: hide_fold_def)
next
  case (Cons el ss)
  have c: "show_controls d' el = show_controls d el"
    using Cons.prems by (intro show_controls_core) auto
  have "same_core (show_apply el d') d"
    using Cons.prems(2) same_core_set_section same_core_trans unfolding show_apply_def by blast
  with Cons c show ?case
    by (simp add: hide_fold_def show_apply_def)
qed

lemma show_sections_bound: "el \<in> set (show_sections d) \<Longrightarrow> el < length d \<and> has_attr ''data-show-when'' (d ! el)"
  by (auto simp: show_sections_def query_all_def)

text \<open>(internal/web/static/app.js, the \<open>data-show-when\<close> listeners): after a change of control
  \<open>t\<close>, a section that follows \<open>t\<close> is hidden exactly when the current value of its control is not
  one of the wanted values, every other section is left as it was, and no field of the page changed
  its value or its checked state.\<close>

theorem on_change_show_visible:
  assumes "el \<in> set (show_sections d)"
  shows "hidden (on_change_show t d ! el) =
           (if t \<in> set (show_controls d el) then \<not> show_visible d el else hidden (d ! el))
       \<and> map core_elem (on_change_show t d) = map core_elem d"
proof -
  let ?ss = "filter (\<lambda>el. t \<in> set (show_controls d el)) (show_sections d)"
  have f: "on_change_show t d = hide_fold (\<lambda>d' el. \<not> show_visible d' el) ?ss d"
    unfolding on_change_show_def using show_sections_bound by (intro on_change_show_fold) auto
  have "hidden (hide_fold (\<lambda>d' el. \<not> show_visible d' el) ?ss d ! el)
      = (if el \<in> set ?ss then \<not> show_visible d el else hidden (d ! el))"
    using show_sections_bound assms by (intro show_rule.fold_hidden) auto
  then show ?thesis
    using assms hide_fold_core unfolding f by (simp add: same_core_def)
qed

definition example_secret_form :: doc where
  "example_secret_form =
     [example_elem ''form'' None [],
      (example_elem ''select'' (Some 0) [(''name'', ''type'')])\<lparr>elem_value := Some ''opaque''\<rparr>,
      example_elem ''div'' (Some 0) [(''data-show-when'', ''type=certificate'')],
      (example_elem ''input'' (Some 2) [(''name'', ''certificate'')])\<lparr>elem_value := Some ''7''\<rparr>]"

theorem on_change_show_visible_witness:
  "2 \<in> set (show_sections example_secret_form) \<and> hidden (on_change_show 1 example_secret_form ! 2)"
proof -
  have s: "2 \<in> set (show_sections example_secret_form)" by code_simp
  have "1 \<in> set (show_controls example_secret_form 2)" "\<not> show_visible example_secret_form 2"
    by code_simp+
  with s on_change_show_visible [OF s, of 1] show ?thesis by simp
qed


section \<open>Bulk selection\<close>

text \<open>The list page carries its markers on different elements.\<close>

definition bulk_page :: "doc \<Rightarrow> bool" where
  "bulk_page d \<longleftrightarrow>
     (\<forall>i \<in> set (row_boxes d). select_all d \<noteq> Some i) \<and>
     (select_all d \<noteq> None \<longrightarrow> bulk_bar d \<noteq> select_all d) \<and>
     (bulk_count d \<noteq> None \<longrightarrow> bulk_count d \<noteq> bulk_bar d \<and> bulk_count d \<noteq> select_all d)"

definition bulk_ok :: "doc \<Rightarrow> bool" where
  "bulk_ok d \<longleftrightarrow>
     (let n = checked_count d; total = length (row_boxes d) in
      (\<forall>c. bulk_count d = Some c \<longrightarrow> text_content (d ! c) = string_of_nat n) \<and>
      (\<forall>b. bulk_bar d = Some b \<longrightarrow> hidden (d ! b) = (n = 0)) \<and>
      (\<forall>sa. select_all d = Some sa \<longrightarrow>
         checked (d ! sa) = (0 < n \<and> n = total) \<and> indeterminate (d ! sa) = (0 < n \<and> n < total)))"

text \<open>The attributes, tags and structure of a page, which no listener of the list page changes.\<close>

definition same_shape :: "doc \<Rightarrow> doc \<Rightarrow> bool" where
  "same_shape d d' \<longleftrightarrow> map attrs d = map attrs d'"

lemma same_shape_has_attr:
  assumes "same_shape d d'" and "i < length d"
  shows "has_attr a (d ! i) = has_attr a (d' ! i)"
  using assms nth_map [of i d attrs] nth_map [of i d' attrs] length_map [of attrs d] length_map [of attrs d']
  by (simp add: same_shape_def has_attr_def get_attr_def)

lemma same_shape_length: "same_shape d d' \<Longrightarrow> length d = length d'"
  by (metis same_shape_def length_map)

lemma same_shape_query:
  assumes "same_shape d d'"
  shows "query (has_attr a) d None = query (has_attr a) d' None"
    and "query_all (has_attr a) d None = query_all (has_attr a) d' None"
  unfolding query_def query_all_def in_scope_def same_shape_length [OF assms, symmetric]
  using same_shape_has_attr [OF assms] by (auto intro!: find_cong filter_cong)

lemma same_shape_markers:
  assumes "same_shape d d'"
  shows "select_all d = select_all d'" "row_boxes d = row_boxes d'" "bulk_bar d = bulk_bar d'"
    "bulk_count d = bulk_count d'"
  by (simp_all add: select_all_def row_boxes_def bulk_bar_def bulk_count_def
      same_shape_query [OF assms])

lemma same_shape_set_opt: "(\<And>e. attrs (f e) = attrs e) \<Longrightarrow> same_shape (set_opt r f d) d"
  by (auto simp: same_shape_def set_opt_def intro!: nth_equalityI split: option.split)

lemma nth_set_opt:
  "i < length d \<Longrightarrow> set_opt r f d ! i = (if r = Some i then f (d ! i) else d ! i)"
  by (auto simp: set_opt_def split: option.split)

lemma length_set_opt [simp]: "length (set_opt r f d) = length d"
  by (simp add: set_opt_def split: option.split)

lemma refresh_bulk_shape: "same_shape (refresh_bulk d) d"
  unfolding refresh_bulk_def Let_def same_shape_def
  using same_shape_set_opt by (simp add: same_shape_def)

lemma length_refresh_bulk [simp]: "length (refresh_bulk d) = length d"
  by (simp add: refresh_bulk_def Let_def)

lemma row_boxes_bound: "i \<in> set (row_boxes d) \<Longrightarrow> i < length d"
  by (simp add: row_boxes_def query_all_def)

lemma refresh_bulk_boxes:
  assumes "bulk_page d" and "i \<in> set (row_boxes d)"
  shows "checked (refresh_bulk d ! i) = checked (d ! i)"
  using assms row_boxes_bound [OF assms(2)]
  by (auto simp: refresh_bulk_def Let_def nth_set_opt bulk_page_def)

lemma refresh_bulk_ok:
  assumes "bulk_page d"
  shows "bulk_ok (refresh_bulk d)"
proof -
  note m = same_shape_markers [OF refresh_bulk_shape]
  have n: "checked_count (refresh_bulk d) = checked_count d"
    unfolding checked_count_def m using refresh_bulk_boxes [OF assms]
    by (auto intro!: arg_cong [where f = length] filter_cong)
  have b: "i < length d" if "query p d None = Some i" for p i
    using query_SomeD [OF that] by simp
  show ?thesis
    unfolding bulk_ok_def Let_def m n
    using assms b
    by (auto simp: refresh_bulk_def Let_def nth_set_opt bulk_page_def bulk_count_def bulk_bar_def
        select_all_def)
qed


lemma bulk_page_shape: "same_shape d d' \<Longrightarrow> bulk_page d \<Longrightarrow> bulk_page d'"
  by (simp add: bulk_page_def same_shape_markers)

lemma same_core_shape: "same_core d d' \<Longrightarrow> same_shape d d'"
  unfolding same_shape_def
  by (rule nth_equalityI) (simp_all add: same_core_nth same_core_length)

lemma on_change_show_core: "same_core (on_change_show t d) d"
  unfolding on_change_show_def
  by (subst on_change_show_fold) (auto dest: show_sections_bound)

lemma apply_mode_core: "same_core (apply_mode d) d"
  using apply_mode_fold [of d] by (cases "mode_current d") (auto simp: apply_mode_def)

lemma apply_kind_core: "same_core (apply_kind d) d"
  by (auto simp: apply_kind_def Let_def same_core_def core_elem_def intro!: nth_equalityI
      split: option.split)

text \<open>The listeners of the conditional sections, run before those of the bulk selection.\<close>

definition change_sections :: "nat \<Rightarrow> doc \<Rightarrow> doc" where
  "change_sections t d =
     (let d1 = on_change_show t d;
          d2 = (if t \<in> set (mode_inputs d1) then apply_mode d1 else d1)
      in if t \<in> set (kind_inputs d2) then apply_kind d2 else d2)"

lemma change_sections_core: "same_core (change_sections t d) d"
proof -
  let ?d1 = "on_change_show t d"
  let ?d2 = "if t \<in> set (mode_inputs ?d1) then apply_mode ?d1 else ?d1"
  have "same_core ?d2 ?d1" by (simp add: apply_mode_core)
  moreover have "same_core (change_sections t d) ?d2"
    unfolding change_sections_def Let_def by (cases "t \<in> set (kind_inputs ?d2)") (simp_all only: apply_kind_core same_core_refl if_True if_False)
  ultimately show ?thesis
    using on_change_show_core same_core_trans by blast
qed

lemma on_change_unfold:
  "on_change t d =
     (let d3 = change_sections t d;
          d4 = (if select_all d3 = Some t then on_change_select_all t d3 else d3)
      in if t \<in> set (row_boxes d4) then refresh_bulk d4 else d4)"
  by (simp add: on_change_def change_sections_def Let_def)

lemma on_change_select_all_boxes:
  assumes "bulk_page d"
  shows "bulk_ok (on_change_select_all sa d)
       \<and> (\<forall>i \<in> set (row_boxes d). checked (on_change_select_all sa d ! i) = checked (d ! sa))"
proof -
  let ?d1 = "set_all (\<lambda>i. has_attr ''data-row-select'' (d ! i)) (\<lambda>e. e\<lparr>checked := checked (d ! sa)\<rparr>) d"
  have shape: "same_shape ?d1 d"
    by (auto simp: same_shape_def intro!: nth_equalityI)
  have page: "bulk_page ?d1"
    using assms bulk_page_shape [of d] shape by (simp add: same_shape_def)
  have "checked (refresh_bulk ?d1 ! i) = checked (d ! sa)" if "i \<in> set (row_boxes d)" for i
  proof -
    have "i \<in> set (row_boxes ?d1)" using that same_shape_markers [OF shape] by simp
    moreover from that have "i < length d" "has_attr ''data-row-select'' (d ! i)"
      by (auto simp: row_boxes_def query_all_def)
    ultimately show ?thesis using refresh_bulk_boxes [OF page] by simp
  qed
  then show ?thesis
    using refresh_bulk_ok [OF page] by (simp add: on_change_select_all_def)
qed

text \<open>C39 (internal/web/static/app.js, refreshBulk and its listeners): on a page whose bulk markers are on
  different elements (\<open>bulk_page\<close>), after the user changes a row's checkbox or the select-all checkbox, the counter shows the number of selected rows, the bulk bar is
  hidden exactly when none is selected, the select-all checkbox is checked exactly when all of them
  are and indeterminate exactly when some but not all are; a change of select-all gives every row its
  state, and a change of one row leaves the others alone.\<close>

theorem on_change_bulk:
  assumes "bulk_page d" and "t \<in> set (row_boxes d) \<or> select_all d = Some t" and "i \<in> set (row_boxes d)"
  shows "bulk_ok (on_change t d) \<and>
         checked (on_change t d ! i) = checked (d ! (if select_all d = Some t then t else i))"
proof -
  let ?d3 = "change_sections t d"
  note core = change_sections_core [of t d]
  note m = same_shape_markers [OF same_core_shape [OF core]]
  have page: "bulk_page ?d3"
    using assms(1) bulk_page_shape [OF same_core_shape [OF same_core_sym [OF core]]] by simp
  have i: "i < length ?d3" "i \<in> set (row_boxes ?d3)"
    using assms(3) m row_boxes_bound same_core_length [OF core] by auto
  have nth: "checked (?d3 ! k) = checked (d ! k)" if "k < length ?d3" for k
    using same_core_nth [OF core that] by simp
  show ?thesis
  proof (cases "select_all d = Some t")
    case True
    then have t: "t < length ?d3" "t \<notin> set (row_boxes d)"
      using assms(1) query_SomeD same_core_length [OF core] by (auto simp: bulk_page_def select_all_def)
    have "same_shape (on_change_select_all t ?d3) ?d3"
      using refresh_bulk_shape
      by (auto simp: on_change_select_all_def same_shape_def intro!: nth_equalityI)
    then have "row_boxes (on_change_select_all t ?d3) = row_boxes d"
      using same_shape_markers m by metis
    with True t have "on_change t d = on_change_select_all t ?d3"
      by (simp add: on_change_unfold m Let_def)
    then show ?thesis
      using True on_change_select_all_boxes [OF page, of t] i nth t by simp
  next
    case False
    with assms(2) have "on_change t d = refresh_bulk ?d3"
      by (simp add: on_change_unfold m Let_def)
    then show ?thesis
      using False refresh_bulk_ok [OF page] refresh_bulk_boxes [OF page i(2)] nth [OF i(1)] by simp
  qed
qed

definition example_list :: doc where
  "example_list =
     [example_elem ''form'' None [],
      (example_elem ''input'' (Some 0) [(''data-select-all'', [])])\<lparr>checked := True\<rparr>,
      example_elem ''input'' (Some 0) [(''data-row-select'', [])],
      example_elem ''input'' (Some 0) [(''data-row-select'', [])],
      example_elem ''div'' (Some 0) [(''data-bulk-bar'', [])],
      example_elem ''span'' (Some 4) [(''data-bulk-count'', [])]]"

theorem on_change_bulk_witness:
  "bulk_page example_list \<and> checked (on_change 1 example_list ! 3)"
proof -
  have p: "bulk_page example_list" by code_simp
  have t: "1 \<in> set (row_boxes example_list) \<or> select_all example_list = Some 1" by code_simp
  have i: "3 \<in> set (row_boxes example_list)" by code_simp
  have "select_all example_list = Some 1" "checked (example_list ! 1)" by code_simp+
  with p on_change_bulk [OF p t i] show ?thesis by simp
qed


section \<open>Confirmations and copy buttons\<close>

lemma closest_SomeD: "closest p d t = Some i \<Longrightarrow> i < length d \<and> p (d ! i)"
proof -
  assume a: "closest p d t = Some i"
  then have t: "t < length d" by (simp add: closest_def split: if_splits)
  with a have "i \<in> set (t # ancestors d t)" "p (d ! i)"
    using find_SomeD [of "\<lambda>j. p (d ! j)" "t # ancestors d t" i] by (auto simp: closest_def)
  with t show ?thesis using ancestors_less [of i d t] by auto
qed

text \<open>What the copy buttons keep of a page: everything but labels.\<close>

definition unlabelled :: "elem \<Rightarrow> elem" where
  "unlabelled e = e\<lparr>text_content := []\<rparr>"

lemma copy_done_unlabelled: "map unlabelled (doc (copy_done btn p)) = map unlabelled (doc p)"
  by (auto simp: copy_done_def unlabelled_def intro!: nth_equalityI)

text \<open>The fallback gives back the page it got, with the label changed unless the call threw.\<close>

lemma copy_fallback_eq:
  assumes "btn < length (doc p)"
  shows "copy_fallback b btn s p =
           (case exec_result b of
              ExecThrows \<Rightarrow> p
            | ExecReturns ok \<Rightarrow> copy_done btn (if ok then p\<lparr>clipboard := Some s\<rparr> else p))"
  using assms
  by (auto simp: copy_fallback_def Let_def copy_done_def set_at_def list_update_append nth_append
      split: exec_copy.split)

text \<open>What the button copies.\<close>

definition copy_source :: "browser \<Rightarrow> doc \<Rightarrow> nat \<Rightarrow> nat option" where
  "copy_source b d btn = query (selector b (the (get_attr (d ! btn) ''data-copy''))) d None"

definition copy_text :: "elem \<Rightarrow> string" where
  "copy_text e = (case elem_value e of Some v \<Rightarrow> v | None \<Rightarrow> text_content e)"

definition copies :: "browser \<Rightarrow> bool" where
  "copies b \<longleftrightarrow> (clipboard_api b \<and> write_ok b) \<or> exec_result b = ExecReturns True"

lemma on_click_copy_effect:
  assumes "closest (has_attr ''data-copy'') (doc p) t = Some btn"
    and "copy_source b (doc p) btn = Some el" and "copies b"
  shows "on_click_copy b t p = (copy_done btn (p\<lparr>clipboard := Some (copy_text (doc p ! el))\<rparr>), True)"
  using assms closest_SomeD [OF assms(1)]
  by (auto simp: on_click_copy_def copy_source_def copy_text_def copies_def copy_fallback_eq Let_def
      split: option.splits)

lemma set_at_twice: "set_at i f (set_at i g d) = set_at i (\<lambda>e. f (g e)) d"
  by (auto simp: set_at_def)

lemma set_at_same: "(i < length d \<Longrightarrow> f (d ! i) = d ! i) \<Longrightarrow> set_at i f d = d"
  by (simp add: set_at_def)

text \<open>(internal/web/static/app.js, the copy listener and its \<open>done\<close> callback): a click on a copy
  button whose target exists, in a browser that can copy, puts the target's text on the clipboard,
  prevents the default action and changes only the button's label; when the label's timer fires and no
  other copy is pending, the page is the one before the click.\<close>

theorem copy_then_timer_restores:
  assumes "closest (has_attr ''data-copy'') (doc p) t = Some btn"
    and "copy_source b (doc p) btn = Some el" and "copies b" and "timers p = []"
  shows "clipboard (fst (on_click_copy b t p)) = Some (copy_text (doc p ! el))
       \<and> snd (on_click_copy b t p)
       \<and> map unlabelled (doc (fst (on_click_copy b t p))) = map unlabelled (doc p)
       \<and> doc (on_timer (fst (on_click_copy b t p))) = doc p
       \<and> timers (on_timer (fst (on_click_copy b t p))) = []"
proof -
  let ?p1 = "p\<lparr>clipboard := Some (copy_text (doc p ! el))\<rparr>"
  have e: "on_click_copy b t p = (copy_done btn ?p1, True)"
    by (rule on_click_copy_effect [OF assms(1-3)])
  have "map unlabelled (doc (copy_done btn ?p1)) = map unlabelled (doc ?p1)"
    by (rule copy_done_unlabelled)
  moreover have "doc (on_timer (copy_done btn ?p1)) = doc p"
    using assms(4) by (simp add: on_timer_def copy_done_def set_at_twice set_at_same)
  ultimately show ?thesis
    using assms(4) unfolding e by (simp add: copy_done_def on_timer_def)
qed


text \<open>Updates that keep the structure, the tags and one attribute keep the outcome of \<open>closest\<close>
  on them.\<close>

definition keeps :: "string \<Rightarrow> doc \<Rightarrow> doc \<Rightarrow> bool" where
  "keeps a d d' \<longleftrightarrow>
     map (\<lambda>e. (tag e, parent e, get_attr e a)) d = map (\<lambda>e. (tag e, parent e, get_attr e a)) d'"

lemma keeps_length: "keeps a d d' \<Longrightarrow> length d = length d'"
  unfolding keeps_def by (rule map_eq_imp_length_eq)

lemma keeps_nth:
  assumes "keeps a d d'" and "i < length d"
  shows "tag (d ! i) = tag (d' ! i) \<and> parent (d ! i) = parent (d' ! i)
       \<and> get_attr (d ! i) a = get_attr (d' ! i) a"
proof -
  let ?g = "\<lambda>e. (tag e, parent e, get_attr e a)"
  have "map ?g d ! i = map ?g d' ! i" using assms(1) by (simp only: keeps_def)
  then show ?thesis using assms(2) keeps_length [OF assms(1)] by simp
qed

lemma keeps_trans: "keeps a d d' \<Longrightarrow> keeps a d' d'' \<Longrightarrow> keeps a d d''"
  by (simp add: keeps_def)

lemma keeps_set_at:
  "(\<And>e. tag (f e) = tag e \<and> parent (f e) = parent e \<and> get_attr (f e) a = get_attr e a) \<Longrightarrow>
     keeps a (set_at i f d) d"
  unfolding keeps_def by (rule nth_equalityI) simp_all

lemma keeps_ancestors: "keeps a d d' \<Longrightarrow> ancestors d i = ancestors d' i"
proof (induction i rule: less_induct)
  case (less i)
  show ?case
  proof (cases "i < length d")
    case True
    then have "parent (d ! i) = parent (d' ! i)" "i < length d'"
      using keeps_nth [OF less.prems True] keeps_length [OF less.prems] by auto
    with True less show ?thesis
      by (auto simp: ancestors.simps [of d i] ancestors.simps [of d' i] split: option.splits)
  next
    case False
    then show ?thesis
      using keeps_length [OF less.prems]
      by (simp add: ancestors.simps [of d i] ancestors.simps [of d' i])
  qed
qed

lemma keeps_closest:
  assumes "keeps a d d'"
    and "\<And>e e'. tag e = tag e' \<Longrightarrow> get_attr e a = get_attr e' a \<Longrightarrow> p e = p e'"
  shows "closest p d t = closest p d' t"
proof (cases "t < length d")
  case True
  have "p (d ! j) = p (d' ! j)" if "j \<in> set (t # ancestors d t)" for j
  proof -
    from that True have "j < length d" using ancestors_less [of j d t] by auto
    from keeps_nth [OF assms(1) this] show ?thesis by (intro assms(2)) simp_all
  qed
  then have "find (\<lambda>j. p (d ! j)) (t # ancestors d t) = find (\<lambda>j. p (d' ! j)) (t # ancestors d t)"
    by (intro find_cong refl)
  then show ?thesis
    using True keeps_length [OF assms(1)] keeps_ancestors [OF assms(1)] by (simp add: closest_def)
next
  case False
  then show ?thesis using keeps_length [OF assms(1)] by (simp add: closest_def)
qed

lemma keeps_nav_toggle:
  assumes "a \<noteq> ''aria-expanded''"
  shows "keeps a (on_nav_toggle t d) d"
proof (cases "closest (\<lambda>e. ''topbar'' \<in> set (classes e)) d t")
  case None
  then show ?thesis by (simp add: on_nav_toggle_def keeps_def)
next
  case (Some bar)
  have attr: "get_attr (set_attribute ''aria-expanded'' v e) a = get_attr e a" for v e
  proof -
    have "map_of (filter (\<lambda>kv. fst kv \<noteq> k) xs) a = map_of xs a" if "a \<noteq> k" for k and xs :: "(string \<times> string) list"
      using that by (induction xs) auto
    with assms show ?thesis by (auto simp: get_attr_def set_attribute_def)
  qed
  obtain e opened where tc: "toggle_class ''nav-open'' (d ! bar) = (e, opened)"
    by (cases "toggle_class ''nav-open'' (d ! bar)") auto
  then have e: "tag e = tag (d ! bar)" "parent e = parent (d ! bar)" "get_attr e a = get_attr (d ! bar) a"
    by (auto simp: toggle_class_def get_attr_def split: if_splits)
  have "keeps a (d[bar := e]) d"
  proof -
    let ?g = "\<lambda>e. (tag e, parent e, get_attr e a)"
    have "map ?g (d[bar := e]) = (map ?g d)[bar := ?g (d ! bar)]"
      using e by (simp add: map_update)
    also have "\<dots> = map ?g d"
      by (cases "bar < length d") (simp_all add: list_update_same_conv list_update_beyond)
    finally show ?thesis by (simp only: keeps_def)
  qed
  moreover have "keeps a (set_at t (set_attribute ''aria-expanded'' v) (d[bar := e])) (d[bar := e])" for v
    using attr by (intro keeps_set_at) (simp add: set_attribute_def)
  ultimately have "keeps a (set_at t (set_attribute ''aria-expanded'' v) (d[bar := e])) d" for v
    using keeps_trans by blast
  then show ?thesis
    using Some tc by (simp add: on_nav_toggle_def Let_def)
qed

lemma keeps_copy_done: "keeps a (doc (copy_done btn p)) (doc p)"
  unfolding copy_done_def by (simp add: keeps_set_at get_attr_def)

lemma keeps_click_copy: "keeps a (doc (fst (on_click_copy b t p))) (doc p)"
proof (cases "closest (has_attr ''data-copy'') (doc p) t")
  case None
  then show ?thesis by (simp add: on_click_copy_def keeps_def)
next
  case (Some btn)
  then have "keeps a (doc (copy_fallback b btn s p)) (doc p)" for s
    using closest_SomeD [OF Some] copy_fallback_eq [of btn p b s]
      keeps_copy_done [of a btn p] keeps_copy_done [of a btn "p\<lparr>clipboard := Some s\<rparr>"]
    by (cases "exec_result b") (simp_all add: keeps_def)
  moreover have "keeps a (doc (copy_done btn (p\<lparr>clipboard := Some s\<rparr>))) (doc p)" for s
    using keeps_copy_done [of a btn "p\<lparr>clipboard := Some s\<rparr>"] by simp
  ultimately show ?thesis
    using Some by (auto simp: on_click_copy_def Let_def keeps_def split: option.split)
qed

text \<open>C40 (internal/web/static/app.js, the confirmation listeners): when the user declines every
  prompt, a click on or inside a link with \<open>data-confirm\<close> is cancelled, and so is a click on a bulk
  button and the submission of a form with a message, whatever else the click triggers.\<close>

theorem declined_is_prevented:
  assumes "\<And>m. \<not> confirm_answer b m"
  shows "(closest (\<lambda>e. tag e = ''a'' \<and> has_attr ''data-confirm'' e) (doc p) t \<noteq> None \<longrightarrow>
            snd (on_click b t p)) \<and>
         (closest (has_attr ''data-confirm-bulk'') (doc p) t \<noteq> None \<longrightarrow> snd (on_click b t p)) \<and>
         on_submit b (doc p) f = (get_attr (doc p ! f) ''data-confirm'' \<notin> {None, Some []})"
proof -
  let ?d1 = "case nav_toggle (doc p) of None \<Rightarrow> doc p
             | Some n \<Rightarrow> if n = t \<or> descends (doc p) n t then on_nav_toggle n (doc p) else doc p"
  let ?p1 = "p\<lparr>doc := ?d1\<rparr>"
  have k: "keeps a ?d1 (doc p)" if "a \<noteq> ''aria-expanded''" for a
    using keeps_nav_toggle [OF that] by (simp add: keeps_def split: option.split)
  have k2: "keeps a (doc (fst (on_click_copy b t ?p1))) (doc p)" if "a \<noteq> ''aria-expanded''" for a
    using keeps_trans [OF keeps_click_copy [of a b t ?p1]] k [OF that] by simp
  have snd_eq: "snd (on_click b t p) \<longleftrightarrow> bulk_prevented b ?d1 t \<or> snd (on_click_copy b t ?p1)
      \<or> on_click_link b (doc (fst (on_click_copy b t ?p1))) t"
    by (simp add: on_click_def Let_def split: prod.split)
  have link: "closest (\<lambda>e. tag e = ''a'' \<and> has_attr ''data-confirm'' e) (doc (fst (on_click_copy b t ?p1))) t
      = closest (\<lambda>e. tag e = ''a'' \<and> has_attr ''data-confirm'' e) (doc p) t"
    by (rule keeps_closest [OF k2 [of "''data-confirm''"]]) (simp_all add: has_attr_def)
  have bulk: "closest (has_attr ''data-confirm-bulk'') ?d1 t = closest (has_attr ''data-confirm-bulk'') (doc p) t"
    by (rule keeps_closest [OF k [of "''data-confirm-bulk''"]]) (simp_all add: has_attr_def)
  have "bulk_prevented b d t" if "closest (has_attr ''data-confirm-bulk'') d t \<noteq> None" for d
  proof -
    from that obtain i where i: "closest (has_attr ''data-confirm-bulk'') d t = Some i" by auto
    then have "i \<in> set (t # ancestors d t)"
      using find_SomeD [of "\<lambda>j. has_attr ''data-confirm-bulk'' (d ! j)" "t # ancestors d t" i]
      by (simp add: closest_def split: if_splits)
    with i assms closest_SomeD [OF i] show ?thesis
      by (auto simp: bulk_prevented_def on_click_bulk_def)
  qed
  then show ?thesis
    unfolding snd_eq using link bulk assms
    by (auto simp: on_click_link_def on_submit_def split: option.splits)
qed


definition example_browser :: browser where
  "example_browser =
     \<lparr>confirm_answer = (\<lambda>_. False), clipboard_api = True, write_ok = True,
      exec_result = ExecReturns True,
      selector = (\<lambda>sel e. case sel of [] \<Rightarrow> False
                   | c # x \<Rightarrow> c = CHR ''#'' \<and> get_attr e ''id'' = Some x)\<rparr>"

definition example_page :: page where
  "example_page =
     \<lparr>doc =
        [example_elem ''body'' None [],
         (example_elem ''pre'' (Some 0) [(''id'', ''ca-pem'')])\<lparr>text_content := ''PEM''\<rparr>,
         (example_elem ''button'' (Some 0) [(''data-copy'', ''#ca-pem'')])\<lparr>text_content := ''copy''\<rparr>,
         example_elem ''a'' (Some 0) [(''data-confirm'', ''Download?'')]],
      focus = None, clipboard = None, timers = []\<rparr>"

theorem copy_then_timer_restores_witness:
  "clipboard (fst (on_click_copy example_browser 2 example_page)) = Some ''PEM'' \<and>
   doc (on_timer (fst (on_click_copy example_browser 2 example_page))) = doc example_page"
proof -
  have c: "closest (has_attr ''data-copy'') (doc example_page) 2 = Some 2" by code_simp
  have s: "copy_source example_browser (doc example_page) 2 = Some 1" by code_simp
  have b: "copies example_browser" by code_simp
  have t: "timers example_page = []" by code_simp
  have "copy_text (doc example_page ! 1) = ''PEM''" by code_simp
  with copy_then_timer_restores [OF c s b t] show ?thesis by simp
qed

theorem declined_is_prevented_witness:
  "snd (on_click example_browser 3 example_page) \<and> \<not> on_submit example_browser (doc example_page) 0"
proof -
  have d: "\<And>m. \<not> confirm_answer example_browser m" by (simp add: example_browser_def)
  have l: "closest (\<lambda>e. tag e = ''a'' \<and> has_attr ''data-confirm'' e) (doc example_page) 3 \<noteq> None"
    by code_simp
  have "get_attr (doc example_page ! 0) ''data-confirm'' = None" by code_simp
  with l declined_is_prevented [OF d, of example_page 3 0] show ?thesis by simp
qed

text \<open>(internal/web/static/app.js, the \<open>done\<close> callback): a second click on a copy button before
  the label of the first was restored saves the temporary label as the old one, so once both timers
  have fired the button still reads \<open>copied\<close>.\<close>

theorem copy_twice_keeps_label:
  assumes "closest (has_attr ''data-copy'') (doc p) t = Some btn"
    and "copy_source b (doc p) btn = Some el" and "copies b" and "timers p = []"
    and "\<And>sel e l. selector b sel (e\<lparr>text_content := l\<rparr>) = selector b sel e"
  shows "text_content (doc (on_timer (on_timer
           (fst (on_click_copy b t (fst (on_click_copy b t p)))))) ! btn) = ''copied''"
proof -
  let ?p1 = "copy_done btn (p\<lparr>clipboard := Some (copy_text (doc p ! el))\<rparr>)"
  have first: "fst (on_click_copy b t p) = ?p1"
    using on_click_copy_effect [OF assms(1-3)] by simp
  have btn: "btn < length (doc p)" using closest_SomeD [OF assms(1)] by simp
  have k: "keeps ''data-copy'' (doc ?p1) (doc p)"
    using keeps_copy_done [of _ btn "p\<lparr>clipboard := Some (copy_text (doc p ! el))\<rparr>"] by simp
  have c: "closest (has_attr ''data-copy'') (doc ?p1) t = Some btn"
    using keeps_closest [OF k, of "has_attr ''data-copy''"] assms(1) by (simp add: has_attr_def [abs_def])
  have "query (selector b sel) (doc ?p1) None = query (selector b sel) (doc p) None" for sel
    unfolding query_def in_scope_def copy_done_def using assms(5) by (auto intro!: find_cong split: if_splits)
  moreover have "get_attr (doc ?p1 ! btn) ''data-copy'' = get_attr (doc p ! btn) ''data-copy''"
    using keeps_nth [OF k, of btn] btn keeps_length [OF k] by simp
  ultimately have s: "copy_source b (doc ?p1) btn = Some el"
    using assms(2) by (simp add: copy_source_def)
  show ?thesis
    using on_click_copy_effect [OF c s assms(3)] assms(4) btn unfolding first
    by (simp add: copy_done_def on_timer_def set_at_twice)
qed

theorem copy_twice_keeps_label_witness:
  "text_content (doc example_page ! 2) = ''copy'' \<and>
   text_content (doc (on_timer (on_timer
     (fst (on_click_copy example_browser 2 (fst (on_click_copy example_browser 2 example_page)))))) ! 2)
   = ''copied''"
proof -
  have c: "closest (has_attr ''data-copy'') (doc example_page) 2 = Some 2" by code_simp
  have s: "copy_source example_browser (doc example_page) 2 = Some 1" by code_simp
  have b: "copies example_browser" by code_simp
  have t: "timers example_page = []" by code_simp
  have l: "\<And>sel e l. selector example_browser sel (e\<lparr>text_content := l\<rparr>) = selector example_browser sel e"
    by (simp add: example_browser_def get_attr_def split: list.split)
  have "text_content (doc example_page ! 2) = ''copy''" by code_simp
  with copy_twice_keeps_label [OF c s b t l] show ?thesis by simp
qed

end
