(* ===== verification/Api_Docs.thy ===== *)
theory Api_Docs
  imports Prelude
begin

text \<open>
  \<open>src/internal/web/static/api-docs-init.js\<close>: the script of the API documentation page. It hands one configuration to
  the vendored Swagger UI, which is a parameter: its constructor, the preset and the plugin it brings, and the
  stand-alone preset of the second bundle.
\<close>

record ('preset, 'plugin) swagger_config =
  sw_url :: string
  sw_dom_id :: string
  sw_presets :: "'preset list"
  sw_plugins :: "'plugin list"
  sw_layout :: string
  sw_doc_expansion :: string
  sw_models_expand_depth :: int
  sw_validator_url :: "string option"
  sw_persist_authorization :: bool

record ('preset, 'plugin, 'ui) swagger_bundle =
  bundle_new :: "('preset, 'plugin) swagger_config \<Rightarrow> 'ui"
  bundle_apis :: 'preset
  bundle_download_url :: 'plugin

record 'ui window =
  window_ui :: "'ui option"

definition api_docs_config :: "('p, 'g, 'u) swagger_bundle \<Rightarrow> 'p \<Rightarrow> ('p, 'g) swagger_config" where
  "api_docs_config B standalone =
     \<lparr>sw_url = ''/settings/api-docs/openapi.yaml'', sw_dom_id = ''#swagger-ui'',
      sw_presets = [bundle_apis B, standalone], sw_plugins = [bundle_download_url B],
      sw_layout = ''StandaloneLayout'', sw_doc_expansion = ''list'', sw_models_expand_depth = -1,
      sw_validator_url = None, sw_persist_authorization = True\<rparr>"

definition api_docs_init :: "('p, 'g, 'u) swagger_bundle \<Rightarrow> 'p \<Rightarrow> 'u window \<Rightarrow> 'u window" where
  "api_docs_init B standalone w = w\<lparr>window_ui := Some (bundle_new B (api_docs_config B standalone))\<rparr>"

text \<open>How a browser resolves a reference: it stays on the page's origin when it has no scheme and no authority, that is
  when it is a path that does not start with two slashes (or a backslash, which browsers read as a slash).\<close>

fun same_origin_path :: "string \<Rightarrow> bool" where
  "same_origin_path (c # d # _) \<longleftrightarrow> c = CHR ''/'' \<and> d \<noteq> CHR ''/'' \<and> d \<noteq> CHR 0x5C"
| "same_origin_path u \<longleftrightarrow> u = ''/''"

text \<open>The page asks no other origin for anything: the document is a path of its own origin, and no validator is
  configured.\<close>

lemma api_docs_same_origin:
  "same_origin_path (sw_url (api_docs_config B standalone)) \<and> sw_validator_url (api_docs_config B standalone) = None"
  by (simp add: api_docs_config_def)

lemma api_docs_init_ui: "window_ui (api_docs_init B standalone w) = Some (bundle_new B (api_docs_config B standalone))"
  by (simp add: api_docs_init_def)

end
