(* ===== verification/Go_Path.thy ===== *)
theory Go_Path
  imports Prelude
begin

text \<open>
  \<open>path.Match\<close> of the Go standard library, which decides whether a host name is in the scope of
  a credential, on strings of one-byte characters: \<open>scanChunk\<close> cuts a pattern at its stars,
  \<open>matchChunk\<close> matches the part between two stars at one position, and the loop of \<open>Match\<close>
  places every chunk at the first position that fits.

  The reference definition is \<open>glob\<close>: a name is in the language of a pattern when it can be cut
  into words the chunks accept, with any text in place of a star. On a name without a slash the
  search of \<open>Match\<close> decides exactly this (\<open>path_Match_glob_aux\<close>), and whether a pattern is
  malformed does not depend on the name (\<open>path_Match_error\<close>).
\<close>


section \<open>The library function\<close>

definition getEsc :: "string \<Rightarrow> (char \<times> string) option" where
  "getEsc c =
     (case c of
        [] \<Rightarrow> None
      | x # c1 \<Rightarrow>
          if x = CHR ''-'' \<or> x = CHR '']'' then None
          else if x = CHR 0x5C
          then (case c1 of [] \<Rightarrow> None | [y] \<Rightarrow> None | y # z # c2 \<Rightarrow> Some (y, z # c2))
          else (case c1 of [] \<Rightarrow> None | z # c2 \<Rightarrow> Some (x, z # c2)))"

lemma getEsc_shorter: "getEsc c = Some (r, c') \<Longrightarrow> length c' < length c \<and> c' \<noteq> []"
  by (auto simp: getEsc_def split: list.splits if_splits)

text \<open>The loop over the ranges of a character class; \<open>n\<close> is \<open>nrange\<close> and \<open>m\<close> is
  \<open>match\<close>.\<close>

function match_class :: "char \<Rightarrow> nat \<Rightarrow> bool \<Rightarrow> string \<Rightarrow> (bool \<times> string) option" where
  "match_class r n m c =
     (if c \<noteq> [] \<and> hd c = CHR '']'' \<and> 0 < n then Some (m, tl c)
      else (case getEsc c of
              None \<Rightarrow> None
            | Some (lo, c1) \<Rightarrow>
                if hd c1 = CHR ''-''
                then (case getEsc (tl c1) of
                        None \<Rightarrow> None
                      | Some (hi, c2) \<Rightarrow>
                          match_class r (Suc n) (m \<or> (of_char lo \<le> (of_char r :: nat) \<and> (of_char r :: nat) \<le> of_char hi)) c2)
                else match_class r (Suc n) (m \<or> r = lo) c1))"
  by pat_completeness auto
termination
  by (relation "measure (\<lambda>(r, n, m, c). length c)") (auto dest!: getEsc_shorter)

lemma match_class_shorter: "match_class r n m c = Some (b, c') \<Longrightarrow> length c' < length c"
proof (induction r n m c rule: match_class.induct)
  case (1 r n m c)
  show ?case
  proof (cases "c \<noteq> [] \<and> hd c = CHR '']'' \<and> 0 < n")
    case True
    with "1.prems" show ?thesis by (cases c) auto
  next
    case False
    from "1.prems" False obtain lo c1 where lo: "getEsc c = Some (lo, c1)"
      by (subst (asm) match_class.simps) (auto split: option.splits)
    show ?thesis
    proof (cases "hd c1 = CHR ''-''")
      case True
      from "1.prems" False lo True obtain hi c2 where hi: "getEsc (tl c1) = Some (hi, c2)"
        by (subst (asm) match_class.simps) (auto split: option.splits)
      have "length c' < length c2"
        using "1.IH"(1) [OF False lo refl True hi refl] "1.prems" False lo True hi
        by (subst (asm) (2) match_class.simps) simp
      with getEsc_shorter [OF lo] getEsc_shorter [OF hi] show ?thesis by (cases c1) auto
    next
      case NoRange: False
      have "length c' < length c1"
        using "1.IH"(2) [OF False lo refl NoRange] "1.prems" False lo NoRange
        by (subst (asm) (2) match_class.simps) simp
      with getEsc_shorter [OF lo] show ?thesis by simp
    qed
  qed
qed

declare match_class.simps [simp del]

definition negation :: "string \<Rightarrow> bool \<times> string" where
  "negation c = (if c \<noteq> [] \<and> hd c = CHR 0x5E then (True, tl c) else (False, c))"

definition match_lit :: "char \<Rightarrow> string option \<Rightarrow> string option" where
  "match_lit x cur = (case cur of Some (y # t) \<Rightarrow> if x = y then Some t else None | _ \<Rightarrow> None)"

definition peek :: "string option \<Rightarrow> char" where
  "peek cur = (case cur of Some (y # _) \<Rightarrow> y | _ \<Rightarrow> CHR 0x00)"

definition advance :: "string option \<Rightarrow> string option" where
  "advance cur = (case cur of Some (_ # t) \<Rightarrow> Some t | _ \<Rightarrow> None)"

definition match_any :: "string option \<Rightarrow> string option" where
  "match_any cur = (case cur of Some (y # t) \<Rightarrow> if y = CHR ''/'' then None else Some t | _ \<Rightarrow> None)"

lemma match_none [simp]: "advance None = None" "match_any None = None" "match_lit x None = None"
  by (simp_all add: advance_def match_any_def match_lit_def)

text \<open>The text still to be read is \<open>None\<close> once the match has failed: the rest of the chunk is
  then only checked for its syntax. The result is \<open>None\<close> for \<open>ErrBadPattern\<close>.\<close>

function matchChunk :: "string \<Rightarrow> string option \<Rightarrow> string option option" where
  "matchChunk [] cur = Some cur"
| "matchChunk (x # chunk) cur =
     (if x = CHR ''['' then
        (case match_class (peek cur) 0 False (snd (negation chunk)) of
           None \<Rightarrow> None
         | Some (m, rest) \<Rightarrow>
             matchChunk rest (if m = fst (negation chunk) then None else advance cur))
      else if x = CHR ''?'' then matchChunk chunk (match_any cur)
      else if x = CHR 0x5C then
        (case chunk of [] \<Rightarrow> None | y # chunk' \<Rightarrow> matchChunk chunk' (match_lit y cur))
      else matchChunk chunk (match_lit x cur))"
  by pat_completeness auto
termination
  by (relation "measure (\<lambda>(c, cur). length c)")
     (auto simp: negation_def dest!: match_class_shorter split: if_splits)

fun scan :: "bool \<Rightarrow> string \<Rightarrow> string \<times> string" where
  "scan inrange [] = ([], [])"
| "scan inrange (x # xs) =
     (if x = CHR 0x5C then
        (case xs of
           [] \<Rightarrow> ([x], [])
         | y # ys \<Rightarrow> (let (a, b) = scan inrange ys in (x # y # a, b)))
      else if x = CHR ''['' then (let (a, b) = scan True xs in (x # a, b))
      else if x = CHR '']'' then (let (a, b) = scan False xs in (x # a, b))
      else if x = CHR ''*'' \<and> \<not> inrange then ([], x # xs)
      else (let (a, b) = scan inrange xs in (x # a, b)))"

definition scanChunk :: "string \<Rightarrow> bool \<times> string \<times> string" where
  "scanChunk p =
     (p \<noteq> [] \<and> hd p = CHR ''*'', scan False (dropWhile (\<lambda>c. c = CHR ''*'') p))"

text \<open>The loop that skips one more byte of the name each time, up to a slash.\<close>

fun try_skip :: "string \<Rightarrow> bool \<Rightarrow> string \<Rightarrow> string option option" where
  "try_skip chunk fin [] = Some None"
| "try_skip chunk fin (x # xs) =
     (if x = CHR ''/'' then Some None
      else (case matchChunk chunk (Some xs) of
              None \<Rightarrow> None
            | Some None \<Rightarrow> try_skip chunk fin xs
            | Some (Some t) \<Rightarrow> if fin \<and> t \<noteq> [] then try_skip chunk fin xs else Some (Some t)))"

definition place :: "bool \<Rightarrow> string \<Rightarrow> bool \<Rightarrow> string \<Rightarrow> string option option" where
  "place star chunk fin name =
     (case matchChunk chunk (Some name) of
        None \<Rightarrow> None
      | Some r \<Rightarrow>
          (if (case r of None \<Rightarrow> False | Some t \<Rightarrow> t = [] \<or> \<not> fin) then Some r
           else if star then try_skip chunk fin name
           else Some None))"

lemma scan_append: "scan b p = (a, c) \<Longrightarrow> p = a @ c"
proof (induction b p arbitrary: a c rule: scan.induct)
  case (1 b)
  then show ?case by simp
next
  case (2 b x xs)
  then show ?case
    by (auto split: if_splits list.splits prod.splits)
qed

lemma scan_shorter:
  assumes "scan False p = (a, c)" and "p \<noteq> []" and "hd p \<noteq> CHR ''*''"
  shows "length c < length p"
proof -
  have "a \<noteq> []"
    using assms by (cases p) (auto split: if_splits list.splits prod.splits)
  with scan_append [OF assms(1)] show ?thesis by simp
qed

lemma scanChunk_shorter:
  assumes "scanChunk p = (star, chunk, rest)" and "p \<noteq> []"
  shows "length rest < length p"
proof (cases "hd p = CHR ''*''")
  case True
  let ?q = "dropWhile (\<lambda>c. c = CHR ''*'') p"
  have "length ?q < length p"
    using True assms(2) length_dropWhile_le [of "\<lambda>c. c = CHR ''*''" "tl p"]
    by (cases p) (auto simp: less_Suc_eq_le)
  moreover have "length rest \<le> length ?q"
    using assms(1) scan_append [of False ?q chunk rest] by (simp add: scanChunk_def)
  ultimately show ?thesis by simp
next
  case False
  with assms(2) have "dropWhile (\<lambda>c. c = CHR ''*'') p = p" by (cases p) auto
  with assms(1) have "scan False p = (chunk, rest)" by (simp add: scanChunk_def)
  from scan_shorter [OF this assms(2) False] show ?thesis .
qed

function check_rest :: "string \<Rightarrow> bool option" where
  "check_rest p =
     (if p = [] then Some False
      else (case scanChunk p of (star, chunk, rest) \<Rightarrow>
              (case matchChunk chunk (Some []) of None \<Rightarrow> None | Some _ \<Rightarrow> check_rest rest)))"
  by pat_completeness auto
termination
  by (relation "measure length") (auto dest: scanChunk_shorter [OF sym])

declare check_rest.simps [simp del]

function path_Match :: "string \<Rightarrow> string \<Rightarrow> bool option" where
  "path_Match p name =
     (if p = [] then Some (name = [])
      else (case scanChunk p of (star, chunk, rest) \<Rightarrow>
              if star \<and> chunk = [] then Some (CHR ''/'' \<notin> set name)
              else (case place star chunk (rest = []) name of
                      None \<Rightarrow> None
                    | Some (Some t) \<Rightarrow> path_Match rest t
                    | Some None \<Rightarrow> check_rest rest)))"
  by pat_completeness auto
termination
  by (relation "measure (\<lambda>(p, name). length p)") (auto dest: scanChunk_shorter [OF sym])

declare path_Match.simps [simp del]


section \<open>What a chunk accepts\<close>

lemma match_class_rest:
  "map_option snd (match_class r n m c) = map_option snd (match_class r' n m' c)"
proof (induction r n m c arbitrary: m' rule: match_class.induct)
  case (1 r n m c)
  show ?case
  proof (cases "c \<noteq> [] \<and> hd c = CHR '']'' \<and> 0 < n")
    case True
    then show ?thesis by (simp add: match_class.simps [of _ _ _ c])
  next
    case False
    note step = match_class.simps [of _ n _ c, unfolded if_not_P [OF False]]
    show ?thesis
    proof (cases "getEsc c")
      case None
      then show ?thesis by (simp add: step)
    next
      case (Some p)
      obtain lo c1 where p: "p = (lo, c1)" by (cases p)
      show ?thesis
        using "1.IH" [OF False Some p [symmetric]]
        by (auto simp: step Some p split: option.split)
    qed
  qed
qed

lemma match_class_None: "match_class r n m c = None \<longleftrightarrow> match_class r' n m' c = None"
  using match_class_rest [of r n m c r' m'] by (metis option.map_disc_iff)

lemma match_class_same_rest:
  "match_class r n m c = Some (b, c1) \<Longrightarrow> match_class r' n m' c = Some (b', c2) \<Longrightarrow> c1 = c2"
  using match_class_rest [of r n m c r' m'] by simp

lemma matchChunk_failed: "matchChunk c None = None \<or> matchChunk c None = Some None"
proof (induction c "None :: string option" rule: matchChunk.induct)
  case 1
  show ?case by simp
next
  case (2 x chunk)
  then show ?case
    by (auto simp: match_any_def match_lit_def split: option.splits list.splits prod.splits)
qed

text \<open>Whether a chunk is malformed does not depend on the text.\<close>

lemma matchChunk_error: "matchChunk c cur = None \<longleftrightarrow> matchChunk c None = None"
proof (induction c arbitrary: cur rule: length_induct)
  case (1 c)
  show ?case
  proof (cases c)
    case Nil
    then show ?thesis by simp
  next
    case (Cons x chunk)
    have IH: "matchChunk d u = None \<longleftrightarrow> matchChunk d None = None" if "length d \<le> length chunk" for d u
      using "1.IH" that Cons by (metis length_Cons less_Suc_eq_le)
    show ?thesis
    proof (cases "x = CHR ''[''")
      case True
      let ?mc = "\<lambda>r. match_class r 0 False (snd (negation chunk))"
      let ?r = "peek cur"
      show ?thesis
      proof (cases "?mc (CHR 0x00)")
        case None
        have "?mc r = None" for r
          using None match_class_None [of "CHR 0x00" 0 False _ r False] by blast
        with True Cons show ?thesis by simp
      next
        case (Some p0)
        obtain m0 rest where p0: "p0 = (m0, rest)" by (cases p0)
        have len: "length rest \<le> length chunk"
          using match_class_shorter [OF Some [unfolded p0]] by (auto simp: negation_def split: if_splits)
        have same: "\<exists>m. ?mc r = Some (m, rest)" for r
        proof -
          have "map_option snd (?mc r) = Some rest"
            unfolding match_class_rest [of r 0 False _ "CHR 0x00" False] Some p0 by simp
          then show ?thesis by auto
        qed
        obtain m where "?mc ?r = Some (m, rest)" using same by blast
        moreover obtain m' where "?mc (peek None) = Some (m', rest)" using same by blast
        ultimately show ?thesis using True Cons IH [OF len, of "advance cur"] by auto
      qed
    next
      case False
      note unfold = matchChunk.simps(2) [of _ chunk]
      show ?thesis
      proof (cases "x = CHR 0x5C")
        case True
        then show ?thesis
          using False IH [of "tl chunk" "match_lit (hd chunk) cur"]
          by (cases chunk) (simp_all add: Cons matchChunk.simps(2) [of "CHR 0x5C"] del: matchChunk.simps)
      next
        case Plain: False
        then show ?thesis
          using False IH [of chunk "match_any cur"] IH [of chunk "match_lit x cur"]
          by (simp add: Cons unfold del: matchChunk.simps)
      qed
    qed
  qed
qed

declare matchChunk.simps(2) [simp del]

definition accepts :: "string \<Rightarrow> string \<Rightarrow> bool" where
  "accepts c w \<longleftrightarrow> matchChunk c (Some w) = Some (Some [])"


lemma matchChunk_local:
  "matchChunk c (Some s) = Some (Some t) \<Longrightarrow>
     \<exists>w. s = w @ t \<and> (\<forall>t'. matchChunk c (Some (w @ t')) = Some (Some t'))"
proof (induction c arbitrary: s rule: length_induct)
  case (1 c)
  show ?case
  proof (cases c)
    case Nil
    with "1.prems" show ?thesis by simp
  next
    case (Cons x chunk)
    note unfold = matchChunk.simps(2) [of _ chunk]
    have failed: "matchChunk d None \<noteq> Some (Some t)" for d
      using matchChunk_failed [of d] by auto
    have IH: "\<exists>w. y # s' = w @ t \<and> (\<forall>t'. matchChunk c (Some (w @ t')) = Some (Some t'))"
      if "length d \<le> length chunk" "matchChunk d (Some s') = Some (Some t)"
        "\<And>s'. matchChunk c (Some (y # s')) = matchChunk d (Some s')" for d s' y
    proof -
      from "1.IH" that Cons obtain w where
        "s' = w @ t" "\<forall>t'. matchChunk d (Some (w @ t')) = Some (Some t')"
        by (metis length_Cons less_Suc_eq_le)
      then show ?thesis by (intro exI [of _ "y # w"]) (simp add: that(3))
    qed
    show ?thesis
    proof (cases s)
      case Nil
      with "1.prems" show ?thesis
        by (auto simp: Cons unfold failed advance_def match_any_def match_lit_def
            split: if_splits option.splits list.splits)
    next
      case s: (Cons y s')
      consider (cls) "x = CHR ''[''" | (any) "x = CHR ''?''" | (esc) "x = CHR 0x5C"
        | (lit) "x \<noteq> CHR ''[''" "x \<noteq> CHR ''?''" "x \<noteq> CHR 0x5C" by blast
      then show ?thesis
      proof cases
        case cls
        with "1.prems" obtain m rest where
          m: "match_class y 0 False (snd (negation chunk)) = Some (m, rest)"
          and neg: "m \<noteq> fst (negation chunk)" and go: "matchChunk rest (Some s') = Some (Some t)"
          by (auto simp: Cons s unfold failed peek_def advance_def split: option.splits if_splits)
        have "length rest \<le> length chunk"
          using match_class_shorter [OF m] by (auto simp: negation_def split: if_splits)
        from IH [OF this go, of y] m neg cls show ?thesis
          by (simp add: s Cons matchChunk.simps(2) peek_def advance_def)
      next
        case any
        with "1.prems" have "y \<noteq> CHR ''/''" "matchChunk chunk (Some s') = Some (Some t)"
          by (auto simp: Cons s unfold failed match_any_def split: if_splits)
        with IH [of chunk s' y] any show ?thesis
          by (simp add: s Cons matchChunk.simps(2) match_any_def)
      next
        case esc
        with "1.prems" obtain chunk' where "chunk = y # chunk'" "matchChunk chunk' (Some s') = Some (Some t)"
          by (auto simp: Cons s unfold failed match_lit_def split: if_splits list.splits)
        with IH [of chunk' s' y] esc show ?thesis
          by (simp add: s Cons matchChunk.simps(2) match_lit_def)
      next
        case lit
        with "1.prems" have "x = y" "matchChunk chunk (Some s') = Some (Some t)"
          by (auto simp: Cons s unfold failed match_lit_def split: if_splits)
        with IH [of chunk s' y] lit show ?thesis
          by (simp add: s Cons matchChunk.simps(2) match_lit_def)
      qed
    qed
  qed
qed

lemma matchChunk_iff: "matchChunk c (Some s) = Some (Some t) \<longleftrightarrow> (\<exists>w. s = w @ t \<and> accepts c w)"
proof
  assume "matchChunk c (Some s) = Some (Some t)"
  from matchChunk_local [OF this] show "\<exists>w. s = w @ t \<and> accepts c w"
    unfolding accepts_def by (metis append_Nil2)
next
  assume "\<exists>w. s = w @ t \<and> accepts c w"
  then obtain w where s: "s = w @ t" and "matchChunk c (Some w) = Some (Some [])"
    by (auto simp: accepts_def)
  from matchChunk_local [OF this(2)] s show "matchChunk c (Some s) = Some (Some t)" by auto
qed


lemma accepts_width: "accepts c w \<Longrightarrow> accepts c w' \<Longrightarrow> length w = length w'"
proof (induction c arbitrary: w w' rule: length_induct)
  case (1 c)
  show ?case
  proof (cases c)
    case Nil
    with "1.prems" show ?thesis by (simp add: accepts_def)
  next
    case (Cons x chunk)
    note unfold = matchChunk.simps(2) [of _ chunk]
    have failed: "matchChunk d None \<noteq> Some (Some u)" for d u
      using matchChunk_failed [of d] by auto
    have step: "\<exists>y v d. w = y # v \<and> accepts d v \<and> length d \<le> length chunk \<and>
        d = (if x = CHR ''['' then snd (the (match_class y 0 False (snd (negation chunk))))
             else if x = CHR 0x5C then tl chunk else chunk) \<and>
        (x = CHR ''['' \<longrightarrow> match_class y 0 False (snd (negation chunk)) \<noteq> None)"
      if "accepts c w" for w
    proof (cases w)
      case Nil
      with that show ?thesis
        by (auto simp: accepts_def Cons unfold failed advance_def match_any_def match_lit_def
            split: if_splits option.splits list.splits)
    next
      case (Cons y v)
      with that \<open>c = x # chunk\<close> show ?thesis
        by (auto simp: accepts_def unfold failed peek_def advance_def match_any_def match_lit_def negation_def
            dest!: match_class_shorter split: if_splits option.splits list.splits)
    qed
    from step [OF "1.prems"(1)] step [OF "1.prems"(2)] obtain y v y' v' d where
      w: "w = y # v" "w' = y' # v'" and d: "accepts d v" "accepts d v'" "length d \<le> length chunk"
      using match_class_same_rest [of _ 0 False "snd (negation chunk)" _ _ _ False]
      by (auto split: if_splits) metis
    from "1.IH" d Cons have "length v = length v'" by (metis length_Cons less_Suc_eq_le)
    with w show ?thesis by simp
  qed
qed



section \<open>The search finds a match when there is one\<close>

inductive glob :: "string \<Rightarrow> string \<Rightarrow> bool" where
  glob_end: "glob [] []"
| glob_chunk: "p \<noteq> [] \<Longrightarrow> scanChunk p = (star, c, rest) \<Longrightarrow> star \<or> u = [] \<Longrightarrow> accepts c w \<Longrightarrow>
    glob rest v \<Longrightarrow> glob p (u @ w @ v)"

inductive_simps glob_Nil [simp]: "glob [] name"
inductive_cases glob_ConsE: "glob (x # p) name"

lemma suffix_after_first:
  assumes "u @ w @ t' = w0 @ t" and "length w = length w0"
  shows "suffix t' t"
proof -
  have "t = drop (length w) (u @ w @ t')" using assms by simp
  also have "\<dots> = drop (length w) (u @ w) @ t'" by simp
  finally show ?thesis by (metis suffix_def)
qed

lemma first_is_suffix:
  assumes "accepts c w" and "matchChunk c (Some (u @ w @ t')) = Some (Some t)"
  shows "suffix t' t"
proof -
  obtain w0 where w0: "u @ w @ t' = w0 @ t" "accepts c w0"
    using assms(2) unfolding matchChunk_iff by blast
  from suffix_after_first [OF w0(1) accepts_width [OF assms(1) w0(2)]] show ?thesis .
qed

lemma try_skip_sound:
  "try_skip c fin name = Some (Some t) \<Longrightarrow>
     \<exists>u w. name = u @ w @ t \<and> accepts c w \<and> (fin \<longrightarrow> t = [])"
proof (induction name)
  case Nil
  then show ?case by simp
next
  case (Cons x xs)
  show ?case
  proof (cases "try_skip c fin xs = Some (Some t)")
    case True
    with Cons.IH show ?thesis by (metis append_Cons)
  next
    case False
    with Cons.prems have "matchChunk c (Some xs) = Some (Some t)" "fin \<longrightarrow> t = []"
      by (auto split: if_splits option.splits)
    then show ?thesis unfolding matchChunk_iff by (metis append_Cons append_Nil)
  qed
qed

lemma try_skip_complete:
  assumes "accepts c w" and "fin \<longrightarrow> t' = []" and "matchChunk c None \<noteq> None"
  shows "CHR ''/'' \<notin> set (x # u @ w @ t') \<Longrightarrow>
    \<exists>t. try_skip c fin (x # u @ w @ t') = Some (Some t) \<and> suffix t' t"
proof (induction u arbitrary: x)
  case Nil
  have "matchChunk c (Some (w @ t')) = Some (Some t')"
    using assms(1) matchChunk_iff by blast
  with Nil assms(2) show ?case by auto
next
  case (Cons y u)
  let ?s = "y # u @ w @ t'"
  have IH: "\<exists>t. try_skip c fin ?s = Some (Some t) \<and> suffix t' t"
    using Cons.IH [of y] Cons.prems by auto
  have "matchChunk c (Some ?s) \<noteq> None"
    using assms(3) matchChunk_error [of c "Some ?s"] by simp
  moreover have "suffix t' t" if "matchChunk c (Some ?s) = Some (Some t)" for t
    using first_is_suffix [OF assms(1), of "y # u" t' t] that by simp
  ultimately show ?case
    using IH Cons.prems by (auto simp del: try_skip.simps simp: try_skip.simps(2) [of c fin x] split: option.split)
qed

lemma try_skip_error: "try_skip c fin name = None \<Longrightarrow> matchChunk c None = None"
  by (induction name) (use matchChunk_error in \<open>auto split: if_splits option.splits\<close>)

lemma place_error: "place star c fin name = None \<longleftrightarrow> matchChunk c None = None"
  using matchChunk_error [of c "Some name"] try_skip_error [of c fin name]
  by (auto simp: place_def split: option.splits)

lemma place_sound:
  assumes "place star c fin name = Some (Some t)"
  shows "\<exists>u w. name = u @ w @ t \<and> (star \<or> u = []) \<and> accepts c w \<and> (fin \<longrightarrow> t = [])"
proof (cases "matchChunk c (Some name) = Some (Some t) \<and> (t = [] \<or> \<not> fin)")
  case True
  then show ?thesis unfolding matchChunk_iff by (metis append_Nil)
next
  case False
  with assms have "star" "try_skip c fin name = Some (Some t)"
    by (auto simp: place_def split: option.splits if_splits)
  with try_skip_sound show ?thesis by blast
qed

lemma place_complete:
  assumes "accepts c w" and "star \<or> u = []" and "fin \<longrightarrow> t' = []" and "matchChunk c None \<noteq> None"
    and "CHR ''/'' \<notin> set (u @ w @ t')"
  shows "\<exists>t. place star c fin (u @ w @ t') = Some (Some t) \<and> suffix t' t"
proof (cases u)
  case Nil
  have "matchChunk c (Some (w @ t')) = Some (Some t')"
    using assms(1) matchChunk_iff by blast
  with Nil assms(3) show ?thesis by (auto simp: place_def)
next
  case (Cons x u')
  with assms have star: star by simp
  have skip: "\<exists>t. try_skip c fin (u @ w @ t') = Some (Some t) \<and> suffix t' t"
    using try_skip_complete [OF assms(1,3,4), of x u'] assms(5) Cons by simp
  have "matchChunk c (Some (u @ w @ t')) \<noteq> None"
    using assms(4) matchChunk_error [of c "Some (u @ w @ t')"] by simp
  moreover have "suffix t' t" if "matchChunk c (Some (u @ w @ t')) = Some (Some t)" for t
    using first_is_suffix [OF assms(1) that] .
  ultimately show ?thesis
    using skip star by (auto simp: place_def split: option.split)
qed


lemma scan_stops_at_star: "scan b p = (a, c) \<Longrightarrow> c = [] \<or> hd c = CHR ''*''"
  by (induction b p arbitrary: a c rule: scan.induct) (auto split: if_splits list.splits prod.splits)

lemma glob_star_absorbs:
  assumes "glob p v" and "hd p = CHR ''*''" and "p \<noteq> []"
  shows "glob p (u @ v)"
  using assms(1)
proof cases
  case glob_end
  with assms(3) show ?thesis by simp
next
  case (glob_chunk star c rest u' w v')
  from glob_chunk(3) assms(2,3) have star by (auto simp: scanChunk_def)
  with glob_chunk have "glob p ((u @ u') @ w @ v')" by (intro glob.glob_chunk) auto
  with glob_chunk(1) show ?thesis by simp
qed

lemma scanChunk_empty: "scanChunk p = (star, [], rest) \<Longrightarrow> rest = []"
proof -
  assume "scanChunk p = (star, [], rest)"
  then have q: "scan False (dropWhile (\<lambda>c. c = CHR ''*'') p) = ([], rest)"
    by (simp add: scanChunk_def)
  show "rest = []"
    using scan_append [OF q] scan_shorter [OF q] hd_dropWhile [of "\<lambda>c. c = CHR ''*''" p] by fastforce
qed

lemma check_rest_step:
  "p \<noteq> [] \<Longrightarrow> scanChunk p = (star, chunk, rest) \<Longrightarrow>
     check_rest p = (if matchChunk chunk None = None then None else check_rest rest)"
  using matchChunk_error [of chunk "Some []"]
  by (subst check_rest.simps) (auto split: option.split)

lemma check_rest_False: "check_rest p = None \<or> check_rest p = Some False"
proof (induction p rule: check_rest.induct)
  case (1 p)
  obtain star chunk rest where sc: "scanChunk p = (star, chunk, rest)" by (cases "scanChunk p")
  show ?case
  proof (cases "p = []")
    case True
    then show ?thesis by (simp add: check_rest.simps)
  next
    case False
    note step = check_rest_step [OF False sc]
    show ?thesis
    proof (cases "matchChunk chunk (Some [])")
      case None
      then show ?thesis using matchChunk_error [of chunk "Some []"] by (simp add: step)
    next
      case (Some r)
      from "1.IH" [OF False sc [symmetric] refl Some] show ?thesis by (simp add: step)
    qed
  qed
qed

text \<open>Whether \<open>Match\<close> reports \<open>ErrBadPattern\<close> depends on the pattern alone.\<close>

lemma path_Match_error: "path_Match p name = None \<longleftrightarrow> check_rest p = None"
proof (induction p name rule: path_Match.induct)
  case (1 p name)
  obtain star chunk rest where sc: "scanChunk p = (star, chunk, rest)" by (cases "scanChunk p")
  show ?case
  proof (cases "p = []")
    case True
    then show ?thesis by (simp add: path_Match.simps check_rest.simps)
  next
    case False
    note step = check_rest_step [OF False sc]
    show ?thesis
    proof (cases "star \<and> chunk = []")
      case True
      with sc False scanChunk_empty [of p star rest] show ?thesis
        by (simp add: path_Match.simps [of p] step check_rest.simps [of "[]"])
    next
      case NotTail: False
      note IH = "1.IH" [OF False sc [symmetric] refl NotTail]
      show ?thesis
      proof (cases "place star chunk (rest = []) name")
        case None
        then have "matchChunk chunk None = None" using place_error by blast
        with None False sc NotTail show ?thesis by (simp add: path_Match.simps [of p] step)
      next
        case (Some r)
        then have "matchChunk chunk None \<noteq> None"
          using place_error [of star chunk "rest = []" name] by simp
        with Some IH False sc NotTail show ?thesis
          by (cases r) (auto simp: path_Match.simps [of p] step)
      qed
    qed
  qed
qed


text \<open>The first place for every chunk is as good as any other.\<close>

lemma glob_place:
  assumes sc: "scanChunk p = (star, c, rest)" and "p \<noteq> []" and "CHR ''/'' \<notin> set name"
    and place: "place star c (rest = []) name = Some r"
  shows "glob p name \<longleftrightarrow> (\<exists>t. r = Some t \<and> glob rest t)"
proof
  assume "\<exists>t. r = Some t \<and> glob rest t"
  then obtain t where "r = Some t" "glob rest t" by blast
  with place_sound [of star c "rest = []" name t] place glob_chunk [OF assms(2) sc] show "glob p name"
    by blast
next
  assume "glob p name"
  then show "\<exists>t. r = Some t \<and> glob rest t"
  proof cases
    case glob_end
    with assms(2) show ?thesis by simp
  next
    case (glob_chunk star' c' rest' u w v)
    with sc have eq: "star' = star" "c' = c" "rest' = rest" by auto
    have wf: "matchChunk c None \<noteq> None" using place place_error [of star c "rest = []" name] by simp
    have "rest = [] \<longrightarrow> v = []" using glob_chunk(6) eq by auto
    from place_complete [OF _ _ this wf, of w star u] glob_chunk eq assms(3)
    obtain t where t: "place star c (rest = []) name = Some (Some t)" "suffix v t" by auto
    from t(2) obtain z where z: "t = z @ v" by (auto simp: suffix_def)
    have "glob rest t"
    proof (cases "rest = []")
      case True
      with t(1) place_sound [of star c "rest = []" name t] show ?thesis by auto
    next
      case False
      moreover have "hd rest = CHR ''*''"
        using False sc scan_stops_at_star by (fastforce simp: scanChunk_def)
      ultimately show ?thesis
        using glob_star_absorbs [of rest v z] glob_chunk(6) eq z by simp
    qed
    with t(1) place show ?thesis by simp
  qed
qed

lemma path_Match_glob_aux:
  "CHR ''/'' \<notin> set name \<Longrightarrow> path_Match p name = Some b \<Longrightarrow> b \<longleftrightarrow> glob p name"
proof (induction p name arbitrary: b rule: path_Match.induct)
  case (1 p name)
  obtain star chunk rest where sc: "scanChunk p = (star, chunk, rest)" by (cases "scanChunk p")
  show ?case
  proof (cases "p = []")
    case True
    with "1.prems" show ?thesis by (simp add: path_Match.simps)
  next
    case False
    show ?thesis
    proof (cases "star \<and> chunk = []")
      case True
      with sc scanChunk_empty have "rest = []" by blast
      with True sc False have "glob p (name @ [] @ [])"
        by (intro glob_chunk [of p star "[]" "[]"]) (auto intro: glob_end simp: accepts_def)
      with True "1.prems" False sc show ?thesis by (simp add: path_Match.simps [of p])
    next
      case NotTail: False
      note IH = "1.IH" [OF False sc [symmetric] refl NotTail]
      from "1.prems"(2) False sc NotTail obtain r where r: "place star chunk (rest = []) name = Some r"
        by (auto simp: path_Match.simps [of p] split: option.splits)
      note gp = glob_place [OF sc False "1.prems"(1) r]
      show ?thesis
      proof (cases r)
        case None
        with "1.prems"(2) False sc NotTail r check_rest_False [of rest] gp show ?thesis
          by (auto simp: path_Match.simps [of p])
      next
        case (Some t)
        with r place_sound [of star chunk "rest = []" name t] "1.prems"(1)
        have "CHR ''/'' \<notin> set t" by auto
        with IH r Some "1.prems"(2) False sc NotTail gp show ?thesis
          by (auto simp: path_Match.simps [of p])
      qed
    qed
  qed
qed


section \<open>Patterns without special characters\<close>

definition plain :: "string \<Rightarrow> bool" where
  "plain p \<longleftrightarrow> set p \<inter> {CHR ''*'', CHR ''?'', CHR ''['', CHR '']'', CHR 0x5C} = {}"

lemma scan_plain: "plain p \<Longrightarrow> scan b p = (p, [])"
  by (induction p arbitrary: b) (auto simp: plain_def)

lemma accepts_plain: "plain c \<Longrightarrow> accepts c w \<longleftrightarrow> w = c"
proof (induction c arbitrary: w)
  case Nil
  then show ?case by (simp add: accepts_def)
next
  case (Cons x c)
  then have x: "x \<noteq> CHR ''[''" "x \<noteq> CHR ''?''" "x \<noteq> CHR 0x5C" and "plain c"
    by (auto simp: plain_def)
  with Cons.IH [of "tl w"] matchChunk_failed [of c] show ?case
    by (cases w) (auto simp: accepts_def matchChunk.simps(2) match_lit_def)
qed

lemma matchChunk_plain_ok: "plain c \<Longrightarrow> matchChunk c None \<noteq> None"
  using accepts_plain [of c c] matchChunk_error [of c "Some c"] by (auto simp: accepts_def)

lemma scanChunk_star_plain: "plain q \<Longrightarrow> scanChunk (CHR ''*'' # q) = (True, q, [])"
proof -
  assume q: "plain q"
  then have "dropWhile (\<lambda>c. c = CHR ''*'') q = q" by (cases q) (auto simp: plain_def)
  with q show ?thesis by (simp add: scanChunk_def scan_plain)
qed

lemma path_Match_star_plain:
  assumes "plain q" and "CHR ''/'' \<notin> set name"
  shows "path_Match (CHR ''*'' # q) name = Some (has_suffix name q)"
proof -
  have "check_rest (CHR ''*'' # q) \<noteq> None"
    using check_rest_step [OF _ scanChunk_star_plain [OF assms(1)]] matchChunk_plain_ok [OF assms(1)]
    by (simp add: check_rest.simps)
  then obtain b where b: "path_Match (CHR ''*'' # q) name = Some b"
    using path_Match_error [of "CHR ''*'' # q" name] by auto
  moreover have "glob (CHR ''*'' # q) name \<longleftrightarrow> has_suffix name q"
  proof
    assume "glob (CHR ''*'' # q) name"
    then show "has_suffix name q"
    proof (rule glob_ConsE)
      fix star c rest u w v
      assume n: "name = u @ w @ v" and sc: "scanChunk (CHR ''*'' # q) = (star, c, rest)"
        and "accepts c w" and "glob rest v"
      with scanChunk_star_plain [OF assms(1)] have "accepts q w" "v = []" by auto
      with accepts_plain [OF assms(1)] n show ?thesis by simp
    qed
  next
    assume "has_suffix name q"
    then obtain u where "name = u @ q @ []" by (auto simp: has_suffix_iff)
    moreover have "glob (CHR ''*'' # q) (u @ q @ [])"
      by (rule glob_chunk [OF _ scanChunk_star_plain [OF assms(1)]])
         (simp_all add: accepts_plain [OF assms(1)])
    ultimately show "glob (CHR ''*'' # q) name" by simp
  qed
  ultimately show ?thesis using path_Match_glob_aux [OF assms(2) b] by simp
qed

end
