(* ===== verification/Go_Net.thy ===== *)
theory Go_Net
  imports Prelude
begin

text \<open>
  \<open>net.ParseIP\<close> of the Go standard library: the bytes of an IPv4 address (four decimal fields, no
  leading zeros) or of an IPv6 address (groups of up to four hexadecimal digits, one \<open>::\<close>, a
  trailing IPv4 part), and \<open>None\<close> for any other text. A zone makes \<open>ParseIP\<close> return nil. An IPv4
  address is kept as four bytes, which tells it from an IPv6 address the way \<open>To4\<close> does.
\<close>

definition octet :: "string \<Rightarrow> nat option" where
  "octet f =
     (if f \<noteq> [] \<and> list_all is_digit f \<and> (hd f \<noteq> CHR ''0'' \<or> length f = 1) \<and> nat_of_string f \<le> 255
      then Some (nat_of_string f) else None)"

definition parse_ipv4 :: "string \<Rightarrow> nat list option" where
  "parse_ipv4 s =
     (case map octet (split_on CHR ''.'' s) of
        [Some a, Some b, Some c, Some d] \<Rightarrow> Some [a, b, c, d]
      | _ \<Rightarrow> None)"

definition hex_val :: "char \<Rightarrow> nat option" where
  "hex_val c =
     (let n = of_char c :: nat in
      if 48 \<le> n \<and> n \<le> 57 then Some (n - 48)
      else if 97 \<le> n \<and> n \<le> 102 then Some (n - 87)
      else if 65 \<le> n \<and> n \<le> 70 then Some (n - 55)
      else None)"

definition is_hex :: "char \<Rightarrow> bool" where
  "is_hex c \<longleftrightarrow> hex_val c \<noteq> None"

definition hex_number :: "string \<Rightarrow> nat" where
  "hex_number s = foldl (\<lambda>n c. 16 * n + (case hex_val c of None \<Rightarrow> 0 | Some v \<Rightarrow> v)) 0 s"

text \<open>The loop of \<open>parseIPv6\<close>: \<open>bs\<close> are the bytes so far (\<open>i\<close> is their number) and \<open>ell\<close>
  the place of the ellipsis. \<open>finish\<close> is what follows the loop.\<close>

definition finish :: "nat list \<Rightarrow> nat option \<Rightarrow> string \<Rightarrow> nat list option" where
  "finish bs ell s =
     (if s \<noteq> [] then None
      else if length bs < 16
      then (case ell of
              None \<Rightarrow> None
            | Some e \<Rightarrow> Some (take e bs @ replicate (16 - length bs) 0 @ drop e bs))
      else (if ell = None then Some bs else None))"

function groups :: "nat list \<Rightarrow> nat option \<Rightarrow> string \<Rightarrow> nat list option" where
  "groups bs ell s =
     (if 16 \<le> length bs then finish bs ell s
      else
        let d = takeWhile is_hex s; s1 = dropWhile is_hex s in
        if 4 < length d \<or> d = [] then None
        else if s1 \<noteq> [] \<and> hd s1 = CHR ''.''
        then (if (ell = None \<and> length bs \<noteq> 12) \<or> 16 < length bs + 4 then None
              else (case parse_ipv4 s of None \<Rightarrow> None | Some q \<Rightarrow> finish (bs @ q) ell []))
        else
          let bs' = bs @ [hex_number d div 256, hex_number d mod 256] in
          if s1 = [] then finish bs' ell []
          else if hd s1 \<noteq> CHR '':'' \<or> length s1 = 1 then None
          else if hd (tl s1) = CHR '':''
          then (if ell \<noteq> None then None
                else if length s1 = 2 then finish bs' (Some (length bs')) []
                else groups bs' (Some (length bs')) (drop 2 s1))
          else groups bs' ell (tl s1))"
  by pat_completeness auto
termination
proof (relation "measure (\<lambda>(bs, ell, s). 16 - length bs)")
qed (auto simp: Let_def)

declare groups.simps [simp del]

definition parse_ipv6 :: "string \<Rightarrow> nat list option" where
  "parse_ipv6 s =
     (if CHR ''%'' \<in> set s then None
      else if has_prefix s ''::''
      then (if length s = 2 then Some (replicate 16 0) else groups [] (Some 0) (drop 2 s))
      else groups [] None s)"

text \<open>An IPv4 address written in IPv6 form is the IPv4 address.\<close>

definition unmap :: "nat list \<Rightarrow> nat list" where
  "unmap bs = (if take 12 bs = replicate 10 0 @ [255, 255] then drop 12 bs else bs)"

text \<open>The first dot, colon or percent sign decides the family.\<close>

definition ParseIP :: "string \<Rightarrow> nat list option" where
  "ParseIP s =
     (case find (\<lambda>c. c = CHR ''.'' \<or> c = CHR '':'' \<or> c = CHR ''%'') s of
        Some c \<Rightarrow> if c = CHR ''.'' then parse_ipv4 s else if c = CHR '':'' then map_option unmap (parse_ipv6 s) else None
      | None \<Rightarrow> None)"

lemma ParseIP_dotted:
  assumes "CHR '':'' \<notin> set s" and "CHR ''%'' \<notin> set s"
  shows "ParseIP s = (if CHR ''.'' \<in> set s then parse_ipv4 s else None)"
proof (cases "find (\<lambda>c. c = CHR ''.'' \<or> c = CHR '':'' \<or> c = CHR ''%'') s")
  case None
  then have "CHR ''.'' \<notin> set s" by (auto dest: find_NoneD)
  with None show ?thesis by (simp add: ParseIP_def)
next
  case (Some c)
  with assms find_SomeD [OF Some] have "c = CHR ''.''" "CHR ''.'' \<in> set s" by auto
  with Some show ?thesis by (simp add: ParseIP_def)
qed

lemma parse_ipv4_bytes: "parse_ipv4 s = Some bs \<Longrightarrow> length bs = 4 \<and> (\<forall>b \<in> set bs. b \<le> 255)"
  by (auto simp: parse_ipv4_def octet_def map_eq_Cons_conv split: list.splits option.splits if_splits)

lemma finish_length:
  "finish bs ell s = Some r \<Longrightarrow> length bs \<le> 16 \<Longrightarrow> length r = 16"
  by (auto simp: finish_def split: if_splits option.splits)

end
