(* ===== verification/Tables.thy ===== *)
theory Tables
  imports Prelude
begin

text \<open>
  The tables of the database (\<open>internal/store/store.go\<close>, the schema): rows in insertion order and
  the next value of the \<open>AUTOINCREMENT\<close> key, which is never used twice. The locale \<open>keyed\<close> is the
  contract of a table whose rows carry that key; every table of the store is an interpretation of it.

  \<open>run\<close> is one SQL statement. The environment decides whether it fails (a lost connection, a full
  disk, a busy database): a failed statement has no effect. The clock is read at the same count.
\<close>

record 'r table =
  rows :: "'r list"
  next_id :: nat

definition empty_table :: "'r table" where
  "empty_table = \<lparr>rows = [], next_id = 1\<rparr>"

definition insert_row :: "(nat \<Rightarrow> 'r \<Rightarrow> 'r) \<Rightarrow> 'r \<Rightarrow> 'r table \<Rightarrow> 'r table" where
  "insert_row set_key r t =
     t\<lparr>rows := rows t @ [set_key (next_id t) r], next_id := Suc (next_id t)\<rparr>"

definition update_rows :: "('r \<Rightarrow> bool) \<Rightarrow> ('r \<Rightarrow> 'r) \<Rightarrow> 'r table \<Rightarrow> 'r table" where
  "update_rows p f t = t\<lparr>rows := update_where p f (rows t)\<rparr>"

definition delete_rows :: "('r \<Rightarrow> bool) \<Rightarrow> 'r table \<Rightarrow> 'r table" where
  "delete_rows p t = t\<lparr>rows := delete_where p (rows t)\<rparr>"

definition wf_table :: "('r \<Rightarrow> nat) \<Rightarrow> 'r table \<Rightarrow> bool" where
  "wf_table key t \<longleftrightarrow> distinct (map key (rows t)) \<and> (\<forall>r \<in> set (rows t). key r < next_id t)"

lemma rows_update_rows [simp]: "rows (update_rows p f t) = update_where p f (rows t)"
  by (simp add: update_rows_def)

lemma rows_insert_row [simp]: "rows (insert_row k r t) = rows t @ [k (next_id t) r]"
  by (simp add: insert_row_def)

lemma rows_delete_rows [simp]: "rows (delete_rows p t) = delete_where p (rows t)"
  by (simp add: delete_rows_def)

lemma next_id_simps [simp]:
  "next_id (update_rows p f t) = next_id t"
  "next_id (delete_rows p t) = next_id t"
  "next_id (insert_row k r t) = Suc (next_id t)"
  by (simp_all add: update_rows_def delete_rows_def insert_row_def)

lemma wf_empty [simp]: "wf_table key empty_table"
  by (simp add: wf_table_def empty_table_def)

locale keyed =
  fixes key :: "'r \<Rightarrow> nat"
    and set_key :: "nat \<Rightarrow> 'r \<Rightarrow> 'r"
  assumes key_set_key [simp]: "key (set_key n r) = n"
begin

lemma wf_insert: "wf_table key t \<Longrightarrow> wf_table key (insert_row set_key r t)"
  by (fastforce simp: wf_table_def)

lemma wf_update:
  assumes "wf_table key t" and "\<And>r. p r \<Longrightarrow> key (f r) = key r"
  shows "wf_table key (update_rows p f t)"
  using assms map_update_where [of p key f "rows t"]
  by (auto simp: wf_table_def set_update_where)

lemma wf_delete: "wf_table key t \<Longrightarrow> wf_table key (delete_rows p t)"
  by (auto simp: wf_table_def distinct_map_delete_where)

lemma find_eq_iff:
  assumes "wf_table key t"
  shows "find (\<lambda>r. key r = n) (rows t) = Some r \<longleftrightarrow> r \<in> set (rows t) \<and> key r = n"
  using assms find_key_unique [of key "rows t" r n] by (auto simp: wf_table_def dest: find_SomeD)

lemma find_inserted:
  assumes "wf_table key t"
  shows "find (\<lambda>r. key r = next_id t) (rows (insert_row set_key r t)) = Some (set_key (next_id t) r)"
  using find_eq_iff [OF wf_insert [OF assms]] by simp

lemma find_other_inserted:
  assumes "n < next_id t"
  shows "find (\<lambda>r. key r = n) (rows (insert_row set_key r t)) = find (\<lambda>r. key r = n) (rows t)"
  using assms by (auto simp: find_append_row split: option.split)

lemma affected_key: "wf_table key t \<Longrightarrow> affected (\<lambda>r. key r = n \<and> q r) (rows t) \<le> 1"
  by (rule affected_unique [of key _ _ n]) (auto simp: wf_table_def)

lemma find_updated:
  assumes "\<And>r. p r \<Longrightarrow> key (f r) = key r"
  shows "find (\<lambda>r. key r = n) (rows (update_rows p f t)) =
           map_option (\<lambda>r. if p r then f r else r) (find (\<lambda>r. key r = n) (rows t))"
  using assms by (simp add: find_update_where)

end


section \<open>Statements\<close>

datatype db_error = ErrNotFound | ErrConstraint | ErrIO | ErrText string

record env =
  fault :: "nat \<Rightarrow> bool"
  clock :: "nat \<Rightarrow> int"
  random_token :: "nat \<Rightarrow> string option"

text \<open>The count of statements executed so far, the first field of every store state.\<close>

record tick_state =
  tick :: nat

definition now :: "env \<Rightarrow> 'a tick_state_scheme \<Rightarrow> int" where
  "now E s = clock E (tick s)"

definition run ::
  "env \<Rightarrow> ('x tick_state_scheme \<Rightarrow> (db_error, 'a, 'x tick_state_scheme) outcome)
     \<Rightarrow> 'x tick_state_scheme \<Rightarrow> (db_error, 'a, 'x tick_state_scheme) outcome" where
  "run E f s =
     (let s' = s\<lparr>tick := Suc (tick s)\<rparr>
      in if fault E (tick s) then (Inl ErrIO, s') else f s')"

text \<open>A property that does not look at the count is kept by a statement when its body keeps it.\<close>

lemma run_keeps:
  assumes "\<And>n. P (s\<lparr>tick := n\<rparr>) = P s" and "\<And>n. P (s\<lparr>tick := n\<rparr>) \<Longrightarrow> P (snd (f (s\<lparr>tick := n\<rparr>)))"
    and "P s"
  shows "P (snd (run E f s))"
  using assms by (simp add: run_def Let_def)

lemma run_Inr: "run E f s = (Inr x, s') \<Longrightarrow> f (s\<lparr>tick := Suc (tick s)\<rparr>) = (Inr x, s')"
  by (simp add: run_def Let_def split: if_splits)

lemma run_no_fault: "\<not> fault E (tick s) \<Longrightarrow> run E f s = f (s\<lparr>tick := Suc (tick s)\<rparr>)"
  by (simp add: run_def)

lemma run_fault: "fault E (tick s) \<Longrightarrow> run E f s = (Inl ErrIO, s\<lparr>tick := Suc (tick s)\<rparr>)"
  by (simp add: run_def)


type_synonym ('a, 'x) statement = "(db_error, 'a, 'x tick_state_scheme) outcome"

text \<open>\<open>SELECT ... WHERE\<close> returning one row, with \<open>sql.ErrNoRows\<close> as \<open>ErrNotFound\<close>.\<close>

definition select_one :: "('r \<Rightarrow> bool) \<Rightarrow> 'r list \<Rightarrow> db_error + 'r" where
  "select_one p rs = (case find p rs of None \<Rightarrow> Inl ErrNotFound | Some r \<Rightarrow> Inr r)"

definition query_row ::
  "env \<Rightarrow> ('x tick_state_scheme \<Rightarrow> db_error + 'a) \<Rightarrow> 'x tick_state_scheme \<Rightarrow> ('a, 'x) statement" where
  "query_row E q = run E (\<lambda>s. (q s, s))"

definition exec ::
  "env \<Rightarrow> ('x tick_state_scheme \<Rightarrow> 'x tick_state_scheme) \<Rightarrow> 'x tick_state_scheme \<Rightarrow> (unit, 'x) statement" where
  "exec E f = run E (\<lambda>s. (Inr (), f s))"

text \<open>An \<open>UPDATE\<close> or \<open>DELETE\<close> that returns \<open>RowsAffected\<close>.\<close>

definition exec_count ::
  "env \<Rightarrow> ('x tick_state_scheme \<Rightarrow> nat) \<Rightarrow>
     ('x tick_state_scheme \<Rightarrow> 'x tick_state_scheme) \<Rightarrow> 'x tick_state_scheme \<Rightarrow> (nat, 'x) statement" where
  "exec_count E n f = run E (\<lambda>s. (Inr (n s), f s))"

text \<open>An \<open>INSERT ... RETURNING id\<close> that a constraint may refuse.\<close>

definition exec_insert ::
  "env \<Rightarrow> ('x tick_state_scheme \<Rightarrow> bool) \<Rightarrow> ('x tick_state_scheme \<Rightarrow> nat) \<Rightarrow>
     ('x tick_state_scheme \<Rightarrow> 'x tick_state_scheme) \<Rightarrow> 'x tick_state_scheme \<Rightarrow> (nat, 'x) statement" where
  "exec_insert E ok n f = run E (\<lambda>s. if ok s then (Inr (n s), f s) else (Inl ErrConstraint, s))"

lemmas stmt_defs = query_row_def exec_def exec_count_def exec_insert_def run_def Let_def

lemma query_row_state: "snd (query_row E q s) = s\<lparr>tick := Suc (tick s)\<rparr>"
  by (simp add: stmt_defs)

lemma query_row_Inr:
  "query_row E q s = (Inr x, s') \<Longrightarrow>
     q (s\<lparr>tick := Suc (tick s)\<rparr>) = Inr x \<and> s' = s\<lparr>tick := Suc (tick s)\<rparr>"
  by (auto simp: stmt_defs split: if_splits)

lemma query_row_Inl: "query_row E q s = (Inl x, s') \<Longrightarrow> s' = s\<lparr>tick := Suc (tick s)\<rparr>"
  by (auto simp: stmt_defs split: if_splits)

lemma select_one_Inr: "select_one p rs = Inr r \<Longrightarrow> r \<in> set rs \<and> p r"
  by (auto simp: select_one_def dest: find_SomeD split: option.splits)

lemma select_one_Inl: "select_one p rs = Inl e \<Longrightarrow> e = ErrNotFound \<and> (\<forall>r \<in> set rs. \<not> p r)"
  by (auto simp: select_one_def dest: find_NoneD split: option.splits)


text \<open>What every operation keeps is a relation between the state before and the state after: an operation keeps it
  when each of its statements does.\<close>

locale state_frame =
  fixes R :: "'x tick_state_scheme \<Rightarrow> 'x tick_state_scheme \<Rightarrow> bool"
  assumes refl [intro]: "R s s"
    and trans: "R s t \<Longrightarrow> R t u \<Longrightarrow> R s u"
    and reads: "R s (s\<lparr>tick := Suc (tick s)\<rparr>)"
begin

lemma acc: "R s0 s \<Longrightarrow> R s t \<Longrightarrow> R s0 t"
  by (rule trans)

lemma acc_query: "R s0 s \<Longrightarrow> R s0 (snd (query_row E q s))"
  by (rule acc, assumption) (simp add: query_row_state reads)

lemma acc_attempt:
  assumes "R s0 (snd r)" and "\<And>e s1. R s0 s1 \<Longrightarrow> R s0 (snd (h e s1))"
    and "\<And>x s1. R s0 s1 \<Longrightarrow> R s0 (snd (k x s1))"
  shows "R s0 (snd (attempt r h k))"
  using assms by (cases r; cases "fst r") auto

end

end
