(* ===== verification/Store.thy ===== *)
theory Store
  imports Tables "HOL-Library.List_Lexorder" "HOL-Library.Char_ord"
begin

text \<open>
  The rows of \<open>internal/store/models.go\<close> and \<open>internal/store/acme.go\<close>, the state of the
  database, and the statements of \<open>internal/store/store.go\<close> on authorities, certificates and the
  audit log. Times are integers (seconds), a column that may be \<open>NULL\<close> is an option, and a column
  that holds a JSON text is the list it encodes.
\<close>


section \<open>Rows\<close>

datatype ca_status = CAActive | CADisabled | CAPending

record CA =
  ca_id :: nat
  ca_name :: string
  ca_slug :: string
  ca_subject :: string
  ca_subject_json :: string
  ca_serial_hex :: string
  ca_key_type :: string
  ca_cert_pem :: string
  ca_key_enc :: string
  ca_csr_pem :: string
  ca_is_root :: bool
  ca_parent_id :: "nat option"
  ca_path_len :: int
  ca_not_before :: int
  ca_not_after :: int
  ca_status :: ca_status
  ca_crl_number :: int
  ca_fingerprint :: string
  ca_is_default :: bool
  ca_created_by :: string
  ca_created_at :: int
  ca_last_crl_at :: "int option"
  ca_external :: bool
  ca_subject_key_id :: string
  ca_authority_key_id :: string

definition ca_Expired :: "int \<Rightarrow> CA \<Rightarrow> bool" where
  "ca_Expired t c \<longleftrightarrow> ca_not_after c < t"

definition HasKey :: "CA \<Rightarrow> bool" where
  "HasKey c \<longleftrightarrow> ca_key_enc c \<noteq> []"

datatype cert_status = CertActive | CertRevoked

record Certificate =
  c_id :: nat
  c_ca_id :: nat
  c_serial_hex :: string
  c_common_name :: string
  c_subject :: string
  c_sans :: "string list"
  c_profile :: string
  c_key_type :: string
  c_cert_pem :: string
  c_key_enc :: string
  c_csr_pem :: string
  c_fingerprint :: string
  c_not_before :: int
  c_not_after :: int
  c_status :: cert_status
  c_revoked_at :: "int option"
  c_revoke_code :: int
  c_requested_by :: string
  c_note :: string
  c_created_at :: int
  c_renewed_from :: "nat option"

definition OnHold :: "Certificate \<Rightarrow> bool" where
  "OnHold c \<longleftrightarrow> c_status c = CertRevoked \<and> c_revoke_code c = 6"

datatype effective_status = EffRevoked | EffExpired | EffActive

definition EffectiveStatus :: "int \<Rightarrow> Certificate \<Rightarrow> effective_status" where
  "EffectiveStatus t c =
     (if c_status c = CertRevoked then EffRevoked
      else if c_not_after c < t then EffExpired else EffActive)"

record CARevocation =
  rv_ca_id :: nat
  rv_serial_hex :: string
  rv_revoked_at :: int
  rv_reason :: int

record AuditEntry =
  au_actor :: string
  au_action :: string
  au_target :: string
  au_detail :: string
  au_ip :: string

datatype acme_status =
  AcmeStatusPending | AcmeStatusProcessing | AcmeStatusValid | AcmeStatusInvalid
| AcmeStatusReady | AcmeStatusDeactivated | AcmeStatusRevoked | AcmeStatusExpired

record EABCred =
  e_id :: nat
  e_key_id :: string
  e_hmac_key_enc :: string
  e_name :: string
  e_ca_id :: "nat option"
  e_profile :: string
  e_days :: int
  e_allowed_domains :: "string list"
  e_max_accounts :: int
  e_account_count :: int
  e_disabled :: bool
  e_expires_at :: "int option"
  e_created_by :: string
  e_created_at :: int
  e_last_used_at :: "int option"

record AcmeAccount =
  a_id :: nat
  a_eab_id :: nat
  a_jwk_json :: string
  a_jwk_thumbprint :: string
  a_contact :: "string list"
  a_status :: acme_status
  a_created_at :: int
  a_last_used_at :: "int option"

record AcmeIdentifier =
  id_type :: string
  id_value :: string

text \<open>A problem document (\<open>internal/acme/errors.go\<close>); its detail is a text for people.\<close>

record Problem =
  p_type :: string
  p_status :: int

record AcmeOrder =
  o_id :: nat
  o_account_id :: nat
  o_status :: acme_status
  o_identifiers :: "AcmeIdentifier list"
  o_certificate_id :: "nat option"
  o_error :: "Problem option"
  o_expires_at :: int
  o_created_at :: int
  o_not_after :: "int option"

record AcmeAuthorization =
  z_id :: nat
  z_order_id :: nat
  z_identifier_type :: string
  z_identifier_value :: string
  z_wildcard :: bool
  z_status :: acme_status
  z_expires_at :: int
  z_created_at :: int

record AcmeChallenge =
  h_id :: nat
  h_authorization_id :: nat
  h_type :: string
  h_token :: string
  h_status :: acme_status
  h_validated_at :: "int option"
  h_created_at :: int

record AcmeNonce =
  n_nonce :: string
  n_expires_at :: int


section \<open>The database\<close>

record db = tick_state +
  cas :: "CA table"
  certificates :: "Certificate table"
  ca_revocations :: "CARevocation list"
  audit_log :: "AuditEntry list"
  acme_eab_creds :: "EABCred table"
  acme_accounts :: "AcmeAccount table"
  acme_orders :: "AcmeOrder table"
  acme_authorizations :: "AcmeAuthorization table"
  acme_challenges :: "AcmeChallenge table"
  acme_nonces :: "AcmeNonce list"

definition empty_db :: db where
  "empty_db =
     \<lparr>tick = 0, cas = empty_table, certificates = empty_table, ca_revocations = [], audit_log = [],
      acme_eab_creds = empty_table, acme_accounts = empty_table, acme_orders = empty_table,
      acme_authorizations = empty_table, acme_challenges = empty_table, acme_nonces = []\<rparr>"

type_synonym 'a stmt = "(db_error, 'a, db) outcome"

interpretation cas_t: keyed ca_id "\<lambda>n. ca_id_update (\<lambda>_. n)" by unfold_locales simp
interpretation certs_t: keyed c_id "\<lambda>n. c_id_update (\<lambda>_. n)" by unfold_locales simp
interpretation eab_t: keyed e_id "\<lambda>n. e_id_update (\<lambda>_. n)" by unfold_locales simp
interpretation accounts_t: keyed a_id "\<lambda>n. a_id_update (\<lambda>_. n)" by unfold_locales simp
interpretation orders_t: keyed o_id "\<lambda>n. o_id_update (\<lambda>_. n)" by unfold_locales simp
interpretation authzs_t: keyed z_id "\<lambda>n. z_id_update (\<lambda>_. n)" by unfold_locales simp
interpretation challenges_t: keyed h_id "\<lambda>n. h_id_update (\<lambda>_. n)" by unfold_locales simp

section \<open>Authorities\<close>

definition GetCA :: "env \<Rightarrow> nat \<Rightarrow> db \<Rightarrow> CA stmt" where
  "GetCA E i = query_row E (\<lambda>s. select_one (\<lambda>c. ca_id c = i) (rows (cas s)))"

definition GetCABySlug :: "env \<Rightarrow> string \<Rightarrow> db \<Rightarrow> CA stmt" where
  "GetCABySlug E slug = query_row E (\<lambda>s. select_one (\<lambda>c. ca_slug c = slug) (rows (cas s)))"

definition can_sign :: "CA \<Rightarrow> bool" where
  "can_sign c \<longleftrightarrow> ca_key_enc c \<noteq> [] \<and> ca_status c = CAActive"

text \<open>\<open>ORDER BY is_default DESC, id ASC LIMIT 1\<close> over the authorities that can sign.\<close>

definition DefaultCA :: "env \<Rightarrow> db \<Rightarrow> CA stmt" where
  "DefaultCA E = query_row E (\<lambda>s.
     let cs = filter can_sign (rows (cas s));
         ordered = sort_key ca_id (filter ca_is_default cs)
                   @ sort_key ca_id (filter (\<lambda>c. \<not> ca_is_default c) cs)
     in (case ordered of [] \<Rightarrow> Inl ErrNotFound | c # _ \<Rightarrow> Inr c))"

text \<open>A reference is a slug, a name or a number; the statement has no order, so the first row that
  matches in the table is returned.\<close>

definition GetCAByRef :: "env \<Rightarrow> string \<Rightarrow> db \<Rightarrow> CA stmt" where
  "GetCAByRef E ref s =
     (let r = trim_space ref in
      if r = [] then DefaultCA E s
      else query_row E (\<lambda>s. select_one
             (\<lambda>c. ca_slug c = r \<or> ca_name c = r \<or> string_of_nat (ca_id c) = r) (rows (cas s))) s)"

definition CountIssuingCAs :: "env \<Rightarrow> db \<Rightarrow> nat stmt" where
  "CountIssuingCAs E = query_row E (\<lambda>s. Inr (length (filter can_sign (rows (cas s)))))"

definition ListCAs :: "env \<Rightarrow> db \<Rightarrow> CA list stmt" where
  "ListCAs E = query_row E (\<lambda>s. Inr
     (sort_key ca_id (filter ca_is_default (rows (cas s)))
      @ sort_key ca_id (filter (\<lambda>c. \<not> ca_is_default c) (rows (cas s)))))"

definition ChildCAs :: "env \<Rightarrow> nat \<Rightarrow> db \<Rightarrow> CA list stmt" where
  "ChildCAs E p = query_row E (\<lambda>s. Inr (filter (\<lambda>c. ca_parent_id c = Some p) (rows (cas s))))"

text \<open>The unique columns and the foreign key of an inserted authority.\<close>

definition ca_insertable :: "CA \<Rightarrow> db \<Rightarrow> bool" where
  "ca_insertable c s \<longleftrightarrow>
     (\<forall>x \<in> set (rows (cas s)). ca_name x \<noteq> ca_name c \<and> ca_slug x \<noteq> ca_slug c) \<and>
     (\<forall>p. ca_parent_id c = Some p \<longrightarrow> (\<exists>x \<in> set (rows (cas s)). ca_id x = p))"

text \<open>A time that was not set is 0. The statement does not set the time of the last list.\<close>

definition created :: "env \<Rightarrow> 'a tick_state_scheme \<Rightarrow> int \<Rightarrow> int" where
  "created E s t = (if t = 0 then now E s else t)"

definition CreateCA :: "env \<Rightarrow> CA \<Rightarrow> db \<Rightarrow> CA stmt" where
  "CreateCA E c0 s =
     (let c = c0\<lparr>ca_created_at := created E s (ca_created_at c0), ca_last_crl_at := None\<rparr>;
          ins = (\<lambda>c s. attempt
            (exec_insert E (ca_insertable c) (\<lambda>s. next_id (cas s))
               (\<lambda>s. s\<lparr>cas := insert_row (\<lambda>n. ca_id_update (\<lambda>_. n)) c (cas s)\<rparr>) s)
            (\<lambda>e s. (Inl e, s)) (\<lambda>i s. GetCA E i s))
      in if can_sign c
         then attempt (CountIssuingCAs E s)
                (\<lambda>e s. ins c s)
                (\<lambda>n s. ins (if n = 0 then c\<lparr>ca_is_default := True\<rparr> else c) s)
         else ins c s)"

text \<open>The transaction of two updates: a failure of either rolls both back.\<close>

definition SetDefaultCA :: "env \<Rightarrow> nat \<Rightarrow> db \<Rightarrow> unit stmt" where
  "SetDefaultCA E i s =
     attempt (exec E (\<lambda>s. s\<lparr>cas := update_rows (\<lambda>_. True) (\<lambda>c. c\<lparr>ca_is_default := False\<rparr>) (cas s)\<rparr>) s)
       (\<lambda>e s1. (Inl e, s\<lparr>tick := tick s1\<rparr>))
       (\<lambda>_ s1. attempt (exec E (\<lambda>s. s\<lparr>cas := update_rows (\<lambda>c. ca_id c = i)
                                    (\<lambda>c. c\<lparr>ca_is_default := True\<rparr>) (cas s)\<rparr>) s1)
          (\<lambda>e s2. (Inl e, s\<lparr>tick := tick s2\<rparr>))
          (\<lambda>_ s2. attempt (exec E id s2)
             (\<lambda>e s3. (Inl e, s\<lparr>tick := tick s3\<rparr>))
             (\<lambda>_ s3. (Inr (), s3))))"

definition SetCAStatus :: "env \<Rightarrow> nat \<Rightarrow> ca_status \<Rightarrow> db \<Rightarrow> unit stmt" where
  "SetCAStatus E i st = exec E (\<lambda>s. s\<lparr>cas := update_rows (\<lambda>c. ca_id c = i) (\<lambda>c. c\<lparr>ca_status := st\<rparr>) (cas s)\<rparr>)"

text \<open>\<open>UPDATE ... RETURNING crl_number\<close>: the new number, or no row.\<close>

definition NextCRLNumber :: "env \<Rightarrow> nat \<Rightarrow> db \<Rightarrow> int stmt" where
  "NextCRLNumber E i s =
     run E (\<lambda>s1. case find (\<lambda>c. ca_id c = i) (rows (cas s1)) of
                   None \<Rightarrow> (Inl ErrNotFound, s1)
                 | Some c \<Rightarrow>
                     (Inr (ca_crl_number c + 1),
                      s1\<lparr>cas := update_rows (\<lambda>c. ca_id c = i)
                           (\<lambda>c. c\<lparr>ca_crl_number := ca_crl_number c + 1, ca_last_crl_at := Some (now E s)\<rparr>)
                           (cas s1)\<rparr>)) s"


section \<open>Certificates\<close>

definition GetCertificate :: "env \<Rightarrow> nat \<Rightarrow> db \<Rightarrow> Certificate stmt" where
  "GetCertificate E i = query_row E (\<lambda>s. select_one (\<lambda>c. c_id c = i) (rows (certificates s)))"

definition upper_char :: "char \<Rightarrow> char" where
  "upper_char c = (if 97 \<le> (of_char c :: nat) \<and> (of_char c :: nat) \<le> 122
                   then char_of ((of_char c :: nat) - 32) else c)"

definition bare_serial :: "string \<Rightarrow> string" where
  "bare_serial x = map upper_char (filter (\<lambda>c. c \<noteq> CHR '':'') (trim_space x))"

definition GetCertificateBySerial :: "env \<Rightarrow> string \<Rightarrow> db \<Rightarrow> Certificate stmt" where
  "GetCertificateBySerial E serial = query_row E (\<lambda>s.
     select_one (\<lambda>c. map upper_char (c_serial_hex c) = bare_serial serial) (rows (certificates s)))"

definition cert_insertable :: "Certificate \<Rightarrow> db \<Rightarrow> bool" where
  "cert_insertable c s \<longleftrightarrow>
     (\<exists>x \<in> set (rows (cas s)). ca_id x = c_ca_id c) \<and>
     (\<forall>x \<in> set (rows (certificates s)).
        \<not> (c_ca_id x = c_ca_id c \<and> c_serial_hex x = c_serial_hex c))"

text \<open>The columns that the statement does not name take their defaults.\<close>

definition new_certificate :: "env \<Rightarrow> db \<Rightarrow> Certificate \<Rightarrow> Certificate" where
  "new_certificate E s c =
     c\<lparr>c_created_at := created E s (c_created_at c), c_revoked_at := None, c_revoke_code := 0,
       c_profile := (if trim_space (c_profile c) = [] then ''server'' else c_profile c)\<rparr>"

definition CreateCertificate :: "env \<Rightarrow> Certificate \<Rightarrow> db \<Rightarrow> Certificate stmt" where
  "CreateCertificate E c0 s =
     (let c = new_certificate E s c0 in
      attempt (exec_insert E (cert_insertable c) (\<lambda>s. next_id (certificates s))
                (\<lambda>s. s\<lparr>certificates := insert_row (\<lambda>n. c_id_update (\<lambda>_. n)) c (certificates s)\<rparr>) s)
       (\<lambda>e s. (Inl e, s)) (\<lambda>i s. GetCertificate E i s))"

definition set_certs :: "(Certificate \<Rightarrow> bool) \<Rightarrow> (Certificate \<Rightarrow> Certificate) \<Rightarrow> db \<Rightarrow> db" where
  "set_certs p f s = s\<lparr>certificates := update_rows p f (certificates s)\<rparr>"

definition RevokeCertificate :: "env \<Rightarrow> nat \<Rightarrow> int \<Rightarrow> db \<Rightarrow> unit stmt" where
  "RevokeCertificate E i reason s =
     (let p = (\<lambda>c. c_id c = i \<and> c_status c \<noteq> CertRevoked); t = now E s in
      attempt (exec_count E (\<lambda>s. affected p (rows (certificates s)))
                 (set_certs p (\<lambda>c. c\<lparr>c_status := CertRevoked, c_revoked_at := Some t, c_revoke_code := reason\<rparr>)) s)
        (\<lambda>e s. (Inl e, s))
        (\<lambda>n s. if n = 0 then (Inl (ErrText ''not found or already revoked''), s) else (Inr (), s)))"

definition UnrevokeCertificate :: "env \<Rightarrow> nat \<Rightarrow> db \<Rightarrow> unit stmt" where
  "UnrevokeCertificate E i s =
     attempt (GetCertificate E i s)
       (\<lambda>e s. (Inl e, s))
       (\<lambda>c s. if c_status c \<noteq> CertRevoked then (Inl (ErrText ''not revoked''), s)
              else if c_revoke_code c \<noteq> 6
              then (Inl (ErrText ''only certificates on hold can be reinstated''), s)
              else exec E (set_certs (\<lambda>c. c_id c = i)
                     (\<lambda>c. c\<lparr>c_status := CertActive, c_revoked_at := None, c_revoke_code := 0\<rparr>)) s)"

definition revoked_key :: "Certificate \<Rightarrow> int" where
  "revoked_key c = (case c_revoked_at c of None \<Rightarrow> 0 | Some t \<Rightarrow> t)"

definition RevokedCertificates :: "env \<Rightarrow> nat \<Rightarrow> db \<Rightarrow> Certificate list stmt" where
  "RevokedCertificates E i = query_row E (\<lambda>s. Inr (sort_key revoked_key
     (filter (\<lambda>c. c_ca_id c = i \<and> c_status c = CertRevoked) (rows (certificates s)))))"

definition SetRenewedFrom :: "env \<Rightarrow> nat \<Rightarrow> nat \<Rightarrow> db \<Rightarrow> unit stmt" where
  "SetRenewedFrom E i prev = exec E (set_certs (\<lambda>c. c_id c = i) (\<lambda>c. c\<lparr>c_renewed_from := Some prev\<rparr>))"

text \<open>\<open>ORDER BY id LIMIT 1\<close>; no row is not an error.\<close>

definition CertificateRenewedFrom :: "env \<Rightarrow> nat \<Rightarrow> db \<Rightarrow> Certificate option stmt" where
  "CertificateRenewedFrom E i = query_row E (\<lambda>s. Inr
     (case sort_key c_id (filter (\<lambda>c. c_renewed_from c = Some i) (rows (certificates s))) of
        [] \<Rightarrow> None | c # _ \<Rightarrow> Some c))"

text \<open>\<open>INSERT ... ON CONFLICT(ca_id, serial_hex) DO UPDATE\<close>, refused when the issuer is gone.\<close>

definition RecordCARevocation :: "env \<Rightarrow> nat \<Rightarrow> string \<Rightarrow> int \<Rightarrow> db \<Rightarrow> unit stmt" where
  "RecordCARevocation E issuer serial reason s =
     (let p = (\<lambda>r. rv_ca_id r = issuer \<and> rv_serial_hex r = serial); t = now E s in
      run E (\<lambda>s. if \<not> (\<exists>c \<in> set (rows (cas s)). ca_id c = issuer) then (Inl ErrConstraint, s)
                 else (Inr (),
                   if affected p (ca_revocations s) = 0
                   then s\<lparr>ca_revocations := ca_revocations s @
                          [\<lparr>rv_ca_id = issuer, rv_serial_hex = serial, rv_revoked_at = t, rv_reason = reason\<rparr>]\<rparr>
                   else s\<lparr>ca_revocations := update_where p
                          (\<lambda>r. r\<lparr>rv_revoked_at := t, rv_reason := reason\<rparr>) (ca_revocations s)\<rparr>)) s)"

definition CARevocations :: "env \<Rightarrow> nat \<Rightarrow> db \<Rightarrow> CARevocation list stmt" where
  "CARevocations E issuer = query_row E (\<lambda>s. Inr
     (sort_key rv_revoked_at (filter (\<lambda>r. rv_ca_id r = issuer) (ca_revocations s))))"


section \<open>Searches and deletions\<close>

text \<open>\<open>LIKE\<close>, with its two wildcards.\<close>

fun like :: "string \<Rightarrow> string \<Rightarrow> bool" where
  "like [] s = (s = [])"
| "like (p # ps) [] = (p = CHR ''%'' \<and> like ps [])"
| "like (p # ps) (c # cs) =
     (if p = CHR ''%'' then like ps (c # cs) \<or> like (p # ps) cs
      else (p = CHR ''_'' \<or> p = c) \<and> like ps cs)"

record CertFilter =
  f_query :: string
  f_ca_id :: nat
  f_status :: string
  f_profile :: string
  f_requested_by :: string
  f_expiring_in :: int
  f_limit :: int
  f_offset :: int
  f_sort_by :: string
  f_sort_desc :: bool

definition no_filter :: CertFilter where
  "no_filter = \<lparr>f_query = [], f_ca_id = 0, f_status = [], f_profile = [], f_requested_by = [],
     f_expiring_in = 0, f_limit = 0, f_offset = 0, f_sort_by = [], f_sort_desc = False\<rparr>"

text \<open>The text of a list of names in the database: \<open>EncodeSANs\<close>, as \<open>json.Marshal\<close> writes it.\<close>

definition json_char :: "char \<Rightarrow> string" where
  "json_char c =
     (if c = CHR 0x22 then [CHR 0x5C, CHR 0x22]
      else if c = CHR 0x5C then [CHR 0x5C, CHR 0x5C]
      else if c = CHR ''<'' then CHR 0x5C # ''u003c''
      else if c = CHR ''>'' then CHR 0x5C # ''u003e''
      else if c = CHR ''&'' then CHR 0x5C # ''u0026''
      else [c])"

definition EncodeSANs :: "string list \<Rightarrow> string" where
  "EncodeSANs sans =
     ''['' @ join_with '','' (map (\<lambda>x. CHR 0x22 # concat (map json_char x) @ [CHR 0x22]) sans) @ '']''"

definition cert_matches :: "int \<Rightarrow> CertFilter \<Rightarrow> Certificate \<Rightarrow> bool" where
  "cert_matches t f c \<longleftrightarrow>
     (let q = trim_space (f_query f);
          lk = ''%'' @ to_lower q @ ''%'';
          bare = ''%'' @ map upper_char (filter (\<lambda>x. x \<noteq> CHR '':'') q) @ ''%'' in
      q = [] \<or> like lk (to_lower (c_common_name c)) \<or> like lk (to_lower (c_subject c)) \<or>
      like lk (to_lower (EncodeSANs (c_sans c))) \<or> like lk (to_lower (c_requested_by c)) \<or>
      like bare (map upper_char (c_serial_hex c)) \<or> like bare (map upper_char (c_fingerprint c))) \<and>
     (f_ca_id f = 0 \<or> c_ca_id c = f_ca_id f) \<and>
     (f_profile f = [] \<or> c_profile c = f_profile f) \<and>
     (f_requested_by f = [] \<or> c_requested_by c = f_requested_by f) \<and>
     (f_status f = ''active'' \<longrightarrow> c_status c = CertActive \<and> t < c_not_after c) \<and>
     (f_status f = ''expired'' \<longrightarrow> c_status c \<noteq> CertRevoked \<and> c_not_after c \<le> t) \<and>
     (f_status f = ''revoked'' \<longrightarrow> c_status c = CertRevoked) \<and>
     (0 < f_expiring_in f \<longrightarrow> c_status c = CertActive \<and> t < c_not_after c \<and>
        c_not_after c \<le> t + 86400 * f_expiring_in f)"

definition cert_order :: "CertFilter \<Rightarrow> Certificate list \<Rightarrow> Certificate list" where
  "cert_order f cs =
     (let by_id = sort_key c_id cs;
          up = (if f_sort_by f \<in> {''not_after'', ''expiry''} then sort_key c_not_after by_id
                else if f_sort_by f \<in> {''common_name'', ''cn''} then sort_key c_common_name by_id
                else if f_sort_by f = ''serial'' then sort_key c_serial_hex by_id
                else sort_key c_created_at by_id)
      in if f_sort_desc f then rev up else up)"

definition SearchCertificates :: "env \<Rightarrow> CertFilter \<Rightarrow> db \<Rightarrow> (Certificate list \<times> nat) stmt" where
  "SearchCertificates E f s0 =
     (let t = now E s0; hits = (\<lambda>s. filter (cert_matches t f) (rows (certificates s)));
          limit = (if f_limit f \<le> 0 then 50 else f_limit f) in
      attempt (query_row E (\<lambda>s. Inr (length (hits s))) s0)
        (\<lambda>e s. (Inl e, s))
        (\<lambda>total s. query_row E (\<lambda>s. Inr
            (take (nat limit) (drop (nat (f_offset f)) (cert_order f (hits s))), total)) s))"

text \<open>Deleting an authority deletes its certificates and its revocations. It is refused while a
  subordinate, a credential or an order still refers to a row that would go. A secret that refers to one of its
  certificates refuses it too: secrets are not in this state, and that refusal is a failing statement.\<close>

definition ca_deletable :: "nat \<Rightarrow> db \<Rightarrow> bool" where
  "ca_deletable i s \<longleftrightarrow>
     (\<forall>c \<in> set (rows (cas s)). ca_id c \<noteq> i \<longrightarrow> ca_parent_id c \<noteq> Some i) \<and>
     (\<forall>e \<in> set (rows (acme_eab_creds s)). e_ca_id e \<noteq> Some i) \<and>
     (\<forall>x \<in> set (rows (acme_orders s)). \<forall>c \<in> set (rows (certificates s)).
        c_ca_id c = i \<longrightarrow> o_certificate_id x \<noteq> Some (c_id c))"

definition DeleteCA :: "env \<Rightarrow> nat \<Rightarrow> db \<Rightarrow> unit stmt" where
  "DeleteCA E i s =
     attempt (run E (\<lambda>s. if affected (\<lambda>c. ca_id c = i) (rows (cas s)) \<noteq> 0 \<and> \<not> ca_deletable i s
                then (Inl ErrConstraint, s)
                else (Inr (affected (\<lambda>c. ca_id c = i) (rows (cas s))),
                      s\<lparr>cas := delete_rows (\<lambda>c. ca_id c = i) (cas s),
                        certificates := delete_rows (\<lambda>c. c_ca_id c = i) (certificates s),
                        ca_revocations := delete_where (\<lambda>r. rv_ca_id r = i) (ca_revocations s)\<rparr>)) s)
       (\<lambda>e s. (Inl e, s)) (\<lambda>n s. if n = 0 then (Inl ErrNotFound, s) else (Inr (), s))"


section \<open>The audit log\<close>

definition Audit :: "env \<Rightarrow> string \<Rightarrow> string \<Rightarrow> string \<Rightarrow> string \<Rightarrow> string \<Rightarrow> db \<Rightarrow> unit stmt" where
  "Audit E actor action target detail ip = exec E (\<lambda>s. s\<lparr>audit_log := audit_log s @
     [\<lparr>au_actor = actor, au_action = action, au_target = target, au_detail = detail, au_ip = ip\<rparr>]\<rparr>)"

end
