(* ===== verification/Acme_Store.thy ===== *)
theory Acme_Store
  imports Store
begin

text \<open>
  The statements of \<open>internal/store/acme.go\<close>: external account binding credentials, accounts,
  orders, authorizations, challenges and replay nonces. The condition of every \<open>UPDATE\<close> and
  \<open>DELETE\<close> is part of the statement, so that the guarantees about concurrent requests can be stated
  for arbitrary interleavings of statements (\<open>trace\<close> in \<open>Acme_Concurrency\<close>).
\<close>


section \<open>Credentials\<close>

definition Usable :: "int \<Rightarrow> EABCred \<Rightarrow> bool" where
  "Usable t e \<longleftrightarrow>
     (if e_disabled e then False
      else if (case e_expires_at e of None \<Rightarrow> False | Some x \<Rightarrow> x < t) then False
      else if 0 < e_max_accounts e \<and> e_max_accounts e \<le> e_account_count e then False
      else True)"

definition nz :: "string \<Rightarrow> string \<Rightarrow> string" where
  "nz v d = (if trim_space v = [] then d else v)"

definition GetEABCred :: "env \<Rightarrow> nat \<Rightarrow> db \<Rightarrow> EABCred stmt" where
  "GetEABCred E i = query_row E (\<lambda>s. select_one (\<lambda>e. e_id e = i) (rows (acme_eab_creds s)))"

definition GetEABCredByKeyID :: "env \<Rightarrow> string \<Rightarrow> db \<Rightarrow> EABCred stmt" where
  "GetEABCredByKeyID E kid = query_row E (\<lambda>s. select_one (\<lambda>e. e_key_id e = kid) (rows (acme_eab_creds s)))"

text \<open>A new credential starts with no account and no last use, whatever the argument carries: the
  statement does not set these columns.\<close>

definition eab_insertable :: "EABCred \<Rightarrow> db \<Rightarrow> bool" where
  "eab_insertable e s \<longleftrightarrow>
     (\<forall>x \<in> set (rows (acme_eab_creds s)). e_key_id x \<noteq> e_key_id e) \<and>
     (case e_ca_id e of None \<Rightarrow> True | Some c \<Rightarrow> \<exists>x \<in> set (rows (cas s)). ca_id x = c)"

definition CreateEABCred :: "env \<Rightarrow> EABCred \<Rightarrow> db \<Rightarrow> EABCred stmt" where
  "CreateEABCred E e s =
     (let e' = e\<lparr>e_profile := nz (e_profile e) ''server'', e_account_count := 0, e_last_used_at := None\<rparr> in
      attempt (exec_insert E (eab_insertable e') (\<lambda>s. next_id (acme_eab_creds s))
                 (\<lambda>s. s\<lparr>acme_eab_creds := insert_row (\<lambda>n. e_id_update (\<lambda>_. n)) e' (acme_eab_creds s)\<rparr>) s)
        (\<lambda>x s. (Inl x, s)) (\<lambda>i s. GetEABCred E i s))"

definition ListEABCreds :: "env \<Rightarrow> db \<Rightarrow> EABCred list stmt" where
  "ListEABCreds E = query_row E (\<lambda>s. Inr (rev (sort_key e_id (rows (acme_eab_creds s)))))"

definition set_creds :: "(EABCred \<Rightarrow> bool) \<Rightarrow> (EABCred \<Rightarrow> EABCred) \<Rightarrow> db \<Rightarrow> db" where
  "set_creds p f s = s\<lparr>acme_eab_creds := update_rows p f (acme_eab_creds s)\<rparr>"

definition SetEABCredDisabled :: "env \<Rightarrow> nat \<Rightarrow> bool \<Rightarrow> db \<Rightarrow> unit stmt" where
  "SetEABCredDisabled E i b s =
     attempt (exec_count E (\<lambda>s. affected (\<lambda>e. e_id e = i) (rows (acme_eab_creds s)))
                (set_creds (\<lambda>e. e_id e = i) (\<lambda>e. e\<lparr>e_disabled := b\<rparr>)) s)
       (\<lambda>x s. (Inl x, s)) (\<lambda>n s. if n = 0 then (Inl ErrNotFound, s) else (Inr (), s))"

text \<open>The foreign key of the accounts has no \<open>ON DELETE\<close> action, so a credential that an account
  still references cannot be deleted.\<close>

definition DeleteEABCred :: "env \<Rightarrow> nat \<Rightarrow> db \<Rightarrow> unit stmt" where
  "DeleteEABCred E i s =
     attempt (run E (\<lambda>s. if \<exists>a \<in> set (rows (acme_accounts s)). a_eab_id a = i then (Inl ErrConstraint, s)
                else (Inr (affected (\<lambda>e. e_id e = i) (rows (acme_eab_creds s))),
                      s\<lparr>acme_eab_creds := delete_rows (\<lambda>e. e_id e = i) (acme_eab_creds s)\<rparr>)) s)
       (\<lambda>x s. (Inl x, s)) (\<lambda>n s. if n = 0 then (Inl ErrNotFound, s) else (Inr (), s))"

definition ReserveEABAccountSlot :: "env \<Rightarrow> nat \<Rightarrow> db \<Rightarrow> bool stmt" where
  "ReserveEABAccountSlot E i s =
     (let p = (\<lambda>e. e_id e = i \<and> (e_max_accounts e = 0 \<or> e_account_count e < e_max_accounts e)); t = now E s in
      attempt (exec_count E (\<lambda>s. affected p (rows (acme_eab_creds s)))
                 (set_creds p (\<lambda>e. e\<lparr>e_account_count := e_account_count e + 1, e_last_used_at := Some t\<rparr>)) s)
        (\<lambda>x s. (Inl x, s)) (\<lambda>n s. (Inr (n = 1), s)))"

definition ReleaseEABAccountSlot :: "env \<Rightarrow> nat \<Rightarrow> db \<Rightarrow> unit stmt" where
  "ReleaseEABAccountSlot E i = exec E
     (set_creds (\<lambda>e. e_id e = i \<and> 0 < e_account_count e) (\<lambda>e. e\<lparr>e_account_count := e_account_count e - 1\<rparr>))"


section \<open>Accounts\<close>

definition GetAcmeAccount :: "env \<Rightarrow> nat \<Rightarrow> db \<Rightarrow> AcmeAccount stmt" where
  "GetAcmeAccount E i = query_row E (\<lambda>s. select_one (\<lambda>a. a_id a = i) (rows (acme_accounts s)))"

definition GetAcmeAccountByThumbprint :: "env \<Rightarrow> string \<Rightarrow> db \<Rightarrow> AcmeAccount stmt" where
  "GetAcmeAccountByThumbprint E th =
     query_row E (\<lambda>s. select_one (\<lambda>a. a_jwk_thumbprint a = th) (rows (acme_accounts s)))"

definition account_insertable :: "AcmeAccount \<Rightarrow> db \<Rightarrow> bool" where
  "account_insertable a s \<longleftrightarrow>
     (\<forall>x \<in> set (rows (acme_accounts s)). a_jwk_thumbprint x \<noteq> a_jwk_thumbprint a) \<and>
     (\<exists>e \<in> set (rows (acme_eab_creds s)). e_id e = a_eab_id a)"

definition CreateAcmeAccount :: "env \<Rightarrow> AcmeAccount \<Rightarrow> db \<Rightarrow> AcmeAccount stmt" where
  "CreateAcmeAccount E a s =
     (let a' = a\<lparr>a_last_used_at := None\<rparr> in
      attempt (exec_insert E (account_insertable a') (\<lambda>s. next_id (acme_accounts s))
                 (\<lambda>s. s\<lparr>acme_accounts := insert_row (\<lambda>n. a_id_update (\<lambda>_. n)) a' (acme_accounts s)\<rparr>) s)
        (\<lambda>x s. (Inl x, s)) (\<lambda>i s. GetAcmeAccount E i s))"

definition ListAcmeAccounts :: "env \<Rightarrow> db \<Rightarrow> AcmeAccount list stmt" where
  "ListAcmeAccounts E = query_row E (\<lambda>s. Inr (rev (sort_key a_id (rows (acme_accounts s)))))"

definition ListAcmeAccountsByEAB :: "env \<Rightarrow> nat \<Rightarrow> db \<Rightarrow> AcmeAccount list stmt" where
  "ListAcmeAccountsByEAB E i = query_row E (\<lambda>s. Inr
     (rev (sort_key a_id (filter (\<lambda>a. a_eab_id a = i) (rows (acme_accounts s))))))"

definition set_accounts :: "(AcmeAccount \<Rightarrow> bool) \<Rightarrow> (AcmeAccount \<Rightarrow> AcmeAccount) \<Rightarrow> db \<Rightarrow> db" where
  "set_accounts p f s = s\<lparr>acme_accounts := update_rows p f (acme_accounts s)\<rparr>"

definition SetAcmeAccountStatus :: "env \<Rightarrow> nat \<Rightarrow> acme_status \<Rightarrow> db \<Rightarrow> unit stmt" where
  "SetAcmeAccountStatus E i st s =
     attempt (exec_count E (\<lambda>s. affected (\<lambda>a. a_id a = i) (rows (acme_accounts s)))
                (set_accounts (\<lambda>a. a_id a = i) (\<lambda>a. a\<lparr>a_status := st\<rparr>)) s)
       (\<lambda>x s. (Inl x, s)) (\<lambda>n s. if n = 0 then (Inl ErrNotFound, s) else (Inr (), s))"

definition SetAcmeAccountContact :: "env \<Rightarrow> nat \<Rightarrow> string list \<Rightarrow> db \<Rightarrow> unit stmt" where
  "SetAcmeAccountContact E i cs = exec E (set_accounts (\<lambda>a. a_id a = i) (\<lambda>a. a\<lparr>a_contact := cs\<rparr>))"

definition TouchAcmeAccountUsed :: "env \<Rightarrow> nat \<Rightarrow> db \<Rightarrow> unit stmt" where
  "TouchAcmeAccountUsed E i s =
     (let t = now E s in exec E (set_accounts (\<lambda>a. a_id a = i) (\<lambda>a. a\<lparr>a_last_used_at := Some t\<rparr>)) s)"


section \<open>Orders\<close>

definition GetAcmeOrder :: "env \<Rightarrow> nat \<Rightarrow> db \<Rightarrow> AcmeOrder stmt" where
  "GetAcmeOrder E i = query_row E (\<lambda>s. select_one (\<lambda>x. o_id x = i) (rows (acme_orders s)))"

text \<open>\<open>ORDER BY id DESC LIMIT 1\<close>.\<close>

definition GetAcmeOrderByCertificate :: "env \<Rightarrow> nat \<Rightarrow> db \<Rightarrow> AcmeOrder stmt" where
  "GetAcmeOrderByCertificate E c = query_row E (\<lambda>s.
     case rev (sort_key o_id (filter (\<lambda>x. o_certificate_id x = Some c) (rows (acme_orders s)))) of
       [] \<Rightarrow> Inl ErrNotFound | x # _ \<Rightarrow> Inr x)"

definition CreateAcmeOrder :: "env \<Rightarrow> AcmeOrder \<Rightarrow> db \<Rightarrow> AcmeOrder stmt" where
  "CreateAcmeOrder E x s =
     (let x' = x\<lparr>o_certificate_id := None, o_error := None\<rparr> in
      attempt (exec_insert E (\<lambda>s. \<exists>a \<in> set (rows (acme_accounts s)). a_id a = o_account_id x')
                 (\<lambda>s. next_id (acme_orders s))
                 (\<lambda>s. s\<lparr>acme_orders := insert_row (\<lambda>n. o_id_update (\<lambda>_. n)) x' (acme_orders s)\<rparr>) s)
        (\<lambda>e s. (Inl e, s)) (\<lambda>i s. GetAcmeOrder E i s))"

definition ListAcmeOrdersByAccount :: "env \<Rightarrow> nat \<Rightarrow> db \<Rightarrow> AcmeOrder list stmt" where
  "ListAcmeOrdersByAccount E a = query_row E (\<lambda>s. Inr
     (rev (sort_key o_id (filter (\<lambda>x. o_account_id x = a) (rows (acme_orders s))))))"

definition set_orders :: "(AcmeOrder \<Rightarrow> bool) \<Rightarrow> (AcmeOrder \<Rightarrow> AcmeOrder) \<Rightarrow> db \<Rightarrow> db" where
  "set_orders p f s = s\<lparr>acme_orders := update_rows p f (acme_orders s)\<rparr>"

definition SetAcmeOrderStatus :: "env \<Rightarrow> nat \<Rightarrow> acme_status \<Rightarrow> db \<Rightarrow> unit stmt" where
  "SetAcmeOrderStatus E i st s =
     attempt (exec_count E (\<lambda>s. affected (\<lambda>x. o_id x = i) (rows (acme_orders s)))
                (set_orders (\<lambda>x. o_id x = i) (\<lambda>x. x\<lparr>o_status := st\<rparr>)) s)
       (\<lambda>e s. (Inl e, s)) (\<lambda>n s. if n = 0 then (Inl ErrNotFound, s) else (Inr (), s))"

definition SetAcmeOrderError :: "env \<Rightarrow> nat \<Rightarrow> Problem \<Rightarrow> db \<Rightarrow> unit stmt" where
  "SetAcmeOrderError E i problem = exec E
     (set_orders (\<lambda>x. o_id x = i \<and> o_status x \<noteq> AcmeStatusValid)
        (\<lambda>x. x\<lparr>o_status := AcmeStatusInvalid, o_error := Some problem\<rparr>))"

definition ClaimAcmeOrderForFinalize :: "env \<Rightarrow> nat \<Rightarrow> db \<Rightarrow> bool stmt" where
  "ClaimAcmeOrderForFinalize E i s =
     (let p = (\<lambda>x. o_id x = i \<and> o_status x = AcmeStatusReady) in
      attempt (exec_count E (\<lambda>s. affected p (rows (acme_orders s)))
                 (set_orders p (\<lambda>x. x\<lparr>o_status := AcmeStatusProcessing\<rparr>)) s)
        (\<lambda>e s. (Inl e, s)) (\<lambda>n s. (Inr (n = 1), s)))"

text \<open>The foreign key refuses a certificate that does not exist.\<close>

definition SetAcmeOrderCertificate :: "env \<Rightarrow> nat \<Rightarrow> nat \<Rightarrow> db \<Rightarrow> unit stmt" where
  "SetAcmeOrderCertificate E i cert = run E (\<lambda>s.
     if affected (\<lambda>x. o_id x = i) (rows (acme_orders s)) \<noteq> 0 \<and>
        \<not> (\<exists>c \<in> set (rows (certificates s)). c_id c = cert) then (Inl ErrConstraint, s)
     else (Inr (), set_orders (\<lambda>x. o_id x = i)
             (\<lambda>x. x\<lparr>o_status := AcmeStatusValid, o_certificate_id := Some cert\<rparr>) s))"


section \<open>Authorizations and challenges\<close>

definition GetAcmeAuthorization :: "env \<Rightarrow> nat \<Rightarrow> db \<Rightarrow> AcmeAuthorization stmt" where
  "GetAcmeAuthorization E i = query_row E (\<lambda>s. select_one (\<lambda>z. z_id z = i) (rows (acme_authorizations s)))"

definition CreateAcmeAuthorization :: "env \<Rightarrow> AcmeAuthorization \<Rightarrow> db \<Rightarrow> AcmeAuthorization stmt" where
  "CreateAcmeAuthorization E z s =
     (let z' = z\<lparr>z_identifier_type := nz (z_identifier_type z) ''dns''\<rparr> in
      attempt (exec_insert E (\<lambda>s. \<exists>x \<in> set (rows (acme_orders s)). o_id x = z_order_id z')
                 (\<lambda>s. next_id (acme_authorizations s))
                 (\<lambda>s. s\<lparr>acme_authorizations := insert_row (\<lambda>n. z_id_update (\<lambda>_. n)) z' (acme_authorizations s)\<rparr>) s)
        (\<lambda>e s. (Inl e, s)) (\<lambda>i s. GetAcmeAuthorization E i s))"

definition ListAcmeAuthorizationsByOrder :: "env \<Rightarrow> nat \<Rightarrow> db \<Rightarrow> AcmeAuthorization list stmt" where
  "ListAcmeAuthorizationsByOrder E i = query_row E (\<lambda>s. Inr
     (sort_key z_id (filter (\<lambda>z. z_order_id z = i) (rows (acme_authorizations s)))))"

definition GetAcmeChallenge :: "env \<Rightarrow> nat \<Rightarrow> db \<Rightarrow> AcmeChallenge stmt" where
  "GetAcmeChallenge E i = query_row E (\<lambda>s. select_one (\<lambda>h. h_id h = i) (rows (acme_challenges s)))"

definition CreateAcmeChallenge :: "env \<Rightarrow> AcmeChallenge \<Rightarrow> db \<Rightarrow> AcmeChallenge stmt" where
  "CreateAcmeChallenge E h s =
     (let h' = h\<lparr>h_type := nz (h_type h) ''http-01''\<rparr> in
      attempt (exec_insert E (\<lambda>s. \<exists>z \<in> set (rows (acme_authorizations s)). z_id z = h_authorization_id h')
                 (\<lambda>s. next_id (acme_challenges s))
                 (\<lambda>s. s\<lparr>acme_challenges := insert_row (\<lambda>n. h_id_update (\<lambda>_. n)) h' (acme_challenges s)\<rparr>) s)
        (\<lambda>e s. (Inl e, s)) (\<lambda>i s. GetAcmeChallenge E i s))"

definition ListAcmeChallengesByAuthorization :: "env \<Rightarrow> nat \<Rightarrow> db \<Rightarrow> AcmeChallenge list stmt" where
  "ListAcmeChallengesByAuthorization E i = query_row E (\<lambda>s. Inr
     (sort_key h_id (filter (\<lambda>h. h_authorization_id h = i) (rows (acme_challenges s)))))"


section \<open>Nonces\<close>

definition CreateAcmeNonce :: "env \<Rightarrow> string \<Rightarrow> int \<Rightarrow> db \<Rightarrow> unit stmt" where
  "CreateAcmeNonce E n expires = run E (\<lambda>s.
     if \<exists>x \<in> set (acme_nonces s). n_nonce x = n then (Inl ErrConstraint, s)
     else (Inr (), s\<lparr>acme_nonces := acme_nonces s @ [\<lparr>n_nonce = n, n_expires_at = expires\<rparr>]\<rparr>))"

definition ConsumeAcmeNonce :: "env \<Rightarrow> string \<Rightarrow> int \<Rightarrow> db \<Rightarrow> bool stmt" where
  "ConsumeAcmeNonce E n t s =
     (let p = (\<lambda>x. n_nonce x = n \<and> t < n_expires_at x) in
      attempt (exec_count E (\<lambda>s. affected p (acme_nonces s))
                 (\<lambda>s. s\<lparr>acme_nonces := delete_where p (acme_nonces s)\<rparr>) s)
        (\<lambda>e s. (Inl e, s)) (\<lambda>k s. (Inr (k = 1), s)))"

definition PurgeExpiredAcmeNonces :: "env \<Rightarrow> int \<Rightarrow> db \<Rightarrow> nat stmt" where
  "PurgeExpiredAcmeNonces E t =
     (let p = (\<lambda>x. n_expires_at x \<le> t) in
      exec_count E (\<lambda>s. affected p (acme_nonces s)) (\<lambda>s. s\<lparr>acme_nonces := delete_where p (acme_nonces s)\<rparr>))"

end
