(* ===== verification/Acme_Domain.thy ===== *)
theory Acme_Domain
  imports Go_Path Go_Net Acme_Store
begin

text \<open>
  The name rules of the ACME server (\<open>internal/acme/domain.go\<close>, \<open>internal/acme/policy.go\<close>)
  and its problem documents (\<open>internal/acme/errors.go\<close>): which identifiers are host names, which
  of them a credential may order, and which contacts an account may have.
\<close>


section \<open>Problem documents\<close>

definition errNS :: string where
  "errNS = ''urn:ietf:params:acme:error:''"

definition problem :: "string \<Rightarrow> int \<Rightarrow> Problem" where
  "problem kind status = \<lparr>p_type = errNS @ kind, p_status = status\<rparr>"

definition BadNonce :: Problem where "BadNonce = problem ''badNonce'' 400"
definition Malformed :: Problem where "Malformed = problem ''malformed'' 400"
definition Unauthorized :: Problem where "Unauthorized = problem ''unauthorized'' 401"
definition AccountDoesNotExist :: Problem where "AccountDoesNotExist = problem ''accountDoesNotExist'' 400"
definition RejectedIdentifier :: Problem where "RejectedIdentifier = problem ''rejectedIdentifier'' 400"
definition UnsupportedIdentifier :: Problem where "UnsupportedIdentifier = problem ''unsupportedIdentifier'' 400"
definition OrderNotReady :: Problem where "OrderNotReady = problem ''orderNotReady'' 403"
definition BadCSR :: Problem where "BadCSR = problem ''badCSR'' 400"
definition BadRevocationReason :: Problem where "BadRevocationReason = problem ''badRevocationReason'' 400"
definition AlreadyRevoked :: Problem where "AlreadyRevoked = problem ''alreadyRevoked'' 400"
definition ExternalAccountRequired :: Problem where "ExternalAccountRequired = problem ''externalAccountRequired'' 400"
definition InvalidContact :: Problem where "InvalidContact = problem ''invalidContact'' 400"
definition UnsupportedContact :: Problem where "UnsupportedContact = problem ''unsupportedContact'' 400"
definition ServerInternal :: Problem where "ServerInternal = problem ''serverInternal'' 500"
definition NotFound :: Problem where "NotFound = problem ''malformed'' 404"


section \<open>The scope of a credential\<close>

fun any_pattern :: "string list \<Rightarrow> string \<Rightarrow> bool" where
  "any_pattern [] name = False"
| "any_pattern (p # ps) name =
     (let pat = to_lower (trim_space p) in
      if pat = [] then any_pattern ps name
      else if path_Match pat name = Some True then True
      else any_pattern ps name)"

definition domainAllowed :: "string list \<Rightarrow> string \<Rightarrow> bool" where
  "domainAllowed patterns identifier =
     (if patterns = [] then True
      else any_pattern patterns (to_lower (trim_suffix identifier ''.'')))"

datatype pattern_error = NotAPattern string | MatchesEveryHostname string

text \<open>\<open>strings.Trim(p, "*?.") == ""\<close>.\<close>

definition only_wildcards :: "string \<Rightarrow> bool" where
  "only_wildcards p \<longleftrightarrow> list_all (\<lambda>c. c = CHR ''*'' \<or> c = CHR ''?'' \<or> c = CHR ''.'') p"

definition normal_pattern :: "string \<Rightarrow> string" where
  "normal_pattern raw = to_lower (trim_suffix (trim_space raw) ''.'')"

fun normalize_from :: "string list \<Rightarrow> string list \<Rightarrow> pattern_error + string list" where
  "normalize_from out [] = Inr out"
| "normalize_from out (raw # raws) =
     (let p = normal_pattern raw in
      if p = [] \<or> p \<in> set out then normalize_from out raws
      else if path_Match p [] = None then Inl (NotAPattern raw)
      else if only_wildcards p then Inl (MatchesEveryHostname raw)
      else normalize_from (out @ [p]) raws)"

definition normalizeDomainPatterns :: "string list \<Rightarrow> pattern_error + string list" where
  "normalizeDomainPatterns raws = normalize_from [] raws"

definition describeDomains :: "string list \<Rightarrow> string" where
  "describeDomains ds = (if ds = [] then ''ANY (unrestricted)'' else join_with '','' ds)"


section \<open>Host names\<close>

datatype name_error =
  NameTooLong | IsIPAddress | StarInside | WildcardOverTLD
| EmptyLabel | LabelTooLong string | LabelHyphen string | LabelCharacter string

definition label_char :: "char \<Rightarrow> bool" where
  "label_char r \<longleftrightarrow>
     (97 \<le> (of_char r :: nat) \<and> (of_char r :: nat) \<le> 122) \<or> is_digit r \<or> r = CHR ''-''"

definition validLabel :: "string \<Rightarrow> name_error option" where
  "validLabel l =
     (if l = [] then Some EmptyLabel
      else if 63 < length l then Some (LabelTooLong l)
      else if l ! 0 = CHR ''-'' \<or> l ! (length l - 1) = CHR ''-'' then Some (LabelHyphen l)
      else if \<not> list_all label_char l then Some (LabelCharacter l)
      else None)"

fun validLabels :: "string list \<Rightarrow> name_error option" where
  "validLabels [] = None"
| "validLabels (l # ls) = (case validLabel l of Some e \<Rightarrow> Some e | None \<Rightarrow> validLabels ls)"

definition validDNSIdentifier :: "string \<Rightarrow> name_error option" where
  "validDNSIdentifier v =
     (if 253 < length v then Some NameTooLong
      else if ParseIP v \<noteq> None then Some IsIPAddress
      else
        let (name, wildcard) = cut_prefix v ''*.'' in
        if CHR ''*'' \<in> set name then Some StarInside
        else
          let labels = split_on CHR ''.'' name in
          if wildcard \<and> length labels < 2 then Some WildcardOverTLD
          else validLabels labels)"


section \<open>Contacts\<close>

record url =
  u_scheme :: string
  u_opaque :: string
  u_raw_query :: string

definition is_letter :: "char \<Rightarrow> bool" where
  "is_letter c \<longleftrightarrow> (let n = of_char c :: nat in (97 \<le> n \<and> n \<le> 122) \<or> (65 \<le> n \<and> n \<le> 90))"

text \<open>\<open>getScheme\<close> of \<open>net/url\<close>; \<open>acc\<close> is the part already read, \<open>None\<close> a missing scheme.\<close>

fun getScheme :: "string \<Rightarrow> string \<Rightarrow> (string \<times> string) option" where
  "getScheme acc [] = Some ([], acc)"
| "getScheme acc (c # cs) =
     (if is_letter c then getScheme (acc @ [c]) cs
      else if is_digit c \<or> c = CHR ''+'' \<or> c = CHR ''-'' \<or> c = CHR ''.''
      then (if acc = [] then Some ([], c # cs) else getScheme (acc @ [c]) cs)
      else if c = CHR '':'' then (if acc = [] then None else Some (acc, cs))
      else Some ([], acc @ c # cs))"

definition cut_at :: "char \<Rightarrow> string \<Rightarrow> string \<times> string" where
  "cut_at c s = (takeWhile (\<lambda>x. x \<noteq> c) s, drop 1 (dropWhile (\<lambda>x. x \<noteq> c) s))"

fun escapes_ok :: "string \<Rightarrow> bool" where
  "escapes_ok [] = True"
| "escapes_ok (c # cs) =
     (if c = CHR ''%''
      then (case cs of a # b # rest \<Rightarrow> is_hex a \<and> is_hex b \<and> escapes_ok rest | _ \<Rightarrow> False)
      else escapes_ok cs)"

text \<open>\<open>url.Parse\<close>, as far as contacts need it. A reference that is not \<open>scheme:opaque\<close> has an
  authority and a path, whose syntax is the parameter \<open>hier_ok\<close>; its opaque part is empty.\<close>

definition url_Parse :: "(string \<Rightarrow> bool) \<Rightarrow> string \<Rightarrow> url option" where
  "url_Parse hier_ok raw =
     (let (u, frag) = cut_at CHR ''#'' raw in
      if list_ex (\<lambda>c. (of_char c :: nat) < 32 \<or> (of_char c :: nat) = 127) u then None
      else (case getScheme [] u of
              None \<Rightarrow> None
            | Some (scheme, rest) \<Rightarrow>
                let (rest', query) =
                      (if has_suffix rest ''?'' \<and> count_list rest CHR ''?'' = 1
                       then (butlast rest, []) else cut_at CHR ''?'' rest) in
                if scheme \<noteq> [] \<and> \<not> has_prefix rest' ''/''
                then (if escapes_ok frag
                      then Some \<lparr>u_scheme = to_lower scheme, u_opaque = rest', u_raw_query = query\<rparr>
                      else None)
                else if hier_ok raw
                then Some \<lparr>u_scheme = to_lower scheme, u_opaque = [], u_raw_query = query\<rparr>
                else None))"

fun validContacts :: "(string \<Rightarrow> bool) \<Rightarrow> string list \<Rightarrow> Problem option" where
  "validContacts hier_ok [] = None"
| "validContacts hier_ok (c # cs) =
     (case url_Parse hier_ok c of
        None \<Rightarrow> Some InvalidContact
      | Some u \<Rightarrow>
          if u_scheme u = [] then Some InvalidContact
          else if to_lower (u_scheme u) \<noteq> ''mailto'' then Some UnsupportedContact
          else
            let addr = u_opaque u in
            if u_raw_query u \<noteq> [] \<or> CHR '','' \<in> set addr \<or> count_list addr CHR ''@'' \<noteq> 1 \<or>
               has_prefix addr ''@'' \<or> has_suffix addr ''@''
            then Some InvalidContact
            else validContacts hier_ok cs)"


section \<open>Accepted identifiers are host names\<close>

definition host_label :: "string \<Rightarrow> bool" where
  "host_label l \<longleftrightarrow>
     1 \<le> length l \<and> length l \<le> 63 \<and> (\<forall>c \<in> set l. label_char c) \<and>
     hd l \<noteq> CHR ''-'' \<and> List.last l \<noteq> CHR ''-''"

lemma validLabel_iff: "validLabel l = None \<longleftrightarrow> host_label l"
  by (cases "l = []")
     (auto simp: Suc_le_eq validLabel_def host_label_def list_all_iff hd_conv_nth last_conv_nth)

lemma validLabels_iff: "validLabels ls = None \<longleftrightarrow> (\<forall>l \<in> set ls. host_label l)"
  by (induction ls) (auto simp: validLabel_iff [symmetric] split: option.split)

lemma label_char_facts:
  assumes "label_char c"
  shows "lower_char c = c" and "c \<noteq> CHR ''/''" and "c \<noteq> CHR ''*''" and "c \<noteq> CHR ''.''" and "\<not> is_space c"
proof -
  show "lower_char c = c" using assms by (auto simp: label_char_def is_digit_def lower_char_def)
  show "c \<noteq> CHR ''/''" "c \<noteq> CHR ''*''" "c \<noteq> CHR ''.''" using assms by (auto simp: label_char_def is_digit_def)
  show "\<not> is_space c" using assms by (auto simp: label_char_def is_digit_def is_space_def)
qed

lemma split_on_trailing: "split_on c (r @ [c]) = split_on c r @ [[]]"
  by (induction r) (auto split: list.splits)

lemma host_name_chars:
  assumes "\<forall>l \<in> set (split_on CHR ''.'' name). host_label l" and "c \<in> set name"
  shows "label_char c \<or> c = CHR ''.''"
  using assms set_chars_split_on [of c name "CHR ''.''"] by (auto simp: host_label_def)

lemma host_name_no_trailing_dot:
  assumes "\<forall>l \<in> set (split_on CHR ''.'' name). host_label l"
  shows "name \<noteq> []" and "\<not> has_suffix name ''.''"
  using assms split_on_trailing [of "CHR ''.''"] by (fastforce simp: host_label_def has_suffix_iff)+

text \<open>What the checks accept: labels of a host name, after a wildcard label when it leaves two.\<close>

definition host_name :: "string \<Rightarrow> bool" where
  "host_name name \<longleftrightarrow> (\<forall>l \<in> set (split_on CHR ''.'' name). host_label l)"

definition accepted_name :: "string \<Rightarrow> bool" where
  "accepted_name v \<longleftrightarrow>
     host_name v \<or> (\<exists>name. v = ''*.'' @ name \<and> host_name name \<and> CHR ''.'' \<in> set name)"

lemma split_on_two: "2 \<le> length (split_on c s) \<longleftrightarrow> c \<in> set s"
  by (induction s) (auto split: list.splits)

lemma host_name_no_star: "host_name name \<Longrightarrow> CHR ''*'' \<notin> set name"
  using host_name_chars [of name "CHR ''*''"] label_char_facts(3) by (auto simp: host_name_def)

lemma validDNSIdentifier_accepts:
  "validDNSIdentifier v = None \<longleftrightarrow> length v \<le> 253 \<and> ParseIP v = None \<and> accepted_name v"
proof (cases "has_prefix v ''*.''")
  case True
  then obtain name where v: "v = ''*.'' @ name" by (auto simp: has_prefix_iff)
  have "\<not> host_name v" using host_name_no_star [of v] v by auto
  then have "accepted_name v \<longleftrightarrow> host_name name \<and> CHR ''.'' \<in> set name"
    using v by (auto simp: accepted_name_def)
  moreover have "cut_prefix v ''*.'' = (name, True)" using v by (simp add: cut_prefix_def has_prefix_def)
  ultimately show ?thesis
    using split_on_two [of "CHR ''.''" name] host_name_no_star [of name]
    by (auto simp: validDNSIdentifier_def validLabels_iff host_name_def)
next
  case False
  then have "cut_prefix v ''*.'' = (v, False)" by (simp add: cut_prefix_def)
  moreover have "accepted_name v \<longleftrightarrow> host_name v"
    using False by (auto simp: accepted_name_def has_prefix_def)
  ultimately show ?thesis
    using host_name_no_star [of v]
    by (auto simp: validDNSIdentifier_def validLabels_iff host_name_def)
qed

lemma accepted_name_chars:
  "accepted_name v \<Longrightarrow> c \<in> set v \<Longrightarrow> label_char c \<or> c = CHR ''.'' \<or> c = CHR ''*''"
  using host_name_chars [of v c] host_name_chars [of "drop 2 v" c]
  by (auto simp: accepted_name_def host_name_def)

lemma accepted_name_normal:
  assumes "accepted_name v"
  shows "to_lower v = v" and "trim_suffix v ''.'' = v" and "CHR ''/'' \<notin> set v" and "v \<noteq> []"
proof -
  have chars: "lower_char c = c \<and> c \<noteq> CHR ''/''" if "c \<in> set v" for c
    using accepted_name_chars [OF assms that] label_char_facts [of c]
    by (auto simp: lower_char_def)
  then show "to_lower v = v" "CHR ''/'' \<notin> set v" by (auto simp: to_lower_def intro!: map_idI)
  from assms consider "host_name v" | name where "v = ''*.'' @ name" "host_name name"
    by (auto simp: accepted_name_def)
  then have "v \<noteq> [] \<and> \<not> has_suffix v ''.''"
  proof cases
    case 1
    then show ?thesis using host_name_no_trailing_dot [of v] by (simp add: host_name_def)
  next
    case 2
    then have "name \<noteq> []" "\<not> has_suffix name ''.''"
      using host_name_no_trailing_dot [of name] by (simp_all add: host_name_def)
    with 2 show ?thesis by (cases name rule: rev_cases) (auto simp: has_suffix_iff)
  qed
  then show "trim_suffix v ''.'' = v" "v \<noteq> []" by (simp_all add: trim_suffix_def)
qed


text \<open>(policy.go, validDNSIdentifier and validLabel): an identifier passes the checks exactly when
  it has at most 253 characters, is not an IP address, and is either a sequence of host name labels
  (1 to 63 characters of a-z, 0-9 and '-', no hyphen at either end) or one wildcard label followed by
  at least two such labels.\<close>

theorem validDNSIdentifier_iff:
  "validDNSIdentifier v = None \<longleftrightarrow>
     length v \<le> 253 \<and> ParseIP v = None \<and>
     (\<exists>labels. labels \<noteq> [] \<and> list_all host_label labels \<and>
        (v = join_with ''.'' labels \<or> v = ''*.'' @ join_with ''.'' labels \<and> 2 \<le> length labels))"
proof -
  have split: "split_on CHR ''.'' (join_with ''.'' ls) = ls" if "ls \<noteq> []" "\<forall>l \<in> set ls. host_label l" for ls
    using that label_char_facts(4) by (intro split_on_join) (auto simp: host_label_def)
  have "accepted_name v \<longleftrightarrow>
     (\<exists>labels. labels \<noteq> [] \<and> (\<forall>l \<in> set labels. host_label l) \<and>
        (v = join_with ''.'' labels \<or> v = ''*.'' @ join_with ''.'' labels \<and> 2 \<le> length labels))"
    (is "_ \<longleftrightarrow> ?R")
  proof
    assume "accepted_name v"
    then obtain name where name: "host_name name" "v = name \<or> v = ''*.'' @ name \<and> CHR ''.'' \<in> set name"
      by (auto simp: accepted_name_def)
    then show ?R
      using split_on_two [of "CHR ''.''" name] join_split_on [of "CHR ''.''" name]
      by (intro exI [of _ "split_on CHR ''.'' name"]) (auto simp: host_name_def)
  next
    assume ?R
    then obtain labels where l: "labels \<noteq> []" "\<forall>l \<in> set labels. host_label l"
      and v: "v = join_with ''.'' labels \<or> v = ''*.'' @ join_with ''.'' labels \<and> 2 \<le> length labels" by blast
    then show "accepted_name v"
      using split [OF l] split_on_two [of "CHR ''.''" "join_with ''.'' labels"]
      by (auto simp: accepted_name_def host_name_def)
  qed
  then show ?thesis by (simp add: validDNSIdentifier_accepts list_all_iff)
qed

section \<open>The scope of a credential, on accepted identifiers\<close>

lemma any_pattern_iff:
  "any_pattern ps name \<longleftrightarrow>
     (\<exists>p \<in> set ps. to_lower (trim_space p) \<noteq> [] \<and> path_Match (to_lower (trim_space p)) name = Some True)"
  by (induction ps) (auto simp: Let_def)

lemma domainAllowed_accepted:
  "accepted_name v \<Longrightarrow> domainAllowed ps v \<longleftrightarrow> ps = [] \<or> any_pattern ps v"
  by (simp add: domainAllowed_def accepted_name_normal)

lemma path_Match_True_iff:
  assumes "CHR ''/'' \<notin> set name"
  shows "path_Match p name = Some True \<longleftrightarrow> path_Match p [] \<noteq> None \<and> glob p name"
  using path_Match_error [of p name] path_Match_error [of p "[]"] path_Match_glob_aux [OF assms, of p]
  by (cases "path_Match p name") auto

text \<open>C36 (domain.go, domainAllowed): for an identifier that passed the host name checks, the scope check
  decides membership in the languages of the credential's patterns: some pattern is well formed and its
  chunks occur in the name in order, with any text in place of each star. The search for the first fit
  of every chunk loses no match.\<close>

theorem domainAllowed_glob:
  assumes "validDNSIdentifier v = None"
  shows "domainAllowed ps v \<longleftrightarrow>
     ps = [] \<or>
     (\<exists>p \<in> set ps. to_lower (trim_space p) \<noteq> [] \<and> path_Match (to_lower (trim_space p)) [] \<noteq> None \<and>
        glob (to_lower (trim_space p)) v)"
proof -
  have v: "accepted_name v" using assms by (simp add: validDNSIdentifier_accepts)
  then show ?thesis
    by (simp add: domainAllowed_accepted any_pattern_iff path_Match_True_iff accepted_name_normal)
qed

theorem domainAllowed_glob_witness:
  "validDNSIdentifier ''a.b.svc.internal'' = None \<and>
   domainAllowed [''*.svc.internal''] ''a.b.svc.internal'' \<and>
   glob ''*.svc.internal'' ''a.b.svc.internal''"
proof -
  have ok: "validDNSIdentifier ''a.b.svc.internal'' = None" by code_simp
  have al: "domainAllowed [''*.svc.internal''] ''a.b.svc.internal''" by code_simp
  have norm: "to_lower (trim_space ''*.svc.internal'') = ''*.svc.internal''" by code_simp
  from domainAllowed_glob [OF ok, of "[''*.svc.internal'']"] al norm
  have "glob ''*.svc.internal'' ''a.b.svc.internal''" by simp
  with ok al show ?thesis by simp
qed


text \<open>A pattern without special characters, possibly after one star, and what it matches.\<close>

definition simple_pattern :: "string \<Rightarrow> bool" where
  "simple_pattern p \<longleftrightarrow> plain p \<or> (p \<noteq> [] \<and> hd p = CHR ''*'' \<and> plain (tl p))"

lemma path_Match_plain:
  assumes "plain q" and "q \<noteq> []" and "CHR ''/'' \<notin> set name"
  shows "path_Match q name = Some True \<longleftrightarrow> name = q"
proof -
  have "dropWhile (\<lambda>c. c = CHR ''*'') q = q" "hd q \<noteq> CHR ''*''"
    using assms by (cases q; auto simp: plain_def)+
  then have sc: "scanChunk q = (False, q, [])"
    using assms by (simp add: scanChunk_def scan_plain)
  have wf: "path_Match q [] \<noteq> None"
    using check_rest_step [OF assms(2) sc] matchChunk_plain_ok [OF assms(1)] path_Match_error [of q "[]"]
    by (simp add: check_rest.simps)
  have "glob q name \<longleftrightarrow> name = q"
  proof
    assume "glob q name"
    then show "name = q"
      by cases (use assms(2) sc accepts_plain [OF assms(1)] in auto)
  next
    assume "name = q"
    moreover have "glob q ([] @ q @ [])"
      by (rule glob_chunk [OF assms(2) sc]) (simp_all add: accepts_plain [OF assms(1)])
    ultimately show "glob q name" by simp
  qed
  with path_Match_True_iff [OF assms(3)] wf show ?thesis by simp
qed

lemma path_Match_star:
  assumes "p \<noteq> []" and "hd p = CHR ''*''" and "plain (tl p)" and "CHR ''/'' \<notin> set name"
  shows "path_Match p name = Some True \<longleftrightarrow> has_suffix name (tl p)"
  using assms path_Match_star_plain [OF assms(3,4)] by (cases p) auto

lemma suffix_of_wildcard:
  assumes "has_suffix (''*.'' @ base) q" and "CHR ''*'' \<notin> set q"
  shows "has_suffix (label @ ''.'' @ base) q"
proof -
  obtain r where r: "''*.'' @ base = r @ q" using assms(1) by (auto simp: has_suffix_iff)
  with assms(2) obtain r' where "r = CHR ''*'' # r'" by (cases r) auto
  with r have "label @ ''.'' @ base = (label @ r') @ q" by simp
  then show ?thesis unfolding has_suffix_iff by blast
qed

text \<open>(domain.go, domainAllowed; policy.go, validDNSIdentifier): for a credential whose patterns are
  exact names or a star followed by a fixed text (the documented form \<open>*.zone\<close>), a wildcard identifier
  that is in scope covers only names that are in scope: every host name with one more label in place
  of the star is allowed as well.\<close>

theorem wildcard_stays_in_scope:
  assumes "\<forall>p \<in> set ps. simple_pattern (to_lower (trim_space p))"
    and "validDNSIdentifier (''*.'' @ base) = None" and "host_label label"
    and "domainAllowed ps (''*.'' @ base)"
  shows "domainAllowed ps (label @ ''.'' @ base)"
proof (cases "ps = []")
  case True
  then show ?thesis by (simp add: domainAllowed_def)
next
  case False
  have acc: "accepted_name (''*.'' @ base)" using assms(2) by (simp add: validDNSIdentifier_accepts)
  have "\<not> host_name (''*.'' @ base)" using host_name_no_star [of "''*.'' @ base"] by auto
  with acc have base: "host_name base" by (auto simp: accepted_name_def)
  let ?v = "label @ ''.'' @ base"
  have "CHR ''.'' \<notin> set label" using assms(3) label_char_facts(4) by (auto simp: host_label_def)
  then have "split_on CHR ''.'' ?v = label # split_on CHR ''.'' base"
    by (simp add: split_on_append_sep)
  with base assms(3) have v: "accepted_name ?v"
    by (simp add: accepted_name_def host_name_def)
  obtain p where p: "p \<in> set ps" "to_lower (trim_space p) \<noteq> []"
    "path_Match (to_lower (trim_space p)) (''*.'' @ base) = Some True"
    using assms(4) False domainAllowed_accepted [OF acc] by (auto simp: any_pattern_iff)
  let ?p = "to_lower (trim_space p)"
  have "\<not> plain ?p"
  proof
    assume pl: "plain ?p"
    with path_Match_plain [OF pl p(2)] p(3) accepted_name_normal(3) [OF acc]
    have "?p = ''*.'' @ base" by simp
    with pl show False by (simp add: plain_def)
  qed
  with assms(1) p(1) have star: "hd ?p = CHR ''*''" "plain (tl ?p)"
    by (auto simp: simple_pattern_def)
  have "has_suffix (''*.'' @ base) (tl ?p)"
    using path_Match_star [OF p(2) star] p(3) accepted_name_normal(3) [OF acc] by simp
  then have "has_suffix ?v (tl ?p)"
    using suffix_of_wildcard star(2) by (simp add: plain_def)
  then have "path_Match ?p ?v = Some True"
    using path_Match_star [OF p(2) star] accepted_name_normal(3) [OF v] by simp
  with p show ?thesis unfolding domainAllowed_accepted [OF v] any_pattern_iff by blast
qed

theorem wildcard_stays_in_scope_witness:
  "domainAllowed [''*.cluster-a.internal''] ''foo.cluster-a.internal''"
proof -
  have "domainAllowed [''*.cluster-a.internal''] (''foo'' @ ''.'' @ ''cluster-a.internal'')"
    by (rule wildcard_stays_in_scope) (code_simp, code_simp, code_simp, code_simp)
  then show ?thesis by simp
qed

text \<open>(domain.go, domainAllowed; policy.go, validDNSIdentifier): the last property does not extend to
  the other patterns the code accepts. A question mark stands for one character of a name, and the
  star of a wildcard identifier is one character: the pattern \<open>?.example.com\<close> refuses
  \<open>ab.example.com\<close> and allows \<open>*.example.com\<close>, whose certificate is valid for that name.\<close>

theorem wildcard_escapes_scope:
  "normalizeDomainPatterns [''?.example.com''] = Inr [''?.example.com''] \<and>
   validDNSIdentifier ''*.example.com'' = None \<and>
   domainAllowed [''?.example.com''] ''*.example.com'' \<and>
   validDNSIdentifier ''ab.example.com'' = None \<and>
   \<not> domainAllowed [''?.example.com''] ''ab.example.com''"
  by code_simp


section \<open>Patterns of a new credential\<close>

definition bad_pattern :: "string \<Rightarrow> bool" where
  "bad_pattern p \<longleftrightarrow> p \<noteq> [] \<and> (path_Match p [] = None \<or> only_wildcards p)"

lemma normalize_from_ok:
  "normalize_from out raws = Inr ds \<Longrightarrow> distinct out \<Longrightarrow>
     distinct ds \<and> set ds = set out \<union> (normal_pattern ` set raws - {[]}) \<and>
     (\<forall>p \<in> normal_pattern ` set raws - set out. \<not> bad_pattern p)"
proof (induction raws arbitrary: out)
  case Nil
  then show ?case by simp
next
  case (Cons raw raws)
  let ?p = "normal_pattern raw"
  show ?case
  proof (cases "?p = [] \<or> ?p \<in> set out")
    case True
    with Cons.prems Cons.IH [of out] show ?thesis by (auto simp: Let_def bad_pattern_def)
  next
    case False
    with Cons.prems have "normalize_from (out @ [?p]) raws = Inr ds" "\<not> bad_pattern ?p"
      by (auto simp: Let_def bad_pattern_def split: if_splits)
    with Cons.IH [of "out @ [?p]"] Cons.prems(2) False show ?thesis by auto
  qed
qed

lemma normalize_from_error:
  "normalize_from out raws = Inl e \<Longrightarrow> \<exists>raw \<in> set raws. bad_pattern (normal_pattern raw)"
proof (induction raws arbitrary: out)
  case Nil
  then show ?case by simp
next
  case (Cons raw raws)
  then show ?case by (auto simp: Let_def bad_pattern_def split: if_splits)
qed

text \<open>(domain.go, normalizeDomainPatterns): the patterns of a credential are stored only when none of
  them is malformed or made of wildcards alone, and then each is stored once, trimmed and in lower
  case; matching a stored pattern reports no error for any name.\<close>

theorem normalizeDomainPatterns_iff:
  "(case normalizeDomainPatterns raws of
      Inl e \<Rightarrow> \<exists>raw \<in> set raws. bad_pattern (normal_pattern raw)
    | Inr ds \<Rightarrow>
        distinct ds \<and> set ds = normal_pattern ` set raws - {[]} \<and>
        (\<forall>raw \<in> set raws. \<not> bad_pattern (normal_pattern raw)) \<and>
        (\<forall>p \<in> set ds. \<forall>name. path_Match p name \<noteq> None))"
proof (cases "normalizeDomainPatterns raws")
  case (Inl e)
  with normalize_from_error show ?thesis by (simp add: normalizeDomainPatterns_def)
next
  case (Inr ds)
  with normalize_from_ok [of "[]" raws ds]
  have *: "distinct ds" "set ds = normal_pattern ` set raws - {[]}"
    "\<forall>raw \<in> set raws. \<not> bad_pattern (normal_pattern raw)"
    by (auto simp: normalizeDomainPatterns_def)
  have "path_Match p name \<noteq> None" if "p \<in> set ds" for p name
    using that * path_Match_error [of p name] path_Match_error [of p "[]"]
    by (auto simp: bad_pattern_def)
  with * Inr show ?thesis by simp
qed

theorem normalizeDomainPatterns_iff_witness:
  "normalizeDomainPatterns ['' *.Zone. '', ''*.zone'', ''api.zone''] = Inr [''*.zone'', ''api.zone''] \<and>
   path_Match ''*.zone'' ''a]b'' \<noteq> None"
proof -
  have *: "normalizeDomainPatterns ['' *.Zone. '', ''*.zone'', ''api.zone''] = Inr [''*.zone'', ''api.zone'']"
    by code_simp
  note all = normalizeDomainPatterns_iff [of "['' *.Zone. '', ''*.zone'', ''api.zone'']", unfolded *, unfolded sum.case]
  show ?thesis by (intro conjI * all [THEN conjunct2, THEN conjunct2, THEN conjunct2, THEN bspec, THEN spec]) simp
qed

end
