(* ===== verification/Secret.thy ===== *)
theory Secret
  imports Prelude
begin

text \<open>
  \<open>internal/secret/secret.go\<close>: the box that encrypts private keys and HMAC keys for storage, and
  the base64 encodings of the Go standard library it and the ACME server use. AES-GCM itself is a
  parameter (\<open>aead\<close>); what the box needs of it is the hypothesis that opening a sealed text with the
  same nonce returns the text.
\<close>


section \<open>Base64\<close>

definition alnum64 :: string where
  "alnum64 = ''ABCDEFGHIJKLMNOPQRSTUVWXYZabcdefghijklmnopqrstuvwxyz0123456789''"

definition std64 :: string where "std64 = alnum64 @ ''+/''"
definition url64 :: string where "url64 = alnum64 @ ''-_''"

fun index_of :: "char \<Rightarrow> string \<Rightarrow> nat option" where
  "index_of c [] = None"
| "index_of c (x # xs) = (if c = x then Some 0 else map_option Suc (index_of c xs))"

definition byte :: "nat \<Rightarrow> char" where
  "byte n = char_of n"

definition val :: "char \<Rightarrow> nat" where
  "val c = of_char c"

text \<open>\<open>pad\<close> is the padding character of the standard encoding; the raw encodings have none.\<close>

fun b64_encode :: "string \<Rightarrow> char option \<Rightarrow> string \<Rightarrow> string" where
  "b64_encode al pad [] = []"
| "b64_encode al pad [a] =
     [al ! (val a div 4), al ! (val a mod 4 * 16)] @
     (case pad of None \<Rightarrow> [] | Some p \<Rightarrow> [p, p])"
| "b64_encode al pad [a, b] =
     [al ! (val a div 4), al ! (val a mod 4 * 16 + val b div 16), al ! (val b mod 16 * 4)] @
     (case pad of None \<Rightarrow> [] | Some p \<Rightarrow> [p])"
| "b64_encode al pad (a # b # c # rest) =
     al ! (val a div 4) # al ! (val a mod 4 * 16 + val b div 16) #
     al ! (val b mod 16 * 4 + val c div 64) # al ! (val c mod 64) # b64_encode al pad rest"

definition dec2 :: "string \<Rightarrow> char \<Rightarrow> char \<Rightarrow> string option" where
  "dec2 al p q =
     (case (index_of p al, index_of q al) of
        (Some i, Some j) \<Rightarrow> Some [byte (i * 4 + j div 16)]
      | _ \<Rightarrow> None)"

definition dec3 :: "string \<Rightarrow> char \<Rightarrow> char \<Rightarrow> char \<Rightarrow> string option" where
  "dec3 al p q r =
     (case (index_of p al, index_of q al, index_of r al) of
        (Some i, Some j, Some k) \<Rightarrow> Some [byte (i * 4 + j div 16), byte (j mod 16 * 16 + k div 4)]
      | _ \<Rightarrow> None)"

definition dec4 :: "string \<Rightarrow> char \<Rightarrow> char \<Rightarrow> char \<Rightarrow> char \<Rightarrow> string option" where
  "dec4 al p q r s =
     (case (index_of p al, index_of q al, index_of r al, index_of s al) of
        (Some i, Some j, Some k, Some l) \<Rightarrow>
          Some [byte (i * 4 + j div 16), byte (j mod 16 * 16 + k div 4), byte (k mod 4 * 64 + l)]
      | _ \<Rightarrow> None)"

fun b64_quanta :: "string \<Rightarrow> char option \<Rightarrow> string \<Rightarrow> string option" where
  "b64_quanta al pad [] = Some []"
| "b64_quanta al pad [p] = None"
| "b64_quanta al pad [p, q] = (if pad = None then dec2 al p q else None)"
| "b64_quanta al pad [p, q, r] = (if pad = None then dec3 al p q r else None)"
| "b64_quanta al pad (p # q # r # s # rest) =
     (if pad = Some s
      then (if rest \<noteq> [] then None else if pad = Some r then dec2 al p q else dec3 al p q r)
      else (case dec4 al p q r s of
              None \<Rightarrow> None
            | Some bs \<Rightarrow> map_option (\<lambda>t. bs @ t) (b64_quanta al pad rest)))"

text \<open>The decoder ignores line ends.\<close>

definition b64_decode :: "string \<Rightarrow> char option \<Rightarrow> string \<Rightarrow> string option" where
  "b64_decode al pad s =
     b64_quanta al pad (filter (\<lambda>c. c \<noteq> CHR 0x0A \<and> c \<noteq> CHR 0x0D) s)"

definition StdEncode :: "string \<Rightarrow> string" where "StdEncode = b64_encode std64 (Some CHR ''='')"
definition StdDecode :: "string \<Rightarrow> string option" where "StdDecode = b64_decode std64 (Some CHR ''='')"
definition RawURLEncode :: "string \<Rightarrow> string" where "RawURLEncode = b64_encode url64 None"
definition RawURLDecode :: "string \<Rightarrow> string option" where "RawURLDecode = b64_decode url64 None"


section \<open>Decoding an encoded text\<close>

text \<open>What the proofs need of an alphabet: 64 different characters, none of them a line end or the
  padding.\<close>

definition alphabet :: "string \<Rightarrow> char option \<Rightarrow> bool" where
  "alphabet al pad \<longleftrightarrow> length al = 64 \<and> distinct al \<and> CHR 0x0A \<notin> set al \<and> CHR 0x0D \<notin> set al \<and>
     pad \<notin> Some ` set al \<and> pad \<noteq> Some (CHR 0x0A) \<and> pad \<noteq> Some (CHR 0x0D)"

lemma alphabet_std: "alphabet std64 (Some CHR ''='')"
  unfolding alphabet_def std64_def alnum64_def by simp

lemma alphabet_url: "alphabet url64 None"
  unfolding alphabet_def url64_def alnum64_def by simp

lemma index_of_nth: "distinct al \<Longrightarrow> n < length al \<Longrightarrow> index_of (al ! n) al = Some n"
proof (induction al arbitrary: n)
  case Nil
  then show ?case by simp
next
  case (Cons x al)
  then show ?case by (cases n) auto
qed

lemma val_less: "val c < 256"
  by (simp add: val_def)

lemma sextets:
  "val a div 4 < 64" "val a mod 4 * 16 < 64" "val a mod 4 * 16 + val b div 16 < 64"
  "val b mod 16 * 4 < 64" "val b mod 16 * 4 + val c div 64 < 64" "val c mod 64 < 64"
  using val_less [of a] val_less [of b] val_less [of c] by linarith+

lemma byte_val [simp]: "byte (val c) = c"
  by (simp add: byte_def val_def)

lemma regroup:
  "val a div 4 * 4 + (val a mod 4 * 16 + val b div 16) div 16 = val a"
  "val a div 4 * 4 + (val a mod 4 * 16) div 16 = val a"
  "(val a mod 4 * 16 + val b div 16) mod 16 * 16 + (val b mod 16 * 4 + val c div 64) div 4 = val b"
  "(val a mod 4 * 16 + val b div 16) mod 16 * 16 + (val b mod 16 * 4) div 4 = val b"
  "(val b mod 16 * 4 + val c div 64) mod 4 * 64 + val c mod 64 = val c"
proof -
  have "val b div 16 < 16" "val c div 64 < 4" using val_less [of b] val_less [of c] by linarith+
  then show "val a div 4 * 4 + (val a mod 4 * 16 + val b div 16) div 16 = val a"
    "val a div 4 * 4 + (val a mod 4 * 16) div 16 = val a"
    "(val a mod 4 * 16 + val b div 16) mod 16 * 16 + (val b mod 16 * 4 + val c div 64) div 4 = val b"
    "(val a mod 4 * 16 + val b div 16) mod 16 * 16 + (val b mod 16 * 4) div 4 = val b"
    "(val b mod 16 * 4 + val c div 64) mod 4 * 64 + val c mod 64 = val c"
    by simp_all
qed

lemma dec_encoded:
  assumes "alphabet al pad"
  shows "dec2 al (al ! (val a div 4)) (al ! (val a mod 4 * 16)) = Some [a]"
    and "dec3 al (al ! (val a div 4)) (al ! (val a mod 4 * 16 + val b div 16)) (al ! (val b mod 16 * 4)) = Some [a, b]"
    and "dec4 al (al ! (val a div 4)) (al ! (val a mod 4 * 16 + val b div 16))
           (al ! (val b mod 16 * 4 + val c div 64)) (al ! (val c mod 64)) = Some [a, b, c]"
proof -
  have idx: "index_of (al ! n) al = Some n" if "n < 64" for n
    using assms that by (simp add: alphabet_def index_of_nth)
  note index = idx [OF sextets(1)] idx [OF sextets(2)] idx [OF sextets(3)] idx [OF sextets(4)]
    idx [OF sextets(5)] idx [OF sextets(6)]
  note * = dec2_def dec3_def dec4_def index prod.case option.case regroup byte_val
  show "dec2 al (al ! (val a div 4)) (al ! (val a mod 4 * 16)) = Some [a]"
    "dec3 al (al ! (val a div 4)) (al ! (val a mod 4 * 16 + val b div 16)) (al ! (val b mod 16 * 4)) = Some [a, b]"
    "dec4 al (al ! (val a div 4)) (al ! (val a mod 4 * 16 + val b div 16))
           (al ! (val b mod 16 * 4 + val c div 64)) (al ! (val c mod 64)) = Some [a, b, c]"
    by (simp_all only: *)
qed

lemma pad_not_in: "alphabet al pad \<Longrightarrow> n < 64 \<Longrightarrow> pad \<noteq> Some (al ! n)"
  by (auto simp: alphabet_def image_iff)

lemma quanta_encode: "alphabet al pad \<Longrightarrow> b64_quanta al pad (b64_encode al pad s) = Some s"
  by (induction al pad s rule: b64_encode.induct)
     (auto simp: dec_encoded pad_not_in sextets split: option.split)

lemma nth_no_line_end: "alphabet al pad \<Longrightarrow> n < 64 \<Longrightarrow> al ! n \<noteq> CHR 0x0A \<and> al ! n \<noteq> CHR 0x0D"
  unfolding alphabet_def by (metis nth_mem)

lemma encode_no_line_ends:
  assumes "alphabet al pad"
  shows "c \<in> set (b64_encode al pad s) \<Longrightarrow> c \<noteq> CHR 0x0A \<and> c \<noteq> CHR 0x0D"
proof -
  note no = sextets [THEN nth_no_line_end [OF assms]]
  have pad: "pad \<noteq> Some (CHR 0x0A)" "pad \<noteq> Some (CHR 0x0D)" using assms by (simp_all add: alphabet_def)
  show "c \<in> set (b64_encode al pad s) \<Longrightarrow> c \<noteq> CHR 0x0A \<and> c \<noteq> CHR 0x0D"
    using pad no by (induction al pad s rule: b64_encode.induct) (auto split: option.splits)
qed

lemma b64_round_trip:
  assumes "alphabet al pad"
  shows "b64_decode al pad (b64_encode al pad s) = Some s"
proof -
  have "filter (\<lambda>c. c \<noteq> CHR 0x0A \<and> c \<noteq> CHR 0x0D) (b64_encode al pad s) = b64_encode al pad s"
    using encode_no_line_ends [OF assms] by (auto simp: filter_id_conv)
  with quanta_encode [OF assms] show ?thesis by (simp add: b64_decode_def)
qed

lemma StdDecode_StdEncode [simp]: "StdDecode (StdEncode s) = Some s"
  unfolding StdDecode_def StdEncode_def by (rule b64_round_trip [OF alphabet_std])

lemma RawURLDecode_RawURLEncode [simp]: "RawURLDecode (RawURLEncode s) = Some s"
  unfolding RawURLDecode_def RawURLEncode_def by (rule b64_round_trip [OF alphabet_url])


section \<open>The box\<close>

record aead =
  aead_nonce_size :: nat
  aead_seal :: "string \<Rightarrow> string \<Rightarrow> string"
  aead_open :: "string \<Rightarrow> string \<Rightarrow> string option"

datatype box_error = RandFailed | DecodeCiphertext | CiphertextTooShort | DecryptFailed

definition Prefix :: string where "Prefix = ''enc:v1:''"

text \<open>The nonce is what \<open>rand.Read\<close> returns, \<open>None\<close> when it fails.\<close>

definition Encrypt :: "aead \<Rightarrow> string option \<Rightarrow> string \<Rightarrow> box_error + string" where
  "Encrypt A rnd plaintext =
     (if plaintext = [] then Inr []
      else (case rnd of
              None \<Rightarrow> Inl RandFailed
            | Some nonce \<Rightarrow> Inr (Prefix @ StdEncode (nonce @ aead_seal A nonce plaintext))))"

definition Decrypt :: "aead \<Rightarrow> string \<Rightarrow> box_error + string" where
  "Decrypt A value =
     (if value = [] then Inr []
      else if \<not> has_prefix value Prefix then Inr value
      else (case StdDecode (drop (length Prefix) value) of
              None \<Rightarrow> Inl DecodeCiphertext
            | Some raw \<Rightarrow>
                if length raw < aead_nonce_size A then Inl CiphertextTooShort
                else (case aead_open A (take (aead_nonce_size A) raw) (drop (aead_nonce_size A) raw) of
                        None \<Rightarrow> Inl DecryptFailed
                      | Some pt \<Rightarrow> Inr pt)))"

definition IsEncrypted :: "string \<Rightarrow> bool" where
  "IsEncrypted value \<longleftrightarrow> has_prefix value Prefix"

definition opens_sealed :: "aead \<Rightarrow> bool" where
  "opens_sealed A \<longleftrightarrow> (\<forall>n p. length n = aead_nonce_size A \<longrightarrow> aead_open A n (aead_seal A n p) = Some p)"

lemma Encrypt_opens:
  assumes "opens_sealed A" and "length nonce = aead_nonce_size A" and "Encrypt A (Some nonce) plaintext = Inr v"
  shows "Decrypt A v = Inr plaintext" and "plaintext \<noteq> [] \<Longrightarrow> IsEncrypted v"
proof -
  show "Decrypt A v = Inr plaintext"
  proof (cases "plaintext = []")
    case True
    then show ?thesis using assms(3) by (simp add: Encrypt_def Decrypt_def)
  next
    case False
    let ?v = "Prefix @ StdEncode (nonce @ aead_seal A nonce plaintext)"
    have "?v \<noteq> []" by (simp add: Prefix_def)
    then have "Decrypt A ?v = Inr plaintext"
      using assms(1,2) by (simp add: Decrypt_def opens_sealed_def del: append_is_Nil_conv)
    with False assms(3) show ?thesis by (simp add: Encrypt_def)
  qed
qed (use assms(3) in \<open>auto simp: Encrypt_def IsEncrypted_def\<close>)

text \<open>(secret.go, Encrypt and Decrypt): decrypting an encrypted value returns the plaintext, for every
  plaintext and every nonce of the cipher's size, when the cipher opens what it sealed. A non-empty
  plaintext is never stored as it is.\<close>

theorem Decrypt_Encrypt:
  assumes "opens_sealed A" and "length nonce = aead_nonce_size A"
  shows "\<exists>v. Encrypt A (Some nonce) plaintext = Inr v \<and> Decrypt A v = Inr plaintext \<and>
             (plaintext \<noteq> [] \<longrightarrow> IsEncrypted v)"
proof -
  have "\<exists>v. Encrypt A (Some nonce) plaintext = Inr v" by (simp add: Encrypt_def)
  then show ?thesis using Encrypt_opens [OF assms] by blast
qed

definition demo_aead :: aead where
  "demo_aead = \<lparr>aead_nonce_size = 2, aead_seal = (\<lambda>n p. rev p @ n),
     aead_open = (\<lambda>n c. if drop (length c - 2) c = n then Some (rev (take (length c - 2) c)) else None)\<rparr>"

theorem Decrypt_Encrypt_witness:
  "\<exists>v. Encrypt demo_aead (Some ''xy'') ''key'' = Inr v \<and> Decrypt demo_aead v = Inr ''key'' \<and>
       IsEncrypted v"
  using Decrypt_Encrypt [of demo_aead "''xy''" "''key''"] by (auto simp: demo_aead_def opens_sealed_def)

end
