(* ===== verification/Pki.thy ===== *)
theory Pki
  imports Go_Net Secret
begin

text \<open>
  \<open>internal/pki\<close>: profiles and key types, distinguished names and alternative names, serial
  numbers and revocation reasons, and the operations that create authorities, requests, certificates
  and revocation lists (\<open>ca.go\<close>, \<open>csr.go\<close>, \<open>crl.go\<close>, \<open>keys.go\<close>, \<open>subject.go\<close>).

  A key is its algorithm, its size and the identity of the pair. The cryptographic library
  (\<open>crypto/x509\<close>, the random source, PEM and DER) is the record \<open>crypto\<close>, an argument of every
  operation that uses it; randomness is a function of a counter, and the clock is an argument.
\<close>


section \<open>Keys\<close>

type_synonym KeyType = string

datatype curve = P256 | P384 | P521 | OtherCurve

datatype private_key = RSAKey nat string | ECKey curve string | EdKey string | OtherKey string
datatype public_key = RSAPub nat string | ECPub curve string | EdPub string | OtherPub string

definition KeyRSA2048 :: KeyType where "KeyRSA2048 = ''rsa-2048''"
definition KeyRSA3072 :: KeyType where "KeyRSA3072 = ''rsa-3072''"
definition KeyRSA4096 :: KeyType where "KeyRSA4096 = ''rsa-4096''"
definition KeyECP256 :: KeyType where "KeyECP256 = ''ec-p256''"
definition KeyECP384 :: KeyType where "KeyECP384 = ''ec-p384''"
definition KeyECP521 :: KeyType where "KeyECP521 = ''ec-p521''"
definition KeyEd25519 :: KeyType where "KeyEd25519 = ''ed25519''"

definition KeyTypes :: "KeyType list" where
  "KeyTypes = [KeyRSA2048, KeyRSA3072, KeyRSA4096, KeyECP256, KeyECP384, KeyECP521, KeyEd25519]"

datatype pki_error =
  CommonNameRequired | BadCountry string | BadEmail string | UnsupportedKeyType string
| UnknownProfile string | UnknownReason string | UnsupportedKey | NoSigner | RandomFailed
| ParentKeyRequired | OutrunsParent | CreateFailed | ParseFailed | NoKeyInPEM | EncryptedKey
| NoCertificateInPEM | NotACSR string | BadCSRSignature | KeyMismatch | InvalidIPSAN string
| InvalidURISAN string | IssuerNotCA | IssuerExpired | OutrunsIssuer | BadSerial string

definition ParseKeyType :: "string \<Rightarrow> pki_error + KeyType" where
  "ParseKeyType s =
     (let n = map (\<lambda>c. if c = CHR '' '' \<or> c = CHR ''_'' then CHR ''-'' else c) (to_lower (trim_space s)) in
      if n \<in> {[], ''default'', ''rsa'', ''rsa-2048'', ''rsa2048''} then Inr KeyRSA2048
      else if n \<in> {''rsa-3072'', ''rsa3072''} then Inr KeyRSA3072
      else if n \<in> {''rsa-4096'', ''rsa4096''} then Inr KeyRSA4096
      else if n \<in> {''ec'', ''ecdsa'', ''ec-p256'', ''ecp256'', ''p-256'', ''p256'', ''prime256v1'', ''secp256r1''}
      then Inr KeyECP256
      else if n \<in> {''ec-p384'', ''ecp384'', ''p-384'', ''p384'', ''secp384r1''} then Inr KeyECP384
      else if n \<in> {''ec-p521'', ''ecp521'', ''p-521'', ''p521'', ''secp521r1''} then Inr KeyECP521
      else if n \<in> {''ed25519'', ''ed-25519''} then Inr KeyEd25519
      else Inl (UnsupportedKeyType s))"

text \<open>\<open>fresh\<close> is the identity of the pair the random source yields.\<close>

definition GenerateKey :: "string option \<Rightarrow> KeyType \<Rightarrow> pki_error + private_key" where
  "GenerateKey fresh kt =
     (case fresh of
        None \<Rightarrow> Inl RandomFailed
      | Some i \<Rightarrow>
          if kt = KeyRSA2048 then Inr (RSAKey 2048 i)
          else if kt = KeyRSA3072 then Inr (RSAKey 3072 i)
          else if kt = KeyRSA4096 then Inr (RSAKey 4096 i)
          else if kt = KeyECP256 then Inr (ECKey P256 i)
          else if kt = KeyECP384 then Inr (ECKey P384 i)
          else if kt = KeyECP521 then Inr (ECKey P521 i)
          else if kt = KeyEd25519 then Inr (EdKey i)
          else Inl (UnsupportedKeyType kt))"

definition PublicKeyOf :: "private_key \<Rightarrow> pki_error + public_key" where
  "PublicKeyOf k =
     (case k of
        RSAKey b i \<Rightarrow> Inr (RSAPub b i)
      | ECKey c i \<Rightarrow> Inr (ECPub c i)
      | EdKey i \<Rightarrow> Inr (EdPub i)
      | OtherKey _ \<Rightarrow> Inl UnsupportedKey)"

definition rsaKeyType :: "nat \<Rightarrow> KeyType" where
  "rsaKeyType bits =
     (if 4096 \<le> bits then KeyRSA4096
      else if 3072 \<le> bits then KeyRSA3072
      else ''rsa-'' @ string_of_nat bits)"

definition ecKeyType :: "curve \<Rightarrow> KeyType" where
  "ecKeyType c =
     (case c of P256 \<Rightarrow> KeyECP256 | P384 \<Rightarrow> KeyECP384 | P521 \<Rightarrow> KeyECP521 | OtherCurve \<Rightarrow> ''ec-unknown'')"

definition KeyTypeOf :: "public_key \<Rightarrow> KeyType" where
  "KeyTypeOf k =
     (case k of
        RSAPub b _ \<Rightarrow> rsaKeyType b
      | ECPub c _ \<Rightarrow> ecKeyType c
      | EdPub _ \<Rightarrow> KeyEd25519
      | OtherPub _ \<Rightarrow> ''unknown'')"

datatype sig_alg =
  SHA256WithRSA | SHA384WithRSA | SHA512WithRSA
| ECDSAWithSHA256 | ECDSAWithSHA384 | ECDSAWithSHA512 | PureEd25519 | UnknownSignatureAlgorithm

definition signatureAlgorithmFor :: "private_key \<Rightarrow> sig_alg" where
  "signatureAlgorithmFor k =
     (case k of
        RSAKey b _ \<Rightarrow> if 4096 \<le> b then SHA512WithRSA else if 3072 \<le> b then SHA384WithRSA else SHA256WithRSA
      | ECKey c _ \<Rightarrow> (case c of P521 \<Rightarrow> ECDSAWithSHA512 | P384 \<Rightarrow> ECDSAWithSHA384 | _ \<Rightarrow> ECDSAWithSHA256)
      | EdKey _ \<Rightarrow> PureEd25519
      | OtherKey _ \<Rightarrow> UnknownSignatureAlgorithm)"

text \<open>Every private key type the code produces implements \<open>crypto.Signer\<close>.\<close>

definition is_signer :: "private_key \<Rightarrow> bool" where
  "is_signer k = (case k of OtherKey _ \<Rightarrow> False | _ \<Rightarrow> True)"

definition samePublicKey :: "public_key \<Rightarrow> public_key \<Rightarrow> pki_error option" where
  "samePublicKey a b =
     (case a of OtherPub _ \<Rightarrow> Some UnsupportedKey | _ \<Rightarrow> if a = b then None else Some KeyMismatch)"


section \<open>Profiles\<close>

datatype Profile =
  ProfileServer | ProfileClient | ProfileServerCli | ProfileCodeSign | ProfileEmail | ProfileIntermCA

primrec profile_name :: "Profile \<Rightarrow> string" where
  "profile_name ProfileServer = ''server''"
| "profile_name ProfileClient = ''client''"
| "profile_name ProfileServerCli = ''server-client''"
| "profile_name ProfileCodeSign = ''code-signing''"
| "profile_name ProfileEmail = ''email''"
| "profile_name ProfileIntermCA = ''intermediate-ca''"

definition ParseProfile :: "string \<Rightarrow> pki_error + Profile" where
  "ParseProfile s =
     (let p = to_lower (trim_space s) in
      if p = [] then Inr ProfileServer
      else if p = ''server'' then Inr ProfileServer
      else if p = ''client'' then Inr ProfileClient
      else if p = ''server-client'' then Inr ProfileServerCli
      else if p = ''code-signing'' then Inr ProfileCodeSign
      else if p = ''email'' then Inr ProfileEmail
      else if p = ''intermediate-ca'' then Inr ProfileIntermCA
      else if p \<in> {''both'', ''server+client'', ''serverclient''} then Inr ProfileServerCli
      else Inl (UnknownProfile s))"

datatype key_usage = DigitalSignature | KeyEncipherment | CertSign | CRLSign
datatype ext_key_usage = ServerAuth | ClientAuth | CodeSigning | EmailProtection

primrec usages :: "Profile \<Rightarrow> key_usage list \<times> ext_key_usage list" where
  "usages ProfileClient = ([DigitalSignature, KeyEncipherment], [ClientAuth])"
| "usages ProfileServerCli = ([DigitalSignature, KeyEncipherment], [ServerAuth, ClientAuth])"
| "usages ProfileCodeSign = ([DigitalSignature], [CodeSigning])"
| "usages ProfileEmail = ([DigitalSignature, KeyEncipherment], [EmailProtection])"
| "usages ProfileServer = ([DigitalSignature, KeyEncipherment], [ServerAuth])"
| "usages ProfileIntermCA = ([DigitalSignature, KeyEncipherment], [ServerAuth])"


section \<open>Names\<close>

record Subject =
  CommonName :: string
  Organization :: string
  OrganizationalUnit :: string
  Country :: string
  Province :: string
  Locality :: string
  StreetAddress :: string
  PostalCode :: string
  EmailAddress :: string

text \<open>\<open>pkix.Name\<close> without its \<open>SerialNumber\<close>, which this code neither sets nor reads.\<close>

record pkix_name =
  pn_cn :: string
  pn_o :: "string list"
  pn_ou :: "string list"
  pn_c :: "string list"
  pn_st :: "string list"
  pn_l :: "string list"
  pn_street :: "string list"
  pn_postal :: "string list"

definition to_upper :: "string \<Rightarrow> string" where
  "to_upper s = map (\<lambda>c. if 97 \<le> (of_char c :: nat) \<and> (of_char c :: nat) \<le> 122
                         then char_of ((of_char c :: nat) - 32) else c) s"

definition add_value :: "string \<Rightarrow> string list" where
  "add_value v = (if trim_space v = [] then [] else [trim_space v])"

definition PKIX :: "Subject \<Rightarrow> pkix_name" where
  "PKIX s =
     \<lparr>pn_cn = trim_space (CommonName s),
      pn_o = add_value (Organization s),
      pn_ou = add_value (OrganizationalUnit s),
      pn_c = add_value (to_upper (Country s)),
      pn_st = add_value (Province s),
      pn_l = add_value (Locality s),
      pn_street = add_value (StreetAddress s),
      pn_postal = add_value (PostalCode s)\<rparr>"

definition first_value :: "string list \<Rightarrow> string" where
  "first_value v = (case v of [] \<Rightarrow> [] | x # _ \<Rightarrow> x)"

definition SubjectFromPKIX :: "pkix_name \<Rightarrow> Subject" where
  "SubjectFromPKIX n =
     \<lparr>CommonName = pn_cn n, Organization = first_value (pn_o n),
      OrganizationalUnit = first_value (pn_ou n), Country = first_value (pn_c n),
      Province = first_value (pn_st n), Locality = first_value (pn_l n),
      StreetAddress = first_value (pn_street n), PostalCode = first_value (pn_postal n),
      EmailAddress = []\<rparr>"

text \<open>\<open>mail_ok\<close> is \<open>mail.ParseAddress\<close>.\<close>

definition Validate :: "(string \<Rightarrow> bool) \<Rightarrow> Subject \<Rightarrow> pki_error option" where
  "Validate mail_ok s =
     (if trim_space (CommonName s) = [] then Some CommonNameRequired
      else if trim_space (Country s) \<noteq> [] \<and> length (trim_space (Country s)) \<noteq> 2
      then Some (BadCountry (trim_space (Country s)))
      else if trim_space (EmailAddress s) \<noteq> [] \<and> \<not> mail_ok (trim_space (EmailAddress s))
      then Some (BadEmail (trim_space (EmailAddress s)))
      else None)"

definition DNString :: "pkix_name \<Rightarrow> string" where
  "DNString n =
     (let parts =
        (if pn_cn n = [] then [] else [''CN='' @ pn_cn n]) @
        map (\<lambda>v. ''OU='' @ v) (pn_ou n) @ map (\<lambda>v. ''O='' @ v) (pn_o n) @
        map (\<lambda>v. ''L='' @ v) (pn_l n) @ map (\<lambda>v. ''ST='' @ v) (pn_st n) @
        map (\<lambda>v. ''STREET='' @ v) (pn_street n) @ map (\<lambda>v. ''postalCode='' @ v) (pn_postal n) @
        map (\<lambda>v. ''C='' @ v) (pn_c n)
      in if parts = [] then ''(empty subject)'' else join_with '', '' parts)"

text \<open>The alternative names of a certificate: an address is its bytes, a URI its text.\<close>

record SANSet =
  DNS :: "string list"
  IPs :: "nat list list"
  Emails :: "string list"
  URIs :: "string list"

definition no_sans :: SANSet where
  "no_sans = \<lparr>DNS = [], IPs = [], Emails = [], URIs = []\<rparr>"

definition Empty :: "SANSet \<Rightarrow> bool" where
  "Empty s \<longleftrightarrow> DNS s = [] \<and> IPs s = [] \<and> Emails s = [] \<and> URIs s = []"

text \<open>\<open>net.IP.String\<close>: four decimal fields, or eight hexadecimal groups with the first longest run
  of two or more zero groups shortened.\<close>

definition hex_digit :: "nat \<Rightarrow> char" where
  "hex_digit d = (if d < 10 then char_of (48 + d) else char_of (87 + d))"

fun hex_of_nat :: "nat \<Rightarrow> string" where
  "hex_of_nat n = (if n < 16 then [hex_digit n] else hex_of_nat (n div 16) @ [hex_digit (n mod 16)])"

declare hex_of_nat.simps [simp del]

fun groups16 :: "nat list \<Rightarrow> nat list" where
  "groups16 (a # b # rest) = (256 * a + b) # groups16 rest"
| "groups16 _ = []"

definition zero_run :: "nat list \<Rightarrow> nat \<Rightarrow> nat" where
  "zero_run gs i = length (takeWhile (\<lambda>g. g = 0) (drop i gs))"

definition best_run :: "nat list \<Rightarrow> nat \<times> nat" where
  "best_run gs = foldl (\<lambda>(i, n) j. if zero_run gs j > n then (j, zero_run gs j) else (i, n)) (0, 0)
     (upt 0 (length gs))"

definition ip_string :: "nat list \<Rightarrow> string" where
  "ip_string bs =
     (if length bs = 4 then join_with ''.'' (map string_of_nat bs)
      else
        let gs = groups16 bs; (i, n) = best_run gs in
        if 2 \<le> n
        then join_with '':'' (map hex_of_nat (take i gs)) @ ''::'' @ join_with '':'' (map hex_of_nat (drop (i + n) gs))
        else join_with '':'' (map hex_of_nat gs))"

definition Strings :: "SANSet \<Rightarrow> string list" where
  "Strings s =
     map (\<lambda>d. ''DNS:'' @ d) (DNS s) @ map (\<lambda>ip. ''IP:'' @ ip_string ip) (IPs s) @
     map (\<lambda>e. ''EMAIL:'' @ e) (Emails s) @ map (\<lambda>u. ''URI:'' @ u) (URIs s)"

definition is_separator :: "char \<Rightarrow> bool" where
  "is_separator r \<longleftrightarrow> r \<in> {CHR '','', CHR 0x0A, CHR 0x0D, CHR '' '', CHR 0x09, CHR '';''}"

text \<open>\<open>strings.FieldsFunc\<close>: the maximal runs of characters that are not separators.\<close>

fun fields_func :: "(char \<Rightarrow> bool) \<Rightarrow> string \<Rightarrow> string \<Rightarrow> string list" where
  "fields_func f acc [] = (if acc = [] then [] else [acc])"
| "fields_func f acc (c # cs) =
     (if f c then (if acc = [] then fields_func f [] cs else acc # fields_func f [] cs)
      else fields_func f (acc @ [c]) cs)"

definition splitList :: "string list \<Rightarrow> string list" where
  "splitList ins = filter (\<lambda>p. p \<noteq> []) (map trim_space (concat (map (fields_func is_separator []) ins)))"

fun contains :: "string \<Rightarrow> string \<Rightarrow> bool" where
  "contains [] p = (p = [])"
| "contains (c # cs) p = (has_prefix (c # cs) p \<or> contains cs p)"

text \<open>\<open>uri_parse\<close> is \<open>url.Parse\<close> followed by \<open>String\<close>.\<close>

fun parse_sans :: "(string \<Rightarrow> string option) \<Rightarrow> SANSet \<Rightarrow> string list \<Rightarrow> pki_error + SANSet" where
  "parse_sans uri_parse acc [] = Inr acc"
| "parse_sans uri_parse acc (raw # rest) =
     (let item = trim_space raw; lower = to_lower item in
      if item = [] then parse_sans uri_parse acc rest
      else if has_prefix lower ''dns:''
      then parse_sans uri_parse (acc\<lparr>DNS := DNS acc @ [trim_space (drop 4 item)]\<rparr>) rest
      else if has_prefix lower ''ip:''
      then (case ParseIP (trim_space (drop 3 item)) of
              None \<Rightarrow> Inl (InvalidIPSAN (trim_space (drop 3 item)))
            | Some ip \<Rightarrow> parse_sans uri_parse (acc\<lparr>IPs := IPs acc @ [ip]\<rparr>) rest)
      else if has_prefix lower ''email:''
      then parse_sans uri_parse (acc\<lparr>Emails := Emails acc @ [trim_space (drop 6 item)]\<rparr>) rest
      else if has_prefix lower ''uri:''
      then (case uri_parse (trim_space (drop 4 item)) of
              None \<Rightarrow> Inl (InvalidURISAN item)
            | Some u \<Rightarrow> parse_sans uri_parse (acc\<lparr>URIs := URIs acc @ [u]\<rparr>) rest)
      else (case ParseIP item of
              Some ip \<Rightarrow> parse_sans uri_parse (acc\<lparr>IPs := IPs acc @ [ip]\<rparr>) rest
            | None \<Rightarrow>
                if CHR ''@'' \<in> set item
                then parse_sans uri_parse (acc\<lparr>Emails := Emails acc @ [item]\<rparr>) rest
                else if contains item ''://''
                then (case uri_parse item of
                        None \<Rightarrow> Inl (InvalidURISAN item)
                      | Some u \<Rightarrow> parse_sans uri_parse (acc\<lparr>URIs := URIs acc @ [u]\<rparr>) rest)
                else parse_sans uri_parse (acc\<lparr>DNS := DNS acc @ [item]\<rparr>) rest))"

declare parse_sans.simps(2) [simp del]

definition ParseSANs :: "(string \<Rightarrow> string option) \<Rightarrow> string list \<Rightarrow> pki_error + SANSet" where
  "ParseSANs uri_parse entries = parse_sans uri_parse no_sans (splitList entries)"


section \<open>Serial numbers and reasons\<close>

definition SerialHex :: "nat \<Rightarrow> string" where
  "SerialHex n =
     (let s = to_upper (hex_of_nat n) in if length s mod 2 = 1 then CHR ''0'' # s else s)"

text \<open>\<open>big.Int.SetString(s, 16)\<close>, which accepts a sign.\<close>

definition unsigned16 :: "string \<Rightarrow> nat option" where
  "unsigned16 s = (if s \<noteq> [] \<and> list_all is_hex s then Some (hex_number s) else None)"

definition set_string16 :: "string \<Rightarrow> int option" where
  "set_string16 s =
     (case s of
        [] \<Rightarrow> None
      | c # cs \<Rightarrow>
          if c = CHR ''-'' then map_option (\<lambda>n. - int n) (unsigned16 cs)
          else if c = CHR ''+'' then map_option int (unsigned16 cs)
          else map_option int (unsigned16 s))"

definition trim_prefix :: "string \<Rightarrow> string \<Rightarrow> string" where
  "trim_prefix s p = (if has_prefix s p then drop (length p) s else s)"

definition SerialFromHex :: "string \<Rightarrow> int option" where
  "SerialFromHex s =
     set_string16 (filter (\<lambda>c. c \<noteq> CHR '':'') (trim_prefix (to_lower (trim_space s)) ''0x''))"

definition normalise :: "string \<Rightarrow> string" where
  "normalise s = to_lower (filter (\<lambda>c. c \<noteq> CHR '' '' \<and> c \<noteq> CHR ''_'') (trim_space s))"

definition ReasonNames :: "int \<Rightarrow> string option" where
  "ReasonNames code =
     (if code = 0 then Some ''unspecified''
      else if code = 1 then Some ''key compromise''
      else if code = 2 then Some ''CA compromise''
      else if code = 3 then Some ''affiliation changed''
      else if code = 4 then Some ''superseded''
      else if code = 5 then Some ''cessation of operation''
      else if code = 6 then Some ''certificate hold''
      else if code = 9 then Some ''privilege withdrawn''
      else if code = 10 then Some ''AA compromise''
      else None)"

definition ReasonName :: "int \<Rightarrow> string" where
  "ReasonName code = (case ReasonNames code of Some n \<Rightarrow> n | None \<Rightarrow> ''code '' @ string_of_int code)"

definition ParseReason :: "string \<Rightarrow> pki_error + int" where
  "ParseReason s =
     (let n = normalise s in
      if n \<in> {[], ''unspecified''} then Inr 0
      else if n \<in> {''keycompromise'', ''key-compromise'', ''1''} then Inr 1
      else if n \<in> {''cacompromise'', ''ca-compromise'', ''2''} then Inr 2
      else if n \<in> {''affiliationchanged'', ''affiliation-changed'', ''3''} then Inr 3
      else if n \<in> {''superseded'', ''4''} then Inr 4
      else if n \<in> {''cessationofoperation'', ''cessation-of-operation'', ''5''} then Inr 5
      else if n \<in> {''certificatehold'', ''certificate-hold'', ''hold'', ''6''} then Inr 6
      else if n \<in> {''privilegewithdrawn'', ''privilege-withdrawn'', ''9''} then Inr 9
      else if n \<in> {''aacompromise'', ''aa-compromise'', ''10''} then Inr 10
      else if n = ''0'' then Inr 0
      else Inl (UnknownReason s))"



section \<open>The cryptographic library\<close>

record x509 =
  x_serial :: nat
  x_subject :: pkix_name
  x_not_before :: int
  x_not_after :: int
  x_key_usage :: "key_usage list"
  x_ext_key_usage :: "ext_key_usage list"
  x_is_ca :: bool
  x_max_path_len :: int
  x_max_path_len_zero :: bool
  x_sans :: SANSet
  x_permitted_dns :: "string list"
  x_crl_dist_points :: "string list"
  x_ocsp_server :: "string list"
  x_subject_key_id :: string
  x_sig_alg :: sig_alg
  x_pub :: public_key
  x_raw :: string

record csr =
  q_subject :: pkix_name
  q_sans :: SANSet
  q_sig_alg :: sig_alg
  q_pub :: public_key

record crl_entry =
  le_serial :: int
  le_time :: int
  le_reason :: int

record crl =
  l_number :: int
  l_this_update :: int
  l_next_update :: int
  l_entries :: "crl_entry list"
  l_sig_alg :: sig_alg

text \<open>
  What the code uses of the library. \<open>pem_blocks\<close> are the blocks that repeated \<open>pem.Decode\<close>
  finds; \<open>rand_key\<close>, \<open>rand_serial\<close> and the number argument of the creating functions read the
  random source; \<open>parse_csr\<close> also returns the result of \<open>CheckSignature\<close>.
\<close>

record crypto =
  rand_key :: "nat \<Rightarrow> string option"
  rand_serial :: "nat \<Rightarrow> nat option"
  pem_blocks :: "string \<Rightarrow> (string \<times> string) list"
  pem_encode :: "string \<Rightarrow> string \<Rightarrow> string"
  create_certificate :: "nat \<Rightarrow> x509 \<Rightarrow> x509 \<Rightarrow> public_key \<Rightarrow> private_key \<Rightarrow> string option"
  parse_certificate :: "string \<Rightarrow> x509 option"
  create_csr :: "nat \<Rightarrow> csr \<Rightarrow> private_key \<Rightarrow> string option"
  parse_csr :: "string \<Rightarrow> (csr \<times> bool) option"
  create_crl :: "nat \<Rightarrow> crl \<Rightarrow> x509 \<Rightarrow> private_key \<Rightarrow> string option"
  marshal_key :: "private_key \<Rightarrow> string option"
  parse_pkcs8 :: "string \<Rightarrow> private_key option"
  parse_pkcs1 :: "string \<Rightarrow> private_key option"
  parse_sec1 :: "string \<Rightarrow> private_key option"
  subject_key_id :: "public_key \<Rightarrow> string option"
  sha256 :: "string \<Rightarrow> string"
  mail_ok :: "string \<Rightarrow> bool"
  uri_parse :: "string \<Rightarrow> string option"

definition add_days :: "int \<Rightarrow> int \<Rightarrow> int" where
  "add_days t d = t + 86400 * d"

definition hex_byte :: "char \<Rightarrow> string" where
  "hex_byte c = to_upper [hex_digit (val c div 16), hex_digit (val c mod 16)]"

definition FingerprintSHA256 :: "crypto \<Rightarrow> string \<Rightarrow> string" where
  "FingerprintSHA256 K der = join_with '':'' (map hex_byte (sha256 K der))"

definition NewSerial :: "crypto \<Rightarrow> nat \<Rightarrow> pki_error + nat" where
  "NewSerial K n = (case rand_serial K n of None \<Rightarrow> Inl RandomFailed | Some r \<Rightarrow> Inr (r + 1))"

definition of_option :: "'e \<Rightarrow> 'a option \<Rightarrow> 'e + 'a" where
  "of_option e x = (case x of None \<Rightarrow> Inl e | Some v \<Rightarrow> Inr v)"

definition EncodeCertPEM :: "crypto \<Rightarrow> string \<Rightarrow> string" where
  "EncodeCertPEM K der = pem_encode K ''CERTIFICATE'' der"

definition ParseCertPEM :: "crypto \<Rightarrow> string \<Rightarrow> pki_error + x509" where
  "ParseCertPEM K data =
     (case find (\<lambda>(t, b). t = ''CERTIFICATE'') (pem_blocks K data) of
        None \<Rightarrow> Inl NoCertificateInPEM
      | Some (t, b) \<Rightarrow> of_option ParseFailed (parse_certificate K b))"

definition EncodePrivateKeyPEM :: "crypto \<Rightarrow> private_key \<Rightarrow> pki_error + string" where
  "EncodePrivateKeyPEM K k =
     (case marshal_key K k of None \<Rightarrow> Inl CreateFailed | Some der \<Rightarrow> Inr (pem_encode K ''PRIVATE KEY'' der))"

fun parse_key_blocks :: "crypto \<Rightarrow> (string \<times> string) list \<Rightarrow> pki_error + private_key" where
  "parse_key_blocks K [] = Inl NoKeyInPEM"
| "parse_key_blocks K ((t, b) # rest) =
     (if t = ''PRIVATE KEY'' then of_option ParseFailed (parse_pkcs8 K b)
      else if t = ''RSA PRIVATE KEY'' then of_option ParseFailed (parse_pkcs1 K b)
      else if t = ''EC PRIVATE KEY'' then of_option ParseFailed (parse_sec1 K b)
      else if t = ''ENCRYPTED PRIVATE KEY'' then Inl EncryptedKey
      else parse_key_blocks K rest)"

definition ParsePrivateKeyPEM :: "crypto \<Rightarrow> string \<Rightarrow> pki_error + private_key" where
  "ParsePrivateKeyPEM K data = parse_key_blocks K (pem_blocks K data)"

definition ParseCSR :: "crypto \<Rightarrow> string \<Rightarrow> pki_error + csr" where
  "ParseCSR K data =
     (let go = (\<lambda>der. case parse_csr K der of
                        None \<Rightarrow> Inl ParseFailed
                      | Some (c, ok) \<Rightarrow> if ok then Inr c else Inl BadCSRSignature) in
      case pem_blocks K data of
        [] \<Rightarrow> go data
      | (t, b) # _ \<Rightarrow>
          if t \<noteq> ''CERTIFICATE REQUEST'' \<and> t \<noteq> ''NEW CERTIFICATE REQUEST'' then Inl (NotACSR t) else go b)"

definition appendUnique :: "string list \<Rightarrow> string \<Rightarrow> string list" where
  "appendUnique xs v = (if v \<in> set xs then xs else xs @ [v])"

definition CSRFromKey :: "crypto \<Rightarrow> nat \<Rightarrow> private_key \<Rightarrow> Subject \<Rightarrow> SANSet \<Rightarrow> pki_error + string" where
  "CSRFromKey K n key subject sans =
     (if \<not> is_signer key then Inl NoSigner
      else
        let emails = (if EmailAddress subject = [] then Emails sans
                      else appendUnique (Emails sans) (EmailAddress subject)) in
        case PublicKeyOf key of
          Inl e \<Rightarrow> Inl e
        | Inr pub \<Rightarrow>
            (case create_csr K n \<lparr>q_subject = PKIX subject, q_sans = sans\<lparr>Emails := emails\<rparr>,
                                q_sig_alg = signatureAlgorithmFor key, q_pub = pub\<rparr> key of
               None \<Rightarrow> Inl CreateFailed
             | Some der \<Rightarrow> Inr (pem_encode K ''CERTIFICATE REQUEST'' der)))"

record CSRResult =
  g_csr_pem :: string
  g_key_pem :: string
  g_key :: private_key
  g_key_type :: KeyType

definition GenerateCSR :: "crypto \<Rightarrow> nat \<Rightarrow> Subject \<Rightarrow> SANSet \<Rightarrow> KeyType \<Rightarrow> pki_error + CSRResult" where
  "GenerateCSR K n subject sans kt0 =
     (case Validate (mail_ok K) subject of
        Some e \<Rightarrow> Inl e
      | None \<Rightarrow>
          let kt = (if kt0 = [] then KeyRSA2048 else kt0) in
          (case GenerateKey (rand_key K n) kt of
             Inl e \<Rightarrow> Inl e
           | Inr key \<Rightarrow>
               (case CSRFromKey K n key subject sans of
                  Inl e \<Rightarrow> Inl e
                | Inr csr_pem \<Rightarrow>
                    (case EncodePrivateKeyPEM K key of
                       Inl e \<Rightarrow> Inl e
                     | Inr key_pem \<Rightarrow>
                         Inr \<lparr>g_csr_pem = csr_pem, g_key_pem = key_pem, g_key = key, g_key_type = kt\<rparr>))))"


section \<open>Authorities, certificates and revocation lists\<close>

record CAParams =
  cp_subject :: Subject
  cp_key_type :: KeyType
  cp_days :: int
  cp_path_len :: int
  cp_parent :: "x509 option"
  cp_parent_key :: "private_key option"
  cp_crl_dist_points :: "string list"
  cp_ocsp_servers :: "string list"
  cp_permitted_dns :: "string list"

record CAResult =
  cr_certificate :: x509
  cr_cert_pem :: string
  cr_private_key :: private_key
  cr_private_key_pem :: string
  cr_key_type :: KeyType
  cr_serial_hex :: string
  cr_fingerprint :: string

text \<open>The template of a new authority's certificate, at time \<open>t\<close>.\<close>

definition ca_template :: "crypto \<Rightarrow> int \<Rightarrow> CAParams \<Rightarrow> int \<Rightarrow> nat \<Rightarrow> public_key \<Rightarrow> private_key \<Rightarrow> x509" where
  "ca_template K t p days serial pub issuer_key =
     \<lparr>x_serial = serial,
      x_subject = PKIX (cp_subject p),
      x_not_before = t - 300,
      x_not_after = add_days t days,
      x_key_usage = [CertSign, CRLSign, DigitalSignature],
      x_ext_key_usage = [],
      x_is_ca = True,
      x_max_path_len = (if 0 \<le> cp_path_len p then cp_path_len p else 0),
      x_max_path_len_zero = (cp_path_len p = 0),
      x_sans = no_sans,
      x_permitted_dns = cp_permitted_dns p,
      x_crl_dist_points = cp_crl_dist_points p,
      x_ocsp_server = cp_ocsp_servers p,
      x_subject_key_id = (case subject_key_id K pub of None \<Rightarrow> [] | Some i \<Rightarrow> i),
      x_sig_alg = signatureAlgorithmFor issuer_key,
      x_pub = pub,
      x_raw = []\<rparr>"

definition pki_CreateCA :: "crypto \<Rightarrow> int \<Rightarrow> nat \<Rightarrow> CAParams \<Rightarrow> pki_error + CAResult" where
  "pki_CreateCA K t n p =
     (case Validate (mail_ok K) (cp_subject p) of
        Some e \<Rightarrow> Inl e
      | None \<Rightarrow>
          let days = (if cp_days p \<le> 0 then 3650 else cp_days p);
              kt = (if cp_key_type p = [] then KeyRSA4096 else cp_key_type p) in
          (case GenerateKey (rand_key K n) kt of
             Inl e \<Rightarrow> Inl e
           | Inr key \<Rightarrow>
               (case PublicKeyOf key of
                  Inl e \<Rightarrow> Inl e
                | Inr pub \<Rightarrow>
                    (case NewSerial K n of
                       Inl e \<Rightarrow> Inl e
                     | Inr serial \<Rightarrow>
                         let finish = (\<lambda>issuer issuer_key.
                           let tmpl = ca_template K t p days serial pub issuer_key in
                           if \<not> is_signer issuer_key then Inl NoSigner
                           else (case create_certificate K n tmpl
                                        (case issuer of None \<Rightarrow> tmpl | Some i \<Rightarrow> i) pub issuer_key of
                                   None \<Rightarrow> Inl CreateFailed
                                 | Some der \<Rightarrow>
                                     (case parse_certificate K der of
                                        None \<Rightarrow> Inl ParseFailed
                                      | Some cert \<Rightarrow>
                                          (case EncodePrivateKeyPEM K key of
                                             Inl e \<Rightarrow> Inl e
                                           | Inr key_pem \<Rightarrow>
                                               Inr \<lparr>cr_certificate = cert,
                                                    cr_cert_pem = EncodeCertPEM K der,
                                                    cr_private_key = key,
                                                    cr_private_key_pem = key_pem,
                                                    cr_key_type = kt,
                                                    cr_serial_hex = SerialHex serial,
                                                    cr_fingerprint = FingerprintSHA256 K der\<rparr>)))) in
                         (case cp_parent p of
                            None \<Rightarrow> finish None key
                          | Some parent \<Rightarrow>
                              (case cp_parent_key p of
                                 None \<Rightarrow> Inl ParentKeyRequired
                               | Some pk \<Rightarrow>
                                   if x_not_after parent < add_days t days then Inl OutrunsParent
                                   else finish (Some parent) pk))))))"

record SignParams =
  sp_csr :: csr
  sp_issuer :: x509
  sp_issuer_key :: private_key
  sp_profile :: "Profile option"
  sp_days :: int
  sp_san_override :: "SANSet option"
  sp_subject_override :: "Subject option"
  sp_crl_dist_points :: "string list"
  sp_ocsp_servers :: "string list"
  sp_path_len :: int

record SignResult =
  sr_certificate :: x509
  sr_cert_pem :: string
  sr_serial_hex :: string
  sr_fingerprint :: string

definition sign_profile :: "SignParams \<Rightarrow> Profile" where
  "sign_profile p = (case sp_profile p of None \<Rightarrow> ProfileServer | Some pr \<Rightarrow> pr)"

definition sign_subject :: "SignParams \<Rightarrow> pkix_name" where
  "sign_subject p = (case sp_subject_override p of None \<Rightarrow> q_subject (sp_csr p) | Some s \<Rightarrow> PKIX s)"

text \<open>The names of the request, or those that replace them; a server certificate without names takes
  its common name.\<close>

definition sign_sans :: "crypto \<Rightarrow> SignParams \<Rightarrow> SANSet" where
  "sign_sans K p =
     (let sans = (case sp_san_override p of None \<Rightarrow> q_sans (sp_csr p) | Some s \<Rightarrow> s);
          cn = pn_cn (sign_subject p) in
      if Empty sans \<and> cn \<noteq> [] \<and> (sign_profile p = ProfileServer \<or> sign_profile p = ProfileServerCli)
      then (case ParseSANs (uri_parse K) [cn] of Inl _ \<Rightarrow> sans | Inr promoted \<Rightarrow> promoted)
      else sans)"

definition sign_days :: "SignParams \<Rightarrow> int" where
  "sign_days p = (if sp_days p \<le> 0 then 397 else sp_days p)"

definition sign_template :: "crypto \<Rightarrow> int \<Rightarrow> SignParams \<Rightarrow> nat \<Rightarrow> x509" where
  "sign_template K t p serial =
     (let ca = (sign_profile p = ProfileIntermCA) in
      \<lparr>x_serial = serial,
       x_subject = sign_subject p,
       x_not_before = t - 300,
       x_not_after = add_days t (sign_days p),
       x_key_usage = (if ca then [CertSign, CRLSign, DigitalSignature] else fst (usages (sign_profile p))),
       x_ext_key_usage = (if ca then [] else snd (usages (sign_profile p))),
       x_is_ca = ca,
       x_max_path_len = (if ca then sp_path_len p else 0),
       x_max_path_len_zero = (ca \<and> sp_path_len p = 0),
       x_sans = sign_sans K p,
       x_permitted_dns = [],
       x_crl_dist_points = sp_crl_dist_points p,
       x_ocsp_server = sp_ocsp_servers p,
       x_subject_key_id = (case subject_key_id K (q_pub (sp_csr p)) of None \<Rightarrow> [] | Some i \<Rightarrow> i),
       x_sig_alg = signatureAlgorithmFor (sp_issuer_key p),
       x_pub = q_pub (sp_csr p),
       x_raw = []\<rparr>)"

definition Sign :: "crypto \<Rightarrow> int \<Rightarrow> nat \<Rightarrow> SignParams \<Rightarrow> pki_error + SignResult" where
  "Sign K t n p =
     (if \<not> x_is_ca (sp_issuer p) then Inl IssuerNotCA
      else if x_not_after (sp_issuer p) < t then Inl IssuerExpired
      else (case NewSerial K n of
              Inl e \<Rightarrow> Inl e
            | Inr serial \<Rightarrow>
                if x_not_after (sp_issuer p) < add_days t (sign_days p) then Inl OutrunsIssuer
                else if \<not> is_signer (sp_issuer_key p) then Inl NoSigner
                else (case create_certificate K n (sign_template K t p serial) (sp_issuer p)
                             (q_pub (sp_csr p)) (sp_issuer_key p) of
                        None \<Rightarrow> Inl CreateFailed
                      | Some der \<Rightarrow>
                          (case parse_certificate K der of
                             None \<Rightarrow> Inl ParseFailed
                           | Some cert \<Rightarrow>
                               Inr \<lparr>sr_certificate = cert, sr_cert_pem = EncodeCertPEM K der,
                                    sr_serial_hex = SerialHex serial,
                                    sr_fingerprint = FingerprintSHA256 K der\<rparr>))))"

record RevokedEntry =
  re_serial_hex :: string
  re_revoked_at :: "int option"
  re_reason :: int

text \<open>An entry without a time takes the time of the list.\<close>

fun crl_entries :: "int \<Rightarrow> RevokedEntry list \<Rightarrow> pki_error + crl_entry list" where
  "crl_entries t [] = Inr []"
| "crl_entries t (r # rs) =
     (case SerialFromHex (re_serial_hex r) of
        None \<Rightarrow> Inl (BadSerial (re_serial_hex r))
      | Some serial \<Rightarrow>
          (case crl_entries t rs of
             Inl e \<Rightarrow> Inl e
           | Inr es \<Rightarrow>
               Inr (\<lparr>le_serial = serial, le_time = (case re_revoked_at r of None \<Rightarrow> t | Some at \<Rightarrow> at),
                     le_reason = re_reason r\<rparr> # es)))"

definition CreateCRL ::
  "crypto \<Rightarrow> int \<Rightarrow> nat \<Rightarrow> x509 \<Rightarrow> private_key \<Rightarrow> int \<Rightarrow> int \<Rightarrow> RevokedEntry list
     \<Rightarrow> pki_error + (string \<times> string)" where
  "CreateCRL K t n issuer key number valid_days revoked =
     (if \<not> is_signer key then Inl NoSigner
      else
        let days = (if valid_days \<le> 0 then 7 else valid_days) in
        case crl_entries t revoked of
          Inl e \<Rightarrow> Inl e
        | Inr entries \<Rightarrow>
            (case create_crl K n \<lparr>l_number = number, l_this_update = t, l_next_update = add_days t days,
                                  l_entries = entries, l_sig_alg = signatureAlgorithmFor key\<rparr> issuer key of
               None \<Rightarrow> Inl CreateFailed
             | Some der \<Rightarrow> Inr (der, pem_encode K ''X509 CRL'' der)))"


section \<open>Round trips\<close>

lemma is_hex_hex_digit: "d < 16 \<Longrightarrow> hex_val (hex_digit d) = Some d"
  by (auto simp: hex_val_def hex_digit_def of_char_mod_256 Let_def)

lemma hex_of_nat_digits: "c \<in> set (hex_of_nat n) \<Longrightarrow> \<exists>d < 16. c = hex_digit d"
proof (induction n rule: hex_of_nat.induct)
  case (1 n)
  show ?case
  proof (cases "n < 16")
    case True
    with "1.prems" show ?thesis by (auto simp: hex_of_nat.simps [of n])
  next
    case False
    with "1.prems" consider "c \<in> set (hex_of_nat (n div 16))" | "c = hex_digit (n mod 16)"
      by (auto simp: hex_of_nat.simps [of n])
    then show ?thesis
    proof cases
      case 1
      with False "1.IH" show ?thesis by blast
    next
      case 2
      then show ?thesis by (intro exI [of _ "n mod 16"]) simp
    qed
  qed
qed

lemma hex_of_nat_not_Nil [simp]: "hex_of_nat n \<noteq> []"
  by (subst hex_of_nat.simps) simp

lemma hex_number_append: "hex_number (s @ [c]) = 16 * hex_number s + (case hex_val c of None \<Rightarrow> 0 | Some v \<Rightarrow> v)"
  by (simp add: hex_number_def)

lemma hex_number_of_nat [simp]: "hex_number (hex_of_nat n) = n"
proof (induction n rule: hex_of_nat.induct)
  case (1 n)
  show ?case
  proof (cases "n < 16")
    case True
    then show ?thesis by (simp add: hex_of_nat.simps [of n] hex_number_def is_hex_hex_digit)
  next
    case False
    with "1.IH" show ?thesis
      by (simp add: hex_of_nat.simps [of n] hex_number_append is_hex_hex_digit)
  qed
qed


definition up :: "char \<Rightarrow> char" where
  "up c = (if 97 \<le> (of_char c :: nat) \<and> (of_char c :: nat) \<le> 122 then char_of ((of_char c :: nat) - 32) else c)"

lemma to_upper_map: "to_upper s = map up s"
  by (simp add: to_upper_def up_def)

lemma of_hex_digit: "d < 16 \<Longrightarrow> (of_char (hex_digit d) :: nat) = (if d < 10 then 48 + d else 87 + d)"
  by (simp add: hex_digit_def of_char_mod_256)

lemma of_up_digit: "d < 16 \<Longrightarrow> (of_char (up (hex_digit d)) :: nat) = (if d < 10 then 48 + d else 55 + d)"
  by (simp add: up_def of_hex_digit of_char_mod_256)

lemma char_neqI: "(of_char a :: nat) \<noteq> of_char b \<Longrightarrow> a \<noteq> b"
  by blast

lemma up_digit:
  assumes "d < 16"
  shows "lower_char (up (hex_digit d)) = hex_digit d" and "\<not> is_space (up (hex_digit d))"
    and "hex_digit d \<noteq> CHR '':''" and "hex_digit d \<noteq> CHR ''x''" and "hex_digit d \<noteq> CHR ''-''"
    and "hex_digit d \<noteq> CHR ''+''" and "is_hex (hex_digit d)"
proof -
  have "(of_char (lower_char (up (hex_digit d))) :: nat) = of_char (hex_digit d)"
    using assms by (simp add: lower_char_def of_up_digit of_hex_digit of_char_mod_256)
  then show "lower_char (up (hex_digit d)) = hex_digit d" by (simp only: of_char_eq_iff)
  have "up (hex_digit d) \<noteq> CHR '' ''"
    using assms by (intro char_neqI) (simp add: of_up_digit)
  then show "\<not> is_space (up (hex_digit d))"
    using assms by (simp add: is_space_def of_up_digit)
  show "hex_digit d \<noteq> CHR '':''" "hex_digit d \<noteq> CHR ''x''" "hex_digit d \<noteq> CHR ''-''" "hex_digit d \<noteq> CHR ''+''"
    by (rule char_neqI, use assms in \<open>simp add: of_hex_digit\<close>)+
  show "is_hex (hex_digit d)" using assms by (simp add: is_hex_def is_hex_hex_digit)
qed

lemma trim_space_id: "s = [] \<or> (\<not> is_space (hd s) \<and> \<not> is_space (last s)) \<Longrightarrow> trim_space s = s"
  unfolding trim_space_def by (metis dropWhile_eq_self_iff hd_rev rev.simps(1) rev_rev_ident)

lemma trim_space_no_space: "\<forall>c \<in> set s. \<not> is_space c \<Longrightarrow> trim_space s = s"
  by (intro trim_space_id) auto

lemma SerialFromHex_digits:
  assumes "\<forall>c \<in> set s. \<exists>d < 16. c = hex_digit d" and "s \<noteq> []"
  shows "SerialFromHex (to_upper s) = Some (int (hex_number s))"
proof -
  have sp: "trim_space (to_upper s) = to_upper s"
    using assms(1) up_digit(2) by (intro trim_space_no_space) (auto simp: to_upper_map)
  have lo: "to_lower (to_upper s) = s"
    using assms(1) up_digit(1) by (auto simp: to_upper_map to_lower_def intro!: map_idI)
  have all: "c \<noteq> CHR '':'' \<and> c \<noteq> CHR ''x'' \<and> c \<noteq> CHR ''-'' \<and> c \<noteq> CHR ''+'' \<and> is_hex c" if "c \<in> set s" for c
  proof -
    from bspec [OF assms(1) that] obtain d where "d < 16" "c = hex_digit d" by (elim exE conjE)
    then show ?thesis by (simp add: up_digit)
  qed
  then have "CHR ''x'' \<notin> set s" "CHR '':'' \<notin> set s" by auto
  moreover have "hd s \<noteq> CHR ''-''" "hd s \<noteq> CHR ''+''" "list_all is_hex s"
    using all [of "hd s"] all assms(2) by (simp_all add: list_all_iff)
  moreover from \<open>CHR ''x'' \<notin> set s\<close> have "trim_prefix s ''0x'' = s"
    by (auto simp: trim_prefix_def has_prefix_iff)
  moreover from \<open>CHR '':'' \<notin> set s\<close> have "filter (\<lambda>c. c \<noteq> CHR '':'') s = s"
    by (auto simp: filter_id_conv)
  ultimately have "set_string16 (filter (\<lambda>c. c \<noteq> CHR '':'') (trim_prefix s ''0x'')) = Some (int (hex_number s))"
    using assms(2) by (cases s) (simp_all add: set_string16_def unsigned16_def)
  then show ?thesis by (simp add: SerialFromHex_def sp lo)
qed

lemma serial_round_trip:
  "SerialFromHex (SerialHex n) = Some (int n) \<and> even (length (SerialHex n))"
proof (cases "length (hex_of_nat n) mod 2 = 1")
  case True
  have zero: "CHR ''0'' = hex_digit 0" by code_simp
  have "SerialHex n = to_upper (CHR ''0'' # hex_of_nat n)"
    using True by (simp add: SerialHex_def Let_def to_upper_def)
  moreover have "SerialFromHex (to_upper (CHR ''0'' # hex_of_nat n)) = Some (int (hex_number (CHR ''0'' # hex_of_nat n)))"
    using hex_of_nat_digits [of _ n] by (intro SerialFromHex_digits) (auto simp: zero intro: exI [of _ 0])
  moreover have "hex_number (CHR ''0'' # hex_of_nat n) = hex_number (hex_of_nat n)"
    by (simp add: hex_number_def hex_val_def)
  moreover have "even (length (CHR ''0'' # hex_of_nat n))" using True by (simp add: odd_iff_mod_2_eq_one)
  ultimately show ?thesis by (simp add: to_upper_map)
next
  case False
  then have "SerialHex n = to_upper (hex_of_nat n)"
    by (simp add: SerialHex_def Let_def to_upper_def)
  moreover have "even (length (hex_of_nat n))" using False odd_iff_mod_2_eq_one by blast
  ultimately show ?thesis
    using SerialFromHex_digits [of "hex_of_nat n"] hex_of_nat_digits by (auto simp: to_upper_map)
qed


text \<open>(pki/ca.go, SerialHex and SerialFromHex): a serial number written in hexadecimal, padded to whole
  bytes, is read back as the same number, and the text has an even number of digits. Every list of
  revoked certificates therefore names the certificates the database does.\<close>

theorem SerialFromHex_SerialHex:
  "SerialFromHex (SerialHex n) = Some (int n) \<and> even (length (SerialHex n))"
  by (rule serial_round_trip)

text \<open>(pki/crl.go, ReasonName and ParseReason): the name of every known revocation reason is read back
  as its code.\<close>

theorem ParseReason_ReasonName:
  assumes "ReasonNames code \<noteq> None"
  shows "ParseReason (ReasonName code) = Inr code"
proof -
  have "code \<in> set [0, 1, 2, 3, 4, 5, 6, 9, 10]"
    using assms by (auto simp: ReasonNames_def split: if_splits)
  moreover have "\<forall>c \<in> set [0, 1, 2, 3, 4, 5, 6, 9, 10]. ParseReason (ReasonName c) = Inr c"
    by code_simp
  ultimately show ?thesis by blast
qed

theorem ParseReason_ReasonName_witness: "ParseReason (ReasonName 6) = Inr 6"
  by (rule ParseReason_ReasonName) (simp add: ReasonNames_def)

text \<open>(pki/keys.go, ParseKeyType, GenerateKey, PublicKeyOf and KeyTypeOf): every key type the parser
  accepts can be generated, and the generated key is of that type; reading the name of a key type
  returns it.\<close>

theorem generated_key_type:
  assumes "ParseKeyType s = Inr kt"
  shows "kt \<in> set KeyTypes \<and> ParseKeyType kt = Inr kt \<and>
    (\<forall>i. \<exists>k p. GenerateKey (Some i) kt = Inr k \<and> PublicKeyOf k = Inr p \<and> KeyTypeOf p = kt)"
proof -
  have kt: "kt \<in> set KeyTypes"
    using assms by (auto simp: ParseKeyType_def KeyTypes_def Let_def split: if_splits)
  have "\<forall>kt \<in> set KeyTypes. ParseKeyType kt = Inr kt" by code_simp
  moreover have "string_of_nat 2048 = ''2048''" by code_simp
  then have "\<forall>kt \<in> set KeyTypes. \<exists>k p. GenerateKey (Some i) kt = Inr k \<and> PublicKeyOf k = Inr p \<and> KeyTypeOf p = kt" for i
    by (simp add: KeyTypes_def GenerateKey_def PublicKeyOf_def KeyTypeOf_def rsaKeyType_def ecKeyType_def
        KeyRSA2048_def KeyRSA3072_def KeyRSA4096_def KeyECP256_def KeyECP384_def KeyECP521_def KeyEd25519_def)
  ultimately show ?thesis using kt by blast
qed

theorem generated_key_type_witness:
  "ParseKeyType '' RSA 4096'' = Inr KeyRSA4096 \<and> KeyRSA4096 \<in> set KeyTypes"
proof -
  have *: "ParseKeyType '' RSA 4096'' = Inr KeyRSA4096" by code_simp
  with generated_key_type [OF *] show ?thesis by blast
qed



section \<open>Names survive a renewal\<close>

lemma trim_space_ends: "trim_space s = [] \<or> (\<not> is_space (hd (trim_space s)) \<and> \<not> is_space (last (trim_space s)))"
proof (cases "trim_space s = []")
  case False
  define a where "a = dropWhile is_space s"
  define b where "b = dropWhile is_space (rev a)"
  have t: "trim_space s = rev b" by (simp add: trim_space_def a_def b_def)
  with False have b: "b \<noteq> []" by auto
  obtain c where "rev a = c @ b" unfolding b_def by (metis takeWhile_dropWhile_id)
  then have "a = rev b @ rev c" by (metis rev_append rev_rev_ident)
  then have ab: "hd a = hd (rev b)" "a \<noteq> []" using b by (auto simp: hd_append)
  have "\<not> is_space (hd a)" using ab(2) unfolding a_def by (rule hd_dropWhile)
  moreover have "\<not> is_space (hd b)" using b unfolding b_def by (rule hd_dropWhile)
  ultimately show ?thesis using b t ab by (simp add: last_rev)
qed simp

lemma trim_space_idem [simp]: "trim_space (trim_space s) = trim_space s"
  using trim_space_ends [of s] by (intro trim_space_id)

lemma set_trim_space: "set (trim_space s) \<subseteq> set s"
  unfolding trim_space_def by (auto dest!: set_dropWhileD)

lemma up_idem: "up (up c) = up c"
proof (cases "97 \<le> (of_char c :: nat) \<and> (of_char c :: nat) \<le> 122")
  case True
  then have "((of_char c :: nat) - 32) mod 256 = of_char c - 32" by (intro mod_less) auto
  with True have "(of_char (up c) :: nat) = of_char c - 32" by (simp add: up_def of_char_mod_256)
  with True show ?thesis by (subst (1) up_def) auto
qed (auto simp: up_def)

lemma to_upper_trim: "to_upper (trim_space (to_upper s)) = trim_space (to_upper s)"
proof -
  have "up c = c" if "c \<in> set (trim_space (to_upper s))" for c
    using that set_trim_space [of "to_upper s"] by (auto simp: to_upper_map up_idem)
  then show ?thesis unfolding to_upper_map by (intro map_idI) (simp add: to_upper_map)
qed

lemma trim_space_Nil [simp]: "trim_space [] = []"
  by (simp add: trim_space_def)

lemma to_upper_Nil [simp]: "to_upper [] = []"
  by (simp add: to_upper_def)

lemma add_first [simp]: "add_value (first_value (add_value v)) = add_value v"
  by (simp add: add_value_def first_value_def)

lemma add_first_upper: "add_value (to_upper (first_value (add_value (to_upper v)))) = add_value (to_upper v)"
  by (auto simp: add_value_def first_value_def to_upper_trim)

text \<open>(pki/subject.go, PKIX and SubjectFromPKIX): reading a subject from a certificate and writing it
  into the next one keeps the distinguished name, which is what a renewal does.\<close>

theorem subject_survives_renewal: "PKIX (SubjectFromPKIX (PKIX s)) = PKIX s"
  by (simp add: PKIX_def SubjectFromPKIX_def add_first_upper)

definition clean :: "string \<Rightarrow> bool" where
  "clean s \<longleftrightarrow> (\<forall>c \<in> set s. \<not> is_space c \<and> c \<noteq> CHR '','' \<and> c \<noteq> CHR '';'')"

lemma clean_no_separator: "clean s \<Longrightarrow> c \<in> set s \<Longrightarrow> \<not> is_separator c"
proof -
  assume "clean s" "c \<in> set s"
  moreover have "is_space CHR 0x0A" "is_space CHR 0x0D" "is_space CHR 0x09" "is_space CHR '' ''"
    by (simp_all add: is_space_def)
  ultimately show ?thesis by (auto simp: clean_def is_separator_def)
qed

lemma fields_func_atom:
  "\<forall>c \<in> set s. \<not> f c \<Longrightarrow> fields_func f acc s = (if acc @ s = [] then [] else [acc @ s])"
  by (induction s arbitrary: acc) auto

lemma splitList_clean:
  assumes "\<forall>x \<in> set xs. clean x \<and> x \<noteq> []"
  shows "splitList xs = xs"
proof -
  have "fields_func is_separator [] x = [x]" if "x \<in> set xs" for x
    using fields_func_atom [of x is_separator "[]"] clean_no_separator [of x] assms that by auto
  then have *: "concat (map (fields_func is_separator []) xs) = xs"
    by (induction xs) auto
  have "map trim_space xs = xs"
    using assms by (intro map_idI trim_space_no_space) (auto simp: clean_def)
  with assms show ?thesis unfolding splitList_def * by (auto simp: filter_id_conv)
qed

lemma clean_trim: "clean s \<Longrightarrow> trim_space s = s"
  by (intro trim_space_no_space) (simp add: clean_def)

lemma clean_append [simp]: "clean (x @ y) \<longleftrightarrow> clean x \<and> clean y"
  by (auto simp: clean_def)

lemma clean_prefixes [simp]: "clean ''DNS:''" "clean ''IP:''" "clean ''EMAIL:''" "clean ''URI:''"
  by (simp_all add: clean_def is_space_def)

lemma clean_Cons_prefixes:
  "clean (CHR ''D'' # CHR ''N'' # CHR ''S'' # CHR '':'' # d) \<longleftrightarrow> clean d"
  "clean (CHR ''I'' # CHR ''P'' # CHR '':'' # d) \<longleftrightarrow> clean d"
  "clean (CHR ''E'' # CHR ''M'' # CHR ''A'' # CHR ''I'' # CHR ''L'' # CHR '':'' # d) \<longleftrightarrow> clean d"
  "clean (CHR ''U'' # CHR ''R'' # CHR ''I'' # CHR '':'' # d) \<longleftrightarrow> clean d"
  by (simp_all add: clean_def is_space_def)

lemma lower_prefixes:
  "to_lower (''DNS:'' @ d) = ''dns:'' @ to_lower d" "to_lower (''IP:'' @ d) = ''ip:'' @ to_lower d"
  "to_lower (''EMAIL:'' @ d) = ''email:'' @ to_lower d" "to_lower (''URI:'' @ d) = ''uri:'' @ to_lower d"
proof -
  have "to_lower ''DNS:'' = ''dns:''" "to_lower ''IP:'' = ''ip:''" "to_lower ''EMAIL:'' = ''email:''"
    "to_lower ''URI:'' = ''uri:''" by code_simp+
  then show "to_lower (''DNS:'' @ d) = ''dns:'' @ to_lower d" "to_lower (''IP:'' @ d) = ''ip:'' @ to_lower d"
    "to_lower (''EMAIL:'' @ d) = ''email:'' @ to_lower d" "to_lower (''URI:'' @ d) = ''uri:'' @ to_lower d"
    by (simp_all only: to_lower_append)
qed


lemma parse_item:
  assumes "clean d"
  shows "parse_sans u acc ((''DNS:'' @ d) # rest) = parse_sans u (acc\<lparr>DNS := DNS acc @ [d]\<rparr>) rest"
    and "parse_sans u acc ((''EMAIL:'' @ d) # rest) = parse_sans u (acc\<lparr>Emails := Emails acc @ [d]\<rparr>) rest"
    and "ParseIP d = Some ip \<Longrightarrow>
      parse_sans u acc ((''IP:'' @ d) # rest) = parse_sans u (acc\<lparr>IPs := IPs acc @ [ip]\<rparr>) rest"
    and "u d = Some x \<Longrightarrow>
      parse_sans u acc ((''URI:'' @ d) # rest) = parse_sans u (acc\<lparr>URIs := URIs acc @ [x]\<rparr>) rest"
proof -
  have t: "trim_space (p @ d) = p @ d" if "clean p" for p using that assms by (intro clean_trim) simp
  note s = parse_sans.simps(2) Let_def t lower_prefixes clean_trim [OF assms] has_prefix_def
  show "parse_sans u acc ((''DNS:'' @ d) # rest) = parse_sans u (acc\<lparr>DNS := DNS acc @ [d]\<rparr>) rest"
    unfolding s(1) Let_def t [OF clean_prefixes(1)] lower_prefixes
    by (simp add: has_prefix_def clean_trim [OF assms])
  show "parse_sans u acc ((''EMAIL:'' @ d) # rest) = parse_sans u (acc\<lparr>Emails := Emails acc @ [d]\<rparr>) rest"
    unfolding s(1) Let_def t [OF clean_prefixes(3)] lower_prefixes
    by (simp add: has_prefix_def clean_trim [OF assms])
  show "parse_sans u acc ((''IP:'' @ d) # rest) = parse_sans u (acc\<lparr>IPs := IPs acc @ [ip]\<rparr>) rest"
    if "ParseIP d = Some ip"
    unfolding s(1) Let_def t [OF clean_prefixes(2)] lower_prefixes
    using that by (simp add: has_prefix_def clean_trim [OF assms])
  show "parse_sans u acc ((''URI:'' @ d) # rest) = parse_sans u (acc\<lparr>URIs := URIs acc @ [x]\<rparr>) rest"
    if "u d = Some x"
    unfolding s(1) Let_def t [OF clean_prefixes(4)] lower_prefixes
    using that by (simp add: has_prefix_def clean_trim [OF assms])
qed

lemma string_of_nat_0: "string_of_nat 0 = ''0''"
  by code_simp

lemma string_of_nat_hd: "0 < n \<Longrightarrow> hd (string_of_nat n) \<noteq> CHR ''0''"
proof (induction n rule: string_of_nat.induct)
  case (1 n)
  show ?case
  proof (cases "n < 10")
    case True
    with "1.prems" have "(of_char (hd (string_of_nat n)) :: nat) \<noteq> of_char (CHR ''0'')"
      by (simp add: string_of_nat.simps [of n])
    then show ?thesis by auto
  next
    case False
    with "1.IH" show ?thesis by (simp add: string_of_nat.simps [of n])
  qed
qed

lemma octet_string_of_nat: "b \<le> 255 \<Longrightarrow> octet (string_of_nat b) = Some b"
  using string_of_nat_digits [of _ b] string_of_nat_hd [of b] nat_of_string_of_nat [of b]
  by (cases "b = 0") (auto simp: octet_def list_all_iff string_of_nat_0)

definition ipv4 :: "nat list \<Rightarrow> bool" where
  "ipv4 ip \<longleftrightarrow> length ip = 4 \<and> (\<forall>b \<in> set ip. b \<le> 255)"

lemma digit_not:
  assumes "is_digit c"
  shows "c \<noteq> CHR ''.''" and "c \<noteq> CHR '':''" and "c \<noteq> CHR ''%''" and "\<not> is_space c" and "c \<noteq> CHR '',''" and "c \<noteq> CHR '';''"
  using assms by (auto simp: is_digit_def is_space_def)

lemma ip_string_ipv4:
  assumes "ipv4 ip"
  shows "clean (ip_string ip)" and "ParseIP (ip_string ip) = Some ip"
proof -
  from assms obtain a b c d where ip: "ip = [a, b, c, d]"
    by (auto simp: ipv4_def length_Suc_conv eval_nat_numeral)
  let ?ls = "map string_of_nat ip"
  have str: "ip_string ip = join_with ''.'' ?ls" by (simp add: ip_string_def ip)
  have chars: "is_digit x \<or> x = CHR ''.''" if "x \<in> set (ip_string ip)" for x
    using that [unfolded str] string_of_nat_digits by (auto simp: ip)
  show "clean (ip_string ip)"
    unfolding clean_def
  proof
    fix x assume "x \<in> set (ip_string ip)"
    with chars have "is_digit x \<or> x = CHR ''.''" by simp
    then show "\<not> is_space x \<and> x \<noteq> CHR '','' \<and> x \<noteq> CHR '';''"
      using digit_not [of x] by (auto simp: is_space_def)
  qed
  have "CHR '':'' \<notin> set (ip_string ip)" "CHR ''%'' \<notin> set (ip_string ip)"
    using chars [of "CHR '':''"] chars [of "CHR ''%''"] digit_not by auto
  moreover have "CHR ''.'' \<in> set (ip_string ip)" unfolding str by (simp add: ip)
  moreover have "split_on CHR ''.'' (ip_string ip) = ?ls"
    unfolding str using string_of_nat_digits digit_not(1) by (intro split_on_join) (auto simp: ip)
  then have "parse_ipv4 (ip_string ip) = Some ip"
    using assms by (simp add: parse_ipv4_def ip ipv4_def octet_string_of_nat)
  ultimately show "ParseIP (ip_string ip) = Some ip" by (simp add: ParseIP_dotted)
qed

lemma parse_dns: "\<forall>d \<in> set ds. clean d \<Longrightarrow>
    parse_sans u acc (map (\<lambda>d. ''DNS:'' @ d) ds @ rest) = parse_sans u (acc\<lparr>DNS := DNS acc @ ds\<rparr>) rest"
  by (induction ds arbitrary: acc) (simp_all add: parse_item(1) [unfolded append.simps])

lemma parse_emails: "\<forall>d \<in> set ds. clean d \<Longrightarrow>
    parse_sans u acc (map (\<lambda>d. ''EMAIL:'' @ d) ds @ rest) = parse_sans u (acc\<lparr>Emails := Emails acc @ ds\<rparr>) rest"
  by (induction ds arbitrary: acc) (simp_all add: parse_item(2) [unfolded append.simps])

lemma parse_ips: "\<forall>ip \<in> set ips. ipv4 ip \<Longrightarrow>
    parse_sans u acc (map (\<lambda>ip. ''IP:'' @ ip_string ip) ips @ rest) = parse_sans u (acc\<lparr>IPs := IPs acc @ ips\<rparr>) rest"
  by (induction ips arbitrary: acc)
     (simp_all add: parse_item(3) [OF ip_string_ipv4, unfolded append.simps])

lemma parse_uris: "\<forall>d \<in> set ds. clean d \<and> u d = Some d \<Longrightarrow>
    parse_sans u acc (map (\<lambda>d. ''URI:'' @ d) ds @ rest) = parse_sans u (acc\<lparr>URIs := URIs acc @ ds\<rparr>) rest"
  by (induction ds arbitrary: acc) (simp_all add: parse_item(4) [unfolded append.simps])


definition clean_sans :: "(string \<Rightarrow> string option) \<Rightarrow> SANSet \<Rightarrow> bool" where
  "clean_sans u s \<longleftrightarrow>
     (\<forall>d \<in> set (DNS s). clean d) \<and> (\<forall>ip \<in> set (IPs s). ipv4 ip) \<and>
     (\<forall>d \<in> set (Emails s). clean d) \<and> (\<forall>d \<in> set (URIs s). clean d \<and> u d = Some d)"

lemma Strings_clean: "clean_sans u s \<Longrightarrow> x \<in> set (Strings s) \<Longrightarrow> clean x \<and> x \<noteq> []"
  by (auto simp: clean_sans_def Strings_def ip_string_ipv4(1) clean_Cons_prefixes)

text \<open>(pki/subject.go, Strings, splitList and ParseSANs): the alternative names of a certificate, written
  in the prefixed form the database stores, are read back as the same names, when they carry no
  separator, the addresses are IPv4 and the library reads each URI as it is written. This is how a
  renewal carries the names of a certificate to the next one.\<close>

theorem ParseSANs_Strings:
  assumes "clean_sans u s"
  shows "ParseSANs u (Strings s) = Inr s"
proof -
  have "splitList (Strings s) = Strings s"
    using Strings_clean [OF assms] by (intro splitList_clean) blast
  then have "ParseSANs u (Strings s) = parse_sans u no_sans (Strings s @ [])"
    by (simp add: ParseSANs_def)
  also have "\<dots> = Inr s"
    using assms unfolding Strings_def append_assoc clean_sans_def
    by (simp add: parse_dns parse_ips parse_emails parse_uris no_sans_def del: append_Nil2 append.simps)
  finally show ?thesis .
qed

theorem ParseSANs_Strings_witness:
  "ParseSANs (\<lambda>_. None) (Strings \<lparr>DNS = [''a.example.com''], IPs = [[10, 0, 0, 1]], Emails = [''x@y.z''], URIs = []\<rparr>) =
     Inr \<lparr>DNS = [''a.example.com''], IPs = [[10, 0, 0, 1]], Emails = [''x@y.z''], URIs = []\<rparr>"
  by (rule ParseSANs_Strings) (simp add: clean_sans_def clean_def ipv4_def is_space_def)


section \<open>What is signed\<close>

text \<open>
  The documented behaviour of \<open>x509.CreateCertificate\<close>: the certificate it returns parses, and has the
  serial number, subject, validity, usages and names of the template and the given public key.
\<close>

definition same_content :: "x509 \<Rightarrow> public_key \<Rightarrow> x509 \<Rightarrow> bool" where
  "same_content tmpl pub c \<longleftrightarrow>
     x_serial c = x_serial tmpl \<and> x_subject c = x_subject tmpl \<and>
     x_not_before c = x_not_before tmpl \<and> x_not_after c = x_not_after tmpl \<and>
     x_key_usage c = x_key_usage tmpl \<and> x_ext_key_usage c = x_ext_key_usage tmpl \<and>
     x_is_ca c = x_is_ca tmpl \<and> x_sans c = x_sans tmpl \<and> x_pub c = pub"

definition creates_what_it_is_given :: "crypto \<Rightarrow> bool" where
  "creates_what_it_is_given K \<longleftrightarrow>
     (\<forall>n tmpl issuer pub key der c.
        create_certificate K n tmpl issuer pub key = Some der \<longrightarrow> parse_certificate K der = Some c \<longrightarrow>
        same_content tmpl pub c)"

lemma Sign_InrD:
  assumes "Sign K t n p = Inr r"
  shows "\<exists>serial der. NewSerial K n = Inr serial \<and> x_is_ca (sp_issuer p) \<and>
    t \<le> x_not_after (sp_issuer p) \<and> add_days t (sign_days p) \<le> x_not_after (sp_issuer p) \<and>
    create_certificate K n (sign_template K t p serial) (sp_issuer p) (q_pub (sp_csr p)) (sp_issuer_key p) = Some der \<and>
    parse_certificate K der = Some (sr_certificate r) \<and> sr_cert_pem r = EncodeCertPEM K der \<and>
    sr_serial_hex r = SerialHex serial \<and> sr_fingerprint r = FingerprintSHA256 K der"
  using assms by (auto simp: Sign_def split: if_splits sum.splits option.splits)

lemma Sign_content:
  assumes "Sign K t n p = Inr r" and "creates_what_it_is_given K"
  obtains serial where "NewSerial K n = Inr serial" "sr_serial_hex r = SerialHex serial"
    "same_content (sign_template K t p serial) (q_pub (sp_csr p)) (sr_certificate r)"
  using Sign_InrD [OF assms(1)] assms(2) unfolding creates_what_it_is_given_def by blast


text \<open>C35 (pki/ca.go, Sign): a certificate is signed only by an authority that has not expired, does not
  outlive it, and is for the key of the request. It is a certificate authority, and may sign
  certificates, exactly when the intermediate-ca profile was asked for; its subject and names are those
  of the request or the ones that replace them, or, for a server certificate that would have no names, the common
  name when it parses as one (\<open>sign_sans\<close>), and its serial number is positive and the one returned.\<close>

theorem Sign_sound:
  assumes "Sign K t n p = Inr r" and "creates_what_it_is_given K"
  shows "x_is_ca (sp_issuer p) \<and> t \<le> x_not_after (sp_issuer p) \<and>
    x_not_after (sr_certificate r) \<le> x_not_after (sp_issuer p) \<and>
    x_not_after (sr_certificate r) = add_days t (sign_days p) \<and>
    x_pub (sr_certificate r) = q_pub (sp_csr p) \<and>
    (x_is_ca (sr_certificate r) \<longleftrightarrow> sign_profile p = ProfileIntermCA) \<and>
    (CertSign \<in> set (x_key_usage (sr_certificate r)) \<longleftrightarrow> sign_profile p = ProfileIntermCA) \<and>
    x_subject (sr_certificate r) = sign_subject p \<and> x_sans (sr_certificate r) = sign_sans K p \<and>
    0 < x_serial (sr_certificate r) \<and>
    SerialFromHex (sr_serial_hex r) = Some (int (x_serial (sr_certificate r)))"
proof -
  obtain serial where s: "NewSerial K n = Inr serial" "sr_serial_hex r = SerialHex serial"
    "same_content (sign_template K t p serial) (q_pub (sp_csr p)) (sr_certificate r)"
    by (rule Sign_content [OF assms])
  have "0 < serial" using s(1) by (auto simp: NewSerial_def split: option.splits)
  moreover have "CertSign \<notin> set (fst (usages pr))" for pr by (cases pr) auto
  ultimately show ?thesis
    using s Sign_InrD [OF assms(1)]
    by (auto simp: same_content_def sign_template_def Let_def serial_round_trip)
qed

text \<open>A library for examples: it knows one authority, one request and one certificate.\<close>

definition demo_ca_cert :: x509 where
  "demo_ca_cert =
     \<lparr>x_serial = 7, x_subject = PKIX (SubjectFromPKIX \<lparr>pn_cn = ''Root'', pn_o = [], pn_ou = [], pn_c = [],
        pn_st = [], pn_l = [], pn_street = [], pn_postal = []\<rparr>),
      x_not_before = 0, x_not_after = 400000000, x_key_usage = [CertSign, CRLSign, DigitalSignature],
      x_ext_key_usage = [], x_is_ca = True, x_max_path_len = 0, x_max_path_len_zero = False,
      x_sans = no_sans, x_permitted_dns = [], x_crl_dist_points = [], x_ocsp_server = [],
      x_subject_key_id = [], x_sig_alg = ECDSAWithSHA256, x_pub = ECPub P256 ''ca'', x_raw = ''ca''\<rparr>"

definition demo_crypto :: "csr \<Rightarrow> x509 \<Rightarrow> crypto" where
  "demo_crypto q c =
     \<lparr>rand_key = (\<lambda>_. Some ''k''), rand_serial = (\<lambda>_. Some 41),
      pem_blocks = (\<lambda>s. if CHR ''|'' \<in> set s
                        then [(takeWhile (\<lambda>x. x \<noteq> CHR ''|'') s, drop 1 (dropWhile (\<lambda>x. x \<noteq> CHR ''|'') s))] else []),
      pem_encode = (\<lambda>ty b. ty @ ''|'' @ b),
      create_certificate = (\<lambda>_ tmpl _ pub _. if same_content tmpl pub c then Some ''leaf'' else None),
      parse_certificate = (\<lambda>d. if d = ''leaf'' then Some c else if d = ''ca'' then Some demo_ca_cert else None),
      create_csr = (\<lambda>_ _ _. Some ''req''), parse_csr = (\<lambda>d. if d = ''req'' then Some (q, True) else None),
      create_crl = (\<lambda>_ _ _ _. Some ''crl''), marshal_key = (\<lambda>_. Some ''key''),
      parse_pkcs8 = (\<lambda>_. Some (ECKey P256 ''ca'')), parse_pkcs1 = (\<lambda>_. None), parse_sec1 = (\<lambda>_. None),
      subject_key_id = (\<lambda>_. None), sha256 = (\<lambda>d. d), mail_ok = (\<lambda>_. True), uri_parse = Some\<rparr>"

lemma demo_crypto_law: "creates_what_it_is_given (demo_crypto q c)"
  by (auto simp: creates_what_it_is_given_def demo_crypto_def split: if_splits)

definition demo_csr :: csr where
  "demo_csr = \<lparr>q_subject = \<lparr>pn_cn = ''a.test'', pn_o = [], pn_ou = [], pn_c = [], pn_st = [], pn_l = [],
      pn_street = [], pn_postal = []\<rparr>,
     q_sans = no_sans\<lparr>DNS := [''a.test'']\<rparr>, q_sig_alg = ECDSAWithSHA256, q_pub = ECPub P256 ''dev''\<rparr>"

definition demo_sign :: SignParams where
  "demo_sign = \<lparr>sp_csr = demo_csr, sp_issuer = demo_ca_cert, sp_issuer_key = ECKey P256 ''ca'',
     sp_profile = Some ProfileServer, sp_days = 90, sp_san_override = None, sp_subject_override = None,
     sp_crl_dist_points = [], sp_ocsp_servers = [], sp_path_len = 0\<rparr>"

definition demo_leaf :: x509 where
  "demo_leaf = sign_template (demo_crypto demo_csr demo_ca_cert) 1000 demo_sign 42"

theorem Sign_sound_witness:
  "\<exists>r. Sign (demo_crypto demo_csr demo_leaf) 1000 0 demo_sign = Inr r \<and>
       x_not_after (sr_certificate r) \<le> x_not_after demo_ca_cert \<and> \<not> x_is_ca (sr_certificate r)"
proof -
  let ?r = "\<lparr>sr_certificate = demo_leaf, sr_cert_pem = ''CERTIFICATE|leaf'', sr_serial_hex = ''2A'',
    sr_fingerprint = ''6C:65:61:66''\<rparr>"
  have ok: "Sign (demo_crypto demo_csr demo_leaf) 1000 0 demo_sign = Inr ?r" by code_simp
  have "sign_profile demo_sign = ProfileServer" "sp_issuer demo_sign = demo_ca_cert" by code_simp+
  with Sign_sound [OF ok demo_crypto_law] ok show ?thesis by auto
qed

end
