(* ===== verification/Acme_Jws.thy ===== *)
theory Acme_Jws
  imports Acme_Domain Secret Pki
begin

text \<open>
  Signed requests (\<open>internal/acme/jws.go\<close>) and replay nonces (\<open>internal/acme/nonce.go\<close>).

  The library that parses and verifies JSON web signatures (go-jose) is not part of the repository: it
  is the record \<open>jose\<close>, an argument of every definition that calls it. The decoding of JSON payloads
  into request structures and the reading and writing of RFC 3339 times are the record \<open>codec\<close>.
\<close>


section \<open>The signature library\<close>

datatype alg = RS256 | PS256 | ES256 | ES384 | ES512 | EdDSA | HS256

datatype jwk = JWK string

datatype verify_key = AccountKey jwk | HMACKey string

text \<open>The extra headers of a signature by name; a value that is not a string is \<open>None\<close>.\<close>

record jws_header =
  jh_key_id :: string
  jh_jwk :: "jwk option"
  jh_nonce :: string
  jh_extra :: "(string \<times> string option) list"

record jws_signature =
  js_protected :: jws_header
  js_unprotected :: jws_header

record jws_object =
  jo_signatures :: "jws_signature list"
  jo_raw :: string

record jose =
  parse_signed :: "string \<Rightarrow> alg list \<Rightarrow> jws_object option"
  jws_verify :: "jws_object \<Rightarrow> verify_key \<Rightarrow> string option"
  jwk_thumbprint :: "jwk \<Rightarrow> string option"
  jwk_public :: "jwk \<Rightarrow> jwk"
  jwk_marshal :: "jwk \<Rightarrow> string option"
  jwk_unmarshal :: "string \<Rightarrow> jwk option"
  jwk_key :: "jwk \<Rightarrow> public_key"

definition accountAlgs :: "alg list" where
  "accountAlgs = [RS256, PS256, ES256, ES384, ES512, EdDSA]"

definition eabAlgs :: "alg list" where
  "eabAlgs = [HS256]"


section \<open>Requests\<close>

record ParsedJWS =
  pj_payload :: string
  pj_key_id :: string
  pj_jwk :: "jwk option"
  pj_nonce :: string
  pj_url :: string
  pj_raw :: jws_object

datatype jws_error =
  JWSParse | SignatureCount | UnprotectedHeader | BothKeys | NoKey | NoURL

definition header_url :: "jws_header \<Rightarrow> string" where
  "header_url h = (case map_of (jh_extra h) ''url'' of Some (Some u) \<Rightarrow> u | _ \<Rightarrow> [])"

definition ParseJWS :: "jose \<Rightarrow> string \<Rightarrow> jws_error + ParsedJWS" where
  "ParseJWS J body =
     (case parse_signed J body accountAlgs of
        None \<Rightarrow> Inl JWSParse
      | Some obj \<Rightarrow>
          (case jo_signatures obj of
             [sig] \<Rightarrow>
               let un = js_unprotected sig; hdr = js_protected sig in
               if jh_key_id un \<noteq> [] \<or> jh_jwk un \<noteq> None \<or> jh_nonce un \<noteq> [] \<or> jh_extra un \<noteq> []
               then Inl UnprotectedHeader
               else if jh_key_id hdr \<noteq> [] \<and> jh_jwk hdr \<noteq> None then Inl BothKeys
               else if jh_key_id hdr = [] \<and> jh_jwk hdr = None then Inl NoKey
               else if header_url hdr = [] then Inl NoURL
               else Inr \<lparr>pj_payload = [], pj_key_id = jh_key_id hdr, pj_jwk = jh_jwk hdr,
                         pj_nonce = jh_nonce hdr, pj_url = header_url hdr, pj_raw = obj\<rparr>
           | _ \<Rightarrow> Inl SignatureCount))"

text \<open>\<open>Verify\<close> fills in the payload of a request whose signature is right.\<close>

definition Verify :: "jose \<Rightarrow> ParsedJWS \<Rightarrow> jwk \<Rightarrow> ParsedJWS option" where
  "Verify J p key = map_option (\<lambda>payload. p\<lparr>pj_payload := payload\<rparr>) (jws_verify J (pj_raw p) (AccountKey key))"

text \<open>An empty payload decodes to the zero value \<open>zero\<close> of the structure.\<close>

definition DecodePayload :: "(string \<Rightarrow> 'a option) \<Rightarrow> 'a \<Rightarrow> ParsedJWS \<Rightarrow> 'a option" where
  "DecodePayload unmarshal zero p = (if pj_payload p = [] then Some zero else unmarshal (pj_payload p))"

definition IsPostAsGet :: "ParsedJWS \<Rightarrow> bool" where
  "IsPostAsGet p \<longleftrightarrow> pj_payload p = []"


section \<open>External account bindings\<close>

datatype eab_error =
  NoBinding | BindingParse | BindingSignatureCount | BindingNoKid | BindingHasJWK | BindingHasNonce
| BindingURL | UnknownKeyID string | BindingSignature | BindingPayload | AccountThumbprint
| BoundThumbprint | OtherAccountKey

text \<open>The checks of the binding after its signature was verified: \<open>payload\<close> is the bound key.\<close>

definition bound_key_error :: "jose \<Rightarrow> jwk \<Rightarrow> string \<Rightarrow> eab_error option" where
  "bound_key_error J account payload =
     (case jwk_unmarshal J payload of
        None \<Rightarrow> Some BindingPayload
      | Some bound \<Rightarrow>
          (case jwk_thumbprint J account of
             None \<Rightarrow> Some AccountThumbprint
           | Some want \<Rightarrow>
               (case jwk_thumbprint J bound of
                  None \<Rightarrow> Some BoundThumbprint
                | Some got \<Rightarrow> if want \<noteq> got then Some OtherAccountKey else None)))"

text \<open>The result is the key id, the error or what the lookup found, and the state: looking a key up reads
  the database. \<open>lookupHMAC\<close> returns the HMAC key and the credential that the closure of the caller keeps.\<close>

definition VerifyEAB ::
  "jose \<Rightarrow> string \<Rightarrow> string \<Rightarrow> jwk \<Rightarrow> (string \<Rightarrow> 's \<Rightarrow> (string \<times> 'c) option \<times> 's) \<Rightarrow> 's
     \<Rightarrow> string \<times> (eab_error + 'c) \<times> 's" where
  "VerifyEAB J eab outer_url account lookupHMAC s =
     (if eab = [] then ([], Inl NoBinding, s)
      else (case parse_signed J eab eabAlgs of
        None \<Rightarrow> ([], Inl BindingParse, s)
      | Some obj \<Rightarrow>
          (case jo_signatures obj of
             [sig] \<Rightarrow>
               let hdr = js_protected sig; kid = jh_key_id hdr in
               if kid = [] then ([], Inl BindingNoKid, s)
               else if jh_jwk hdr \<noteq> None then (kid, Inl BindingHasJWK, s)
               else if jh_nonce hdr \<noteq> [] then (kid, Inl BindingHasNonce, s)
               else if header_url hdr \<noteq> outer_url then (kid, Inl BindingURL, s)
               else (case lookupHMAC kid s of
                       (None, s) \<Rightarrow> (kid, Inl (UnknownKeyID kid), s)
                     | (Some (key, c), s) \<Rightarrow>
                         (case jws_verify J obj (HMACKey key) of
                            None \<Rightarrow> (kid, Inl BindingSignature, s)
                          | Some payload \<Rightarrow>
                              (case bound_key_error J account payload of
                                 Some e \<Rightarrow> (kid, Inl e, s)
                               | None \<Rightarrow> (kid, Inr c, s))))
           | _ \<Rightarrow> ([], Inl BindingSignatureCount, s))))"

definition Thumbprint :: "jose \<Rightarrow> jwk \<Rightarrow> string option" where
  "Thumbprint J key = map_option (\<lambda>b. concat (map (\<lambda>c. [hex_digit (of_char c div 16), hex_digit (of_char c mod 16)]) b))
                        (jwk_thumbprint J key)"

text \<open>What a successful verification has established: a signature with the key of the credential over the
  account's own key, for this URL.\<close>

definition binds :: "jose \<Rightarrow> string \<Rightarrow> string \<Rightarrow> jwk \<Rightarrow> string \<Rightarrow> string \<Rightarrow> bool" where
  "binds J eab url account kid key \<longleftrightarrow>
     (\<exists>obj sig payload bound. parse_signed J eab eabAlgs = Some obj \<and> jo_signatures obj = [sig] \<and>
        jh_key_id (js_protected sig) = kid \<and> kid \<noteq> [] \<and> jh_jwk (js_protected sig) = None \<and> jh_nonce (js_protected sig) = [] \<and>
        header_url (js_protected sig) = url \<and> jws_verify J obj (HMACKey key) = Some payload \<and>
        jwk_unmarshal J payload = Some bound \<and> jwk_thumbprint J bound \<noteq> None \<and>
        jwk_thumbprint J bound = jwk_thumbprint J account)"

lemma VerifyEAB_Inr:
  assumes "VerifyEAB J eab url account lookup s = (kid, Inr c, s')"
  shows "\<exists>key. lookup kid s = (Some (key, c), s') \<and> binds J eab url account kid key"
  using assms unfolding VerifyEAB_def Let_def
  by (auto simp: binds_def bound_key_error_def split: if_splits option.splits list.splits prod.splits)

lemma ParseJWS_Inr:
  assumes "ParseJWS J body = Inr p"
  shows "parse_signed J body accountAlgs = Some (pj_raw p) \<and> pj_url p \<noteq> [] \<and>
    (pj_key_id p = [] \<longleftrightarrow> pj_jwk p \<noteq> None)"
  using assms unfolding ParseJWS_def Let_def by (auto split: if_splits option.splits list.splits)

lemma Verify_Some:
  "Verify J p key = Some p' \<Longrightarrow>
     jws_verify J (pj_raw p) (AccountKey key) = Some (pj_payload p') \<and> pj_url p' = pj_url p \<and>
     pj_key_id p' = pj_key_id p \<and> pj_nonce p' = pj_nonce p \<and> pj_jwk p' = pj_jwk p"
  by (auto simp: Verify_def)


section \<open>Nonces\<close>

definition nonceTTL :: int where
  "nonceTTL = 600"

text \<open>\<open>None\<close> is the panic when the system has no randomness.\<close>

definition NonceManager_New :: "env \<Rightarrow> db \<Rightarrow> string stmt option" where
  "NonceManager_New E s =
     map_option (\<lambda>b. let n = RawURLEncode b in
        attempt (CreateAcmeNonce E n (now E s + nonceTTL) s) (\<lambda>e s. (Inl e, s)) (\<lambda>_ s. (Inr n, s)))
       (random_token E (tick s))"

definition Consume :: "env \<Rightarrow> string \<Rightarrow> db \<Rightarrow> bool \<times> db" where
  "Consume E n s =
     (if n = [] then (False, s)
      else attempt (ConsumeAcmeNonce E n (now E s) s) (\<lambda>e s. (False, s)) (\<lambda>ok s. (ok, s)))"

definition Purge :: "env \<Rightarrow> db \<Rightarrow> nat stmt" where
  "Purge E s = PurgeExpiredAcmeNonces E (now E s) s"

text \<open>The nonces that can be redeemed at a time.\<close>

definition redeemable :: "int \<Rightarrow> db \<Rightarrow> string set" where
  "redeemable t s = {n. \<exists>x \<in> set (acme_nonces s). n_nonce x = n \<and> t < n_expires_at x}"

definition unique_nonces :: "db \<Rightarrow> bool" where
  "unique_nonces s \<longleftrightarrow> distinct (map n_nonce (acme_nonces s))"

lemma affected_nonce:
  assumes "unique_nonces s"
  shows "affected (\<lambda>x. n_nonce x = n \<and> q x) (acme_nonces s) = 1 \<longleftrightarrow>
    (\<exists>x \<in> set (acme_nonces s). n_nonce x = n \<and> q x)"
proof -
  let ?p = "\<lambda>x. n_nonce x = n \<and> q x"
  have "affected ?p (acme_nonces s) \<le> 1"
    using assms by (intro affected_unique [of n_nonce _ _ n]) (auto simp: unique_nonces_def)
  then show ?thesis using affected_zero_iff [of ?p "acme_nonces s"] by (cases "affected ?p (acme_nonces s)") auto
qed

lemma Consume_cases:
  "snd (Consume E n s) = s \<or> snd (Consume E n s) = s\<lparr>tick := Suc (tick s)\<rparr> \<or>
   snd (Consume E n s) = s\<lparr>tick := Suc (tick s),
      acme_nonces := delete_where (\<lambda>x. n_nonce x = n \<and> now E s < n_expires_at x) (acme_nonces s)\<rparr>"
  by (auto simp: Consume_def ConsumeAcmeNonce_def stmt_defs)

lemma Consume_True:
  assumes "Consume E n s = (True, s')" and "unique_nonces s"
  shows "n \<in> redeemable (now E s) s \<and> n \<notin> n_nonce ` set (acme_nonces s') \<and>
    s' = s\<lparr>tick := Suc (tick s), acme_nonces := delete_where (\<lambda>x. n_nonce x = n) (acme_nonces s)\<rparr>"
proof -
  let ?p = "\<lambda>x. n_nonce x = n \<and> now E s < n_expires_at x"
  have a: "affected ?p (acme_nonces s) = 1" and s': "s' = s\<lparr>tick := Suc (tick s), acme_nonces := delete_where ?p (acme_nonces s)\<rparr>"
    using assms(1) by (auto simp: Consume_def ConsumeAcmeNonce_def stmt_defs split: if_splits)
  obtain x where x: "x \<in> set (acme_nonces s)" "?p x"
    using affected_nonce [OF assms(2), of n "\<lambda>x. now E s < n_expires_at x"] a by blast
  have "delete_where ?p (acme_nonces s) = delete_where (\<lambda>y. n_nonce y = n) (acme_nonces s)"
    using x assms(2) unfolding delete_where_def unique_nonces_def
    by (intro filter_cong) (auto dest: distinct_map [THEN iffD1] inj_onD)
  with s' x show ?thesis by (auto simp: redeemable_def delete_where_def)
qed

lemma Consume_absent: "n \<notin> n_nonce ` set (acme_nonces s) \<Longrightarrow> \<not> fst (Consume E n s)"
proof -
  assume "n \<notin> n_nonce ` set (acme_nonces s)"
  then have "affected (\<lambda>x. n_nonce x = n \<and> now E s < n_expires_at x) (acme_nonces s) = 0"
    by (auto simp: affected_zero_iff)
  then show ?thesis by (auto simp: Consume_def ConsumeAcmeNonce_def stmt_defs)
qed

end
