(* ===== verification/Ca_Service.thy ===== *)
theory Ca_Service
  imports Store Pki
begin

text \<open>
  \<open>internal/ca/service.go\<close>: the certificate service that the command line, the REST API, the portal
  and the ACME server share. It resolves an authority, unlocks its key, signs, stores and audits.

  A service is its configuration, its environment (clock and database faults), the cryptographic
  library and the box that encrypts keys. Fresh randomness is a function of the statement count of the
  database state. The event sink that observes audit records is not installed.
\<close>

record config =
  base_url :: string
  default_key_type :: string
  default_ca_days :: int
  default_cert_days :: int
  crl_days :: int
  cfg_crl_dist_points :: "string list"
  cfg_ocsp_servers :: "string list"

record service =
  sv_env :: env
  sv_crypto :: crypto
  sv_box :: aead
  sv_nonce :: "nat \<Rightarrow> string option"
  sv_cfg :: config

datatype cannot_issue = StillPending | TrustAnchor | NotActive ca_status | CAExpired

datatype ca_error =
  DbError db_error | PkiError pki_error | BoxError box_error
| CANameRequired | NoCAMatches string | NoCAAvailable | NoneCanIssue "(string \<times> cannot_issue) list"
| CannotIssue string cannot_issue | SubordinateCANotAllowed | CSRRequired | UnknownMode string
| CertRefRequired | NoStoredKey | NoCRLYet string | NoKeyForCRL string | BadCAStatus string
| AlreadyOnHold string | PermanentlyRevoked string int | NothingMatched | ParentCycle

type_synonym 'a op = "(ca_error, 'a, db) outcome"

text \<open>\<open>if err != nil { return err }\<close> after a statement and after a call of the \<open>pki\<close> package.\<close>

definition stmt :: "(db_error, 'a, db) outcome \<Rightarrow> ('a \<Rightarrow> db \<Rightarrow> 'b op) \<Rightarrow> 'b op" where
  "stmt r k = attempt r (\<lambda>e s. (Inl (DbError e), s)) k"

definition pki :: "pki_error + 'a \<Rightarrow> db \<Rightarrow> ('a \<Rightarrow> 'b op) \<Rightarrow> 'b op" where
  "pki r s k = (case r of Inl e \<Rightarrow> (Inl (PkiError e), s) | Inr x \<Rightarrow> k x)"

definition boxed :: "box_error + 'a \<Rightarrow> db \<Rightarrow> ('a \<Rightarrow> 'b op) \<Rightarrow> 'b op" where
  "boxed r s k = (case r of Inl e \<Rightarrow> (Inl (BoxError e), s) | Inr x \<Rightarrow> k x)"

lemma stmt_simps [simp]:
  "stmt (Inl e, s) k = (Inl (DbError e), s)" "stmt (Inr x, s) k = k x s"
  by (simp_all add: stmt_def)

lemma pki_simps [simp]: "pki (Inl e) s k = (Inl (PkiError e), s)" "pki (Inr x) s k = k x"
  by (simp_all add: pki_def)

lemma boxed_simps [simp]: "boxed (Inl e) s k = (Inl (BoxError e), s)" "boxed (Inr x) s k = k x"
  by (simp_all add: boxed_def)

text \<open>A successful result means that every step succeeded.\<close>

lemma stmt_InrD: "stmt r k = (Inr y, s') \<Longrightarrow> \<exists>x s1. r = (Inr x, s1) \<and> k x s1 = (Inr y, s')"
  by (cases r; cases "fst r") (auto simp: stmt_def)

lemma pki_InrD: "pki r s k = (Inr y, s') \<Longrightarrow> \<exists>x. r = Inr x \<and> k x = (Inr y, s')"
  by (cases r) auto

lemma boxed_InrD: "boxed r s k = (Inr y, s') \<Longrightarrow> \<exists>x. r = Inr x \<and> k x = (Inr y, s')"
  by (cases r) auto


section \<open>Helpers\<close>

definition recordAudit :: "service \<Rightarrow> string \<Rightarrow> string \<Rightarrow> string \<Rightarrow> string \<Rightarrow> string \<Rightarrow> db \<Rightarrow> db" where
  "recordAudit V actor action target detail ip s =
     snd (Audit (sv_env V) (if actor = [] then ''system'' else actor) action target detail ip s)"

definition audit :: "service \<Rightarrow> string \<Rightarrow> string \<Rightarrow> string \<Rightarrow> string \<Rightarrow> db \<Rightarrow> db" where
  "audit V actor action target detail s = recordAudit V actor action target detail [] s"

definition decryptKey :: "service \<Rightarrow> string \<Rightarrow> db \<Rightarrow> (private_key \<Rightarrow> 'b op) \<Rightarrow> 'b op" where
  "decryptKey V enc s k =
     boxed (Decrypt (sv_box V) enc) s (\<lambda>pem. pki (ParsePrivateKeyPEM (sv_crypto V) pem) s k)"

definition bool_text :: "bool \<Rightarrow> string" where
  "bool_text b = (if b then ''true'' else ''false'')"

fun firstNonEmpty :: "string list \<Rightarrow> string" where
  "firstNonEmpty [] = []"
| "firstNonEmpty (v # vs) = (if trim_space v \<noteq> [] then v else firstNonEmpty vs)"

fun firstNonEmptySlice :: "string list list \<Rightarrow> string list" where
  "firstNonEmptySlice [] = []"
| "firstNonEmptySlice (v # vs) = (if v \<noteq> [] then v else firstNonEmptySlice vs)"

definition normalizePEM :: "string \<Rightarrow> string" where
  "normalizePEM s = (if trim_space s = [] then [] else trim_space s @ [CHR 0x0A])"

definition slug_char :: "char \<Rightarrow> bool" where
  "slug_char c \<longleftrightarrow> (97 \<le> (of_char c :: nat) \<and> (of_char c :: nat) \<le> 122) \<or> is_digit c"

text \<open>Every maximal run of other characters becomes one hyphen.\<close>

fun slug_runs :: "bool \<Rightarrow> string \<Rightarrow> string" where
  "slug_runs in_run [] = []"
| "slug_runs in_run (c # cs) =
     (if slug_char c then c # slug_runs False cs
      else if in_run then slug_runs True cs else CHR ''-'' # slug_runs True cs)"

definition trim_hyphens :: "string \<Rightarrow> string" where
  "trim_hyphens s = rev (dropWhile (\<lambda>c. c = CHR ''-'') (rev (dropWhile (\<lambda>c. c = CHR ''-'') s)))"

definition Slugify :: "string \<Rightarrow> string" where
  "Slugify s =
     (let out = trim_hyphens (slug_runs False (to_lower (trim_space s)));
          out = (if out = [] then ''ca'' else out)
      in take 60 out)"

text \<open>The loop of \<open>uniqueSlug\<close>, over the candidates \<open>base\<close>, \<open>base-2\<close>, ..., \<open>base-98\<close>.\<close>

fun try_slugs :: "env \<Rightarrow> string \<Rightarrow> nat list \<Rightarrow> string \<Rightarrow> db \<Rightarrow> string \<times> db" where
  "try_slugs E base [] slug s = (base @ ''-'' @ string_of_int (now E s), s)"
| "try_slugs E base (i # is) slug s =
     (case GetCABySlug E slug s of
        (Inl ErrNotFound, s1) \<Rightarrow> (slug, s1)
      | (_, s1) \<Rightarrow> try_slugs E base is (base @ ''-'' @ string_of_nat i) s1)"

definition uniqueSlug :: "env \<Rightarrow> string \<Rightarrow> db \<Rightarrow> string \<times> db" where
  "uniqueSlug E name s = try_slugs E (Slugify name) [2..<100] (Slugify name) s"

definition checkCanIssue :: "int \<Rightarrow> CA \<Rightarrow> cannot_issue option" where
  "checkCanIssue t c =
     (if ca_status c = CAPending then Some StillPending
      else if \<not> HasKey c then Some TrustAnchor
      else if ca_status c \<noteq> CAActive then Some (NotActive (ca_status c))
      else if ca_Expired t c then Some CAExpired
      else None)"

definition noIssuerError :: "service \<Rightarrow> string \<Rightarrow> db \<Rightarrow> ca_error \<times> db" where
  "noIssuerError V ref s =
     (if trim_space ref \<noteq> [] then (NoCAMatches ref, s)
      else attempt (ListCAs (sv_env V) s)
        (\<lambda>e s. (NoCAAvailable, s))
        (\<lambda>all s. if all = [] then (NoCAAvailable, s)
                 else
                   let reasons = List.map_filter (\<lambda>c. map_option (Pair (ca_name c)) (checkCanIssue (now (sv_env V) s) c)) all
                   in (case reasons of
                         [(n, r)] \<Rightarrow> (CannotIssue n r, s)
                       | _ \<Rightarrow> (NoneCanIssue reasons, s))))"


section \<open>Authorities\<close>

record CreateCAInput =
  ci_name :: string
  ci_subject :: Subject
  ci_key_type :: string
  ci_days :: int
  ci_parent :: string
  ci_path_len :: int
  ci_crl_dist_points :: "string list"
  ci_ocsp_servers :: "string list"
  ci_permitted_dns :: "string list"
  ci_make_default :: bool
  ci_actor :: string

text \<open>The parent, its certificate and its key, when a parent is named.\<close>

definition resolve_parent ::
  "service \<Rightarrow> string \<Rightarrow> db \<Rightarrow> ((CA \<times> x509 \<times> private_key) option \<Rightarrow> db \<Rightarrow> 'b op) \<Rightarrow> 'b op" where
  "resolve_parent V ref s k =
     (let r = trim_space ref in
      if r = [] \<or> r = ''none'' then k None s
      else stmt (GetCAByRef (sv_env V) r s) (\<lambda>parent s.
             pki (ParseCertPEM (sv_crypto V) (ca_cert_pem parent)) s (\<lambda>cert.
               decryptKey V (ca_key_enc parent) s (\<lambda>key. k (Some (parent, cert, key)) s))))"

text \<open>\<open>Subject.JSON\<close> is the function \<open>json\<close>.\<close>

definition svc_CreateCA :: "service \<Rightarrow> (Subject \<Rightarrow> string) \<Rightarrow> CreateCAInput \<Rightarrow> db \<Rightarrow> CA op" where
  "svc_CreateCA V json inp s =
     (let E = sv_env V; K = sv_crypto V; cfg = sv_cfg V;
          name = (if trim_space (ci_name inp) = [] then CommonName (ci_subject inp) else trim_space (ci_name inp)) in
      if name = [] then (Inl CANameRequired, s)
      else (case Validate (mail_ok K) (ci_subject inp) of
        Some e \<Rightarrow> (Inl (PkiError e), s)
      | None \<Rightarrow>
        pki (ParseKeyType (firstNonEmpty [ci_key_type inp, default_key_type cfg, KeyRSA4096])) s (\<lambda>kt.
        let days = (if ci_days inp \<le> 0 then default_ca_days cfg else ci_days inp) in
        resolve_parent V (ci_parent inp) s (\<lambda>parent s.
        pki (pki_CreateCA K (now E s) (tick s)
               \<lparr>cp_subject = ci_subject inp, cp_key_type = kt, cp_days = days, cp_path_len = ci_path_len inp,
                cp_parent = map_option (\<lambda>(_, c, _). c) parent,
                cp_parent_key = map_option (\<lambda>(_, _, k). k) parent,
                cp_crl_dist_points = firstNonEmptySlice [ci_crl_dist_points inp, cfg_crl_dist_points cfg],
                cp_ocsp_servers = firstNonEmptySlice [ci_ocsp_servers inp, cfg_ocsp_servers cfg],
                cp_permitted_dns = ci_permitted_dns inp\<rparr>) s (\<lambda>res.
        boxed (Encrypt (sv_box V) (sv_nonce V (tick s)) (cr_private_key_pem res)) s (\<lambda>key_enc.
        case uniqueSlug E name s of (slug, s) \<Rightarrow>
        stmt (CreateCA E
               \<lparr>ca_id = 0, ca_name = name, ca_slug = slug, ca_subject = DNString (PKIX (ci_subject inp)),
                ca_subject_json = json (ci_subject inp), ca_serial_hex = cr_serial_hex res,
                ca_key_type = cr_key_type res, ca_cert_pem = cr_cert_pem res, ca_key_enc = key_enc,
                ca_csr_pem = [], ca_is_root = (parent = None),
                ca_parent_id = map_option (\<lambda>(p, _, _). ca_id p) parent,
                ca_path_len = ci_path_len inp, ca_not_before = x_not_before (cr_certificate res),
                ca_not_after = x_not_after (cr_certificate res), ca_status = CAActive, ca_crl_number = 0,
                ca_fingerprint = cr_fingerprint res, ca_is_default = False, ca_created_by = ci_actor inp,
                ca_created_at = 0, ca_last_crl_at = None, ca_external = False,
                ca_subject_key_id = [], ca_authority_key_id = []\<rparr> s) (\<lambda>saved s.
        let detail = (\<lambda>c. ''serial='' @ ca_serial_hex c @ '' key='' @ ca_key_type c @ '' days='' @
                        string_of_int days @ '' root='' @ bool_text (ca_is_root c)) in
        if ci_make_default inp
        then stmt (SetDefaultCA E (ca_id saved) s) (\<lambda>_ s.
               let saved = saved\<lparr>ca_is_default := True\<rparr> in
               (Inr saved, audit V (ci_actor inp) ''ca.create'' (ca_name saved) (detail saved) s))
        else (Inr saved, audit V (ci_actor inp) ''ca.create'' (ca_name saved) (detail saved) s))))))))"

definition svc_SetDefaultCA :: "service \<Rightarrow> nat \<Rightarrow> string \<Rightarrow> db \<Rightarrow> unit op" where
  "svc_SetDefaultCA V i actor s =
     stmt (SetDefaultCA (sv_env V) i s) (\<lambda>_ s. (Inr (), audit V actor ''ca.set_default'' (string_of_nat i) [] s))"

definition svc_SetCAStatus :: "service \<Rightarrow> nat \<Rightarrow> string \<Rightarrow> string \<Rightarrow> db \<Rightarrow> unit op" where
  "svc_SetCAStatus V i status actor s =
     (if status \<noteq> ''active'' \<and> status \<noteq> ''disabled'' then (Inl (BadCAStatus status), s)
      else stmt (SetCAStatus (sv_env V) i (if status = ''active'' then CAActive else CADisabled) s)
             (\<lambda>_ s. (Inr (), audit V actor ''ca.status'' (string_of_nat i) status s)))"

definition svc_DeleteCA :: "service \<Rightarrow> nat \<Rightarrow> string \<Rightarrow> db \<Rightarrow> unit op" where
  "svc_DeleteCA V i actor s =
     stmt (GetCA (sv_env V) i s) (\<lambda>c s.
       stmt (DeleteCA (sv_env V) i s) (\<lambda>_ s.
         (Inr (), audit V actor ''ca.delete'' (ca_name c) ''cascade delete of issued certificates'' s)))"

text \<open>The loop of \<open>CAChain\<close>: at most 16 certificates, so that a cycle of parents ends.\<close>

fun chain_from :: "service \<Rightarrow> nat \<Rightarrow> CA \<Rightarrow> db \<Rightarrow> x509 list op" where
  "chain_from V 0 cur s = (Inr [], s)"
| "chain_from V (Suc n) cur s =
     pki (ParseCertPEM (sv_crypto V) (ca_cert_pem cur)) s (\<lambda>cert.
       case ca_parent_id cur of
         None \<Rightarrow> (Inr [cert], s)
       | Some p \<Rightarrow>
           attempt (GetCA (sv_env V) p s)
             (\<lambda>e s. (Inr [cert], s))
             (\<lambda>parent s. attempt (chain_from V n parent s)
                (\<lambda>e s. (Inl e, s)) (\<lambda>rest s. (Inr (cert # rest), s))))"

definition CAChain :: "service \<Rightarrow> CA \<Rightarrow> db \<Rightarrow> x509 list op" where
  "CAChain V c s = chain_from V 16 c s"

definition CAChainPEM :: "service \<Rightarrow> CA \<Rightarrow> db \<Rightarrow> string op" where
  "CAChainPEM V c s =
     attempt (CAChain V c s) (\<lambda>e s. (Inl e, s))
       (\<lambda>chain s. (Inr (concat (map (\<lambda>x. EncodeCertPEM (sv_crypto V) (x_raw x)) chain)), s))"


section \<open>Issuance\<close>

record IssueInput =
  in_ca :: string
  in_mode :: string
  in_subject :: Subject
  in_sans :: "string list"
  in_key_type :: string
  in_profile :: string
  in_days :: int
  in_csr_pem :: string
  in_key_pem :: string
  in_store_key :: "bool option"
  in_note :: string
  in_actor :: string
  in_allow_subordinate_ca :: bool

record IssueResult =
  ir_certificate :: Certificate
  ir_private_key_pem :: string
  ir_csr_pem :: string
  ir_chain_pem :: string

definition issue_mode :: "IssueInput \<Rightarrow> string" where
  "issue_mode inp =
     (if in_mode inp \<noteq> [] then in_mode inp
      else if trim_space (in_csr_pem inp) \<noteq> [] then ''csr'' else ''generate'')"

definition KeyMatchesCSR :: "private_key \<Rightarrow> csr \<Rightarrow> pki_error option" where
  "KeyMatchesCSR key q =
     (case PublicKeyOf key of Inl e \<Rightarrow> Some e | Inr pub \<Rightarrow> samePublicKey pub (q_pub q))"

text \<open>The request to sign: its parsed form, its text, the private key that belongs to it (if known) and
  the name of its key type.\<close>

definition issue_request ::
  "service \<Rightarrow> IssueInput \<Rightarrow> db \<Rightarrow> (csr \<times> string \<times> string \<times> string \<Rightarrow> 'b op) \<Rightarrow> 'b op" where
  "issue_request V inp s k =
     (let K = sv_crypto V; mode = issue_mode inp in
      if mode = ''csr'' then
        (if trim_space (in_csr_pem inp) = [] then (Inl CSRRequired, s)
         else pki (ParseCSR K (in_csr_pem inp)) s (\<lambda>q.
           let csr_pem = normalizePEM (in_csr_pem inp); kt = KeyTypeOf (q_pub q); kp = trim_space (in_key_pem inp) in
           if kp = [] then k (q, csr_pem, [], kt)
           else pki (ParsePrivateKeyPEM K kp) s (\<lambda>key.
                  case KeyMatchesCSR key q of
                    Some e \<Rightarrow> (Inl (PkiError e), s)
                  | None \<Rightarrow> k (q, csr_pem, normalizePEM kp, kt))))
      else if mode = ''generate'' then
        (case Validate (mail_ok K) (in_subject inp) of
           Some e \<Rightarrow> (Inl (PkiError e), s)
         | None \<Rightarrow>
             pki (ParseKeyType (firstNonEmpty [in_key_type inp, default_key_type (sv_cfg V)])) s (\<lambda>kt.
             pki (ParseSANs (uri_parse K) (in_sans inp)) s (\<lambda>sans.
             pki (GenerateCSR K (tick s) (in_subject inp) sans kt) s (\<lambda>gen.
             pki (ParseCSR K (g_csr_pem gen)) s (\<lambda>q.
             k (q, g_csr_pem gen, g_key_pem gen, g_key_type gen))))))
      else (Inl (UnknownMode (in_mode inp)), s))"

definition issue_san_override :: "service \<Rightarrow> IssueInput \<Rightarrow> db \<Rightarrow> (SANSet option \<Rightarrow> 'b op) \<Rightarrow> 'b op" where
  "issue_san_override V inp s k =
     (if issue_mode inp = ''csr'' \<and> in_sans inp \<noteq> []
      then pki (ParseSANs (uri_parse (sv_crypto V)) (in_sans inp)) s (\<lambda>sans. k (Some sans))
      else k None)"

definition issue_params ::
  "service \<Rightarrow> IssueInput \<Rightarrow> x509 \<Rightarrow> private_key \<Rightarrow> Profile \<Rightarrow> csr \<Rightarrow> SANSet option \<Rightarrow> SignParams" where
  "issue_params V inp issuer key profile q san =
     \<lparr>sp_csr = q, sp_issuer = issuer, sp_issuer_key = key, sp_profile = Some profile,
      sp_days = (if in_days inp \<le> 0 then default_cert_days (sv_cfg V) else in_days inp),
      sp_san_override = san,
      sp_subject_override =
        (if issue_mode inp = ''csr'' \<and> trim_space (CommonName (in_subject inp)) \<noteq> []
         then Some (in_subject inp) else None),
      sp_crl_dist_points = cfg_crl_dist_points (sv_cfg V),
      sp_ocsp_servers = cfg_ocsp_servers (sv_cfg V),
      sp_path_len = 0\<rparr>"

definition issue_record ::
  "IssueInput \<Rightarrow> CA \<Rightarrow> Profile \<Rightarrow> SignResult \<Rightarrow> string \<Rightarrow> string \<Rightarrow> string \<Rightarrow> Certificate" where
  "issue_record inp ca profile res kt key_enc csr_pem =
     (let x = sr_certificate res in
      \<lparr>c_id = 0, c_ca_id = ca_id ca, c_serial_hex = sr_serial_hex res,
       c_common_name = pn_cn (x_subject x), c_subject = DNString (x_subject x),
       c_sans = Strings (x_sans x), c_profile = profile_name profile, c_key_type = kt,
       c_cert_pem = sr_cert_pem res, c_key_enc = key_enc, c_csr_pem = csr_pem,
       c_fingerprint = sr_fingerprint res, c_not_before = x_not_before x, c_not_after = x_not_after x,
       c_status = CertActive, c_revoked_at = None, c_revoke_code = 0,
       c_requested_by = in_actor inp, c_note = in_note inp, c_created_at = 0, c_renewed_from = None\<rparr>)"

definition issue_detail :: "IssueInput \<Rightarrow> CA \<Rightarrow> Certificate \<Rightarrow> Profile \<Rightarrow> int \<Rightarrow> string \<Rightarrow> string" where
  "issue_detail inp ca c profile days key_enc =
     ''serial='' @ c_serial_hex c @ '' ca='' @ ca_name ca @ '' profile='' @ profile_name profile @
     '' days='' @ string_of_int days @ '' mode='' @ issue_mode inp @ '' key_stored='' @ bool_text (key_enc \<noteq> [])"

text \<open>Everything that follows the request: signing, storing, auditing and building the chain.\<close>

definition issue_sign ::
  "service \<Rightarrow> IssueInput \<Rightarrow> CA \<Rightarrow> x509 \<Rightarrow> private_key \<Rightarrow> Profile \<Rightarrow> db \<Rightarrow> csr \<times> string \<times> string \<times> string
     \<Rightarrow> IssueResult op" where
  "issue_sign V inp ca issuer key profile s = (\<lambda>(q, csr_pem, gen_key, kt).
     let E = sv_env V; K = sv_crypto V in
     issue_san_override V inp s (\<lambda>san.
     pki (Sign K (now E s) (tick s) (issue_params V inp issuer key profile q san)) s (\<lambda>res.
     boxed (if in_store_key inp \<noteq> Some False \<and> gen_key \<noteq> []
            then Encrypt (sv_box V) (sv_nonce V (tick s)) gen_key else Inr []) s (\<lambda>key_enc.
     stmt (CreateCertificate E (issue_record inp ca profile res kt key_enc csr_pem) s) (\<lambda>saved s.
     let s = audit V (in_actor inp) ''cert.issue'' (c_common_name saved)
               (issue_detail inp ca saved profile (sp_days (issue_params V inp issuer key profile q san)) key_enc) s in
     case CAChainPEM V ca s of (chain, s) \<Rightarrow>
     (Inr \<lparr>ir_certificate = saved,
           ir_private_key_pem = (if issue_mode inp = ''generate'' then gen_key else []),
           ir_csr_pem = csr_pem,
           ir_chain_pem = (case chain of Inl _ \<Rightarrow> [] | Inr pem \<Rightarrow> pem)\<rparr>, s))))))"

definition Issue :: "service \<Rightarrow> IssueInput \<Rightarrow> db \<Rightarrow> IssueResult op" where
  "Issue V inp s =
     (let E = sv_env V; K = sv_crypto V in
      attempt (GetCAByRef E (in_ca inp) s)
        (\<lambda>e s. if e = ErrNotFound
               then (case noIssuerError V (in_ca inp) s of (err, s) \<Rightarrow> (Inl err, s))
               else (Inl (DbError e), s))
        (\<lambda>ca s.
      case checkCanIssue (now E s) ca of
        Some r \<Rightarrow> (Inl (CannotIssue (ca_name ca) r), s)
      | None \<Rightarrow>
      pki (ParseCertPEM K (ca_cert_pem ca)) s (\<lambda>issuer.
      decryptKey V (ca_key_enc ca) s (\<lambda>key.
      pki (ParseProfile (in_profile inp)) s (\<lambda>profile.
      if profile = ProfileIntermCA \<and> \<not> in_allow_subordinate_ca inp then (Inl SubordinateCANotAllowed, s)
      else issue_request V inp s (issue_sign V inp ca issuer key profile s))))))"

record GenerateCSRResult =
  gr_csr_pem :: string
  gr_key_pem :: string
  gr_key_type :: string
  gr_request :: csr

definition svc_GenerateCSR ::
  "service \<Rightarrow> Subject \<Rightarrow> string list \<Rightarrow> string \<Rightarrow> db \<Rightarrow> GenerateCSRResult op" where
  "svc_GenerateCSR V subject sans key_type s =
     (let K = sv_crypto V in
      case Validate (mail_ok K) subject of
        Some e \<Rightarrow> (Inl (PkiError e), s)
      | None \<Rightarrow>
          pki (ParseKeyType (firstNonEmpty [key_type, default_key_type (sv_cfg V)])) s (\<lambda>kt.
          pki (ParseSANs (uri_parse K) sans) s (\<lambda>set.
          pki (GenerateCSR K (tick s) subject set kt) s (\<lambda>gen.
          pki (ParseCSR K (g_csr_pem gen)) s (\<lambda>q.
          (Inr \<lparr>gr_csr_pem = g_csr_pem gen, gr_key_pem = g_key_pem gen, gr_key_type = g_key_type gen,
                gr_request = q\<rparr>, s))))))"


section \<open>Retrieval, revocation and lists\<close>

text \<open>\<open>parseInt64\<close>: the text is exactly how the number is printed, and the number fits.\<close>

definition parseInt64 :: "string \<Rightarrow> int option" where
  "parseInt64 x =
     (let neg = (x \<noteq> [] \<and> hd x = CHR ''-''); ds = (if neg then tl x else x);
          n = (if neg then - int (nat_of_string ds) else int (nat_of_string ds)) in
      if ds \<noteq> [] \<and> list_all is_digit ds \<and> - (2 ^ 63) \<le> n \<and> n < 2 ^ 63 \<and> string_of_int n = x
      then Some n else None)"

definition FindCertificate :: "service \<Rightarrow> string \<Rightarrow> db \<Rightarrow> Certificate op" where
  "FindCertificate V ref0 s =
     (let ref = trim_space ref0; E = sv_env V in
      if ref = [] then (Inl CertRefRequired, s)
      else
        let by_serial = (\<lambda>s. stmt (GetCertificateBySerial E ref s) (\<lambda>c s. (Inr c, s))) in
        case parseInt64 ref of
          None \<Rightarrow> by_serial s
        | Some i \<Rightarrow>
            if i < 0 then by_serial (s\<lparr>tick := Suc (tick s)\<rparr>)
            else attempt (GetCertificate E (nat i) s) (\<lambda>e s. by_serial s) (\<lambda>c s. (Inr c, s)))"

definition CertKeyPEM :: "service \<Rightarrow> Certificate \<Rightarrow> db \<Rightarrow> string op" where
  "CertKeyPEM V c s =
     (if c_key_enc c = [] then (Inl NoStoredKey, s)
      else boxed (Decrypt (sv_box V) (c_key_enc c)) s (\<lambda>pem. (Inr pem, s)))"

definition CertChainPEM :: "service \<Rightarrow> Certificate \<Rightarrow> db \<Rightarrow> string op" where
  "CertChainPEM V c s =
     stmt (GetCA (sv_env V) (c_ca_id c) s) (\<lambda>ca s.
       attempt (CAChainPEM V ca s) (\<lambda>e s. (Inl e, s)) (\<lambda>chain s. (Inr (c_cert_pem c @ chain), s)))"

definition Revoke :: "service \<Rightarrow> nat \<Rightarrow> int \<Rightarrow> string \<Rightarrow> db \<Rightarrow> unit op" where
  "Revoke V i reason actor s =
     stmt (GetCertificate (sv_env V) i s) (\<lambda>c s.
       stmt (RevokeCertificate (sv_env V) i reason s) (\<lambda>_ s.
         (Inr (), audit V actor ''cert.revoke'' (c_common_name c)
            (''serial='' @ c_serial_hex c @ '' reason='' @ ReasonName reason) s)))"

definition cert_entry :: "int \<Rightarrow> Certificate \<Rightarrow> RevokedEntry" where
  "cert_entry t c =
     \<lparr>re_serial_hex = c_serial_hex c,
      re_revoked_at = Some (case c_revoked_at c of None \<Rightarrow> t | Some at \<Rightarrow> at),
      re_reason = c_revoke_code c\<rparr>"

definition ca_entry :: "CARevocation \<Rightarrow> RevokedEntry" where
  "ca_entry r = \<lparr>re_serial_hex = rv_serial_hex r, re_revoked_at = Some (rv_revoked_at r), re_reason = rv_reason r\<rparr>"

definition GenerateCRL :: "service \<Rightarrow> nat \<Rightarrow> string \<Rightarrow> db \<Rightarrow> (string \<times> string) op" where
  "GenerateCRL V i actor s =
     (let E = sv_env V; K = sv_crypto V in
      stmt (GetCA E i s) (\<lambda>ca s.
      if ca_status ca = CAPending then (Inl (NoCRLYet (ca_name ca)), s)
      else if \<not> HasKey ca then (Inl (NoKeyForCRL (ca_name ca)), s)
      else
      pki (ParseCertPEM K (ca_cert_pem ca)) s (\<lambda>issuer.
      decryptKey V (ca_key_enc ca) s (\<lambda>key.
      stmt (RevokedCertificates E i s) (\<lambda>revoked s.
      let entries = map (cert_entry (now E s)) revoked in
      stmt (CARevocations E i s) (\<lambda>ca_revs s.
      let entries = entries @ map ca_entry ca_revs in
      stmt (NextCRLNumber E i s) (\<lambda>number s.
      pki (CreateCRL K (now E s) (tick s) issuer key number (crl_days (sv_cfg V)) entries) s (\<lambda>(der, pem).
      (Inr (der, pem),
       audit V actor ''crl.generate'' (ca_name ca)
         (''number='' @ string_of_int number @ '' entries='' @ string_of_nat (length entries)) s)))))))))"

end
