(* ===== verification/Ca_Lifecycle.thy ===== *)
theory Ca_Lifecycle
  imports Ca_Service
begin

text \<open>
  \<open>internal/ca/lifecycle.go\<close>: what happens to a certificate after it is issued. Renewal, the history
  of renewals, holds and their release, revocation of many certificates at once, and the retirement of
  an authority with everything below it.

  Retiring an authority calls itself for each subordinate, and the code relies on the parent links
  having no cycle. The model takes a bound on the depth and returns \<open>None\<close> when it is reached;
  \<open>RevokeCA_returns\<close> shows which bound is enough when every parent is older than its child.
\<close>


section \<open>Renewal\<close>

record RenewInput =
  rn_days :: int
  rn_same_key :: bool
  rn_ca :: string
  rn_key_type :: string
  rn_revoke_old :: bool
  rn_store_key :: "bool option"
  rn_note :: string
  rn_actor :: string
  rn_allow_subordinate_ca :: bool

record RenewResult =
  rr_certificate :: Certificate
  rr_previous :: Certificate
  rr_private_key_pem :: string
  rr_chain_pem :: string
  rr_revoked_old :: bool

definition subjectOf :: "service \<Rightarrow> Certificate \<Rightarrow> pki_error + Subject" where
  "subjectOf V c =
     (case ParseCertPEM (sv_crypto V) (c_cert_pem c) of
        Inl e \<Rightarrow> Inl e | Inr x \<Rightarrow> Inr (SubjectFromPKIX (x_subject x)))"

text \<open>The authority that signs the replacement: the one named, else the old issuer if it can still sign,
  else the default.\<close>

definition renew_ca :: "service \<Rightarrow> Certificate \<Rightarrow> RenewInput \<Rightarrow> db \<Rightarrow> string \<times> db" where
  "renew_ca V old inp s =
     (let ref = trim_space (rn_ca inp) in
      if ref \<noteq> [] then (ref, s)
      else attempt (GetCA (sv_env V) (c_ca_id old) s)
             (\<lambda>e s. ([], s))
             (\<lambda>ca s. (if checkCanIssue (now (sv_env V) s) ca = None then string_of_nat (ca_id ca) else [], s)))"

definition renew_days :: "service \<Rightarrow> Certificate \<Rightarrow> RenewInput \<Rightarrow> int" where
  "renew_days V old inp =
     (if 0 < rn_days inp then rn_days inp
      else
        let span = (c_not_after old - c_not_before old) div 86400 in
        if 0 < span then span else default_cert_days (sv_cfg V))"

definition renew_issue :: "service \<Rightarrow> Certificate \<Rightarrow> RenewInput \<Rightarrow> string \<Rightarrow> Subject \<Rightarrow> IssueInput" where
  "renew_issue V old inp ca subject =
     \<lparr>in_ca = ca, in_mode = ''generate'', in_subject = subject, in_sans = c_sans old,
      in_key_type = firstNonEmpty [rn_key_type inp, c_key_type old, default_key_type (sv_cfg V)],
      in_profile = c_profile old, in_days = renew_days V old inp, in_csr_pem = [], in_key_pem = [],
      in_store_key = Some (case rn_store_key inp of None \<Rightarrow> c_key_enc old \<noteq> [] | Some b \<Rightarrow> b),
      in_note = firstNonEmpty [rn_note inp, c_note old], in_actor = rn_actor inp,
      in_allow_subordinate_ca = rn_allow_subordinate_ca inp\<rparr>"

text \<open>The request to issue: with the same key, a request for that key carries the names.\<close>

definition renew_request ::
  "service \<Rightarrow> Certificate \<Rightarrow> RenewInput \<Rightarrow> string \<Rightarrow> Subject \<Rightarrow> db \<Rightarrow> (IssueInput \<Rightarrow> db \<Rightarrow> 'b op) \<Rightarrow> 'b op" where
  "renew_request V old inp ca subject s k =
     (let issue = renew_issue V old inp ca subject in
      if rn_same_key inp
      then attempt (CertKeyPEM V old s)
             (\<lambda>e s. (Inl e, s))
             (\<lambda>key_pem s.
                pki (ParsePrivateKeyPEM (sv_crypto V) key_pem) s (\<lambda>key.
                pki (ParseSANs (uri_parse (sv_crypto V)) (c_sans old)) s (\<lambda>sans.
                pki (CSRFromKey (sv_crypto V) (tick s) key subject sans) s (\<lambda>csr_pem.
                k (issue\<lparr>in_mode := ''csr'', in_csr_pem := csr_pem, in_key_pem := key_pem, in_sans := [],
                         in_key_type := []\<rparr>) s))))
      else k issue s)"

definition Renew :: "service \<Rightarrow> nat \<Rightarrow> RenewInput \<Rightarrow> db \<Rightarrow> RenewResult op" where
  "Renew V i inp s =
     (let E = sv_env V in
      stmt (GetCertificate E i s) (\<lambda>old s.
      case renew_ca V old inp s of (ca, s) \<Rightarrow>
      pki (subjectOf V old) s (\<lambda>subject.
      renew_request V old inp ca subject s (\<lambda>issue s.
      attempt (Issue V issue s) (\<lambda>e s. (Inl e, s)) (\<lambda>res s.
      stmt (SetRenewedFrom E (c_id (ir_certificate res)) (c_id old) s) (\<lambda>_ s.
      let out = (\<lambda>revoked. \<lparr>rr_certificate = (ir_certificate res)\<lparr>c_renewed_from := Some (c_id old)\<rparr>,
                   rr_previous = old, rr_private_key_pem = ir_private_key_pem res,
                   rr_chain_pem = ir_chain_pem res, rr_revoked_old = revoked\<rparr>);
          fin = (\<lambda>revoked s. (Inr (out revoked),
                   audit V (rn_actor inp) ''cert.renew'' (c_common_name old)
                     (''old_serial='' @ c_serial_hex old @ '' new_serial='' @ c_serial_hex (ir_certificate res) @
                      '' same_key='' @ bool_text (rn_same_key inp) @ '' revoked_old='' @ bool_text revoked @
                      '' days='' @ string_of_int (renew_days V old inp)) s)) in
      if rn_revoke_old inp \<and> c_status old \<noteq> CertRevoked
      then stmt (RevokeCertificate E (c_id old) 4 s) (\<lambda>_ s. fin True s)
      else fin False s))))))"

fun renew_each ::
  "service \<Rightarrow> RenewInput \<Rightarrow> Certificate list \<Rightarrow> db \<Rightarrow> RenewResult list \<times> (string \<times> ca_error) list \<times> db" where
  "renew_each V inp [] s = ([], [], s)"
| "renew_each V inp (c # cs) s =
     attempt (Renew V (c_id c) inp s)
       (\<lambda>e s. case renew_each V inp cs s of (out, errs, s) \<Rightarrow> (out, (c_serial_hex c, e) # errs, s))
       (\<lambda>r s. case renew_each V inp cs s of (out, errs, s) \<Rightarrow> (r # out, errs, s))"

definition RenewExpiring ::
  "service \<Rightarrow> int \<Rightarrow> RenewInput \<Rightarrow> db \<Rightarrow> RenewResult list \<times> (string \<times> ca_error) list \<times> db" where
  "RenewExpiring V within inp s =
     attempt (SearchCertificates (sv_env V)
                (no_filter\<lparr>f_expiring_in := (if within \<le> 0 then 30 else within), f_limit := 1000,
                           f_sort_by := ''not_after''\<rparr>) s)
       (\<lambda>e s. ([], [([], DbError e)], s))
       (\<lambda>(due, _) s. renew_each V inp due s)"

text \<open>The two walks of \<open>RenewalHistory\<close>, at most 64 steps each.\<close>

fun history_back :: "env \<Rightarrow> nat \<Rightarrow> Certificate \<Rightarrow> db \<Rightarrow> Certificate list \<times> db" where
  "history_back E 0 cur s = ([], s)"
| "history_back E (Suc n) cur s =
     (case c_renewed_from cur of
        None \<Rightarrow> ([], s)
      | Some p \<Rightarrow>
          attempt (GetCertificate E p s)
            (\<lambda>e s. ([], s))
            (\<lambda>prev s. case history_back E n prev s of (back, s) \<Rightarrow> (back @ [prev], s)))"

fun history_forward :: "env \<Rightarrow> nat \<Rightarrow> Certificate \<Rightarrow> db \<Rightarrow> Certificate list \<times> db" where
  "history_forward E 0 cur s = ([], s)"
| "history_forward E (Suc n) cur s =
     attempt (CertificateRenewedFrom E (c_id cur) s)
       (\<lambda>e s. ([], s))
       (\<lambda>succ s. case succ of
          None \<Rightarrow> ([], s)
        | Some c \<Rightarrow> (case history_forward E n c s of (cs, s) \<Rightarrow> (c # cs, s)))"

definition RenewalHistory :: "service \<Rightarrow> Certificate \<Rightarrow> db \<Rightarrow> Certificate list \<times> db" where
  "RenewalHistory V c s =
     (case history_back (sv_env V) 64 c s of (back, s) \<Rightarrow>
        (case history_forward (sv_env V) 64 c s of (forward, s) \<Rightarrow> (back @ [c] @ forward, s)))"


section \<open>Revocation\<close>

definition Hold :: "service \<Rightarrow> nat \<Rightarrow> string \<Rightarrow> db \<Rightarrow> unit op" where
  "Hold V i actor s =
     stmt (GetCertificate (sv_env V) i s) (\<lambda>c s.
       if c_status c = CertRevoked
       then (if OnHold c then (Inl (AlreadyOnHold (c_common_name c)), s)
             else (Inl (PermanentlyRevoked (c_common_name c) (c_revoke_code c)), s))
       else stmt (RevokeCertificate (sv_env V) i 6 s) (\<lambda>_ s.
              (Inr (), audit V actor ''cert.hold'' (c_common_name c) (''serial='' @ c_serial_hex c) s)))"

definition Release :: "service \<Rightarrow> nat \<Rightarrow> string \<Rightarrow> db \<Rightarrow> unit op" where
  "Release V i actor s =
     stmt (GetCertificate (sv_env V) i s) (\<lambda>c s.
       stmt (UnrevokeCertificate (sv_env V) i s) (\<lambda>_ s.
         (Inr (), audit V actor ''cert.release'' (c_common_name c) (''serial='' @ c_serial_hex c) s)))"

record BulkRevokeInput =
  br_ids :: "nat list"
  br_filter :: "CertFilter option"
  br_reason :: int
  br_actor :: string

record BulkRevokeResult =
  bo_revoked :: "Certificate list"
  bo_skipped :: "Certificate list"
  bo_errors :: "(Certificate \<times> db_error) list"
  bo_ca_ids :: "nat list"

fun load_targets :: "env \<Rightarrow> nat list \<Rightarrow> db \<Rightarrow> Certificate list op" where
  "load_targets E [] s = (Inr [], s)"
| "load_targets E (i # is) s =
     stmt (GetCertificate E i s) (\<lambda>c s.
       attempt (load_targets E is s) (\<lambda>e s. (Inl e, s)) (\<lambda>cs s. (Inr (c # cs), s)))"

text \<open>The loop over the targets; the status it looks at is the one read when the target was loaded.\<close>

fun revoke_each :: "env \<Rightarrow> int \<Rightarrow> Certificate list \<Rightarrow> db \<Rightarrow>
    Certificate list \<times> Certificate list \<times> (Certificate \<times> db_error) list \<times> db" where
  "revoke_each E reason [] s = ([], [], [], s)"
| "revoke_each E reason (c # cs) s =
     (if c_status c = CertRevoked
      then (case revoke_each E reason cs s of (rv, sk, er, s) \<Rightarrow> (rv, c # sk, er, s))
      else attempt (RevokeCertificate E (c_id c) reason s)
             (\<lambda>e s. case revoke_each E reason cs s of (rv, sk, er, s) \<Rightarrow> (rv, sk, (c, e) # er, s))
             (\<lambda>_ s. case revoke_each E reason cs s of (rv, sk, er, s) \<Rightarrow> (c # rv, sk, er, s)))"

definition bulk_targets :: "service \<Rightarrow> BulkRevokeInput \<Rightarrow> db \<Rightarrow> Certificate list op" where
  "bulk_targets V inp s =
     attempt (load_targets (sv_env V) (br_ids inp) s) (\<lambda>e s. (Inl e, s)) (\<lambda>targets s.
       case br_filter inp of
         None \<Rightarrow> (Inr targets, s)
       | Some f \<Rightarrow>
           stmt (SearchCertificates (sv_env V) (f\<lparr>f_limit := (if f_limit f \<le> 0 then 1000 else f_limit f)\<rparr>) s)
             (\<lambda>(found, _) s. (Inr (targets @ filter (\<lambda>c. c_id c \<notin> c_id ` set targets) found), s)))"

definition BulkRevoke :: "service \<Rightarrow> BulkRevokeInput \<Rightarrow> db \<Rightarrow> BulkRevokeResult op" where
  "BulkRevoke V inp s =
     attempt (bulk_targets V inp s) (\<lambda>e s. (Inl e, s)) (\<lambda>targets s.
       if targets = [] then (Inl NothingMatched, s)
       else (case revoke_each (sv_env V) (br_reason inp) targets s of (rv, sk, er, s) \<Rightarrow>
         (Inr \<lparr>bo_revoked = rv, bo_skipped = sk, bo_errors = er, bo_ca_ids = remdups (map c_ca_id rv)\<rparr>,
          audit V (br_actor inp) ''cert.bulk_revoke'' (string_of_nat (length rv) @ '' certificates'')
            (''reason='' @ ReasonName (br_reason inp) @ '' skipped='' @ string_of_nat (length sk) @
             '' errors='' @ string_of_nat (length er)) s)))"


section \<open>Retiring an authority\<close>

datatype retire_warning =
  CouldNotRevoke string db_error | CouldNotRetire string ca_error | CouldNotList string string db_error
| IssuerKeyNotHeld string | IssuerUnknown | RootCannotBeRevoked

record RevokeCAResult =
  ro_ca :: CA
  ro_in_parent :: bool
  ro_parent_name :: string
  ro_certificates :: nat
  ro_child_cas :: "string list"
  ro_warnings :: "retire_warning list"

fun retire_certs :: "env \<Rightarrow> int \<Rightarrow> Certificate list \<Rightarrow> RevokeCAResult \<Rightarrow> db \<Rightarrow> RevokeCAResult \<times> db" where
  "retire_certs E reason [] out s = (out, s)"
| "retire_certs E reason (c # cs) out s =
     (if c_status c = CertRevoked then retire_certs E reason cs out s
      else attempt (RevokeCertificate E (c_id c) reason s)
             (\<lambda>e s. retire_certs E reason cs
                      (out\<lparr>ro_warnings := ro_warnings out @ [CouldNotRevoke (c_common_name c) e]\<rparr>) s)
             (\<lambda>_ s. retire_certs E reason cs (out\<lparr>ro_certificates := ro_certificates out + 1\<rparr>) s))"

text \<open>The loop over the subordinates; \<open>sub\<close> is the recursive call.\<close>

fun retire_children ::
  "(nat \<Rightarrow> db \<Rightarrow> RevokeCAResult op option) \<Rightarrow> CA list \<Rightarrow> RevokeCAResult \<Rightarrow> db
     \<Rightarrow> (RevokeCAResult \<times> db) option" where
  "retire_children sub [] out s = Some (out, s)"
| "retire_children sub (child # rest) out s =
     (case sub (ca_id child) s of
        None \<Rightarrow> None
      | Some (Inl e, s) \<Rightarrow>
          retire_children sub rest (out\<lparr>ro_warnings := ro_warnings out @ [CouldNotRetire (ca_name child) e]\<rparr>) s
      | Some (Inr r, s) \<Rightarrow>
          retire_children sub rest
            (out\<lparr>ro_certificates := ro_certificates out + ro_certificates r,
                 ro_child_cas := ro_child_cas out @ [ca_name child] @ ro_child_cas r\<rparr>) s)"

definition retire_in_parent :: "env \<Rightarrow> CA \<Rightarrow> int \<Rightarrow> RevokeCAResult \<Rightarrow> db \<Rightarrow> RevokeCAResult \<times> db" where
  "retire_in_parent E c reason out s =
     (case ca_parent_id c of
        Some p \<Rightarrow>
          attempt (GetCA E p s)
            (\<lambda>e s. (out, s))
            (\<lambda>parent s.
               let out = out\<lparr>ro_parent_name := ca_name parent\<rparr> in
               if HasKey parent
               then attempt (RecordCARevocation E (ca_id parent) (ca_serial_hex c) reason s)
                      (\<lambda>e s. (out\<lparr>ro_warnings := ro_warnings out @ [CouldNotList (ca_name c) (ca_name parent) e]\<rparr>, s))
                      (\<lambda>_ s. (out\<lparr>ro_in_parent := True\<rparr>, s))
               else (out\<lparr>ro_warnings := ro_warnings out @ [IssuerKeyNotHeld (ca_name parent)]\<rparr>, s))
      | None \<Rightarrow>
          if \<not> ca_is_root c then (out\<lparr>ro_warnings := ro_warnings out @ [IssuerUnknown]\<rparr>, s)
          else (out\<lparr>ro_warnings := ro_warnings out @ [RootCannotBeRevoked]\<rparr>, s))"

definition retire_finish ::
  "service \<Rightarrow> CA \<Rightarrow> int \<Rightarrow> bool \<Rightarrow> string \<Rightarrow> RevokeCAResult \<Rightarrow> db \<Rightarrow> RevokeCAResult op" where
  "retire_finish V c reason cascade actor out s =
     (case retire_in_parent (sv_env V) c reason out s of (out, s) \<Rightarrow>
        (Inr out,
         audit V actor ''ca.revoke'' (ca_name c)
           (''reason='' @ ReasonName reason @ '' cascade='' @ bool_text cascade @
            '' certificates='' @ string_of_nat (ro_certificates out) @
            '' in_parent_crl='' @ bool_text (ro_in_parent out)) s))"

primrec RevokeCA :: "nat \<Rightarrow> service \<Rightarrow> int \<Rightarrow> string \<Rightarrow> bool \<Rightarrow> nat \<Rightarrow> db \<Rightarrow> RevokeCAResult op option" where
  "RevokeCA 0 V reason actor cascade i s = None"
| "RevokeCA (Suc n) V reason actor cascade i s =
     attempt (GetCA (sv_env V) i s) (\<lambda>e s. Some (Inl (DbError e), s)) (\<lambda>c s.
       let out = \<lparr>ro_ca = c, ro_in_parent = False, ro_parent_name = [], ro_certificates = 0,
                  ro_child_cas = [], ro_warnings = []\<rparr> in
       attempt (SetCAStatus (sv_env V) i CADisabled s) (\<lambda>e s. Some (Inl (DbError e), s)) (\<lambda>_ s.
         if \<not> cascade then Some (retire_finish V c reason cascade actor out s)
         else
           attempt (SearchCertificates (sv_env V) (no_filter\<lparr>f_ca_id := i, f_limit := 10000\<rparr>) s)
             (\<lambda>e s. Some (Inl (DbError e), s))
             (\<lambda>(certs, _) s.
                case retire_certs (sv_env V) reason certs out s of (out, s) \<Rightarrow>
                attempt (ChildCAs (sv_env V) i s)
                  (\<lambda>e s. Some (retire_finish V c reason cascade actor out s))
                  (\<lambda>children s.
                     case retire_children (\<lambda>j. RevokeCA n V reason actor True j) children out s of
                       None \<Rightarrow> None
                     | Some (out, s) \<Rightarrow> Some (retire_finish V c reason cascade actor out s)))))"


section \<open>Frames\<close>

text \<open>
  A relation between database states that is reflexive and transitive and that every single statement
  respects is respected by every operation of the service, whatever fails and wherever it stops.
\<close>

locale read_frame = state_frame R for R :: "db \<Rightarrow> db \<Rightarrow> bool" +
  assumes ticks: "R s (s\<lparr>tick := n\<rparr>)"
    and logs: "R s (s\<lparr>audit_log := l\<rparr>)"
begin

lemma acc_stmt:
  assumes "R s0 (snd r)" and "\<And>x s1. R s0 s1 \<Longrightarrow> R s0 (snd (k x s1))"
  shows "R s0 (snd (stmt r k))"
  using assms unfolding stmt_def by (intro acc_attempt) auto

lemma acc_pki: "R s0 s \<Longrightarrow> (\<And>x. R s0 (snd (k x))) \<Longrightarrow> R s0 (snd (pki r s k))"
  by (cases r) auto

lemma acc_boxed: "R s0 s \<Longrightarrow> (\<And>x. R s0 (snd (k x))) \<Longrightarrow> R s0 (snd (boxed r s k))"
  by (cases r) auto

lemma acc_decrypt: "R s0 s \<Longrightarrow> (\<And>x. R s0 (snd (k x))) \<Longrightarrow> R s0 (snd (decryptKey V enc s k))"
  unfolding decryptKey_def by (intro acc_boxed acc_pki)

lemma acc_audit: "R s0 s \<Longrightarrow> R s0 (audit V actor action target detail s)"
proof -
  assume s: "R s0 s"
  have "snd (Audit E a b c d ip s) = s\<lparr>tick := Suc (tick s)\<rparr> \<or>
    (\<exists>l. snd (Audit E a b c d ip s) = s\<lparr>tick := Suc (tick s), audit_log := l\<rparr>)" for E a b c d ip
    by (auto simp: Audit_def stmt_defs)
  moreover have "R s (s\<lparr>tick := n, audit_log := l\<rparr>)" for n l
    using trans [OF ticks [of s n] logs [of "s\<lparr>tick := n\<rparr>" l]] by simp
  ultimately have "R s (audit V actor action target detail s)"
    unfolding audit_def recordAudit_def by (metis ticks)
  with s show ?thesis by (rule acc)
qed

lemma acc_reads:
  assumes "R s0 s"
  shows "R s0 (snd (GetCA E i s))" "R s0 (snd (GetCertificate E i s))" "R s0 (snd (DefaultCA E s))"
    "R s0 (snd (ListCAs E s))" "R s0 (snd (ChildCAs E i s))" "R s0 (snd (RevokedCertificates E i s))"
    "R s0 (snd (CARevocations E i s))" "R s0 (snd (CertificateRenewedFrom E i s))"
    "R s0 (snd (GetCAByRef E ref s))" "R s0 (snd (SearchCertificates E f s))"
proof -
  show "R s0 (snd (GetCA E i s))" "R s0 (snd (GetCertificate E i s))" "R s0 (snd (ListCAs E s))"
    "R s0 (snd (ChildCAs E i s))" "R s0 (snd (RevokedCertificates E i s))"
    "R s0 (snd (CARevocations E i s))" "R s0 (snd (CertificateRenewedFrom E i s))"
    unfolding GetCA_def GetCertificate_def ListCAs_def ChildCAs_def RevokedCertificates_def
      CARevocations_def CertificateRenewedFrom_def by (rule acc_query [OF assms])+
  show d: "R s0 (snd (DefaultCA E s))" unfolding DefaultCA_def using assms by (rule acc_query)
  show "R s0 (snd (GetCAByRef E ref s))"
    unfolding GetCAByRef_def Let_def using d assms by (auto intro: acc_query)
  show "R s0 (snd (SearchCertificates E f s))"
    unfolding SearchCertificates_def Let_def using assms by (intro acc_attempt acc_query) auto
qed

lemma acc_load_targets: "R s0 s \<Longrightarrow> R s0 (snd (load_targets E is s))"
proof (induction "is" arbitrary: s)
  case Nil
  then show ?case by simp
next
  case (Cons i "is")
  show ?case
    unfolding load_targets.simps
    by (rule acc_stmt [OF acc_reads(2) [OF Cons.prems]], rule acc_attempt, rule Cons.IH) simp_all
qed

lemma acc_bulk_targets: "R s0 s \<Longrightarrow> R s0 (snd (bulk_targets V inp s))"
  unfolding bulk_targets_def
  by (auto intro!: acc_attempt acc_load_targets acc_stmt acc_reads split: option.split prod.split)

lemma acc_chain: "R s0 s \<Longrightarrow> R s0 (snd (chain_from V n c s))"
proof (induction V n c s rule: chain_from.induct)
  case (1 V cur s)
  then show ?case by simp
next
  case (2 V n cur s)
  show ?case
    unfolding chain_from.simps
    by (intro acc_pki) (use 2 in \<open>auto intro!: acc_attempt acc_reads split: option.split\<close>)
qed

lemma acc_chain_pem: "R s0 s \<Longrightarrow> R s0 (snd (CAChainPEM V c s))"
  unfolding CAChainPEM_def CAChain_def by (intro acc_attempt acc_chain) auto

lemma acc_no_issuer: "R s0 s \<Longrightarrow> R s0 (snd (noIssuerError V ref s))"
  unfolding noIssuerError_def
  by (auto intro!: acc_attempt acc_reads simp: Let_def split: list.split prod.split)

lemma acc_issue_request:
  "R s0 s \<Longrightarrow> (\<And>x. R s0 (snd (k x))) \<Longrightarrow> R s0 (snd (issue_request V inp s k))"
  unfolding issue_request_def Let_def
  by (auto intro!: acc_pki split: option.split)

lemma acc_san_override:
  "R s0 s \<Longrightarrow> (\<And>x. R s0 (snd (k x))) \<Longrightarrow> R s0 (snd (issue_san_override V inp s k))"
  unfolding issue_san_override_def by (auto intro!: acc_pki)

lemma acc_renew_request:
  assumes "R s0 s" and "\<And>x s1. R s0 s1 \<Longrightarrow> R s0 (snd (k x s1))"
  shows "R s0 (snd (renew_request V old inp ca subject s k))"
  unfolding renew_request_def Let_def CertKeyPEM_def
  using assms by (auto intro!: acc_attempt acc_pki acc_boxed)

lemma acc_renew_ca: "R s0 s \<Longrightarrow> R s0 (snd (renew_ca V old inp s))"
  unfolding renew_ca_def Let_def by (auto intro!: acc_attempt acc_reads)

end

text \<open>Revoking, retiring and publishing lists.\<close>

locale quiet_frame = read_frame +
  assumes statuses: "R s (snd (SetCAStatus E i st s))"
    and numbers: "R s (snd (NextCRLNumber E i s))"
    and records: "R s (snd (RecordCARevocation E i serial reason s))"
    and revokes: "R s (snd (RevokeCertificate E i reason s))"
begin

lemmas acc_statements = statuses [THEN acc [rotated]] numbers [THEN acc [rotated]]
  records [THEN acc [rotated]] revokes [THEN acc [rotated]]

lemma Revoke_in_frame: "R s0 s \<Longrightarrow> R s0 (snd (Revoke V i reason actor s))"
  unfolding Revoke_def by (auto intro!: acc_stmt acc_reads acc_statements acc_audit)

lemma Hold_in_frame: "R s0 s \<Longrightarrow> R s0 (snd (Hold V i actor s))"
  unfolding Hold_def by (auto intro!: acc_stmt acc_reads acc_statements acc_audit)

lemma GenerateCRL_in_frame: "R s0 s \<Longrightarrow> R s0 (snd (GenerateCRL V i actor s))"
  unfolding GenerateCRL_def Let_def
  by (auto intro!: acc_stmt acc_reads acc_pki acc_decrypt acc_statements acc_audit split: prod.split)

lemma acc_revoke_each: "R s0 s \<Longrightarrow> R s0 (snd (snd (snd (revoke_each E reason cs s))))"
proof (induction cs arbitrary: s)
  case Nil
  then show ?case by simp
next
  case (Cons c cs)
  obtain r s1 where r: "RevokeCertificate E (c_id c) reason s = (r, s1)" by (cases "RevokeCertificate E (c_id c) reason s")
  with acc [OF Cons.prems revokes [of s E "c_id c" reason]] have s1: "R s0 s1" by simp
  show ?case
    using Cons.IH [OF s1] Cons.IH [OF Cons.prems] r by (cases r) (auto split: prod.splits)
qed

lemma BulkRevoke_in_frame: "R s0 s \<Longrightarrow> R s0 (snd (BulkRevoke V inp s))"
proof -
  have *: "R s0 (snd (case revoke_each E r cs s1 of (rv, sk, er, s) \<Rightarrow> (f rv sk er, audit V a b (g rv) (h sk er) s)))"
    if "R s0 s1" for E r cs s1 a b g h and f :: "Certificate list \<Rightarrow> Certificate list \<Rightarrow>
      (Certificate \<times> db_error) list \<Rightarrow> ca_error + BulkRevokeResult"
    using acc_revoke_each [OF that, of E r cs] by (auto intro!: acc_audit split: prod.splits)
  assume "R s0 s"
  then show ?thesis
    unfolding BulkRevoke_def by (auto intro!: acc_attempt acc_bulk_targets *)
qed

lemma acc_retire_certs: "R s0 s \<Longrightarrow> R s0 (snd (retire_certs E reason cs out s))"
  by (induction cs arbitrary: out s) (auto intro!: acc_attempt acc_statements)

lemma acc_retire_finish: "R s0 s \<Longrightarrow> R s0 (snd (retire_finish V c reason cascade actor out s))"
proof -
  assume "R s0 s"
  then have "R s0 (snd (retire_in_parent (sv_env V) c reason out s))"
    unfolding retire_in_parent_def Let_def
    by (auto intro!: acc_attempt acc_reads acc_statements split: option.split)
  then show ?thesis by (auto simp: retire_finish_def intro!: acc_audit split: prod.splits)
qed

lemma acc_retire_children:
  assumes "\<And>j s x. R s0 s \<Longrightarrow> sub j s = Some x \<Longrightarrow> R s0 (snd x)"
  shows "R s0 s \<Longrightarrow> retire_children sub cs out s = Some (out', s') \<Longrightarrow> R s0 s'"
proof (induction cs arbitrary: out s)
  case Nil
  then show ?case by simp
next
  case (Cons c cs)
  from Cons.prems(2) obtain r s1 where r: "sub (ca_id c) s = Some (r, s1)"
    by (auto split: option.splits)
  with assms [OF Cons.prems(1)] have "R s0 s1" by fastforce
  with Cons.IH Cons.prems(2) r show ?case by (auto split: sum.splits)
qed

lemma RevokeCA_in_frame: "R s0 s \<Longrightarrow> RevokeCA n V reason actor cascade i s = Some x \<Longrightarrow> R s0 (snd x)"
proof (induction n arbitrary: cascade i s x)
  case 0
  then show ?case by simp
next
  case (Suc n)
  let ?E = "sv_env V"
  have kids: "R s0 s2" if "R s0 s1" "retire_children (\<lambda>j. RevokeCA n V reason actor True j) cs out s1 = Some (out', s2)"
    for cs out s1 out' s2
    using acc_retire_children [of s0 "\<lambda>j. RevokeCA n V reason actor True j"] Suc.IH that by blast
  obtain r1 s1 where g: "GetCA ?E i s = (r1, s1)" by (cases "GetCA ?E i s")
  have s1: "R s0 s1" using acc_reads(1) [OF Suc.prems(1), of ?E i] g by simp
  obtain r2 s2 where d: "SetCAStatus ?E i CADisabled s1 = (r2, s2)" by (cases "SetCAStatus ?E i CADisabled s1")
  have s2: "R s0 s2" using acc [OF s1 statuses [of s1 ?E i CADisabled]] d by simp
  obtain r3 s3 where f: "SearchCertificates ?E (no_filter\<lparr>f_ca_id := i, f_limit := 10000\<rparr>) s2 = (r3, s3)"
    by (cases "SearchCertificates ?E (no_filter\<lparr>f_ca_id := i, f_limit := 10000\<rparr>) s2")
  have s3: "R s0 s3" using acc_reads(10) [OF s2, of ?E "no_filter\<lparr>f_ca_id := i, f_limit := 10000\<rparr>"] f by simp
  have s4: "R s0 (snd (retire_certs ?E reason cs out s3))" for cs out
    using acc_retire_certs [OF s3] .
  have s5: "R s0 (snd (ChildCAs ?E i (snd (retire_certs ?E reason cs out s3))))" for cs out
    using acc_reads(5) [OF s4] .
  show ?case
  proof (cases "\<exists>c. r1 = Inr c")
    case False
    with Suc.prems(2) g s1 show ?thesis by (cases r1) auto
  next
    case True
    then obtain c where c: "r1 = Inr c" by blast
    show ?thesis
    proof (cases "r2 = Inr () \<and> cascade")
      case False
      with Suc.prems(2) g c d s2 show ?thesis
        by (cases r2) (auto simp: Let_def intro!: acc_retire_finish)
    next
      case casc: True
      show ?thesis
      proof (cases r3)
        case (Inl e)
        with Suc.prems(2) g c d casc f s3 show ?thesis by auto
      next
        case (Inr p)
        obtain certs total where p: "p = (certs, total)" by (cases p)
        let ?out = "\<lparr>ro_ca = c, ro_in_parent = False, ro_parent_name = [], ro_certificates = 0,
                  ro_child_cas = [], ro_warnings = []\<rparr>"
        obtain out4 t4 where t4: "retire_certs ?E reason certs ?out s3 = (out4, t4)"
          by (cases "retire_certs ?E reason certs ?out s3")
        obtain r5 t5 where t5: "ChildCAs ?E i t4 = (r5, t5)" by (cases "ChildCAs ?E i t4")
        have "R s0 t5" using s5 [of certs ?out] t4 t5 by simp
        with Suc.prems(2) g c d casc f Inr p t4 t5 kids show ?thesis
          by (cases r5) (auto intro!: acc_retire_finish split: option.splits)
      qed
    qed
  qed
qed

end

text \<open>Issuing and renewing also add certificates and record what they replace.\<close>

locale frame = quiet_frame +
  assumes creates: "R s (snd (CreateCertificate E c s))"
    and renews: "R s (snd (SetRenewedFrom E i j s))"
begin

lemmas acc_creates = creates [THEN acc [rotated]] renews [THEN acc [rotated]]

lemma Issue_in_frame: "R s0 s \<Longrightarrow> R s0 (snd (Issue V inp s))"
proof -
  have no: "R s0 (snd (case noIssuerError V r s1 of (err, s) \<Rightarrow> (Inl err, s)))" if "R s0 s1" for r s1
    using acc_no_issuer [OF that, of V r] by (cases "noIssuerError V r s1") auto
  have chain: "R s0 (snd (case CAChainPEM V c s1 of (chain, s) \<Rightarrow> (Inr (f chain), s)))" if "R s0 s1" for c s1
    and f :: "ca_error + string \<Rightarrow> IssueResult"
    using acc_chain_pem [OF that, of V c] by (cases "CAChainPEM V c s1") auto
  assume "R s0 s"
  then show ?thesis
    unfolding Issue_def issue_sign_def Let_def
    by (auto intro!: acc_attempt acc_reads acc_pki acc_decrypt acc_issue_request acc_san_override acc_boxed
        acc_stmt acc_statements acc_creates acc_audit no chain split: option.split)
qed

lemma Renew_in_frame: "R s0 s \<Longrightarrow> R s0 (snd (Renew V i inp s))"
proof -
  have ca: "R s0 (snd (case renew_ca V old inp s1 of (ca, s) \<Rightarrow> f ca s))"
    if "R s0 s1" "\<And>c s. R s0 s \<Longrightarrow> R s0 (snd (f c s))" for old s1 and f :: "string \<Rightarrow> db \<Rightarrow> RenewResult op"
    using acc_renew_ca [OF that(1), of V old inp] that(2) by (cases "renew_ca V old inp s1") auto
  assume "R s0 s"
  then show ?thesis
    unfolding Renew_def Let_def
    by (auto intro!: acc_stmt acc_reads ca acc_pki acc_renew_request acc_attempt Issue_in_frame acc_statements acc_creates
        acc_audit)
qed

lemma renew_each_in_frame: "R s0 s \<Longrightarrow> R s0 (snd (snd (renew_each V inp cs s)))"
proof (induction cs arbitrary: s)
  case Nil
  then show ?case by simp
next
  case (Cons c cs)
  obtain r s1 where r: "Renew V (c_id c) inp s = (r, s1)" by (cases "Renew V (c_id c) inp s")
  with Renew_in_frame [OF Cons.prems, of V "c_id c" inp] have "R s0 s1" by simp
  from Cons.IH [OF this] r show ?case
    by (cases r) (auto split: prod.splits)
qed

lemma RenewExpiring_in_frame: "R s0 s \<Longrightarrow> R s0 (snd (snd (RenewExpiring V w inp s)))"
proof -
  assume s: "R s0 s"
  let ?f = "no_filter\<lparr>f_expiring_in := (if w \<le> 0 then 30 else w), f_limit := 1000, f_sort_by := ''not_after''\<rparr>"
  let ?q = "SearchCertificates (sv_env V) ?f s"
  obtain r s1 where q: "?q = (r, s1)" by (cases ?q)
  have "R s0 s1" using acc_reads(10) [OF s, of "sv_env V" ?f] unfolding q by simp
  with q show ?thesis
    by (cases r) (auto simp: RenewExpiring_def renew_each_in_frame split: prod.splits)
qed

end

text \<open>Releasing a hold is the one operation that lifts a revocation.\<close>

locale release_frame = frame +
  assumes unrevokes: "R s (snd (UnrevokeCertificate E i s))"
begin

lemma Release_in_frame: "R s0 s \<Longrightarrow> R s0 (snd (Release V i actor s))"
  unfolding Release_def
  by (auto intro!: acc_stmt acc_reads acc [OF _ unrevokes] acc_audit)

end


section \<open>Sequences of operations\<close>

text \<open>One operation of the service on certificates, run to its end, with any result. What is done to authorities
  themselves, with the deletion that removes certificates, is added in \<open>svc_history\<close> below.\<close>

inductive svc_step :: "service \<Rightarrow> db \<Rightarrow> db \<Rightarrow> bool" for V where
  step_issue: "svc_step V s (snd (Issue V inp s))"
| step_renew: "svc_step V s (snd (Renew V i rin s))"
| step_renew_expiring: "svc_step V s (snd (snd (RenewExpiring V w rin s)))"
| step_revoke: "svc_step V s (snd (Revoke V i reason actor s))"
| step_hold: "svc_step V s (snd (Hold V i actor s))"
| step_release: "svc_step V s (snd (Release V i actor s))"
| step_bulk: "svc_step V s (snd (BulkRevoke V bin s))"
| step_retire: "RevokeCA n V reason actor cascade i s = Some x \<Longrightarrow> svc_step V s (snd x)"
| step_crl: "svc_step V s (snd (GenerateCRL V i actor s))"

inductive svc_steps :: "service \<Rightarrow> db \<Rightarrow> db \<Rightarrow> bool" for V where
  steps_none: "svc_steps V s s"
| steps_more: "svc_steps V s t \<Longrightarrow> svc_step V t u \<Longrightarrow> svc_steps V s u"

context release_frame
begin

lemma step_in_frame: "svc_step V s t \<Longrightarrow> R s t"
  by (induction rule: svc_step.induct)
     (auto intro: Issue_in_frame Renew_in_frame RenewExpiring_in_frame Revoke_in_frame Hold_in_frame
       Release_in_frame BulkRevoke_in_frame RevokeCA_in_frame GenerateCRL_in_frame)

lemma steps_in_frame: "svc_steps V s t \<Longrightarrow> R s t"
  by (induction rule: svc_steps.induct) (auto intro: trans step_in_frame)

end

text \<open>Making an authority, choosing the default and switching one on or off write to the authorities alone.\<close>

locale authority_frame = release_frame +
  assumes authorities: "R s (snd (CreateCA E ca s))"
    and defaults: "R s (snd (SetDefaultCA E i s))"
begin

lemmas acc_authorities = authorities [THEN acc [rotated]] defaults [THEN acc [rotated]] statuses [THEN acc [rotated]]

lemma acc_slugs: "R s0 s \<Longrightarrow> R s0 (snd (try_slugs E base is slug s))"
proof (induction "is" arbitrary: slug s)
  case (Cons i "is")
  obtain r s1 where r: "GetCABySlug E slug s = (r, s1)" by (cases "GetCABySlug E slug s")
  moreover have "R s0 (snd (GetCABySlug E slug s))" unfolding GetCABySlug_def using Cons.prems by (rule acc_query)
  ultimately have "R s0 s1" by simp
  with Cons.IH r show ?case by (auto split: sum.split db_error.split)
qed simp

lemma svc_CreateCA_in_frame: "R s0 s \<Longrightarrow> R s0 (snd (svc_CreateCA V json inp s))"
proof -
  have parent: "R s0 (snd (resolve_parent V ref s1 k))"
    if "R s0 s1" "\<And>p s. R s0 s \<Longrightarrow> R s0 (snd (k p s))" for ref s1 and k :: "_ \<Rightarrow> db \<Rightarrow> CA op"
    using that unfolding resolve_parent_def Let_def by (auto intro!: acc_stmt acc_reads acc_pki acc_decrypt)
  have slug: "R s0 (snd (case uniqueSlug E name s1 of (slug, s) \<Rightarrow> k slug s))"
    if "R s0 s1" "\<And>x s. R s0 s \<Longrightarrow> R s0 (snd (k x s))" for E name s1 and k :: "string \<Rightarrow> db \<Rightarrow> CA op"
  proof -
    obtain x s2 where "uniqueSlug E name s1 = (x, s2)" by (cases "uniqueSlug E name s1")
    moreover have "R s0 (snd (uniqueSlug E name s1))" unfolding uniqueSlug_def using that(1) by (rule acc_slugs)
    ultimately show ?thesis using that(2) by simp
  qed
  assume "R s0 s"
  then show ?thesis
    unfolding svc_CreateCA_def Let_def
    by (auto intro!: acc_pki parent acc_boxed slug acc_stmt acc_authorities acc_audit
        simp del: firstNonEmpty.simps firstNonEmptySlice.simps string_of_nat.simps split: option.split)
qed

lemma svc_SetDefaultCA_in_frame: "R s0 s \<Longrightarrow> R s0 (snd (svc_SetDefaultCA V i actor s))"
  unfolding svc_SetDefaultCA_def by (auto intro!: acc_stmt acc_authorities acc_audit)

lemma svc_SetCAStatus_in_frame: "R s0 s \<Longrightarrow> R s0 (snd (svc_SetCAStatus V i status actor s))"
  unfolding svc_SetCAStatus_def by (auto intro!: acc_stmt acc_authorities acc_audit)

end

text \<open>How the single statements change the table of certificates.\<close>

lemma certs_unchanged:
  "certificates (snd (SetCAStatus E i st s)) = certificates s"
  "certificates (snd (NextCRLNumber E i s)) = certificates s"
  "certificates (snd (RecordCARevocation E i serial reason s)) = certificates s"
  by (auto simp: SetCAStatus_def NextCRLNumber_def RecordCARevocation_def stmt_defs split: option.split)

lemma certs_authorities:
  "certificates (snd (CreateCA E ca s)) = certificates s" "certificates (snd (SetDefaultCA E i s)) = certificates s"
  by (auto simp: CreateCA_def Let_def CountIssuingCAs_def GetCA_def SetDefaultCA_def stmt_defs)

lemma certs_CreateCertificate:
  "certificates (snd (CreateCertificate E c s)) = certificates s \<or>
   certificates (snd (CreateCertificate E c s)) =
     insert_row (\<lambda>n. c_id_update (\<lambda>_. n)) (new_certificate E s c) (certificates s)"
  by (auto simp: CreateCertificate_def GetCertificate_def stmt_defs)

lemma certs_RevokeCertificate:
  "certificates (snd (RevokeCertificate E i reason s)) = certificates s \<or>
   certificates (snd (RevokeCertificate E i reason s)) =
     update_rows (\<lambda>c. c_id c = i \<and> c_status c \<noteq> CertRevoked)
       (\<lambda>c. c\<lparr>c_status := CertRevoked, c_revoked_at := Some (now E s), c_revoke_code := reason\<rparr>) (certificates s)"
  by (auto simp: RevokeCertificate_def set_certs_def stmt_defs)

lemma certs_SetRenewedFrom:
  "certificates (snd (SetRenewedFrom E i j s)) = certificates s \<or>
   certificates (snd (SetRenewedFrom E i j s)) =
     update_rows (\<lambda>c. c_id c = i) (\<lambda>c. c\<lparr>c_renewed_from := Some j\<rparr>) (certificates s)"
  by (auto simp: SetRenewedFrom_def set_certs_def stmt_defs)

text \<open>Lifting a revocation changes the table only when the row it read was on hold.\<close>

lemma certs_UnrevokeCertificate:
  "certificates (snd (UnrevokeCertificate E i s)) = certificates s \<or>
   (\<exists>c. find (\<lambda>c. c_id c = i) (rows (certificates s)) = Some c \<and> OnHold c \<and>
      certificates (snd (UnrevokeCertificate E i s)) =
        update_rows (\<lambda>c. c_id c = i)
          (\<lambda>c. c\<lparr>c_status := CertActive, c_revoked_at := None, c_revoke_code := 0\<rparr>) (certificates s))"
  by (auto simp: UnrevokeCertificate_def GetCertificate_def select_one_def set_certs_def OnHold_def stmt_defs
      split: option.splits)


section \<open>Permanent revocation is final\<close>

definition revocation_of :: "nat \<Rightarrow> db \<Rightarrow> (cert_status \<times> int option \<times> int) option" where
  "revocation_of i s =
     map_option (\<lambda>c. (c_status c, c_revoked_at c, c_revoke_code c)) (find (\<lambda>c. c_id c = i) (rows (certificates s)))"

definition keeps_revocation :: "nat \<Rightarrow> db \<Rightarrow> db \<Rightarrow> bool" where
  "keeps_revocation i s t \<longleftrightarrow>
     (\<forall>at r. revocation_of i s = Some (CertRevoked, at, r) \<longrightarrow> r \<noteq> 6 \<longrightarrow>
        revocation_of i t = Some (CertRevoked, at, r))"

lemma keeps_same: "certificates t = certificates s \<Longrightarrow> keeps_revocation i s t"
  by (simp add: keeps_revocation_def revocation_of_def)

interpretation permanent: release_frame "keeps_revocation i" for i
proof
  fix s t u :: db and n l E j st serial reason c k
  show "keeps_revocation i s s" by (simp add: keeps_revocation_def)
  show "keeps_revocation i s t \<Longrightarrow> keeps_revocation i t u \<Longrightarrow> keeps_revocation i s u"
    by (simp add: keeps_revocation_def)
  show "keeps_revocation i s (s\<lparr>tick := Suc (tick s)\<rparr>)" "keeps_revocation i s (s\<lparr>tick := n\<rparr>)" "keeps_revocation i s (s\<lparr>audit_log := l\<rparr>)"
    "keeps_revocation i s (snd (SetCAStatus E j st s))" "keeps_revocation i s (snd (NextCRLNumber E j s))"
    "keeps_revocation i s (snd (RecordCARevocation E j serial reason s))"
    by (rule keeps_same, simp add: certs_unchanged)+
  show "keeps_revocation i s (snd (CreateCertificate E c s))"
    using certs_CreateCertificate [of E c s]
    by (auto simp: keeps_revocation_def revocation_of_def find_append_row split: option.split)
  show "keeps_revocation i s (snd (RevokeCertificate E j reason s))"
    using certs_RevokeCertificate [of E j reason s]
    by (auto simp: keeps_revocation_def revocation_of_def find_update_where)
  show "keeps_revocation i s (snd (UnrevokeCertificate E j s))"
  proof (cases "j = i")
    case True
    then show ?thesis
      using certs_UnrevokeCertificate [of E j s]
      by (auto simp: keeps_revocation_def revocation_of_def OnHold_def)
  next
    case False
    then show ?thesis
      using certs_UnrevokeCertificate [of E j s]
      by (auto simp: keeps_revocation_def revocation_of_def find_update_where dest: find_SomeD)
  qed
  show "keeps_revocation i s (snd (SetRenewedFrom E j k s))"
    using certs_SetRenewedFrom [of E j k s]
    by (auto simp: keeps_revocation_def revocation_of_def find_update_where)
qed

text \<open>C32 (ca/lifecycle.go and ca/service.go): a certificate revoked for any reason but a hold stays
  revoked, with the same time and reason, through every sequence of issuances, renewals, revocations,
  holds, releases, bulk revocations, retirements of authorities and lists, whatever statements fail on
  the way.\<close>

theorem permanent_revocation_is_final:
  assumes "svc_steps V s t" and "revocation_of i s = Some (CertRevoked, at, reason)" and "reason \<noteq> 6"
  shows "revocation_of i t = Some (CertRevoked, at, reason)"
  using permanent.steps_in_frame [OF assms(1), of i] assms(2,3) by (simp add: keeps_revocation_def)


section \<open>What was issued does not change\<close>

definition cert_content :: "Certificate \<Rightarrow> Certificate" where
  "cert_content c = c\<lparr>c_status := CertActive, c_revoked_at := None, c_revoke_code := 0, c_renewed_from := None\<rparr>"

lemma cert_content_upd [simp]:
  "cert_content (c\<lparr>c_status := st, c_revoked_at := at, c_revoke_code := code\<rparr>) = cert_content c"
  "cert_content (c\<lparr>c_renewed_from := p\<rparr>) = cert_content c"
  by (simp_all add: cert_content_def)

definition content_grows :: "db \<Rightarrow> db \<Rightarrow> bool" where
  "content_grows s t \<longleftrightarrow>
     prefix (map cert_content (rows (certificates s))) (map cert_content (rows (certificates t)))"

lemma content_same: "certificates t = certificates s \<Longrightarrow> content_grows s t"
  by (simp add: content_grows_def)

interpretation content: authority_frame content_grows
proof
  fix s t u :: db and n l E j st serial reason c k ca
  show "content_grows s s" by (simp add: content_grows_def)
  show "content_grows s t \<Longrightarrow> content_grows t u \<Longrightarrow> content_grows s u"
    unfolding content_grows_def by (rule prefix_order.trans)
  show "content_grows s (s\<lparr>tick := Suc (tick s)\<rparr>)" "content_grows s (s\<lparr>tick := n\<rparr>)" "content_grows s (s\<lparr>audit_log := l\<rparr>)"
    "content_grows s (snd (SetCAStatus E j st s))" "content_grows s (snd (NextCRLNumber E j s))"
    "content_grows s (snd (RecordCARevocation E j serial reason s))"
    "content_grows s (snd (CreateCA E ca s))" "content_grows s (snd (SetDefaultCA E j s))"
    by (rule content_same, simp add: certs_unchanged certs_authorities)+
  have upd: "map cert_content (update_where p f rs) = map cert_content rs"
    if "\<And>r. cert_content (f r) = cert_content r" for p f rs
    using that by (intro map_update_where)
  show "content_grows s (snd (CreateCertificate E c s))"
    using certs_CreateCertificate [of E c s] by (auto simp: content_grows_def)
  show "content_grows s (snd (RevokeCertificate E j reason s))"
    using certs_RevokeCertificate [of E j reason s]
    by (auto simp: content_grows_def upd)
  show "content_grows s (snd (UnrevokeCertificate E j s))"
    using certs_UnrevokeCertificate [of E j s]
    by (auto simp: content_grows_def upd)
  show "content_grows s (snd (SetRenewedFrom E j k s))"
    using certs_SetRenewedFrom [of E j k s]
    by (auto simp: content_grows_def upd)
qed

text \<open>Deleting an authority, the one operation that removes certificates: those it issued.\<close>

lemma certificates_audit [simp]: "certificates (audit V actor action target detail s) = certificates s"
  by (auto simp: audit_def recordAudit_def Audit_def stmt_defs)

lemma certs_DeleteCA:
  "svc_DeleteCA V i actor s = (Inr u, t) \<Longrightarrow> certificates t = delete_rows (\<lambda>c. c_ca_id c = i) (certificates s)"
  "svc_DeleteCA V i actor s = (Inl e, t) \<Longrightarrow> certificates t = certificates s"
  by (auto simp: svc_DeleteCA_def DeleteCA_def GetCA_def stmt_def stmt_defs select_one_def affected_def filter_empty_conv
      dest: find_SomeD split: option.splits if_splits)

text \<open>A history of the service; \<open>gone\<close> are the authorities that were deleted in it.\<close>

inductive svc_history :: "service \<Rightarrow> db \<Rightarrow> nat set \<Rightarrow> db \<Rightarrow> bool" for V s0 where
  history_start: "svc_history V s0 {} s0"
| history_step: "svc_history V s0 gone s \<Longrightarrow> svc_step V s t \<Longrightarrow> svc_history V s0 gone t"
| history_create: "svc_history V s0 gone s \<Longrightarrow> svc_history V s0 gone (snd (svc_CreateCA V json ci s))"
| history_default: "svc_history V s0 gone s \<Longrightarrow> svc_history V s0 gone (snd (svc_SetDefaultCA V i actor s))"
| history_status: "svc_history V s0 gone s \<Longrightarrow> svc_history V s0 gone (snd (svc_SetCAStatus V i status actor s))"
| history_delete: "svc_history V s0 gone s \<Longrightarrow> svc_DeleteCA V i actor s = (Inr (), t) \<Longrightarrow> svc_history V s0 (insert i gone) t"
| history_keep: "svc_history V s0 gone s \<Longrightarrow> svc_DeleteCA V i actor s = (Inl e, t) \<Longrightarrow> svc_history V s0 gone t"

lemma history_content:
  "svc_history V s gone t \<Longrightarrow>
     \<exists>new. map cert_content (rows (certificates t)) =
       filter (\<lambda>c. c_ca_id c \<notin> gone) (map cert_content (rows (certificates s))) @ new"
proof (induction rule: svc_history.induct)
  case history_start
  then show ?case by simp
next
  case (history_step gone t u)
  then show ?case using content.step_in_frame [OF history_step.hyps(2)] by (auto simp: content_grows_def prefix_def)
next
  case (history_create gone t json ci)
  then show ?case
    using content.svc_CreateCA_in_frame [OF content.refl, where V = V and json = json and inp = ci and s = t] by (auto simp: content_grows_def prefix_def)
next
  case (history_default gone t i actor)
  then show ?case
    using content.svc_SetDefaultCA_in_frame [OF content.refl, where V = V and i = i and actor = actor and s = t] by (auto simp: content_grows_def prefix_def)
next
  case (history_status gone t i status actor)
  then show ?case
    using content.svc_SetCAStatus_in_frame [OF content.refl, where V = V and i = i and status = status and actor = actor and s = t] by (auto simp: content_grows_def prefix_def)
next
  case (history_delete gone t i actor u)
  have "map cert_content (rows (certificates u)) = filter (\<lambda>c. c_ca_id c \<noteq> i) (map cert_content (rows (certificates t)))"
    using certs_DeleteCA(1) [OF history_delete.hyps(2)] by (simp add: delete_rows_def delete_where_def filter_map o_def cert_content_def)
  with history_delete.IH show ?case by (auto simp: conj_commute intro: filter_cong)
next
  case (history_keep gone t i actor e u)
  then show ?case using certs_DeleteCA(2) [OF history_keep.hyps(2)] by simp
qed




section \<open>An example\<close>

definition demo_env :: env where
  "demo_env = \<lparr>fault = (\<lambda>_. False), clock = (\<lambda>_. 1000), random_token = (\<lambda>_. Some ''tok'')\<rparr>"

definition demo_config :: config where
  "demo_config = \<lparr>base_url = ''https://ca.test'', default_key_type = ''ec-p256'', default_ca_days = 3650,
     default_cert_days = 90, crl_days = 7, cfg_crl_dist_points = [], cfg_ocsp_servers = []\<rparr>"

definition demo_service :: "csr \<Rightarrow> x509 \<Rightarrow> service" where
  "demo_service q x = \<lparr>sv_env = demo_env, sv_crypto = demo_crypto q x, sv_box = demo_aead,
     sv_nonce = (\<lambda>_. Some ''xy''), sv_cfg = demo_config\<rparr>"

definition demo_ca :: "nat \<Rightarrow> nat option \<Rightarrow> CA" where
  "demo_ca i parent = \<lparr>ca_id = i, ca_name = ''Root'' @ string_of_nat i, ca_slug = ''root-'' @ string_of_nat i,
     ca_subject = ''CN=Root'', ca_subject_json = ''{}'', ca_serial_hex = ''07'', ca_key_type = ''ec-p256'',
     ca_cert_pem = ''CERTIFICATE|ca'', ca_key_enc = ''PRIVATE KEY|key'', ca_csr_pem = [], ca_is_root = (parent = None),
     ca_parent_id = parent, ca_path_len = 0, ca_not_before = 0, ca_not_after = 400000000, ca_status = CAActive,
     ca_crl_number = 0, ca_fingerprint = [], ca_is_default = (i = 1), ca_created_by = [], ca_created_at = 1,
     ca_last_crl_at = None, ca_external = False, ca_subject_key_id = [], ca_authority_key_id = []\<rparr>"

definition demo_cert :: "nat \<Rightarrow> nat \<Rightarrow> cert_status \<Rightarrow> int \<Rightarrow> Certificate" where
  "demo_cert i ca st code = \<lparr>c_id = i, c_ca_id = ca, c_serial_hex = SerialHex (16 + i), c_common_name = ''a.test'',
     c_subject = ''CN=a.test'', c_sans = [''DNS:a.test''], c_profile = ''server'', c_key_type = ''ec-p256'',
     c_cert_pem = ''CERTIFICATE|leaf'', c_key_enc = [], c_csr_pem = [], c_fingerprint = [], c_not_before = 0,
     c_not_after = 9000000, c_status = st, c_revoked_at = (if st = CertRevoked then Some 5 else None),
     c_revoke_code = code, c_requested_by = ''bob'', c_note = [], c_created_at = 1, c_renewed_from = None\<rparr>"

definition demo_db :: "Certificate list \<Rightarrow> db" where
  "demo_db cs = empty_db\<lparr>cas := \<lparr>rows = [demo_ca 1 None, demo_ca 2 (Some 1)], next_id = 3\<rparr>,
     certificates := \<lparr>rows = cs, next_id = Suc (length cs)\<rparr>\<rparr>"

abbreviation demo_V :: service where "demo_V \<equiv> demo_service demo_csr demo_leaf"

theorem permanent_revocation_is_final_witness:
  "revocation_of 1 (snd (Release demo_V 1 ''eve'' (demo_db [demo_cert 1 1 CertRevoked 1]))) =
     Some (CertRevoked, Some 5, 1)"
proof (rule permanent_revocation_is_final)
  show "svc_steps demo_V (demo_db [demo_cert 1 1 CertRevoked 1])
    (snd (Release demo_V 1 ''eve'' (demo_db [demo_cert 1 1 CertRevoked 1])))"
    by (rule steps_more [OF steps_none step_release])
  show "revocation_of 1 (demo_db [demo_cert 1 1 CertRevoked 1]) = Some (CertRevoked, Some 5, 1)"
    by code_simp
qed simp



section \<open>Retirement ends and reaches every certificate\<close>

definition shape :: "db \<Rightarrow> (nat \<times> nat option) list \<times> nat" where
  "shape s = (map (\<lambda>c. (ca_id c, ca_parent_id c)) (rows (cas s)), next_id (cas s))"

lemma cas_unchanged:
  "cas (snd (RecordCARevocation E i serial reason s)) = cas s"
  "cas (snd (CreateCertificate E c s)) = cas s"
  "cas (snd (RevokeCertificate E i reason s)) = cas s"
  "cas (snd (UnrevokeCertificate E i s)) = cas s"
  "cas (snd (SetRenewedFrom E i j s)) = cas s"
  by (auto simp: RecordCARevocation_def CreateCertificate_def RevokeCertificate_def UnrevokeCertificate_def
      SetRenewedFrom_def GetCertificate_def set_certs_def select_one_def stmt_defs split: option.split)

lemma shape_status: "shape (snd (SetCAStatus E i st s)) = shape s"
  by (auto simp: SetCAStatus_def shape_def stmt_defs map_update_where)

lemma shape_number: "shape (snd (NextCRLNumber E i s)) = shape s"
  by (auto simp: NextCRLNumber_def shape_def stmt_defs map_update_where split: option.split)

interpretation tree: release_frame "\<lambda>s t. shape t = shape s"
  by unfold_locales (auto simp: shape_status shape_number, auto simp: shape_def cas_unchanged)

text \<open>Every parent is older than its child, which is how authorities are created.\<close>

definition parents_older :: "db \<Rightarrow> bool" where
  "parents_older s \<longleftrightarrow>
     (\<forall>(i, p) \<in> set (fst (shape s)). i < snd (shape s) \<and> (case p of None \<Rightarrow> True | Some q \<Rightarrow> q < i))"

lemma shape_member: "c \<in> set (rows (cas s)) \<Longrightarrow> (ca_id c, ca_parent_id c) \<in> set (fst (shape s))"
  unfolding shape_def fst_conv set_map by (rule imageI)

lemma parents_olderD:
  "parents_older s \<Longrightarrow> (i, p) \<in> set (fst (shape s)) \<Longrightarrow> i < snd (shape s) \<and> (\<forall>q. p = Some q \<longrightarrow> q < i)"
  by (force simp: parents_older_def)

lemma retire_children_Some:
  "(\<And>c s. c \<in> set cs \<Longrightarrow> P s \<Longrightarrow> \<exists>x. sub (ca_id c) s = Some x \<and> P (snd x)) \<Longrightarrow> P s \<Longrightarrow>
     \<exists>y. retire_children sub cs out s = Some y"
proof (induction cs arbitrary: out s)
  case Nil
  then show ?case by simp
next
  case (Cons c cs)
  from Cons.prems(1) [of c s] Cons.prems(2) obtain x where x: "sub (ca_id c) s = Some x" "P (snd x)" by auto
  have IH: "\<exists>y. retire_children sub cs out' (snd x) = Some y" for out'
    using Cons.IH [OF _ x(2)] Cons.prems(1) by simp
  with x(1) show ?case by (cases x; cases "fst x") auto
qed

lemma ChildCAs_members:
  assumes "ChildCAs E i s = (Inr cs, s')" and "c \<in> set cs"
  shows "(ca_id c, Some i) \<in> set (fst (shape s))"
proof -
  have "c \<in> set (rows (cas s))" "ca_parent_id c = Some i"
    using query_row_Inr [OF assms(1) [unfolded ChildCAs_def]] assms(2) by auto
  with shape_member [of c s] show ?thesis by simp
qed

lemma RevokeCA_Some:
  "parents_older s \<Longrightarrow> snd (shape s) \<le> i + n \<Longrightarrow> \<exists>x. RevokeCA (Suc n) V reason actor cascade i s = Some x"
proof (induction n arbitrary: i s cascade)
  case 0
  have "find (\<lambda>c. ca_id c = i) (rows (cas s)) = None"
    using 0 parents_olderD [OF 0(1) shape_member] by (fastforce simp: find_None_iff)
  then have "\<exists>e s1. GetCA (sv_env V) i s = (Inl e, s1)"
    by (auto simp: GetCA_def stmt_defs select_one_def)
  then show ?case by auto
next
  case (Suc n)
  let ?E = "sv_env V" and ?P = "\<lambda>s'. shape s' = shape s"
  let ?sub = "\<lambda>j. RevokeCA (Suc n) V reason actor True j"
  have kids: "\<exists>y. retire_children ?sub cs out s1 = Some y"
    if "ChildCAs ?E i s0 = (Inr cs, s1)" "?P s0" for cs out s0 s1
  proof (rule retire_children_Some [of cs ?P])
    show "?P s1" using that(1) tree.acc_reads(5) [OF that(2), of ?E i] by simp
    fix c t assume c: "c \<in> set cs" and t: "?P t"
    from ChildCAs_members [OF that(1) c] that(2) have "(ca_id c, Some i) \<in> set (fst (shape s))" by simp
    from parents_olderD [OF Suc.prems(1) this] have "i < ca_id c" by simp
    with Suc.prems t have "parents_older t" "snd (shape t) \<le> ca_id c + n" by (auto simp: parents_older_def)
    then obtain x where x: "?sub (ca_id c) t = Some x" using Suc.IH by blast
    moreover have "?P (snd x)" using tree.RevokeCA_in_frame [OF t x] .
    ultimately show "\<exists>x. ?sub (ca_id c) t = Some x \<and> ?P (snd x)" by blast
  qed
  obtain r1 s1 where g: "GetCA ?E i s = (r1, s1)" by (cases "GetCA ?E i s")
  have s1: "?P s1" using tree.acc_reads(1) [of s s ?E i] g by simp
  obtain r2 s2 where d: "SetCAStatus ?E i CADisabled s1 = (r2, s2)" by (cases "SetCAStatus ?E i CADisabled s1")
  have s2: "?P s2" using tree.acc [OF s1 tree.statuses [of ?E i CADisabled s1]] d by simp
  let ?f = "no_filter\<lparr>f_ca_id := i, f_limit := 10000\<rparr>"
  obtain r3 s3 where f: "SearchCertificates ?E ?f s2 = (r3, s3)" by (cases "SearchCertificates ?E ?f s2")
  have s3: "?P s3" using tree.acc_reads(10) [OF s2, of ?E ?f] f by simp
  have step: "\<exists>x. (case retire_certs ?E reason certs out s3 of (out, s) \<Rightarrow>
      attempt (ChildCAs ?E i s) (\<lambda>e s. Some (fin out s))
        (\<lambda>children s. case retire_children ?sub children out s of
                         None \<Rightarrow> None | Some (out, s) \<Rightarrow> Some (fin out s))) = Some x" for certs out fin
  proof -
    obtain out4 s4 where t4: "retire_certs ?E reason certs out s3 = (out4, s4)"
      by (cases "retire_certs ?E reason certs out s3")
    have s4: "?P s4" using tree.acc_retire_certs [OF s3, of ?E reason certs out] t4 by simp
    obtain r5 s5 where t5: "ChildCAs ?E i s4 = (r5, s5)" by (cases "ChildCAs ?E i s4")
    show ?thesis
    proof (cases r5)
      case (Inl e)
      with t4 t5 show ?thesis by simp
    next
      case (Inr cs)
      from kids [OF t5 [unfolded Inr] s4, of out4] Inr t4 t5 show ?thesis by auto
    qed
  qed
  show ?case
  proof (cases "\<exists>c certs tot. r1 = Inr c \<and> r2 = Inr () \<and> r3 = Inr (certs, tot) \<and> cascade")
    case True
    then obtain c certs tot where ok: "r1 = Inr c" "r2 = Inr ()" "r3 = Inr (certs, tot)" and casc: "cascade = True"
      by auto
    show ?thesis
      using step [of "retire_finish V c reason True actor" certs
          "\<lparr>ro_ca = c, ro_in_parent = False, ro_parent_name = [], ro_certificates = 0,
                  ro_child_cas = [], ro_warnings = []\<rparr>"]
      unfolding casc RevokeCA.simps(2) [of "Suc n"] g d f ok
      by (simp only: attempt_simps Let_def f prod.case not_True_eq_False if_False d ok)
  next
    case False
    then show ?thesis
      using g d f by (cases r1; cases r2; cases r3) (auto simp: Let_def)
  qed
qed


text \<open>C34 (ca/lifecycle.go, RevokeCA): retiring an authority returns, with or without the cascade and whatever
  statements fail, when every parent is older than its child: a recursion depth of the number of keys
  ever given to authorities is enough.\<close>

theorem RevokeCA_returns:
  assumes "parents_older s"
  shows "\<exists>x. RevokeCA (Suc (next_id (cas s))) V reason actor cascade i s = Some x"
  using RevokeCA_Some [OF assms, of i "next_id (cas s)"] by (simp add: shape_def)

theorem RevokeCA_returns_witness:
  "\<exists>x. RevokeCA (Suc (next_id (cas (demo_db [])))) demo_V 5 ''bob'' True 1 (demo_db []) = Some x"
  by (rule RevokeCA_returns) code_simp

text \<open>Without a release, what is revoked stays revoked.\<close>

definition revoked_ids :: "db \<Rightarrow> nat set" where
  "revoked_ids s = {i. \<forall>c \<in> set (rows (certificates s)). c_id c = i \<longrightarrow> c_status c = CertRevoked}"

definition stays_revoked :: "db \<Rightarrow> db \<Rightarrow> bool" where
  "stays_revoked s t \<longleftrightarrow>
     (\<forall>i < next_id (certificates s). i \<in> revoked_ids s \<longrightarrow> i \<in> revoked_ids t) \<and>
     next_id (certificates s) \<le> next_id (certificates t)"

lemma stays_same: "certificates t = certificates s \<Longrightarrow> stays_revoked s t"
  by (simp add: stays_revoked_def revoked_ids_def)

interpretation retire: frame stays_revoked
proof
  fix s t u :: db and n l E j st serial reason c k
  show "stays_revoked s s" by (simp add: stays_revoked_def)
  show "stays_revoked s t \<Longrightarrow> stays_revoked t u \<Longrightarrow> stays_revoked s u"
    by (auto simp: stays_revoked_def)
  show "stays_revoked s (s\<lparr>tick := Suc (tick s)\<rparr>)" "stays_revoked s (s\<lparr>tick := n\<rparr>)" "stays_revoked s (s\<lparr>audit_log := l\<rparr>)"
    "stays_revoked s (snd (SetCAStatus E j st s))" "stays_revoked s (snd (NextCRLNumber E j s))"
    "stays_revoked s (snd (RecordCARevocation E j serial reason s))"
    by (rule stays_same, simp add: certs_unchanged)+
  show "stays_revoked s (snd (CreateCertificate E c s))"
    using certs_CreateCertificate [of E c s] by (auto simp: stays_revoked_def revoked_ids_def)
  show "stays_revoked s (snd (RevokeCertificate E j reason s))"
    using certs_RevokeCertificate [of E j reason s]
    by (auto simp: stays_revoked_def revoked_ids_def set_update_where)
  show "stays_revoked s (snd (SetRenewedFrom E j k s))"
    using certs_SetRenewedFrom [of E j k s]
    by (auto simp: stays_revoked_def revoked_ids_def set_update_where)
qed

lemma RevokeCertificate_revokes:
  assumes "\<not> fault E (tick s)"
  shows "i \<in> revoked_ids (snd (RevokeCertificate E i reason s))"
proof -
  let ?p = "\<lambda>c. c_id c = i \<and> c_status c \<noteq> CertRevoked"
  let ?f = "\<lambda>c. c\<lparr>c_status := CertRevoked, c_revoked_at := Some (now E s), c_revoke_code := reason\<rparr>"
  have rows: "rows (certificates (snd (RevokeCertificate E i reason s))) = update_where ?p ?f (rows (certificates s))"
    using assms by (simp add: RevokeCertificate_def set_certs_def stmt_defs)
  have "c_status c = CertRevoked" if c: "c \<in> set (update_where ?p ?f (rows (certificates s)))" "c_id c = i" for c
  proof -
    obtain r0 where "c = (if ?p r0 then ?f r0 else r0)" using c(1) unfolding set_update_where by blast
    with c(2) show ?thesis by (cases "?p r0") auto
  qed
  then show ?thesis unfolding revoked_ids_def rows by blast
qed

lemma retire_certs_revokes:
  assumes "\<And>n. \<not> fault E n"
  shows "\<forall>c \<in> set cs. c_id c < next_id (certificates s) \<and> (c_status c = CertRevoked \<longrightarrow> c_id c \<in> revoked_ids s) \<Longrightarrow>
    c \<in> set cs \<Longrightarrow> c_id c \<in> revoked_ids (snd (retire_certs E reason cs out s))"
proof (induction cs arbitrary: out s)
  case Nil
  then show ?case by simp
next
  case (Cons d cs)
  have later: "c_id c \<in> revoked_ids (snd (retire_certs E reason cs out' t))"
    if "stays_revoked s t" "c = d \<Longrightarrow> c_id d \<in> revoked_ids t" for out' t
  proof (cases "c \<in> set cs")
    case True
    moreover have "\<forall>c \<in> set cs. c_id c < next_id (certificates t) \<and> (c_status c = CertRevoked \<longrightarrow> c_id c \<in> revoked_ids t)"
      using Cons.prems(1) that(1) by (fastforce simp: stays_revoked_def)
    ultimately show ?thesis using Cons.IH by blast
  next
    case False
    with Cons.prems(2) have "c = d" by simp
    moreover have "stays_revoked t (snd (retire_certs E reason cs out' t))"
      using retire.acc_retire_certs [OF retire.refl] .
    moreover have "c_id d < next_id (certificates t)"
      using Cons.prems(1) that(1) by (fastforce simp: stays_revoked_def)
    ultimately show ?thesis using that(2) by (simp add: stays_revoked_def)
  qed
  show ?case
  proof (cases "c_status d = CertRevoked")
    case True
    then show ?thesis using later [OF retire.refl] Cons.prems(1) by simp
  next
    case False
    obtain r t where r: "RevokeCertificate E (c_id d) reason s = (r, t)"
      by (cases "RevokeCertificate E (c_id d) reason s")
    have "stays_revoked s t" using retire.revokes [of s E "c_id d" reason] r by simp
    moreover have "c_id d \<in> revoked_ids t"
      using RevokeCertificate_revokes [OF assms, of "c_id d" reason s] r by simp
    ultimately show ?thesis using later False r by (cases r) auto
  qed
qed


definition roster :: "db \<Rightarrow> (nat \<times> nat) list" where
  "roster s = map (\<lambda>c. (c_id c, c_ca_id c)) (rows (certificates s))"

interpretation roster: quiet_frame "\<lambda>s t. roster t = roster s"
proof
  fix s :: db and E i reason
  show "roster (snd (RevokeCertificate E i reason s)) = roster s"
    using certs_RevokeCertificate [of E i reason s] by (auto simp: roster_def map_update_where)
qed (auto simp: roster_def certs_unchanged)

lemma search_all:
  assumes "\<And>n. \<not> fault E n" and "0 < i"
    and "length (filter (\<lambda>c. c_ca_id c = i) (rows (certificates s))) \<le> 10000"
  obtains certs tot s' where
    "SearchCertificates E (no_filter\<lparr>f_ca_id := i, f_limit := 10000\<rparr>) s = (Inr (certs, tot), s')"
    "set certs = {c \<in> set (rows (certificates s)). c_ca_id c = i}" "certificates s' = certificates s"
proof -
  let ?f = "no_filter\<lparr>f_ca_id := i, f_limit := 10000\<rparr>"
  have m: "cert_matches t ?f = (\<lambda>c. c_ca_id c = i)" for t
    using assms(2) by (simp add: fun_eq_iff cert_matches_def no_filter_def trim_space_def)
  have o: "cert_order ?f cs = sort_key c_created_at (sort_key c_id cs)" for cs
    by (simp add: cert_order_def no_filter_def Let_def)
  have l: "f_limit ?f = 10000" "f_offset ?f = 0" by (simp_all add: no_filter_def)
  show thesis
    by (rule that [of "sort_key c_created_at (sort_key c_id (filter (\<lambda>c. c_ca_id c = i) (rows (certificates s))))"
            "length (filter (\<lambda>c. c_ca_id c = i) (rows (certificates s)))" "s\<lparr>tick := Suc (Suc (tick s))\<rparr>"])
       (use assms in \<open>simp_all add: SearchCertificates_def query_row_def run_def Let_def m o l\<close>)
qed

context quiet_frame
begin

text \<open>What follows the loop over the certificates stays in the frame.\<close>

lemma RevokeCA_after_certs:
  assumes "RevokeCA (Suc n) V reason actor True i s = Some (Inr out, t)"
    and "GetCA (sv_env V) i s = (Inr c, s1)" and "SetCAStatus (sv_env V) i CADisabled s1 = (Inr (), s2)"
    and "SearchCertificates (sv_env V) (no_filter\<lparr>f_ca_id := i, f_limit := 10000\<rparr>) s2 = (Inr (certs, tot), s3)"
    and "retire_certs (sv_env V) reason certs \<lparr>ro_ca = c, ro_in_parent = False, ro_parent_name = [],
           ro_certificates = 0, ro_child_cas = [], ro_warnings = []\<rparr> s3 = (out4, s4)"
  shows "R s4 t"
proof -
  obtain r5 s5 where t5: "ChildCAs (sv_env V) i s4 = (r5, s5)" by (cases "ChildCAs (sv_env V) i s4")
  have s5: "R s4 s5" using acc_reads(5) [OF refl, of s4 "sv_env V" i] t5 by simp
  have kids: "R s4 s6" if "retire_children (\<lambda>j. RevokeCA n V reason actor True j) cs out4 s5 = Some (out6, s6)"
    for cs out6 s6
    using acc_retire_children [of s4 "\<lambda>j. RevokeCA n V reason actor True j", OF _ s5 that] RevokeCA_in_frame by blast
  have fin: "R s4 t" if "Some (retire_finish V c reason True actor out' s') = Some (Inr out, t)" "R s4 s'" for out' s'
    using acc_retire_finish [OF that(2), of V c reason True actor out'] that(1) by simp
  have "(case r5 of
      Inl e \<Rightarrow> Some (retire_finish V c reason True actor out4 s5)
    | Inr children \<Rightarrow>
        (case retire_children (\<lambda>j. RevokeCA n V reason actor True j) children out4 s5 of
           None \<Rightarrow> None
         | Some (out, s) \<Rightarrow> Some (retire_finish V c reason True actor out s))) = Some (Inr out, t)"
    using assms(1) by (cases r5) (simp_all add: assms(2-5) t5 Let_def)
  then show ?thesis
    using fin s5 kids by (fastforce split: sum.splits option.splits)
qed

end

lemma roster_revoked:
  assumes "roster t = roster s" and "\<And>d. d \<in> set (rows (certificates s)) \<Longrightarrow> c_ca_id d = i \<Longrightarrow> c_id d \<in> revoked_ids t"
  shows "\<forall>c \<in> set (rows (certificates t)). c_ca_id c = i \<longrightarrow> c_status c = CertRevoked"
proof (intro ballI impI)
  fix x assume x: "x \<in> set (rows (certificates t))" "c_ca_id x = i"
  have "(\<lambda>c. (c_id c, c_ca_id c)) x \<in> set (roster t)"
    unfolding roster_def set_map using x(1) by (rule imageI)
  then have "(c_id x, i) \<in> set (roster s)" using assms(1) x(2) by simp
  then obtain d where "d \<in> set (rows (certificates s))" "c_id d = c_id x" "c_ca_id d = i" by (auto simp: roster_def)
  with assms(2) [of d] x(1) show "c_status x = CertRevoked" by (auto simp: revoked_ids_def)
qed

text \<open>(ca/lifecycle.go, RevokeCA): retiring an authority with the cascade leaves none of its certificates
  usable: when no statement fails and it issued at most 10000, each of them is revoked (or was, or is on
  hold) afterwards.\<close>

theorem RevokeCA_revokes_certificates:
  assumes "\<And>n. \<not> fault (sv_env V) n" and "wf_table c_id (certificates s)" and "0 < i"
    and "length (filter (\<lambda>c. c_ca_id c = i) (rows (certificates s))) \<le> 10000"
    and "RevokeCA (Suc n) V reason actor True i s = Some (Inr out, t)"
  shows "\<forall>c \<in> set (rows (certificates t)). c_ca_id c = i \<longrightarrow> c_status c = CertRevoked"
proof -
  let ?E = "sv_env V"
  obtain r1 s1 where g0: "GetCA ?E i s = (r1, s1)" by (cases "GetCA ?E i s")
  obtain r2 s2 where d0: "SetCAStatus ?E i CADisabled s1 = (r2, s2)" by (cases "SetCAStatus ?E i CADisabled s1")
  have r2: "r2 = Inr ()" using d0 assms(1) by (simp add: SetCAStatus_def stmt_defs)
  from assms(5) g0 obtain c where r1: "r1 = Inr c" by (cases r1) auto
  have "s1 = s\<lparr>tick := Suc (tick s)\<rparr>"
    using arg_cong [OF g0, of snd] by (simp add: GetCA_def query_row_state)
  then have s2: "certificates s2 = certificates s"
    using d0 certs_unchanged(1) [of ?E i CADisabled s1] by simp
  have few: "length (filter (\<lambda>c. c_ca_id c = i) (rows (certificates s2))) \<le> 10000" using assms(4) s2 by simp
  obtain certs tot s3 where f: "SearchCertificates ?E (no_filter\<lparr>f_ca_id := i, f_limit := 10000\<rparr>) s2 = (Inr (certs, tot), s3)"
    and certs: "set certs = {c \<in> set (rows (certificates s2)). c_ca_id c = i}" and s3: "certificates s3 = certificates s2"
    by (rule search_all [OF assms(1) assms(3) few])
  let ?out = "\<lparr>ro_ca = c, ro_in_parent = False, ro_parent_name = [], ro_certificates = 0, ro_child_cas = [], ro_warnings = []\<rparr>"
  obtain out4 s4 where t4: "retire_certs ?E reason certs ?out s3 = (out4, s4)"
    by (cases "retire_certs ?E reason certs ?out s3")
  note rest = assms(5) g0 [unfolded r1] d0 [unfolded r2] f t4
  have "stays_revoked s4 t" and t: "roster t = roster s4"
    by (rule retire.RevokeCA_after_certs [OF rest] roster.RevokeCA_after_certs [OF rest])+
  have s4: "roster s4 = roster s"
    using roster.acc_retire_certs [of s3 s3 ?E reason certs ?out] t4 s2 s3 by (simp add: roster_def)
  have ids: "c_id d \<in> revoked_ids t" if d: "d \<in> set certs" for d
  proof -
    have rows: "d \<in> set (rows (certificates s))" if "d \<in> set certs" for d using that certs s2 by auto
    have old: "\<forall>c \<in> set certs. c_id c < next_id (certificates s3) \<and> (c_status c = CertRevoked \<longrightarrow> c_id c \<in> revoked_ids s3)"
      using assms(2) rows s2 s3 certs_t.find_eq_iff [OF assms(2)]
      by (auto simp: wf_table_def revoked_ids_def) (metis option.inject)
    have "c_id d \<in> revoked_ids s4"
      using retire_certs_revokes [OF assms(1) old d, of reason ?out] t4 by simp
    moreover have "c_id d < next_id (certificates s4)"
      using retire.acc_retire_certs [OF retire.refl, of s3 ?E reason certs ?out] t4 old d
      by (fastforce simp: stays_revoked_def)
    ultimately show ?thesis using \<open>stays_revoked s4 t\<close> by (simp add: stays_revoked_def)
  qed
  show ?thesis
    using roster_revoked [of t s i] t s4 ids certs s2 by auto
qed


theorem RevokeCA_revokes_certificates_witness:
  "filter (\<lambda>c. c_ca_id c = 1 \<and> c_status c \<noteq> CertRevoked)
     (rows (certificates (snd (the (RevokeCA 4 demo_V 5 ''bob'' True 1
       (demo_db [demo_cert 1 1 CertActive 0, demo_cert 2 1 CertActive 0])))))) = []"
proof -
  let ?s = "demo_db [demo_cert 1 1 CertActive 0, demo_cert 2 1 CertActive 0]"
  let ?x = "the (RevokeCA (Suc 3) demo_V 5 ''bob'' True 1 ?s)"
  have "case RevokeCA (Suc 3) demo_V 5 ''bob'' True 1 ?s of Some (Inr out, t) \<Rightarrow> True | _ \<Rightarrow> False"
    by code_simp
  then obtain out where x: "RevokeCA (Suc 3) demo_V 5 ''bob'' True 1 ?s = Some (Inr out, snd ?x)"
    by (auto split: option.splits sum.splits)
  have "\<forall>c \<in> set (rows (certificates (snd ?x))). c_ca_id c = 1 \<longrightarrow> c_status c = CertRevoked"
  proof (rule RevokeCA_revokes_certificates [OF _ _ _ _ x])
    show "\<not> fault (sv_env demo_V) n" for n by (simp add: demo_service_def demo_env_def)
    show "wf_table c_id (certificates ?s)" by code_simp
    show "length (filter (\<lambda>c. c_ca_id c = 1) (rows (certificates ?s))) \<le> 10000" by code_simp
  qed simp
  then show ?thesis by (auto simp: filter_empty_conv eval_nat_numeral)
qed

text \<open>(ca/lifecycle.go, RevokeCA and Release): the cascade skips a certificate that is on hold, so it
  stays on hold under the compromised authority, and releasing it afterwards makes it valid again.\<close>

theorem hold_outlives_retirement:
  "let s = demo_db [demo_cert 1 1 CertRevoked 6];
       t = snd (the (RevokeCA 4 demo_V 2 ''bob'' True 1 s));
       u = snd (Release demo_V 1 ''bob'' t)
   in revocation_of 1 t = Some (CertRevoked, Some 5, 6) \<and> revocation_of 1 u = Some (CertActive, None, 0) \<and>
      ca_status (hd (rows (cas u))) = CADisabled"
  by code_simp

text \<open>(ca/lifecycle.go, BulkRevoke): a certificate named twice in the request is revoked and then reported
  as an error, although one that is already revoked is meant to be skipped.\<close>

theorem bulk_duplicate_is_an_error:
  "let s = demo_db [demo_cert 1 1 CertActive 0];
       r = BulkRevoke demo_V \<lparr>br_ids = [1, 1], br_filter = None, br_reason = 4, br_actor = ''bob''\<rparr> s
   in case fst r of
        Inl e \<Rightarrow> False
      | Inr out \<Rightarrow> length (bo_revoked out) = 1 \<and> length (bo_errors out) = 1 \<and> bo_skipped out = []"
  by code_simp

end
