(* ===== verification/Ca_Issue.thy ===== *)
theory Ca_Issue
  imports Ca_Lifecycle "HOL-Library.Multiset"
begin

text \<open>
  Correctness of issuance and of revocation lists (\<open>internal/ca/service.go\<close>): what a successful
  \<open>Issue\<close> has checked and stored, and which certificates a list names.
\<close>

interpretation certs_kept: read_frame "\<lambda>s t. certificates t = certificates s"
  by unfold_locales auto

interpretation cas_kept: read_frame "\<lambda>s t. cas t = cas s"
  by unfold_locales auto


section \<open>Issuance\<close>

lemma GetCAByRef_Inr:
  assumes "GetCAByRef E ref s = (Inr ca, s1)"
  shows "ca \<in> set (rows (cas s)) \<and> s1 = s\<lparr>tick := Suc (tick s)\<rparr>"
proof (cases "trim_space ref = []")
  case True
  let ?cs = "filter can_sign (rows (cas s))"
  let ?os = "sort_key ca_id (filter ca_is_default ?cs) @ sort_key ca_id (filter (\<lambda>c. \<not> ca_is_default c) ?cs)"
  from query_row_Inr [OF assms [unfolded GetCAByRef_def Let_def if_P [OF True] DefaultCA_def]]
  have "(case ?os of [] \<Rightarrow> Inl ErrNotFound | c # _ \<Rightarrow> Inr c) = Inr ca" and s1: "s1 = s\<lparr>tick := Suc (tick s)\<rparr>"
    by (simp_all add: Let_def)
  then have "ca \<in> set ?os" by (cases ?os) auto
  then show ?thesis using s1 by auto
next
  case False
  with query_row_Inr [OF assms [unfolded GetCAByRef_def Let_def if_not_P [OF False]]] show ?thesis
    by (auto dest: select_one_Inr)
qed

lemma CreateCertificate_Inr:
  assumes "CreateCertificate E c s = (Inr r, s')" and "wf_table c_id (certificates s)"
  shows "r = (new_certificate E s c)\<lparr>c_id := next_id (certificates s)\<rparr> \<and>
    rows (certificates s') = rows (certificates s) @ [r] \<and> cas s' = cas s"
proof -
  let ?c = "new_certificate E s c" and ?i = "next_id (certificates s)"
  let ?t = "insert_row (\<lambda>n. c_id_update (\<lambda>_. n)) ?c (certificates s)"
  from assms(1) obtain s1 where ok: "\<not> fault E (tick s)" "cert_insertable ?c s"
    and s1: "s1 = s\<lparr>tick := Suc (tick s), certificates := ?t\<rparr>"
    and get: "GetCertificate E ?i s1 = (Inr r, s')"
    by (auto simp: CreateCertificate_def exec_insert_def run_def Let_def cert_insertable_def split: if_splits)
  from query_row_Inr [OF get [unfolded GetCertificate_def]] s1
  have "select_one (\<lambda>c. c_id c = ?i) (rows ?t) = Inr r" and s': "s' = s1\<lparr>tick := Suc (tick s1)\<rparr>" by simp_all
  with certs_t.find_inserted [OF assms(2), of ?c] have "r = ?c\<lparr>c_id := ?i\<rparr>" by (simp add: select_one_def)
  with s1 s' show ?thesis by simp
qed

lemma issue_request_InrD:
  "issue_request V inp s k = (Inr y, s') \<Longrightarrow>
     \<exists>q csr_pem gen_key kt. k (q, csr_pem, gen_key, kt) = (Inr y, s') \<and>
       (issue_mode inp = ''csr'' \<longrightarrow> ParseCSR (sv_crypto V) (in_csr_pem inp) = Inr q)"
  unfolding issue_request_def Let_def
  by (auto dest!: pki_InrD split: if_splits option.splits) blast+

lemma issue_san_override_InrD:
  "issue_san_override V inp s k = (Inr y, s') \<Longrightarrow>
     \<exists>san. k san = (Inr y, s') \<and>
       (issue_mode inp = ''csr'' \<and> in_sans inp = [] \<longrightarrow> san = None)"
  unfolding issue_san_override_def by (auto dest!: pki_InrD split: if_splits)

lemma decryptKey_InrD: "decryptKey V enc s k = (Inr y, s') \<Longrightarrow> \<exists>key. k key = (Inr y, s')"
  unfolding decryptKey_def by (auto dest!: boxed_InrD pki_InrD)

lemma issue_sign_InrD:
  assumes "issue_sign V inp ca issuer key profile s (q, csr_pem, gen_key, kt) = (Inr r, s')"
  shows "\<exists>san res key_enc s2.
    (issue_mode inp = ''csr'' \<and> in_sans inp = [] \<longrightarrow> san = None) \<and>
    Sign (sv_crypto V) (now (sv_env V) s) (tick s) (issue_params V inp issuer key profile q san) = Inr res \<and>
    CreateCertificate (sv_env V) (issue_record inp ca profile res kt key_enc csr_pem) s = (Inr (ir_certificate r), s2) \<and>
    certificates s' = certificates s2 \<and> cas s' = cas s2"
proof -
  let ?E = "sv_env V" and ?K = "sv_crypto V"
  note eq = assms [unfolded issue_sign_def prod.case Let_def]
  obtain san where san: "issue_mode inp = ''csr'' \<and> in_sans inp = [] \<longrightarrow> san = None" and
    k3: "pki (Sign ?K (now ?E s) (tick s) (issue_params V inp issuer key profile q san)) s (\<lambda>res.
     boxed (if in_store_key inp \<noteq> Some False \<and> gen_key \<noteq> []
            then Encrypt (sv_box V) (sv_nonce V (tick s)) gen_key else Inr []) s (\<lambda>key_enc.
     stmt (CreateCertificate ?E (issue_record inp ca profile res kt key_enc csr_pem) s) (\<lambda>saved s.
     case CAChainPEM V ca (audit V (in_actor inp) ''cert.issue'' (c_common_name saved)
        (issue_detail inp ca saved profile (sp_days (issue_params V inp issuer key profile q san)) key_enc) s) of
       (chain, s) \<Rightarrow>
     (Inr \<lparr>ir_certificate = saved,
           ir_private_key_pem = (if issue_mode inp = ''generate'' then gen_key else []),
           ir_csr_pem = csr_pem,
           ir_chain_pem = (case chain of Inl _ \<Rightarrow> [] | Inr pem \<Rightarrow> pem)\<rparr>, s)))) = (Inr r, s')"
    using issue_san_override_InrD [OF eq] by blast
  from pki_InrD [OF k3] obtain res where
    res: "Sign ?K (now ?E s) (tick s) (issue_params V inp issuer key profile q san) = Inr res" and
    k4: "boxed (if in_store_key inp \<noteq> Some False \<and> gen_key \<noteq> []
            then Encrypt (sv_box V) (sv_nonce V (tick s)) gen_key else Inr []) s (\<lambda>key_enc.
     stmt (CreateCertificate ?E (issue_record inp ca profile res kt key_enc csr_pem) s) (\<lambda>saved s.
     case CAChainPEM V ca (audit V (in_actor inp) ''cert.issue'' (c_common_name saved)
        (issue_detail inp ca saved profile (sp_days (issue_params V inp issuer key profile q san)) key_enc) s) of
       (chain, s) \<Rightarrow>
     (Inr \<lparr>ir_certificate = saved,
           ir_private_key_pem = (if issue_mode inp = ''generate'' then gen_key else []),
           ir_csr_pem = csr_pem,
           ir_chain_pem = (case chain of Inl _ \<Rightarrow> [] | Inr pem \<Rightarrow> pem)\<rparr>, s))) = (Inr r, s')"
    by blast
  from boxed_InrD [OF k4] obtain key_enc saved s2 chain where
    saved: "CreateCertificate ?E (issue_record inp ca profile res kt key_enc csr_pem) s = (Inr saved, s2)" and
    chain: "CAChainPEM V ca (audit V (in_actor inp) ''cert.issue'' (c_common_name saved)
        (issue_detail inp ca saved profile (sp_days (issue_params V inp issuer key profile q san)) key_enc) s2) = (chain, s')"
    and r: "ir_certificate r = saved"
    by (auto dest!: stmt_InrD split: prod.splits)
  have "certificates s' = certificates s2" "cas s' = cas s2"
    using chain certs_kept.acc_chain_pem [OF certs_kept.acc_audit [OF certs_kept.refl]]
      cas_kept.acc_chain_pem [OF cas_kept.acc_audit [OF cas_kept.refl]] by (metis snd_conv)+
  with san res saved r show ?thesis by blast
qed

text \<open>The facts of a successful issuance, in the order the code establishes them.\<close>

definition issued ::
  "service \<Rightarrow> IssueInput \<Rightarrow> db \<Rightarrow> CA \<Rightarrow> x509 \<Rightarrow> private_key \<Rightarrow> Profile \<Rightarrow> csr \<Rightarrow> SANSet option \<Rightarrow> SignResult
     \<Rightarrow> Certificate \<Rightarrow> db \<Rightarrow> bool" where
  "issued V inp s ca issuer key profile q san res saved s2 \<longleftrightarrow>
     (let s1 = s\<lparr>tick := Suc (tick s)\<rparr> in
      ca \<in> set (rows (cas s)) \<and> checkCanIssue (now (sv_env V) s1) ca = None \<and>
      ParseCertPEM (sv_crypto V) (ca_cert_pem ca) = Inr issuer \<and>
      ParseProfile (in_profile inp) = Inr profile \<and>
      (profile = ProfileIntermCA \<longrightarrow> in_allow_subordinate_ca inp) \<and>
      (issue_mode inp = ''csr'' \<longrightarrow> ParseCSR (sv_crypto V) (in_csr_pem inp) = Inr q) \<and>
      (issue_mode inp = ''csr'' \<and> in_sans inp = [] \<longrightarrow> san = None) \<and>
      Sign (sv_crypto V) (now (sv_env V) s1) (tick s1) (issue_params V inp issuer key profile q san) = Inr res \<and>
      (\<exists>kt key_enc csr_pem. CreateCertificate (sv_env V) (issue_record inp ca profile res kt key_enc csr_pem) s1
          = (Inr saved, s2)))"

lemma Issue_InrD:
  assumes "Issue V inp s = (Inr r, s')"
  shows "\<exists>ca issuer key profile q san res s2.
    issued V inp s ca issuer key profile q san res (ir_certificate r) s2 \<and>
    certificates s' = certificates s2 \<and> cas s' = cas s2"
proof -
  let ?E = "sv_env V" and ?K = "sv_crypto V"
  obtain ca s1 where ca: "GetCAByRef ?E (in_ca inp) s = (Inr ca, s1)"
    using assms unfolding Issue_def Let_def by (auto split: attempt_splits if_splits prod.splits)
  note s1 = GetCAByRef_Inr [OF ca]
  have can: "checkCanIssue (now ?E s1) ca = None"
    using assms ca unfolding Issue_def Let_def by (auto split: option.splits)
  from assms ca can obtain issuer key profile where
    issuer: "ParseCertPEM ?K (ca_cert_pem ca) = Inr issuer" and
    profile: "ParseProfile (in_profile inp) = Inr profile" "profile = ProfileIntermCA \<longrightarrow> in_allow_subordinate_ca inp" and
    k1: "issue_request V inp s1 (issue_sign V inp ca issuer key profile s1) = (Inr r, s')"
    unfolding Issue_def Let_def by (auto dest!: pki_InrD decryptKey_InrD split: if_splits)
  from issue_request_InrD [OF k1] obtain q csr_pem gen_key kt where
    q: "issue_mode inp = ''csr'' \<longrightarrow> ParseCSR ?K (in_csr_pem inp) = Inr q" and
    k2: "issue_sign V inp ca issuer key profile s1 (q, csr_pem, gen_key, kt) = (Inr r, s')"
    by blast
  from issue_sign_InrD [OF k2] s1 can issuer profile q show ?thesis
    unfolding issued_def Let_def by metis
qed

lemma cert_insertable_of_create:
  "CreateCertificate E c s = (Inr r, s') \<Longrightarrow> cert_insertable (new_certificate E s c) s"
  by (auto simp: CreateCertificate_def exec_insert_def run_def Let_def cert_insertable_def split: if_splits)

text \<open>What a stored certificate has to do with the authority and with the request.\<close>

definition sound_issue :: "service \<Rightarrow> IssueInput \<Rightarrow> db \<Rightarrow> Certificate \<Rightarrow> CA \<Rightarrow> x509 \<Rightarrow> bool" where
  "sound_issue V inp s c ca issuer \<longleftrightarrow>
     ca \<in> set (rows (cas s)) \<and> HasKey ca \<and> ca_status ca = CAActive \<and>
     \<not> ca_Expired (now (sv_env V) (s\<lparr>tick := Suc (tick s)\<rparr>)) ca \<and>
     ParseCertPEM (sv_crypto V) (ca_cert_pem ca) = Inr issuer \<and> x_is_ca issuer \<and>
     c_ca_id c = ca_id ca \<and> c_status c = CertActive \<and> c_not_after c \<le> x_not_after issuer \<and>
     c_requested_by c = in_actor inp \<and>
     (c_profile c = profile_name ProfileIntermCA \<longrightarrow> in_allow_subordinate_ca inp) \<and>
     c_serial_hex c \<notin> c_serial_hex ` {x \<in> set (rows (certificates s)). c_ca_id x = ca_id ca}"

text \<open>The subject is that of the request unless it is replaced as a whole; without names that replace them, the
  certificate is for the names of the request. A server certificate whose request has no names takes its common name,
  when that is a name.\<close>

definition from_request :: "service \<Rightarrow> IssueInput \<Rightarrow> Certificate \<Rightarrow> csr \<Rightarrow> bool" where
  "from_request V inp c q \<longleftrightarrow>
     ParseCSR (sv_crypto V) (in_csr_pem inp) = Inr q \<and>
     (let name = (if trim_space (CommonName (in_subject inp)) = [] then q_subject q else PKIX (in_subject inp)) in
        c_common_name c = pn_cn name \<and> c_subject c = DNString name) \<and>
     (in_sans inp = [] \<longrightarrow> c_sans c = Strings
        (if Empty (q_sans q) \<and> c_common_name c \<noteq> [] \<and>
            c_profile c \<in> {profile_name ProfileServer, profile_name ProfileServerCli}
         then (case ParseSANs (uri_parse (sv_crypto V)) [c_common_name c] of Inl _ \<Rightarrow> q_sans q | Inr promoted \<Rightarrow> promoted)
         else q_sans q))"

lemma profile_name_cases: "profile_name p = profile_name ProfileIntermCA \<longleftrightarrow> p = ProfileIntermCA"
  by (cases p) auto

lemma profile_name_server:
  "profile_name p \<in> {profile_name ProfileServer, profile_name ProfileServerCli} \<longleftrightarrow> p = ProfileServer \<or> p = ProfileServerCli"
  by (cases p) auto

lemma profile_name_trim: "trim_space (profile_name p) \<noteq> []"
proof -
  have "\<forall>p \<in> set [ProfileServer, ProfileClient, ProfileServerCli, ProfileCodeSign, ProfileEmail, ProfileIntermCA].
    trim_space (profile_name p) \<noteq> []" by code_simp
  then show ?thesis by (cases p) simp_all
qed

lemma Issue_facts:
  assumes "Issue V inp s = (Inr r, s')" and "creates_what_it_is_given (sv_crypto V)"
    and "wf_table c_id (certificates s)"
  obtains ca issuer where "sound_issue V inp s (ir_certificate r) ca issuer"
    and "rows (certificates s') = rows (certificates s) @ [ir_certificate r]" and "cas s' = cas s"
    and "c_id (ir_certificate r) = next_id (certificates s)"
    and "issue_mode inp = ''csr'' \<Longrightarrow> \<exists>q. from_request V inp (ir_certificate r) q"
proof -
  let ?E = "sv_env V" and ?K = "sv_crypto V" and ?c = "ir_certificate r" and ?s1 = "s\<lparr>tick := Suc (tick s)\<rparr>"
  obtain ca issuer key profile q san res s2 where i: "issued V inp s ca issuer key profile q san res ?c s2"
    and s': "certificates s' = certificates s2" "cas s' = cas s2"
    using Issue_InrD [OF assms(1)] by blast
  let ?p = "issue_params V inp issuer key profile q san"
  from i obtain kt key_enc csr_pem where sign: "Sign ?K (now ?E ?s1) (tick ?s1) ?p = Inr res" and
    create: "CreateCertificate ?E (issue_record inp ca profile res kt key_enc csr_pem) ?s1 = (Inr ?c, s2)"
    by (auto simp: issued_def Let_def)
  have wf: "wf_table c_id (certificates ?s1)" using assms(3) by simp
  note stored = CreateCertificate_Inr [OF create wf]
  obtain serial where content: "same_content (sign_template ?K (now ?E ?s1) ?p serial) (q_pub q) (sr_certificate res)"
    by (rule Sign_content [OF sign assms(2)]) (simp add: issue_params_def)
  have c: "c_profile ?c = profile_name profile" "c_ca_id ?c = ca_id ca" "c_status ?c = CertActive"
    "c_requested_by ?c = in_actor inp" "c_not_after ?c = x_not_after (sr_certificate res)"
    "c_common_name ?c = pn_cn (x_subject (sr_certificate res))" "c_subject ?c = DNString (x_subject (sr_certificate res))"
    "c_sans ?c = Strings (x_sans (sr_certificate res))" "c_id ?c = next_id (certificates s)"
    using stored by (simp_all add: new_certificate_def issue_record_def Let_def profile_name_trim)
  have fresh: "c_serial_hex ?c \<notin> c_serial_hex ` {x \<in> set (rows (certificates s)). c_ca_id x = ca_id ca}"
    using cert_insertable_of_create [OF create] stored
    by (auto simp: cert_insertable_def new_certificate_def issue_record_def Let_def)
  have span: "x_is_ca issuer" "c_not_after ?c \<le> x_not_after issuer"
    using Sign_InrD [OF sign] content c(5) by (auto simp: same_content_def sign_template_def Let_def issue_params_def)
  have auth: "ca \<in> set (rows (cas s))" "HasKey ca" "ca_status ca = CAActive" "\<not> ca_Expired (now ?E ?s1) ca"
    "ParseCertPEM ?K (ca_cert_pem ca) = Inr issuer" "profile = ProfileIntermCA \<longrightarrow> in_allow_subordinate_ca inp"
    using i unfolding issued_def Let_def checkCanIssue_def by (simp_all split: if_splits)
  have "sound_issue V inp s ?c ca issuer"
    unfolding sound_issue_def using auth span fresh c(1-4) profile_name_cases [of profile] by simp
  moreover have "from_request V inp ?c q" if mode: "issue_mode inp = ''csr''"
  proof -
    have q: "ParseCSR ?K (in_csr_pem inp) = Inr q" "in_sans inp = [] \<longrightarrow> san = None"
      using i mode unfolding issued_def Let_def by simp_all
    have x: "x_subject (sr_certificate res) = sign_subject ?p" "x_sans (sr_certificate res) = sign_sans ?K ?p"
      using content by (simp_all add: same_content_def sign_template_def Let_def)
    show ?thesis
      unfolding from_request_def c(1,6-8) x profile_name_server using q mode
      by (auto simp: sign_subject_def sign_sans_def sign_profile_def issue_params_def Let_def)
  qed
  ultimately show thesis using that stored s' c by auto
qed

text \<open>C26 (ca/service.go, Issue): a successful issuance adds exactly one certificate to the inventory, the one it
  returns. Its authority exists, holds its key, is active and has not expired; the certificate is valid,
  recorded for the actor, does not outlive the certificate of the authority, has a serial number no other
  certificate of the authority has, and is a subordinate authority only when that was allowed. With a
  request its subject is that of the request unless one with a common name replaces it, and where no names replace
  them its names are those of the request; a server certificate for a request without names takes its common name
  when that parses as a name. The authorities do not change.\<close>

theorem Issue_sound:
  assumes "Issue V inp s = (Inr r, s')" and "creates_what_it_is_given (sv_crypto V)"
    and "wf_table c_id (certificates s)"
  shows "(\<exists>ca issuer. sound_issue V inp s (ir_certificate r) ca issuer) \<and>
    rows (certificates s') = rows (certificates s) @ [ir_certificate r] \<and> cas s' = cas s \<and>
    (issue_mode inp = ''csr'' \<longrightarrow> (\<exists>q. from_request V inp (ir_certificate r) q))"
  by (rule Issue_facts [OF assms]) blast

definition demo_issue :: IssueInput where
  "demo_issue = \<lparr>in_ca = [], in_mode = [], in_subject = \<lparr>CommonName = [], Organization = [], OrganizationalUnit = [],
     Country = [], Province = [], Locality = [], StreetAddress = [], PostalCode = [], EmailAddress = []\<rparr>,
     in_sans = [], in_key_type = [], in_profile = [], in_days = 90, in_csr_pem = ''CERTIFICATE REQUEST|req'',
     in_key_pem = [], in_store_key = None, in_note = [], in_actor = ''bob'', in_allow_subordinate_ca = False\<rparr>"

theorem Issue_sound_witness:
  "\<exists>r s'. Issue demo_V demo_issue (demo_db []) = (Inr r, s') \<and> rows (certificates s') = [ir_certificate r]"
proof -
  have "case Issue demo_V demo_issue (demo_db []) of (Inr r, s') \<Rightarrow> True | _ \<Rightarrow> False" by code_simp
  then obtain r s' where ok: "Issue demo_V demo_issue (demo_db []) = (Inr r, s')" by (auto split: sum.splits)
  have "wf_table c_id (certificates (demo_db []))" by code_simp
  moreover have "rows (certificates (demo_db [])) = []" by code_simp
  ultimately show ?thesis
    using Issue_sound [OF ok] demo_crypto_law ok by (simp add: demo_service_def)
qed


section \<open>Revocation lists\<close>

lemma crl_entries_Inr:
  "crl_entries t rs = Inr es \<Longrightarrow>
     map (\<lambda>e. (Some (le_serial e), le_reason e)) es = map (\<lambda>r. (SerialFromHex (re_serial_hex r), re_reason r)) rs"
  by (induction rs arbitrary: es) (auto split: option.splits sum.splits)

lemma CreateCRL_InrD:
  assumes "CreateCRL K t n issuer key number days revoked = Inr (der, pem)"
  obtains l where "create_crl K n l issuer key = Some der" "l_number l = number"
    "map (\<lambda>e. (Some (le_serial e), le_reason e)) (l_entries l) =
       map (\<lambda>r. (SerialFromHex (re_serial_hex r), re_reason r)) revoked"
  using assms crl_entries_Inr [of t revoked] unfolding CreateCRL_def Let_def
  by (auto split: if_splits sum.splits option.splits)

lemma NextCRLNumber_Inr:
  assumes "NextCRLNumber E i s = (Inr n, s')"
  shows "\<exists>c. find (\<lambda>c. ca_id c = i) (rows (cas s)) = Some c \<and> n = ca_crl_number c + 1 \<and>
    map_option ca_crl_number (find (\<lambda>c. ca_id c = i) (rows (cas s'))) = Some n"
  using run_Inr [OF assms [unfolded NextCRLNumber_def]]
  by (auto simp: find_update_where split: option.splits dest: find_SomeD)

text \<open>The revoked certificates and the retired subordinates of an authority, as serial number and reason.\<close>

definition revoked_under :: "nat \<Rightarrow> db \<Rightarrow> (int option \<times> int) multiset" where
  "revoked_under i s =
     image_mset (\<lambda>c. (SerialFromHex (c_serial_hex c), c_revoke_code c))
       (mset (filter (\<lambda>c. c_ca_id c = i \<and> c_status c = CertRevoked) (rows (certificates s)))) +
     image_mset (\<lambda>r. (SerialFromHex (rv_serial_hex r), rv_reason r))
       (mset (filter (\<lambda>r. rv_ca_id r = i) (ca_revocations s)))"

lemma listed_entries:
  "mset (map (\<lambda>r. (SerialFromHex (re_serial_hex r), re_reason r))
     (map (cert_entry t) (sort_key k (filter (\<lambda>c. c_ca_id c = i \<and> c_status c = CertRevoked) (rows (certificates s)))) @
      map ca_entry (sort_key k' (filter (\<lambda>r. rv_ca_id r = i) (ca_revocations s))))) = revoked_under i s"
  by (simp add: revoked_under_def cert_entry_def ca_entry_def multiset.map_comp comp_def)

text \<open>C31 (ca/service.go, GenerateCRL; pki/crl.go, CreateCRL; store.go, NextCRLNumber): a list names every revoked
  certificate of the authority, holds included, and every subordinate it retired, each once with its serial number and
  reason, and nothing else. Its number is one more than that of the list before and is the one stored.\<close>

theorem GenerateCRL_complete:
  assumes "GenerateCRL V i actor s = (Inr (der, pem), s')"
  shows "\<exists>ca l issuer key n. find (\<lambda>c. ca_id c = i) (rows (cas s)) = Some ca \<and>
    ParseCertPEM (sv_crypto V) (ca_cert_pem ca) = Inr issuer \<and>
    create_crl (sv_crypto V) n l issuer key = Some der \<and>
    mset (map (\<lambda>e. (Some (le_serial e), le_reason e)) (l_entries l)) = revoked_under i s \<and>
    l_number l = ca_crl_number ca + 1 \<and>
    map_option ca_crl_number (find (\<lambda>c. ca_id c = i) (rows (cas s'))) = Some (l_number l)"
proof -
  let ?E = "sv_env V" and ?K = "sv_crypto V"
  from assms obtain ca s1 where ca: "GetCA ?E i s = (Inr ca, s1)"
    unfolding GenerateCRL_def Let_def by (auto dest!: stmt_InrD)
  have s1: "s1 = s\<lparr>tick := Suc (tick s)\<rparr>" and found: "find (\<lambda>c. ca_id c = i) (rows (cas s)) = Some ca"
    using query_row_Inr [OF ca [unfolded GetCA_def]] by (auto simp: select_one_def split: option.splits)
  from assms ca obtain issuer key rs s2 rv s3 number s4 where
    issuer: "ParseCertPEM ?K (ca_cert_pem ca) = Inr issuer" and
    rs: "RevokedCertificates ?E i s1 = (Inr rs, s2)" and
    rv: "CARevocations ?E i s2 = (Inr rv, s3)" and
    number: "NextCRLNumber ?E i s3 = (Inr number, s4)" and
    crl: "CreateCRL ?K (now ?E s4) (tick s4) issuer key number (crl_days (sv_cfg V))
            (map (cert_entry (now ?E s2)) rs @ map ca_entry rv) = Inr (der, pem)" and
    s': "cas s' = cas s4"
    unfolding GenerateCRL_def Let_def
    by (auto dest!: stmt_InrD pki_InrD decryptKey_InrD split: if_splits
        simp: cas_kept.acc_audit [OF cas_kept.refl])
  have s2: "s2 = s1\<lparr>tick := Suc (tick s1)\<rparr>"
    and rs': "rs = sort_key revoked_key (filter (\<lambda>c. c_ca_id c = i \<and> c_status c = CertRevoked) (rows (certificates s)))"
    using query_row_Inr [OF rs [unfolded RevokedCertificates_def]] s1 by auto
  have s3: "cas s3 = cas s"
    and rv': "rv = sort_key rv_revoked_at (filter (\<lambda>r. rv_ca_id r = i) (ca_revocations s))"
    using query_row_Inr [OF rv [unfolded CARevocations_def]] s2 s1 by auto
  obtain l where l: "create_crl ?K (tick s4) l issuer key = Some der" "l_number l = number"
    "map (\<lambda>e. (Some (le_serial e), le_reason e)) (l_entries l) =
       map (\<lambda>r. (SerialFromHex (re_serial_hex r), re_reason r)) (map (cert_entry (now ?E s2)) rs @ map ca_entry rv)"
    by (rule CreateCRL_InrD [OF crl])
  have "mset (map (\<lambda>e. (Some (le_serial e), le_reason e)) (l_entries l)) = revoked_under i s"
    unfolding l(3) rs' rv' by (rule listed_entries)
  moreover have "number = ca_crl_number ca + 1"
    "map_option ca_crl_number (find (\<lambda>c. ca_id c = i) (rows (cas s'))) = Some number"
    using NextCRLNumber_Inr [OF number] s3 s' found by auto
  ultimately show ?thesis
    using found issuer l(1,2)
    by (intro exI [of _ ca] exI [of _ l] exI [of _ issuer] exI [of _ key] exI [of _ "tick s4"]) simp
qed

theorem GenerateCRL_complete_witness:
  "\<exists>der pem s' n l issuer key.
     GenerateCRL demo_V 1 ''bob'' (demo_db [demo_cert 1 1 CertRevoked 1]) = (Inr (der, pem), s') \<and>
     create_crl (sv_crypto demo_V) n l issuer key = Some der \<and> l_number l = 1 \<and>
     mset (map (\<lambda>e. (Some (le_serial e), le_reason e)) (l_entries l)) = {#(Some 17, 1)#}"
proof -
  let ?s = "demo_db [demo_cert 1 1 CertRevoked 1]"
  have "case GenerateCRL demo_V 1 ''bob'' ?s of (Inr (der, pem), s') \<Rightarrow> True | _ \<Rightarrow> False" by code_simp
  then obtain der pem s' where ok: "GenerateCRL demo_V 1 ''bob'' ?s = (Inr (der, pem), s')"
    by (auto split: sum.splits prod.splits)
  have "revoked_under 1 ?s = {#(Some 17, 1)#}" by code_simp
  moreover have "find (\<lambda>c. ca_id c = 1) (rows (cas ?s)) = Some (demo_ca 1 None)"
    by (simp add: demo_db_def demo_ca_def)
  moreover have "ca_crl_number (demo_ca 1 None) = 0" by (simp add: demo_ca_def)
  ultimately show ?thesis using GenerateCRL_complete [OF ok] ok by fastforce
qed


section \<open>Hold and release\<close>

lemma no_fault_run: "(\<And>n. \<not> fault E n) \<Longrightarrow> run E f s = f (s\<lparr>tick := Suc (tick s)\<rparr>)"
  by (simp add: run_no_fault)

lemma update_where_cancel:
  assumes "\<And>r. r \<in> set rs \<Longrightarrow> p r \<Longrightarrow> q (f r) \<and> g (f r) = r" and "\<And>r. r \<in> set rs \<Longrightarrow> \<not> p r \<Longrightarrow> \<not> q r"
  shows "update_where q g (update_where p f rs) = rs"
  using assms by (induction rs) (auto simp: update_where_def)

text \<open>(ca/lifecycle.go, Hold and Release): a valid certificate that is put on hold can be released, by anyone the
  portal lets do so, and the release restores the inventory: no trace of the hold is left in it.\<close>

theorem Release_after_Hold:
  assumes "\<And>n. \<not> fault (sv_env V) n" and "wf_table c_id (certificates s)"
    and "\<And>c. c \<in> set (rows (certificates s)) \<Longrightarrow> c_id c = i \<Longrightarrow> c_revoked_at c = None \<and> c_revoke_code c = 0"
    and "Hold V i actor s = (Inr (), t)"
  shows "\<exists>u. Release V i actor' t = (Inr (), u) \<and> certificates u = certificates s"
proof -
  let ?E = "sv_env V" and ?held = "\<lambda>at c. c\<lparr>c_status := CertRevoked, c_revoked_at := Some at, c_revoke_code := 6\<rparr>"
  let ?p = "\<lambda>c. c_id c = i \<and> c_status c \<noteq> CertRevoked"
  from assms(4) obtain c s1 s2 where get: "GetCertificate ?E i s = (Inr c, s1)" and act: "c_status c \<noteq> CertRevoked"
    and rev: "RevokeCertificate ?E i 6 s1 = (Inr (), s2)" and t: "certificates t = certificates s2"
    unfolding Hold_def by (auto dest!: stmt_InrD split: if_splits simp: certs_kept.acc_audit [OF certs_kept.refl])
  have s1: "s1 = s\<lparr>tick := Suc (tick s)\<rparr>" and c: "find (\<lambda>c. c_id c = i) (rows (certificates s)) = Some c"
    using query_row_Inr [OF get [unfolded GetCertificate_def]] by (auto simp: select_one_def split: option.splits)
  have s2: "certificates t = update_rows ?p (?held (now ?E s1)) (certificates s)"
    using rev t s1 by (auto simp: RevokeCertificate_def set_certs_def stmt_defs assms(1) split: if_splits)
  have held: "find (\<lambda>c. c_id c = i) (rows (certificates t)) = Some (?held (now ?E s1) c)"
    using c act find_SomeD [OF c] by (simp add: s2 find_update_where)
  let ?undo = "\<lambda>c. c\<lparr>c_status := CertActive, c_revoked_at := None, c_revoke_code := 0\<rparr>"
  have only: "x = c" if "x \<in> set (rows (certificates s))" "c_id x = i" for x
    using certs_t.find_eq_iff [OF assms(2), of i x] c that by simp
  have "update_where (\<lambda>c. c_id c = i) ?undo (rows (certificates t)) = rows (certificates s)"
    unfolding s2 rows_update_rows
  proof (rule update_where_cancel)
    fix x assume x: "x \<in> set (rows (certificates s))"
    show "c_id (?held (now ?E s1) x) = i \<and> ?undo (?held (now ?E s1) x) = x" if "?p x"
      using that assms(3) [OF x] by (cases "c_status x") auto
    show "\<not> c_id x = i" if "\<not> ?p x" using that only [OF x] act by auto
  qed
  then have restored: "update_rows (\<lambda>c. c_id c = i) ?undo (certificates t) = certificates s"
    by (simp add: update_rows_def s2)
  have "Release V i actor' t =
     (Inr (), audit V actor' ''cert.release'' (c_common_name c) (''serial='' @ c_serial_hex c)
        (set_certs (\<lambda>c. c_id c = i) ?undo (t\<lparr>tick := Suc (Suc (Suc (tick t)))\<rparr>)))"
    using held
    by (simp add: Release_def UnrevokeCertificate_def GetCertificate_def query_row_def exec_def select_one_def
        no_fault_run [OF assms(1)])
  then show ?thesis using restored certs_kept.acc_audit [OF certs_kept.refl] by (simp add: set_certs_def)
qed

theorem Release_after_Hold_witness:
  "\<exists>t u. Hold demo_V 1 ''bob'' (demo_db [demo_cert 1 1 CertActive 0]) = (Inr (), t) \<and>
     Release demo_V 1 ''eve'' t = (Inr (), u) \<and>
     certificates u = certificates (demo_db [demo_cert 1 1 CertActive 0])"
proof -
  let ?s = "demo_db [demo_cert 1 1 CertActive 0]"
  have "case Hold demo_V 1 ''bob'' ?s of (Inr (), t) \<Rightarrow> True | _ \<Rightarrow> False" by code_simp
  then obtain t where ok: "Hold demo_V 1 ''bob'' ?s = (Inr (), t)" by (auto split: sum.splits)
  have "\<exists>u. Release demo_V 1 ''eve'' t = (Inr (), u) \<and> certificates u = certificates ?s"
  proof (rule Release_after_Hold [OF _ _ _ ok])
    show "\<not> fault (sv_env demo_V) n" for n by (simp add: demo_service_def demo_env_def)
    show "wf_table c_id (certificates ?s)" by code_simp
  qed (auto simp: demo_db_def demo_cert_def)
  with ok show ?thesis by blast
qed


section \<open>Slugs\<close>

abbreviation not_both_hyphens :: "char \<Rightarrow> char \<Rightarrow> bool" where
  "not_both_hyphens a b \<equiv> \<not> (a = CHR ''-'' \<and> b = CHR ''-'')"

lemma hyphen_not_slug: "\<not> slug_char CHR ''-''"
  by (simp add: slug_char_def is_digit_def)

lemma slug_runs_chars: "c \<in> set (slug_runs b s) \<Longrightarrow> slug_char c \<or> c = CHR ''-''"
  by (induction b s rule: slug_runs.induct) (auto split: if_splits)

lemma slug_runs_hyphens:
  "successively not_both_hyphens (slug_runs b s) \<and> (b \<longrightarrow> slug_runs b s = [] \<or> hd (slug_runs b s) \<noteq> CHR ''-'')"
  by (induction b s rule: slug_runs.induct) (auto simp: successively_Cons hyphen_not_slug)

lemma successively_suffix: "successively P (xs @ ys) \<Longrightarrow> successively P ys"
  by (simp add: successively_append_iff)

lemma successively_prefix: "successively P (xs @ ys) \<Longrightarrow> successively P xs"
  by (simp add: successively_append_iff)

lemma successively_dropWhile: "successively P xs \<Longrightarrow> successively P (dropWhile q xs)"
  using successively_suffix [of P "takeWhile q xs" "dropWhile q xs"] by simp

lemma successively_take: "successively P xs \<Longrightarrow> successively P (take n xs)"
  using successively_prefix [of P "take n xs" "drop n xs"] by simp

lemma successively_hyphens_rev: "successively not_both_hyphens (rev xs) = successively not_both_hyphens xs"
  unfolding successively_rev by (rule arg_cong [of _ _ "\<lambda>P. successively P xs"]) auto

lemma trim_hyphens_hyphens: "successively not_both_hyphens s \<Longrightarrow> successively not_both_hyphens (trim_hyphens s)"
  unfolding trim_hyphens_def successively_hyphens_rev
  by (intro successively_dropWhile) (simp only: successively_hyphens_rev successively_dropWhile)

lemma trim_hyphens_hd: "trim_hyphens s \<noteq> [] \<Longrightarrow> hd (trim_hyphens s) \<noteq> CHR ''-''"
proof -
  let ?d = "dropWhile (\<lambda>c. c = CHR ''-'') s" and ?h = "\<lambda>c. c = CHR ''-''"
  assume ne: "trim_hyphens s \<noteq> []"
  have "trim_hyphens s @ rev (takeWhile ?h (rev ?d)) = ?d"
    unfolding trim_hyphens_def rev_append [symmetric] takeWhile_dropWhile_id by simp
  then have d: "hd ?d = hd (trim_hyphens s)" "?d \<noteq> []"
    using ne hd_append2 [OF ne, of "rev (takeWhile ?h (rev ?d))"] by (simp, metis append_is_Nil_conv)
  show ?thesis using hd_dropWhile [OF d(2)] d(1) by simp
qed

lemma set_trim_hyphens: "set (trim_hyphens s) \<subseteq> set s"
  unfolding trim_hyphens_def by (auto dest!: set_dropWhileD)

text \<open>(ca/service.go, Slugify): the slug of a name of any length and content can stand in a URL and in a file
  name: it is not empty, has at most 60 characters, all of them a-z, 0-9 or a hyphen, does not start with a hyphen and
  has no two hyphens in a row.\<close>

theorem Slugify_safe:
  "Slugify s \<noteq> [] \<and> length (Slugify s) \<le> 60 \<and>
   list_all (\<lambda>c. slug_char c \<or> c = CHR ''-'') (Slugify s) \<and>
   hd (Slugify s) \<noteq> CHR ''-'' \<and> successively not_both_hyphens (Slugify s)"
proof -
  let ?t = "trim_hyphens (slug_runs False (to_lower (trim_space s)))"
  have "set ?t \<subseteq> {c. slug_char c \<or> c = CHR ''-''}" using set_trim_hyphens slug_runs_chars by fastforce
  moreover have "successively not_both_hyphens ?t" using trim_hyphens_hyphens slug_runs_hyphens by blast
  moreover have "slug_char CHR ''c''" "slug_char CHR ''a''" by (simp_all add: slug_char_def)
  ultimately show ?thesis
    using trim_hyphens_hd [of "slug_runs False (to_lower (trim_space s))"]
    by (auto simp: Slugify_def Let_def list_all_iff successively_take dest: in_set_takeD)
qed

lemma try_slugs_free:
  assumes "try_slugs E base is slug s = (r, s')"
  shows "(\<forall>c \<in> set (rows (cas s)). ca_slug c \<noteq> r) \<or> r = base @ ''-'' @ string_of_int (now E s')"
  using assms
proof (induction E base "is" slug s rule: try_slugs.induct)
  case (2 E base i "is" slug s)
  obtain x s1 where q: "GetCABySlug E slug s = (x, s1)" by (cases "GetCABySlug E slug s")
  have s1: "s1 = s\<lparr>tick := Suc (tick s)\<rparr>"
    using q query_row_state [of E "\<lambda>s. select_one (\<lambda>c. ca_slug c = slug) (rows (cas s))" s] by (simp add: GetCABySlug_def)
  show ?case
  proof (cases "x = Inl ErrNotFound")
    case True
    then have "r = slug" "s' = s1" using "2.prems" q by auto
    moreover have "\<forall>c \<in> set (rows (cas s)). ca_slug c \<noteq> slug"
      using q True by (auto simp: GetCABySlug_def stmt_defs dest: select_one_Inl split: if_splits)
    ultimately show ?thesis by blast
  next
    case False
    then have rest: "try_slugs E base is (base @ ''-'' @ string_of_nat i) s1 = (r, s')"
      using "2.prems" q by (auto split: sum.splits db_error.splits)
    have "(\<forall>c \<in> set (rows (cas s1)). ca_slug c \<noteq> r) \<or> r = base @ ''-'' @ string_of_int (now E s')"
      using False "2.IH" q rest by (cases x; cases "projl x") auto
    then show ?thesis using s1 by simp
  qed
qed auto

end
