(* ===== verification/Acme_Service.thy ===== *)
theory Acme_Service
  imports Acme_Jws Ca_Issue
begin

text \<open>
  \<open>internal/acme/service.go\<close>: the handlers of the ACME server (RFC 8555) on top of the certificate
  service. Each takes the body of a request and the state of the database and returns a problem document or
  its result, with the state it leaves.

  Problems carry their type and status; their texts and the metrics are left out. The problem stored with an
  order (\<open>mustJSON\<close>) is the value itself.
\<close>

record NewAccountRequest =
  na_contact :: "string list option"
  na_terms_of_service_agreed :: bool
  na_only_return_existing :: bool
  na_external_account_binding :: string

record UpdateAccountRequest =
  ua_contact :: "string list option"
  ua_status :: string

record NewOrderRequest =
  no_identifiers :: "AcmeIdentifier list"
  no_not_before :: string
  no_not_after :: string

record FinalizeRequest =
  fr_csr :: string

record RevokeCertRequest =
  rr_certificate :: string
  rr_reason :: "int option"

record codec =
  un_new_account :: "string \<Rightarrow> NewAccountRequest option"
  un_update_account :: "string \<Rightarrow> UpdateAccountRequest option"
  un_new_order :: "string \<Rightarrow> NewOrderRequest option"
  un_finalize :: "string \<Rightarrow> FinalizeRequest option"
  un_revoke :: "string \<Rightarrow> RevokeCertRequest option"
  parse_time :: "string \<Rightarrow> int option"
  format_time :: "int \<Rightarrow> string"
  hier_ok :: "string \<Rightarrow> bool"
  eab_text :: "eab_error \<Rightarrow> string"

record acme_service =
  am_ca :: service
  am_jose :: jose
  am_codec :: codec

abbreviation am_env :: "acme_service \<Rightarrow> env" where
  "am_env M \<equiv> sv_env (am_ca M)"

type_synonym 'a acme = "(Problem, 'a, db) outcome"


section \<open>Early returns\<close>

definition demand :: "('e, 'a, db) outcome \<Rightarrow> Problem \<Rightarrow> ('a \<Rightarrow> db \<Rightarrow> 'b acme) \<Rightarrow> 'b acme" where
  "demand r p k = attempt r (\<lambda>_ s. (Inl p, s)) k"

definition expect :: "'a option \<Rightarrow> Problem \<Rightarrow> db \<Rightarrow> ('a \<Rightarrow> 'b acme) \<Rightarrow> 'b acme" where
  "expect r p s k = (case r of None \<Rightarrow> (Inl p, s) | Some x \<Rightarrow> k x)"

definition pass :: "'a acme \<Rightarrow> ('a \<Rightarrow> db \<Rightarrow> 'b acme) \<Rightarrow> 'b acme" where
  "pass r k = attempt r (\<lambda>p s. (Inl p, s)) k"

definition refuse_if :: "bool \<Rightarrow> Problem \<Rightarrow> db \<Rightarrow> 'b acme \<Rightarrow> 'b acme" where
  "refuse_if b p s k = (if b then (Inl p, s) else k)"

lemma demand_simps [simp]: "demand (Inl e, s) p k = (Inl p, s)" "demand (Inr x, s) p k = k x s"
  by (simp_all add: demand_def)

lemma expect_simps [simp]: "expect None p s k = (Inl p, s)" "expect (Some x) p s k = k x"
  by (simp_all add: expect_def)

lemma pass_simps [simp]: "pass (Inl p, s) k = (Inl p, s)" "pass (Inr x, s) k = k x s"
  by (simp_all add: pass_def)

lemma refuse_if_simps [simp]: "refuse_if True p s k = (Inl p, s)" "refuse_if False p s k = k"
  by (simp_all add: refuse_if_def)

lemma demand_InrD: "demand r p k = (Inr y, s') \<Longrightarrow> \<exists>x s1. r = (Inr x, s1) \<and> k x s1 = (Inr y, s')"
  by (cases r; cases "fst r") auto

lemma expect_InrD: "expect r p s k = (Inr y, s') \<Longrightarrow> \<exists>x. r = Some x \<and> k x = (Inr y, s')"
  by (cases r) auto

lemma pass_InrD: "pass r k = (Inr y, s') \<Longrightarrow> \<exists>x s1. r = (Inr x, s1) \<and> k x s1 = (Inr y, s')"
  by (cases r; cases "fst r") auto

lemma refuse_if_InrD: "refuse_if b p s k = (Inr y, s') \<Longrightarrow> \<not> b \<and> k = (Inr y, s')"
  by (cases b) auto

lemmas acme_InrD = demand_InrD expect_InrD pass_InrD refuse_if_InrD

definition ok :: "'e + 'a \<Rightarrow> 'a option" where
  "ok r = (case r of Inl _ \<Rightarrow> None | Inr x \<Rightarrow> Some x)"

lemma ok_simps [simp]: "ok (Inl e) = None" "ok (Inr x) = Some x"
  by (simp_all add: ok_def)

lemma ok_eq_Some [simp]: "ok r = Some x \<longleftrightarrow> r = Inr x"
  by (cases r) auto


section \<open>URLs\<close>

definition acmeBase :: "acme_service \<Rightarrow> string" where
  "acmeBase M = rev (dropWhile (\<lambda>c. c = CHR ''/'') (rev (base_url (sv_cfg (am_ca M))))) @ ''/acme''"

definition directoryURL :: "acme_service \<Rightarrow> string" where "directoryURL M = acmeBase M @ ''/directory''"
definition newNonceURL :: "acme_service \<Rightarrow> string" where "newNonceURL M = acmeBase M @ ''/new-nonce''"
definition newAccountURL :: "acme_service \<Rightarrow> string" where "newAccountURL M = acmeBase M @ ''/new-account''"
definition newOrderURL :: "acme_service \<Rightarrow> string" where "newOrderURL M = acmeBase M @ ''/new-order''"
definition revokeCertURL :: "acme_service \<Rightarrow> string" where "revokeCertURL M = acmeBase M @ ''/revoke-cert''"

definition accountURL :: "acme_service \<Rightarrow> nat \<Rightarrow> string" where
  "accountURL M i = acmeBase M @ ''/account/'' @ string_of_nat i"

definition accountOrdersURL :: "acme_service \<Rightarrow> nat \<Rightarrow> string" where
  "accountOrdersURL M i = acmeBase M @ ''/account/'' @ string_of_nat i @ ''/orders''"

definition orderURL :: "acme_service \<Rightarrow> nat \<Rightarrow> string" where
  "orderURL M i = acmeBase M @ ''/order/'' @ string_of_nat i"

definition finalizeURL :: "acme_service \<Rightarrow> nat \<Rightarrow> string" where
  "finalizeURL M i = acmeBase M @ ''/order/'' @ string_of_nat i @ ''/finalize''"

definition authzURL :: "acme_service \<Rightarrow> nat \<Rightarrow> string" where
  "authzURL M i = acmeBase M @ ''/authz/'' @ string_of_nat i"

definition challengeURL :: "acme_service \<Rightarrow> nat \<Rightarrow> string" where
  "challengeURL M i = acmeBase M @ ''/challenge/'' @ string_of_nat i"

definition certURL :: "acme_service \<Rightarrow> nat \<Rightarrow> string" where
  "certURL M i = acmeBase M @ ''/cert/'' @ string_of_nat i"

text \<open>The expression \<open>/acme/account/(\d+)$\<close>: the digits at the end of the text and what is before them.\<close>

definition accountURLRe :: "string \<Rightarrow> string option" where
  "accountURLRe kid =
     (let digits = rev (takeWhile is_digit (rev kid)); front = rev (dropWhile is_digit (rev kid)) in
      if digits \<noteq> [] \<and> has_suffix front ''/acme/account/'' then Some digits else None)"

text \<open>\<open>fmt.Sscanf\<close> with \<open>%d\<close> into an \<open>int64\<close>: a number that does not fit leaves the variable at 0.\<close>

definition sscanf_int64 :: "string \<Rightarrow> nat" where
  "sscanf_int64 digits = (if int (nat_of_string digits) < 2 ^ 63 then nat_of_string digits else 0)"

record Directory =
  dr_new_nonce :: string
  dr_new_account :: string
  dr_new_order :: string
  dr_revoke_cert :: string
  dr_external_account_required :: bool
  dr_website :: string

definition acme_Directory :: "acme_service \<Rightarrow> Directory" where
  "acme_Directory M =
     \<lparr>dr_new_nonce = newNonceURL M, dr_new_account = newAccountURL M, dr_new_order = newOrderURL M,
      dr_revoke_cert = revokeCertURL M, dr_external_account_required = True,
      dr_website = base_url (sv_cfg (am_ca M))\<rparr>"


section \<open>Authentication\<close>

definition checkURL :: "ParsedJWS \<Rightarrow> string \<Rightarrow> db \<Rightarrow> 'b acme \<Rightarrow> 'b acme" where
  "checkURL jws want s k = refuse_if (pj_url jws \<noteq> want) Unauthorized s k"

definition checkNonce :: "acme_service \<Rightarrow> ParsedJWS \<Rightarrow> db \<Rightarrow> (db \<Rightarrow> 'b acme) \<Rightarrow> 'b acme" where
  "checkNonce M jws s k =
     (case Consume (am_env M) (pj_nonce jws) s of (redeemed, s) \<Rightarrow> refuse_if (\<not> redeemed) BadNonce s (k s))"

definition ResolveAccount :: "acme_service \<Rightarrow> string \<Rightarrow> db \<Rightarrow> AcmeAccount acme" where
  "ResolveAccount M kid s =
     expect (accountURLRe kid) AccountDoesNotExist s (\<lambda>digits.
     demand (GetAcmeAccount (am_env M) (sscanf_int64 digits) s) AccountDoesNotExist (\<lambda>a s.
     refuse_if (a_status a \<noteq> AcmeStatusValid) Unauthorized s (Inr a, s)))"

definition authenticate :: "acme_service \<Rightarrow> string \<Rightarrow> string \<Rightarrow> db \<Rightarrow> (ParsedJWS \<times> AcmeAccount) acme" where
  "authenticate M body expected s =
     expect (ok (ParseJWS (am_jose M) body)) Malformed s (\<lambda>jws.
     checkURL jws expected s (
     checkNonce M jws s (\<lambda>s.
     refuse_if (pj_key_id jws = []) Malformed s (
     pass (ResolveAccount M (pj_key_id jws) s) (\<lambda>account s.
     expect (jwk_unmarshal (am_jose M) (a_jwk_json account)) ServerInternal s (\<lambda>key.
     expect (Verify (am_jose M) jws key) Malformed s (\<lambda>jws.
     (Inr (jws, account), snd (TouchAcmeAccountUsed (am_env M) (a_id account) s)))))))))"


section \<open>Accounts\<close>

record AccountObject =
  ao_status :: acme_status
  ao_contact :: "string list"
  ao_orders :: string

definition accountObject :: "acme_service \<Rightarrow> AcmeAccount \<Rightarrow> AccountObject" where
  "accountObject M a = \<lparr>ao_status = a_status a, ao_contact = a_contact a, ao_orders = accountOrdersURL M (a_id a)\<rparr>"

text \<open>\<open>%v\<close> of a list.\<close>

definition show_list :: "string list \<Rightarrow> string" where
  "show_list xs = ''['' @ join_with '' '' xs @ '']''"

definition contacts_of :: "string list option \<Rightarrow> string list" where
  "contacts_of c = (case c of None \<Rightarrow> [] | Some cs \<Rightarrow> cs)"

definition lookupHMAC :: "acme_service \<Rightarrow> string \<Rightarrow> db \<Rightarrow> (string \<times> EABCred) option \<times> db" where
  "lookupHMAC M kid s =
     attempt (GetEABCredByKeyID (am_env M) kid s)
       (\<lambda>_ s. (None, s))
       (\<lambda>c s. (map_option (\<lambda>key. (key, c)) (ok (Decrypt (sv_box (am_ca M)) (e_hmac_key_enc c))), s))"

text \<open>The registration of a new key, after its binding was verified.\<close>

definition register ::
  "acme_service \<Rightarrow> ParsedJWS \<Rightarrow> jwk \<Rightarrow> string \<Rightarrow> NewAccountRequest \<Rightarrow> string \<Rightarrow> EABCred \<Rightarrow> db
     \<Rightarrow> (AcmeAccount \<times> AccountObject \<times> bool) acme" where
  "register M jws key thumb req kid cred s =
     (let E = am_env M; V = am_ca M in
      if \<not> Usable (now E s) cred
      then (Inl ExternalAccountRequired, audit V ''acme'' ''acme.account.rejected'' kid
              ''the external account binding key is disabled, expired, or has reached its account limit'' s)
      else
        demand (ReserveEABAccountSlot E (e_id cred) s) ServerInternal (\<lambda>reserved s.
        if \<not> reserved
        then (Inl ExternalAccountRequired, audit V ''acme'' ''acme.account.rejected'' kid
                ''the external account binding key has reached its account limit'' s)
        else (case jwk_marshal (am_jose M) (jwk_public (am_jose M) key) of
          None \<Rightarrow> (Inl ServerInternal, snd (ReleaseEABAccountSlot E (e_id cred) s))
        | Some jwk_json \<Rightarrow>
            attempt (CreateAcmeAccount E
                \<lparr>a_id = 0, a_eab_id = e_id cred, a_jwk_json = jwk_json, a_jwk_thumbprint = thumb,
                 a_contact = contacts_of (na_contact req), a_status = AcmeStatusValid,
                 a_created_at = now E s, a_last_used_at = None\<rparr> s)
              (\<lambda>_ s. (Inl ServerInternal, snd (ReleaseEABAccountSlot E (e_id cred) s)))
              (\<lambda>account s.
                 (Inr (account, accountObject M account, True),
                  audit V (''acme:'' @ e_name cred) ''acme.account.create'' (string_of_nat (a_id account))
                    (''eab='' @ e_name cred @ '' contact='' @ show_list (contacts_of (na_contact req))) s)))))"

definition NewAccount :: "acme_service \<Rightarrow> string \<Rightarrow> db \<Rightarrow> (AcmeAccount \<times> AccountObject \<times> bool) acme" where
  "NewAccount M body s =
     (let E = am_env M; J = am_jose M; V = am_ca M in
      expect (ok (ParseJWS J body)) Malformed s (\<lambda>jws.
      checkURL jws (newAccountURL M) s (
      checkNonce M jws s (\<lambda>s.
      expect (pj_jwk jws) Malformed s (\<lambda>key.
      expect (Verify J jws key) Malformed s (\<lambda>jws.
      expect (DecodePayload (un_new_account (am_codec M))
                \<lparr>na_contact = None, na_terms_of_service_agreed = False, na_only_return_existing = False,
                 na_external_account_binding = []\<rparr> jws) Malformed s (\<lambda>req.
      expect (Thumbprint J key) ServerInternal s (\<lambda>thumb.
      attempt (GetAcmeAccountByThumbprint E thumb s)
        (\<lambda>e s.
           refuse_if (e \<noteq> ErrNotFound) ServerInternal s (
           refuse_if (na_only_return_existing req) AccountDoesNotExist s (
           case validContacts (hier_ok (am_codec M)) (contacts_of (na_contact req)) of
             Some p \<Rightarrow> (Inl p, s)
           | None \<Rightarrow>
               (case VerifyEAB J (na_external_account_binding req) (pj_url jws) key (lookupHMAC M) s of
                  (kid, Inl err, s) \<Rightarrow>
                    (Inl ExternalAccountRequired,
                     audit V ''acme'' ''acme.account.rejected'' kid (eab_text (am_codec M) err) s)
                | (kid, Inr cred, s) \<Rightarrow> register M jws key thumb req kid cred s))))
        (\<lambda>existing s.
           refuse_if (a_status existing \<noteq> AcmeStatusValid) Unauthorized s
             (Inr (existing, accountObject M existing, False),
              snd (TouchAcmeAccountUsed E (a_id existing) s)))))))))))"

definition GetAccount :: "acme_service \<Rightarrow> nat \<Rightarrow> string \<Rightarrow> db \<Rightarrow> AccountObject acme" where
  "GetAccount M i body s =
     (let E = am_env M in
      pass (authenticate M body (accountURL M i) s) (\<lambda>(jws, account) s.
      refuse_if (a_id account \<noteq> i) Unauthorized s (
      if IsPostAsGet jws then (Inr (accountObject M account), s)
      else
        expect (DecodePayload (un_update_account (am_codec M)) \<lparr>ua_contact = None, ua_status = []\<rparr> jws) Malformed s (\<lambda>req.
        refuse_if (ua_status req \<noteq> [] \<and> ua_status req \<noteq> ''deactivated'') Malformed s (
        case validContacts (hier_ok (am_codec M)) (contacts_of (ua_contact req)) of
          Some p \<Rightarrow> (Inl p, s)
        | None \<Rightarrow>
            demand (case ua_contact req of
                      None \<Rightarrow> (Inr (), s)
                    | Some cs \<Rightarrow> SetAcmeAccountContact E (a_id account) cs s) ServerInternal (\<lambda>_ s.
            let account = (case ua_contact req of None \<Rightarrow> account | Some cs \<Rightarrow> account\<lparr>a_contact := cs\<rparr>) in
            if ua_status req = ''deactivated''
            then demand (SetAcmeAccountStatus E (a_id account) AcmeStatusDeactivated s) ServerInternal (\<lambda>_ s.
                   let account = account\<lparr>a_status := AcmeStatusDeactivated\<rparr> in
                   (Inr (accountObject M account),
                    audit (am_ca M) (''acme:account:'' @ string_of_nat (a_id account)) ''acme.account.deactivate''
                      (string_of_nat (a_id account)) [] s))
            else (Inr (accountObject M account), s)))))))"


section \<open>Orders\<close>

definition activeCred :: "acme_service \<Rightarrow> AcmeAccount \<Rightarrow> db \<Rightarrow> EABCred acme" where
  "activeCred M account s =
     demand (GetEABCred (am_env M) (a_eab_id account) s) ServerInternal (\<lambda>cred s.
     if e_disabled cred
     then (Inl Unauthorized,
           audit (am_ca M) (''acme:account:'' @ string_of_nat (a_id account)) ''acme.order.rejected'' (e_name cred)
             ''external account binding credential is disabled'' s)
     else (Inr cred, s))"

text \<open>The loop over the identifiers of a request: the first that is not acceptable ends it.\<close>

fun order_identifiers :: "EABCred \<Rightarrow> AcmeIdentifier list \<Rightarrow> Problem + AcmeIdentifier list" where
  "order_identifiers cred [] = Inr []"
| "order_identifiers cred (i # is) =
     (let typ = to_lower (trim_space (id_type i)); typ = (if typ = [] then ''dns'' else typ);
          val = to_lower (trim_space (id_value i)) in
      if typ \<noteq> ''dns'' then Inl UnsupportedIdentifier
      else if val = [] then Inl Malformed
      else if validDNSIdentifier val \<noteq> None then Inl RejectedIdentifier
      else if \<not> domainAllowed (e_allowed_domains cred) val then Inl RejectedIdentifier
      else (case order_identifiers cred is of
              Inl p \<Rightarrow> Inl p
            | Inr rest \<Rightarrow> Inr (\<lparr>id_type = ''dns'', id_value = val\<rparr> # rest)))"

text \<open>The most days a certificate of the credential may be valid.\<close>

definition max_days :: "acme_service \<Rightarrow> EABCred \<Rightarrow> int" where
  "max_days M cred = (if e_days cred \<le> 0 then default_cert_days (sv_cfg (am_ca M)) else e_days cred)"

definition requestedNotAfter :: "acme_service \<Rightarrow> NewOrderRequest \<Rightarrow> EABCred \<Rightarrow> int \<Rightarrow> Problem + int option" where
  "requestedNotAfter M req cred t =
     (if trim_space (no_not_before req) \<noteq> [] then Inl Malformed
      else if trim_space (no_not_after req) = [] then Inr None
      else (case parse_time (am_codec M) (no_not_after req) of
              None \<Rightarrow> Inl Malformed
            | Some na \<Rightarrow>
                if na \<le> t then Inl Malformed
                else if add_days t (max_days M cred) + 60 < na then Inl Malformed
                else Inr (Some na)))"

record OrderObject =
  oo_status :: acme_status
  oo_expires :: string
  oo_identifiers :: "AcmeIdentifier list"
  oo_error :: "Problem option"
  oo_authorizations :: "string list"
  oo_finalize :: string
  oo_certificate :: string
  oo_not_after :: string

definition OrderObjectFor :: "acme_service \<Rightarrow> AcmeOrder \<Rightarrow> db \<Rightarrow> OrderObject stmt" where
  "OrderObjectFor M x s =
     attempt (ListAcmeAuthorizationsByOrder (am_env M) (o_id x) s) (\<lambda>e s. (Inl e, s)) (\<lambda>authzs s.
     (Inr \<lparr>oo_status = o_status x, oo_expires = format_time (am_codec M) (o_expires_at x),
           oo_identifiers = o_identifiers x, oo_error = o_error x,
           oo_authorizations = map (\<lambda>z. authzURL M (z_id z)) authzs, oo_finalize = finalizeURL M (o_id x),
           oo_certificate = (case o_certificate_id x of None \<Rightarrow> [] | Some c \<Rightarrow> certURL M c),
           oo_not_after = (case o_not_after x of None \<Rightarrow> [] | Some t \<Rightarrow> format_time (am_codec M) t)\<rparr>, s))"

definition orderTTL :: int where "orderTTL = 86400"
definition authzTTL :: int where "authzTTL = 86400"

definition randomToken :: "env \<Rightarrow> db \<Rightarrow> string option" where
  "randomToken E s = map_option RawURLEncode (random_token E (tick s))"

fun create_authorizations :: "acme_service \<Rightarrow> nat \<Rightarrow> int \<Rightarrow> AcmeIdentifier list \<Rightarrow> db \<Rightarrow> unit acme" where
  "create_authorizations M order t [] s = (Inr (), s)"
| "create_authorizations M order t (i # is) s =
     (let E = am_env M in
      demand (CreateAcmeAuthorization E
          \<lparr>z_id = 0, z_order_id = order, z_identifier_type = id_type i, z_identifier_value = id_value i,
           z_wildcard = has_prefix (id_value i) ''*.'', z_status = AcmeStatusValid,
           z_expires_at = t + authzTTL, z_created_at = t\<rparr> s) ServerInternal (\<lambda>authz s.
      expect (randomToken E s) ServerInternal s (\<lambda>token.
      demand (CreateAcmeChallenge E
          \<lparr>h_id = 0, h_authorization_id = z_id authz, h_type = ''http-01'', h_token = token,
           h_status = AcmeStatusValid, h_validated_at = Some t, h_created_at = t\<rparr> s) ServerInternal (\<lambda>_ s.
      create_authorizations M order t is s))))"

definition show_identifiers :: "AcmeIdentifier list \<Rightarrow> string" where
  "show_identifiers is = show_list (map (\<lambda>i. ''{'' @ id_type i @ '' '' @ id_value i @ ''}'') is)"

text \<open>The order, its authorizations and its wire form.\<close>

definition place_order ::
  "acme_service \<Rightarrow> AcmeAccount \<Rightarrow> EABCred \<Rightarrow> NewOrderRequest \<Rightarrow> AcmeIdentifier list \<Rightarrow> int \<Rightarrow> int option \<Rightarrow> db
     \<Rightarrow> (AcmeOrder \<times> OrderObject) acme" where
  "place_order M account cred req idents t not_after s =
     demand (CreateAcmeOrder (am_env M)
         \<lparr>o_id = 0, o_account_id = a_id account, o_status = AcmeStatusReady, o_identifiers = idents,
          o_certificate_id = None, o_error = None, o_expires_at = t + orderTTL, o_created_at = t,
          o_not_after = not_after\<rparr> s) ServerInternal (\<lambda>order s.
     pass (create_authorizations M (o_id order) t idents s) (\<lambda>_ s.
     demand (OrderObjectFor M order s) ServerInternal (\<lambda>obj s.
     (Inr (order, obj),
      audit (am_ca M) (''acme:account:'' @ string_of_nat (a_id account)) ''acme.order.create''
        (string_of_nat (o_id order))
        (''identifiers='' @ show_identifiers (no_identifiers req) @ '' eab='' @ e_name cred) s))))"

definition NewOrder :: "acme_service \<Rightarrow> string \<Rightarrow> db \<Rightarrow> (AcmeOrder \<times> OrderObject) acme" where
  "NewOrder M body s =
     pass (authenticate M body (newOrderURL M) s) (\<lambda>(jws, account) s.
     expect (DecodePayload (un_new_order (am_codec M))
               \<lparr>no_identifiers = [], no_not_before = [], no_not_after = []\<rparr> jws) Malformed s (\<lambda>req.
     refuse_if (no_identifiers req = []) Malformed s (
     pass (activeCred M account s) (\<lambda>cred s.
     pass (order_identifiers cred (no_identifiers req), s) (\<lambda>idents s.
     let t = now (am_env M) s in
     pass (requestedNotAfter M req cred t, s) (\<lambda>not_after s.
     place_order M account cred req idents t not_after s))))))"

definition GetOrder :: "acme_service \<Rightarrow> nat \<Rightarrow> string \<Rightarrow> db \<Rightarrow> OrderObject acme" where
  "GetOrder M i body s =
     pass (authenticate M body (orderURL M i) s) (\<lambda>(jws, account) s.
     demand (GetAcmeOrder (am_env M) i s) NotFound (\<lambda>order s.
     refuse_if (o_account_id order \<noteq> a_id account) Unauthorized s (
     demand (OrderObjectFor M order s) ServerInternal (\<lambda>obj s. (Inr obj, s)))))"


section \<open>Finalization\<close>

definition sameStringSet :: "string set \<Rightarrow> string set \<Rightarrow> bool" where
  "sameStringSet a b \<longleftrightarrow> card a = card b \<and> (\<forall>k \<in> a. k \<in> b)"

definition wanted_names :: "AcmeOrder \<Rightarrow> string set" where
  "wanted_names x = set (map id_value (o_identifiers x))"

definition csr_cn :: "csr \<Rightarrow> string" where
  "csr_cn q = to_lower (trim_space (pn_cn (q_subject q)))"

text \<open>The three checks that make an order invalid when its request does not fit.\<close>

definition csr_unfit :: "AcmeOrder \<Rightarrow> csr \<Rightarrow> bool" where
  "csr_unfit x q \<longleftrightarrow>
     (IPs (q_sans q) \<noteq> [] \<or> Emails (q_sans q) \<noteq> [] \<or> URIs (q_sans q) \<noteq> []) \<or>
     \<not> sameStringSet (wanted_names x) (set (map to_lower (DNS (q_sans q)))) \<or>
     (csr_cn q \<noteq> [] \<and> csr_cn q \<notin> wanted_names x)"

definition order_cn :: "AcmeOrder \<Rightarrow> csr \<Rightarrow> string" where
  "order_cn x q =
     (if csr_cn q \<noteq> [] then csr_cn q
      else (case o_identifiers x of [] \<Rightarrow> [] | i # _ \<Rightarrow> id_value i))"

text \<open>\<open>math.Ceil\<close> of the days until the end that the order asks for, and at least one day.\<close>

definition finalize_days :: "int \<Rightarrow> EABCred \<Rightarrow> AcmeOrder \<Rightarrow> int" where
  "finalize_days t cred x =
     (case o_not_after x of
        None \<Rightarrow> e_days cred
      | Some na \<Rightarrow> let days = - ((- (na - t)) div 86400) in if days < 1 then 1 else days)"

definition only_cn :: "string \<Rightarrow> Subject" where
  "only_cn cn = \<lparr>CommonName = cn, Organization = [], OrganizationalUnit = [], Country = [], Province = [],
     Locality = [], StreetAddress = [], PostalCode = [], EmailAddress = []\<rparr>"

definition finalize_issue :: "int \<Rightarrow> EABCred \<Rightarrow> AcmeOrder \<Rightarrow> csr \<Rightarrow> string \<Rightarrow> IssueInput" where
  "finalize_issue t cred x q csr_pem =
     \<lparr>in_ca = (case e_ca_id cred of None \<Rightarrow> [] | Some i \<Rightarrow> string_of_nat i), in_mode = ''csr'',
      in_subject = only_cn (order_cn x q), in_sans = [], in_key_type = [], in_profile = e_profile cred,
      in_days = finalize_days t cred x, in_csr_pem = csr_pem, in_key_pem = [], in_store_key = None,
      in_note = [], in_actor = ''acme:'' @ e_name cred, in_allow_subordinate_ca = False\<rparr>"

text \<open>From the claim of the order on: of two requests for one order, one gets past it.\<close>

definition finalize_claimed ::
  "acme_service \<Rightarrow> EABCred \<Rightarrow> AcmeOrder \<Rightarrow> csr \<Rightarrow> string \<Rightarrow> db \<Rightarrow> OrderObject acme" where
  "finalize_claimed M cred x q csr_pem s =
     (let E = am_env M; V = am_ca M in
      attempt (Issue V (finalize_issue (now E s) cred x q csr_pem) s)
        (\<lambda>_ s. (Inl ServerInternal, snd (SetAcmeOrderError E (o_id x) ServerInternal s)))
        (\<lambda>res s.
      demand (SetAcmeOrderCertificate E (o_id x) (c_id (ir_certificate res)) s) ServerInternal (\<lambda>_ s.
      let s = audit V (''acme:'' @ e_name cred) ''acme.order.finalize'' (string_of_nat (o_id x))
                (''serial='' @ c_serial_hex (ir_certificate res) @ '' cn='' @ c_common_name (ir_certificate res)) s in
      demand (GetAcmeOrder E (o_id x) s) ServerInternal (\<lambda>updated s.
      demand (OrderObjectFor M updated s) ServerInternal (\<lambda>obj s. (Inr obj, s))))))"

definition Finalize :: "acme_service \<Rightarrow> nat \<Rightarrow> string \<Rightarrow> db \<Rightarrow> OrderObject acme" where
  "Finalize M i body s =
     (let E = am_env M; K = sv_crypto (am_ca M) in
      pass (authenticate M body (finalizeURL M i) s) (\<lambda>(jws, account) s.
      demand (GetAcmeOrder E i s) NotFound (\<lambda>x s.
      refuse_if (o_account_id x \<noteq> a_id account) Unauthorized s (
      refuse_if (o_status x \<noteq> AcmeStatusReady) OrderNotReady s (
      if o_expires_at x < now E s
      then (Inl OrderNotReady, snd (SetAcmeOrderError E (o_id x) OrderNotReady s))
      else
      expect (DecodePayload (un_finalize (am_codec M)) \<lparr>fr_csr = []\<rparr> jws) Malformed s (\<lambda>req.
      expect (RawURLDecode (fr_csr req)) BadCSR s (\<lambda>der.
      let csr_pem = pem_encode K ''CERTIFICATE REQUEST'' der in
      expect (ok (ParseCSR K csr_pem)) BadCSR s (\<lambda>q.
      if csr_unfit x q then (Inl BadCSR, snd (SetAcmeOrderError E (o_id x) BadCSR s))
      else
      pass (activeCred M account s) (\<lambda>cred s.
      demand (ClaimAcmeOrderForFinalize E (o_id x) s) ServerInternal (\<lambda>claimed s.
      refuse_if (\<not> claimed) OrderNotReady s (finalize_claimed M cred x q csr_pem s)))))))))))"


section \<open>Authorizations and challenges\<close>

record ChallengeObject =
  co_type :: string
  co_url :: string
  co_status :: acme_status
  co_validated :: string
  co_token :: string

record AuthorizationObject =
  zo_identifier :: AcmeIdentifier
  zo_status :: acme_status
  zo_expires :: string
  zo_challenges :: "ChallengeObject list"
  zo_wildcard :: bool

definition challengeObject :: "acme_service \<Rightarrow> AcmeChallenge \<Rightarrow> ChallengeObject" where
  "challengeObject M h =
     \<lparr>co_type = h_type h, co_url = challengeURL M (h_id h), co_status = h_status h,
      co_validated = (case h_validated_at h of None \<Rightarrow> [] | Some t \<Rightarrow> format_time (am_codec M) t),
      co_token = h_token h\<rparr>"

definition authzObject :: "acme_service \<Rightarrow> AcmeAuthorization \<Rightarrow> AcmeChallenge list \<Rightarrow> AuthorizationObject" where
  "authzObject M z challenges =
     \<lparr>zo_identifier = \<lparr>id_type = z_identifier_type z, id_value = z_identifier_value z\<rparr>, zo_status = z_status z,
      zo_expires = format_time (am_codec M) (z_expires_at z), zo_challenges = map (challengeObject M) challenges,
      zo_wildcard = z_wildcard z\<rparr>"

definition GetAuthorization :: "acme_service \<Rightarrow> nat \<Rightarrow> string \<Rightarrow> db \<Rightarrow> AuthorizationObject acme" where
  "GetAuthorization M i body s =
     (let E = am_env M in
      demand (GetAcmeAuthorization E i s) NotFound (\<lambda>z s.
      demand (GetAcmeOrder E (z_order_id z) s) NotFound (\<lambda>x s.
      pass (authenticate M body (authzURL M i) s) (\<lambda>(jws, account) s.
      refuse_if (o_account_id x \<noteq> a_id account) Unauthorized s (
      demand (ListAcmeChallengesByAuthorization E (z_id z) s) ServerInternal (\<lambda>challenges s.
      (Inr (authzObject M z challenges), s)))))))"

definition GetChallenge :: "acme_service \<Rightarrow> nat \<Rightarrow> string \<Rightarrow> db \<Rightarrow> ChallengeObject acme" where
  "GetChallenge M i body s =
     (let E = am_env M in
      demand (GetAcmeChallenge E i s) NotFound (\<lambda>h s.
      demand (GetAcmeAuthorization E (h_authorization_id h) s) NotFound (\<lambda>z s.
      demand (GetAcmeOrder E (z_order_id z) s) NotFound (\<lambda>x s.
      pass (authenticate M body (challengeURL M i) s) (\<lambda>(jws, account) s.
      refuse_if (o_account_id x \<noteq> a_id account) Unauthorized s (
      (Inr (challengeObject M h), s)))))))"


section \<open>Certificates\<close>

definition GetCertificatePEM :: "acme_service \<Rightarrow> nat \<Rightarrow> string \<Rightarrow> db \<Rightarrow> string acme" where
  "GetCertificatePEM M i body s =
     (let E = am_env M in
      pass (authenticate M body (certURL M i) s) (\<lambda>(jws, account) s.
      refuse_if (\<not> IsPostAsGet jws) Malformed s (
      demand (GetAcmeOrderByCertificate E i s) NotFound (\<lambda>x s.
      refuse_if (o_account_id x \<noteq> a_id account) NotFound s (
      demand (GetCertificate E i s) NotFound (\<lambda>c s.
      demand (CertChainPEM (am_ca M) c s) ServerInternal (\<lambda>chain s. (Inr chain, s))))))))"

text \<open>\<open>Equal\<close> of the key of a certificate; a key of a kind the library does not know has no such method.\<close>

definition equal_public_key :: "public_key \<Rightarrow> public_key \<Rightarrow> bool" where
  "equal_public_key p k \<longleftrightarrow> (case p of OtherPub _ \<Rightarrow> False | _ \<Rightarrow> p = k)"

text \<open>Who signed the request: the account its key id names, or nobody known and the key it carries.\<close>

definition revoke_signer :: "acme_service \<Rightarrow> ParsedJWS \<Rightarrow> db \<Rightarrow> (ParsedJWS \<times> AcmeAccount option) acme" where
  "revoke_signer M jws s =
     (let J = am_jose M in
      if pj_key_id jws \<noteq> []
      then pass (ResolveAccount M (pj_key_id jws) s) (\<lambda>a s.
           expect (jwk_unmarshal J (a_jwk_json a)) ServerInternal s (\<lambda>key.
           expect (Verify J jws key) Malformed s (\<lambda>jws. (Inr (jws, Some a), s))))
      else expect (Option.bind (pj_jwk jws) (Verify J jws)) Malformed s (\<lambda>jws. (Inr (jws, None), s)))"

text \<open>The entitlement of an account: the order that produced the certificate belongs to an account of the
  same credential. The result is the actor of the revocation.\<close>

definition revoke_actor :: "acme_service \<Rightarrow> AcmeAccount option \<Rightarrow> Certificate \<Rightarrow> db \<Rightarrow> string acme" where
  "revoke_actor M account rec s =
     (let E = am_env M in
      case account of
        None \<Rightarrow> (Inr ''acme:cert-key'', s)
      | Some a \<Rightarrow>
          demand (GetAcmeOrderByCertificate E (c_id rec) s) Unauthorized (\<lambda>x s.
          demand (GetAcmeAccount E (o_account_id x) s) Unauthorized (\<lambda>owner s.
          refuse_if (a_eab_id owner \<noteq> a_eab_id a) Unauthorized s (
          demand (GetEABCred E (a_eab_id a) s) ServerInternal (\<lambda>cred s. (Inr (''acme:'' @ e_name cred), s))))))"

definition RevokeCert :: "acme_service \<Rightarrow> string \<Rightarrow> db \<Rightarrow> unit acme" where
  "RevokeCert M body s =
     (let E = am_env M; J = am_jose M; K = sv_crypto (am_ca M) in
      expect (ok (ParseJWS J body)) Malformed s (\<lambda>jws.
      checkURL jws (revokeCertURL M) s (
      checkNonce M jws s (\<lambda>s.
      pass (revoke_signer M jws s) (\<lambda>(jws, account) s.
      expect (DecodePayload (un_revoke (am_codec M)) \<lparr>rr_certificate = [], rr_reason = None\<rparr> jws) Malformed s (\<lambda>req.
      expect (RawURLDecode (rr_certificate req)) Malformed s (\<lambda>der.
      expect (parse_certificate K der) Malformed s (\<lambda>leaf.
      refuse_if (account = None \<and> \<not> (case pj_jwk jws of None \<Rightarrow> False
                    | Some key \<Rightarrow> equal_public_key (x_pub leaf) (jwk_key J key))) Unauthorized s (
      demand (GetCertificateBySerial E (SerialHex (x_serial leaf)) s) NotFound (\<lambda>rec s.
      refuse_if (c_fingerprint rec \<noteq> FingerprintSHA256 K der) Malformed s (
      refuse_if (c_status rec = CertRevoked) AlreadyRevoked s (
      pass (revoke_actor M account rec s) (\<lambda>actor s.
      let reason = (case rr_reason req of None \<Rightarrow> 0 | Some r \<Rightarrow> r) in
      refuse_if (reason < 0 \<or> reason = 7 \<or> 10 < reason) BadRevocationReason s (
      demand (Revoke (am_ca M) (c_id rec) reason actor s) ServerInternal (\<lambda>_ s. (Inr (), s))))))))))))))))"


section \<open>An example\<close>

definition demo_object :: "string \<Rightarrow> jwk option \<Rightarrow> string \<Rightarrow> string \<Rightarrow> string \<Rightarrow> jws_object" where
  "demo_object kid key nonce path raw =
     \<lparr>jo_signatures = [\<lparr>js_protected = \<lparr>jh_key_id = kid, jh_jwk = key, jh_nonce = nonce,
                                         jh_extra = [(''url'', Some (''https://ca.test/acme/'' @ path))]\<rparr>,
                       js_unprotected = \<lparr>jh_key_id = [], jh_jwk = None, jh_nonce = [], jh_extra = []\<rparr>\<rparr>],
      jo_raw = raw\<rparr>"

definition demo_account_url :: string where "demo_account_url = ''https://ca.test/acme/account/1''"

definition demo_bodies :: "string \<Rightarrow> jws_object option" where
  "demo_bodies = map_of
     [(''account'', demo_object [] (Some (JWK ''ak'')) ''n1'' ''new-account'' ''p''),
      (''eab'', demo_object ''kid1'' None [] ''new-account'' ''ak''),
      (''order'', demo_object demo_account_url None ''n1'' ''new-order'' ''p''),
      (''finalize'', demo_object demo_account_url None ''n1'' ''order/1/finalize'' ''p''),
      (''certificate'', demo_object demo_account_url None ''n1'' ''cert/1'' []),
      (''revoke'', demo_object demo_account_url None ''n1'' ''revoke-cert'' ''p'')]"

definition demo_jose :: jose where
  "demo_jose =
     \<lparr>parse_signed = (\<lambda>b _. demo_bodies b),
      jws_verify = (\<lambda>obj k. if k = AccountKey (JWK ''ak'') \<or> k = HMACKey ''hmac'' then Some (jo_raw obj) else None),
      jwk_thumbprint = (\<lambda>k. case k of JWK t \<Rightarrow> Some t), jwk_public = (\<lambda>k. k),
      jwk_marshal = (\<lambda>k. case k of JWK t \<Rightarrow> Some t), jwk_unmarshal = (\<lambda>t. Some (JWK t)),
      jwk_key = (\<lambda>_. ECPub P256 ''dev'')\<rparr>"

definition demo_codec :: codec where
  "demo_codec =
     \<lparr>un_new_account = (\<lambda>_. Some \<lparr>na_contact = None, na_terms_of_service_agreed = True, na_only_return_existing = False,
                                    na_external_account_binding = ''eab''\<rparr>),
      un_update_account = (\<lambda>_. None),
      un_new_order = (\<lambda>_. Some \<lparr>no_identifiers = [\<lparr>id_type = [], id_value = '' A.test''\<rparr>], no_not_before = [], no_not_after = []\<rparr>),
      un_finalize = (\<lambda>_. Some \<lparr>fr_csr = RawURLEncode ''req''\<rparr>),
      un_revoke = (\<lambda>_. Some \<lparr>rr_certificate = RawURLEncode ''leaf'', rr_reason = Some 1\<rparr>),
      parse_time = (\<lambda>t. if t = ''later'' then Some (1000 + 90 * 86400 + 30) else None), format_time = (\<lambda>_. ''time''),
      hier_ok = (\<lambda>_. True), eab_text = (\<lambda>_. ''refused'')\<rparr>"

definition demo_acme :: acme_service where
  "demo_acme = \<lparr>am_ca = demo_V, am_jose = demo_jose, am_codec = demo_codec\<rparr>"

definition demo_cred :: EABCred where
  "demo_cred = \<lparr>e_id = 1, e_key_id = ''kid1'', e_hmac_key_enc = ''hmac'', e_name = ''cluster'', e_ca_id = None,
     e_profile = ''server'', e_days = 90, e_allowed_domains = [''*.test''], e_max_accounts = 2, e_account_count = 1,
     e_disabled = False, e_expires_at = None, e_created_by = ''bob'', e_created_at = 1, e_last_used_at = None\<rparr>"

definition demo_account :: AcmeAccount where
  "demo_account = \<lparr>a_id = 1, a_eab_id = 1, a_jwk_json = ''ak'', a_jwk_thumbprint = ''616b'', a_contact = [],
     a_status = AcmeStatusValid, a_created_at = 1, a_last_used_at = None\<rparr>"

definition demo_order :: "acme_status \<Rightarrow> AcmeOrder" where
  "demo_order st = \<lparr>o_id = 1, o_account_id = 1, o_status = st,
     o_identifiers = [\<lparr>id_type = ''dns'', id_value = ''a.test''\<rparr>],
     o_certificate_id = (if st = AcmeStatusValid then Some 1 else None), o_error = None,
     o_expires_at = 5000, o_created_at = 1, o_not_after = None\<rparr>"

definition demo_acme_db :: "AcmeAccount list \<Rightarrow> AcmeOrder list \<Rightarrow> Certificate list \<Rightarrow> db" where
  "demo_acme_db accounts orders certs = (demo_db certs)
     \<lparr>acme_eab_creds := \<lparr>rows = [demo_cred], next_id = 2\<rparr>,
      acme_accounts := \<lparr>rows = accounts, next_id = Suc (length accounts)\<rparr>,
      acme_orders := \<lparr>rows = orders, next_id = Suc (length orders)\<rparr>,
      acme_nonces := [\<lparr>n_nonce = ''n1'', n_expires_at = 1600\<rparr>]\<rparr>"

end
