(* ===== verification/Acme_Auth.thy ===== *)
theory Acme_Auth
  imports Acme_Service
begin

text \<open>
  Who gets past the checks of the ACME server: what an authenticated request has proved, and what the
  registration of an account rests on.
\<close>


section \<open>Requests signed by an account\<close>

lemma checkURL_InrD: "checkURL jws want s k = (Inr y, s') \<Longrightarrow> pj_url jws = want \<and> k = (Inr y, s')"
  unfolding checkURL_def by (auto dest: refuse_if_InrD)

lemma checkNonce_InrD:
  "checkNonce M jws s k = (Inr y, s') \<Longrightarrow> \<exists>s1. Consume (am_env M) (pj_nonce jws) s = (True, s1) \<and> k s1 = (Inr y, s')"
  unfolding checkNonce_def by (auto dest: refuse_if_InrD split: prod.splits)

lemma GetAcmeAccount_Inr:
  "GetAcmeAccount E i s = (Inr a, s') \<Longrightarrow> a \<in> set (rows (acme_accounts s)) \<and> a_id a = i \<and> s' = s\<lparr>tick := Suc (tick s)\<rparr>"
  unfolding GetAcmeAccount_def by (auto dest!: query_row_Inr select_one_Inr)

lemma ResolveAccount_InrD:
  assumes "ResolveAccount M kid s = (Inr a, s')"
  shows "a \<in> set (rows (acme_accounts s)) \<and> a_status a = AcmeStatusValid \<and> s' = s\<lparr>tick := Suc (tick s)\<rparr> \<and>
    (\<exists>digits. accountURLRe kid = Some digits \<and> a_id a = sscanf_int64 digits)"
  using assms unfolding ResolveAccount_def by (auto dest!: acme_InrD GetAcmeAccount_Inr)

text \<open>The state an authenticated request leaves: its nonce is gone and the time of last use of its account is set.\<close>

definition authenticated :: "acme_service \<Rightarrow> ParsedJWS \<Rightarrow> AcmeAccount \<Rightarrow> db \<Rightarrow> db" where
  "authenticated M jws a s =
     snd (TouchAcmeAccountUsed (am_env M) (a_id a)
       ((snd (Consume (am_env M) (pj_nonce jws) s))\<lparr>tick := Suc (tick (snd (Consume (am_env M) (pj_nonce jws) s)))\<rparr>))"

lemma authenticated_keeps [simp]:
  "cas (authenticated M jws a s) = cas s" "certificates (authenticated M jws a s) = certificates s"
  "ca_revocations (authenticated M jws a s) = ca_revocations s"
  "acme_orders (authenticated M jws a s) = acme_orders s" "acme_eab_creds (authenticated M jws a s) = acme_eab_creds s"
  "acme_nonces (authenticated M jws a s) = acme_nonces (snd (Consume (am_env M) (pj_nonce jws) s))"
  using Consume_cases [of "am_env M" "pj_nonce jws" s]
  by (auto simp: authenticated_def TouchAcmeAccountUsed_def set_accounts_def stmt_defs)

definition proved :: "acme_service \<Rightarrow> string \<Rightarrow> ParsedJWS \<Rightarrow> jwk \<Rightarrow> bool" where
  "proved M body jws key \<longleftrightarrow>
     (\<exists>obj. parse_signed (am_jose M) body accountAlgs = Some obj \<and>
        jws_verify (am_jose M) obj (AccountKey key) = Some (pj_payload jws))"

lemma authenticate_InrD:
  assumes "authenticate M body url s = (Inr (jws, a), s')"
  obtains p key where "ParseJWS (am_jose M) body = Inr p" "pj_nonce jws = pj_nonce p" "pj_url p = url"
    "pj_url jws = url" "Consume (am_env M) (pj_nonce jws) s = (True, snd (Consume (am_env M) (pj_nonce jws) s))"
    "a \<in> set (rows (acme_accounts s))" "a_status a = AcmeStatusValid"
    "jwk_unmarshal (am_jose M) (a_jwk_json a) = Some key" "proved M body jws key" "s' = authenticated M jws a s"
proof -
  let ?J = "am_jose M" and ?E = "am_env M"
  from assms obtain p s1 where p: "ParseJWS ?J body = Inr p" "pj_url p = url"
    and c: "Consume ?E (pj_nonce p) s = (True, s1)"
    and k: "refuse_if (pj_key_id p = []) Malformed s1 (
       pass (ResolveAccount M (pj_key_id p) s1) (\<lambda>account s.
       expect (jwk_unmarshal ?J (a_jwk_json account)) ServerInternal s (\<lambda>key.
       expect (Verify ?J p key) Malformed s (\<lambda>jws.
       (Inr (jws, account), snd (TouchAcmeAccountUsed ?E (a_id account) s)))))) = (Inr (jws, a), s')"
    unfolding authenticate_def by (auto dest!: expect_InrD checkURL_InrD checkNonce_InrD)
  from k obtain key where r: "ResolveAccount M (pj_key_id p) s1 = (Inr a, s1\<lparr>tick := Suc (tick s1)\<rparr>)"
    and key: "jwk_unmarshal ?J (a_jwk_json a) = Some key" and v: "Verify ?J p key = Some jws"
    and s': "s' = snd (TouchAcmeAccountUsed ?E (a_id a) (s1\<lparr>tick := Suc (tick s1)\<rparr>))"
    by (auto dest!: acme_InrD dest: ResolveAccount_InrD)
  have acc: "acme_accounts s1 = acme_accounts s"
    using Consume_cases [of ?E "pj_nonce p" s] c by auto
  have n: "pj_nonce jws = pj_nonce p" "pj_url jws = pj_url p" using Verify_Some [OF v] by auto
  have "proved M body jws key" using ParseJWS_Inr [OF p(1)] Verify_Some [OF v] by (auto simp: proved_def)
  with that [OF p(1) n(1) p(2)] show thesis
    using ResolveAccount_InrD [OF r] acc key c s' n p by (simp add: authenticated_def)
qed

text \<open>The request that was parsed, the account that its key id names and the key that verified it.\<close>

lemma authenticate_request:
  assumes "authenticate M body url s = (Inr (jws, a), s')"
  shows "\<exists>p key digits. ParseJWS (am_jose M) body = Inr p \<and> accountURLRe (pj_key_id p) = Some digits \<and> a_id a = sscanf_int64 digits \<and>
    jwk_unmarshal (am_jose M) (a_jwk_json a) = Some key \<and> Verify (am_jose M) p key = Some jws \<and> proved M body jws key"
proof -
  let ?J = "am_jose M" and ?E = "am_env M"
  from assms obtain p s1 key s2 where p: "ParseJWS ?J body = Inr p"
    and r: "ResolveAccount M (pj_key_id p) s1 = (Inr a, s2)"
    and key: "jwk_unmarshal ?J (a_jwk_json a) = Some key" and v: "Verify ?J p key = Some jws"
    unfolding authenticate_def by (auto dest!: expect_InrD checkURL_InrD checkNonce_InrD refuse_if_InrD acme_InrD)
  have "proved M body jws key" using ParseJWS_Inr [OF p] Verify_Some [OF v] by (auto simp: proved_def)
  then show ?thesis using p ResolveAccount_InrD [OF r] key v by blast
qed

lemma authenticate_badNonce:
  assumes "ParseJWS (am_jose M) body = Inr p" and "pj_url p = url" and "\<not> fst (Consume (am_env M) (pj_nonce p) s)"
  shows "fst (authenticate M body url s) = Inl BadNonce"
  using assms unfolding authenticate_def checkURL_def checkNonce_def
  by (cases "Consume (am_env M) (pj_nonce p) s") auto

text \<open>Everything that an accepted request changes.\<close>

lemma authenticated_frame:
  assumes "Consume (am_env M) (pj_nonce jws) s = (True, s1)" and "unique_nonces s"
  shows "\<exists>n accounts. authenticated M jws a s =
       s\<lparr>acme_nonces := delete_where (\<lambda>x. n_nonce x = pj_nonce jws) (acme_nonces s), tick := n, acme_accounts := accounts\<rparr> \<and>
     (accounts = acme_accounts s \<or>
      (\<exists>t. accounts = update_rows (\<lambda>x. a_id x = a_id a) (\<lambda>x. x\<lparr>a_last_used_at := Some t\<rparr>) (acme_accounts s)))"
proof -
  let ?E = "am_env M" and ?s = "s\<lparr>acme_nonces := delete_where (\<lambda>x. n_nonce x = pj_nonce jws) (acme_nonces s)\<rparr>"
  let ?used = "update_rows (\<lambda>x. a_id x = a_id a) (\<lambda>x. x\<lparr>a_last_used_at := Some (clock ?E (Suc (Suc (tick s))))\<rparr>) (acme_accounts s)"
  have "snd (Consume ?E (pj_nonce jws) s) = s1" by (simp add: assms(1))
  moreover have "s1 = ?s\<lparr>tick := Suc (tick s)\<rparr>"
    using Consume_True [OF assms] by simp
  ultimately have "authenticated M jws a s = snd (TouchAcmeAccountUsed ?E (a_id a) (?s\<lparr>tick := Suc (Suc (tick s))\<rparr>))"
    by (simp add: authenticated_def)
  then have "authenticated M jws a s = ?s\<lparr>tick := Suc (Suc (Suc (tick s))),
      acme_accounts := (if fault ?E (Suc (Suc (tick s))) then acme_accounts s else ?used)\<rparr>"
    by (simp add: TouchAcmeAccountUsed_def set_accounts_def stmt_defs now_def)
  then show ?thesis
    by (intro exI [of _ "Suc (Suc (Suc (tick s)))"] exI [of _ "if fault ?E (Suc (Suc (tick s))) then acme_accounts s else ?used"]) auto
qed

text \<open>C3 (acme/service.go, authenticate; acme/nonce.go, Consume): a request is accepted as an account's only when the
  account that its key id names exists and is valid, the body verifies with the key stored for it under one of the accepted
  algorithms, its url header is the endpoint and its nonce was redeemable. The nonce is spent: the same body is refused with badNonce in
  every later state in which the nonce has not been issued again. Nothing else changes in the database but the time of last
  use of that account (and not even that when its update fails).\<close>

theorem authenticate_sound:
  assumes "authenticate M body url s = (Inr (jws, a), s')" and "unique_nonces s"
  shows "a \<in> set (rows (acme_accounts s)) \<and> a_status a = AcmeStatusValid \<and>
    (\<exists>p key digits. ParseJWS (am_jose M) body = Inr p \<and> accountURLRe (pj_key_id p) = Some digits \<and> a_id a = sscanf_int64 digits \<and>
       jwk_unmarshal (am_jose M) (a_jwk_json a) = Some key \<and> Verify (am_jose M) p key = Some jws \<and> proved M body jws key) \<and>
    pj_url jws = url \<and> pj_nonce jws \<in> redeemable (now (am_env M) s) s \<and> pj_nonce jws \<notin> n_nonce ` set (acme_nonces s') \<and>
    (\<forall>t. pj_nonce jws \<notin> n_nonce ` set (acme_nonces t) \<longrightarrow> fst (authenticate M body url t) = Inl BadNonce) \<and>
    (\<exists>n accounts. s' = s\<lparr>acme_nonces := delete_where (\<lambda>x. n_nonce x = pj_nonce jws) (acme_nonces s), tick := n, acme_accounts := accounts\<rparr> \<and>
       (accounts = acme_accounts s \<or>
        (\<exists>t. accounts = update_rows (\<lambda>x. a_id x = a_id a) (\<lambda>x. x\<lparr>a_last_used_at := Some t\<rparr>) (acme_accounts s))))"
proof (rule authenticate_InrD [OF assms(1)])
  fix p key
  assume *: "ParseJWS (am_jose M) body = Inr p" "pj_nonce jws = pj_nonce p" "pj_url p = url" "pj_url jws = url"
    "Consume (am_env M) (pj_nonce jws) s = (True, snd (Consume (am_env M) (pj_nonce jws) s))"
    "a \<in> set (rows (acme_accounts s))" "a_status a = AcmeStatusValid"
    "jwk_unmarshal (am_jose M) (a_jwk_json a) = Some key" "proved M body jws key" "s' = authenticated M jws a s"
  have "fst (authenticate M body url t) = Inl BadNonce" if "pj_nonce jws \<notin> n_nonce ` set (acme_nonces t)" for t
    using authenticate_badNonce [OF *(1,3)] Consume_absent [OF that] *(2) by simp
  with * Consume_True [OF *(5) assms(2)] authenticated_frame [OF *(5) assms(2)] authenticate_request [OF assms(1)]
  show ?thesis by simp
qed


section \<open>Registration\<close>

lemma audit_keeps [simp]:
  "cas (audit V ac n t d s) = cas s" "certificates (audit V ac n t d s) = certificates s"
  "acme_eab_creds (audit V ac n t d s) = acme_eab_creds s" "acme_accounts (audit V ac n t d s) = acme_accounts s"
  "acme_orders (audit V ac n t d s) = acme_orders s" "acme_nonces (audit V ac n t d s) = acme_nonces s"
  "acme_authorizations (audit V ac n t d s) = acme_authorizations s"
  by (simp_all add: audit_def recordAudit_def Audit_def stmt_defs)

lemma Touch_keeps [simp]:
  "acme_eab_creds (snd (TouchAcmeAccountUsed E i s)) = acme_eab_creds s"
  by (simp add: TouchAcmeAccountUsed_def set_accounts_def stmt_defs)

lemma lookupHMAC_Some:
  assumes "lookupHMAC M kid s = (Some (key, cred), s')"
  shows "cred \<in> set (rows (acme_eab_creds s)) \<and> e_key_id cred = kid \<and>
    Decrypt (sv_box (am_ca M)) (e_hmac_key_enc cred) = Inr key \<and> s' = s\<lparr>tick := Suc (tick s)\<rparr>"
  using assms unfolding lookupHMAC_def GetEABCredByKeyID_def
  by (auto split: attempt_splits dest!: query_row_Inr select_one_Inr)

lemma CreateAcmeAccount_Inr:
  assumes "CreateAcmeAccount E a s = (Inr r, s')" and "wf_table a_id (acme_accounts s)"
  shows "r = a\<lparr>a_id := next_id (acme_accounts s), a_last_used_at := None\<rparr> \<and>
    rows (acme_accounts s') = rows (acme_accounts s) @ [r] \<and> account_insertable a s \<and>
    acme_eab_creds s' = acme_eab_creds s"
proof -
  let ?a = "a\<lparr>a_last_used_at := None\<rparr>" and ?i = "next_id (acme_accounts s)"
  let ?t = "insert_row (\<lambda>n. a_id_update (\<lambda>_. n)) ?a (acme_accounts s)"
  from assms(1) have ins: "account_insertable a s"
    and get: "GetAcmeAccount E ?i (s\<lparr>tick := Suc (tick s), acme_accounts := ?t\<rparr>) = (Inr r, s')"
    by (auto simp: CreateAcmeAccount_def exec_insert_def run_def Let_def account_insertable_def split: if_splits)
  from query_row_Inr [OF get [unfolded GetAcmeAccount_def]] accounts_t.find_inserted [OF assms(2), of ?a]
  show ?thesis using ins by (auto simp: select_one_def)
qed

definition has_free_slot :: "EABCred \<Rightarrow> bool" where
  "has_free_slot e \<longleftrightarrow> e_max_accounts e = 0 \<or> e_account_count e < e_max_accounts e"

lemma ReserveEABAccountSlot_True:
  assumes "ReserveEABAccountSlot E i s = (Inr True, s')"
  shows "\<exists>e \<in> set (rows (acme_eab_creds s)). e_id e = i \<and> has_free_slot e"
    and "acme_accounts s' = acme_accounts s"
    and "acme_eab_creds s' = update_rows (\<lambda>e. e_id e = i \<and> has_free_slot e)
       (\<lambda>e. e\<lparr>e_account_count := e_account_count e + 1, e_last_used_at := Some (now E s)\<rparr>) (acme_eab_creds s)"
proof -
  let ?p = "\<lambda>e. e_id e = i \<and> (e_max_accounts e = 0 \<or> e_account_count e < e_max_accounts e)"
  have "affected ?p (rows (acme_eab_creds s)) = 1"
    using assms by (auto simp: ReserveEABAccountSlot_def set_creds_def stmt_defs split: if_splits)
  then have "affected ?p (rows (acme_eab_creds s)) \<noteq> 0" by simp
  then show "\<exists>e \<in> set (rows (acme_eab_creds s)). e_id e = i \<and> has_free_slot e"
    unfolding affected_zero_iff has_free_slot_def by blast
  show "acme_accounts s' = acme_accounts s" "acme_eab_creds s' = update_rows (\<lambda>e. e_id e = i \<and> has_free_slot e)
       (\<lambda>e. e\<lparr>e_account_count := e_account_count e + 1, e_last_used_at := Some (now E s)\<rparr>) (acme_eab_creds s)"
    using assms by (auto simp: ReserveEABAccountSlot_def set_creds_def has_free_slot_def stmt_defs split: if_splits)
qed

text \<open>What the registration of an account with a credential has checked and stored.\<close>

definition registered :: "acme_service \<Rightarrow> string \<Rightarrow> EABCred \<Rightarrow> AcmeAccount \<Rightarrow> db \<Rightarrow> db \<Rightarrow> bool" where
  "registered M thumb cred a s s' \<longleftrightarrow>
     \<not> e_disabled cred \<and> has_free_slot cred \<and> a_eab_id a = e_id cred \<and> a_jwk_thumbprint a = thumb \<and>
     a_status a = AcmeStatusValid \<and> thumb \<notin> a_jwk_thumbprint ` set (rows (acme_accounts s)) \<and>
     rows (acme_accounts s') = rows (acme_accounts s) @ [a] \<and>
     map_option e_account_count (find (\<lambda>e. e_id e = e_id cred) (rows (acme_eab_creds s'))) = Some (e_account_count cred + 1)"

lemma register_InrD:
  assumes "register M jws key thumb req kid cred s = (Inr (a, obj, new), s')"
    and "wf_table a_id (acme_accounts s)" and "wf_table e_id (acme_eab_creds s)"
    and "cred \<in> set (rows (acme_eab_creds s))"
  shows "new \<and> registered M thumb cred a s s' \<and> obj = accountObject M a \<and>
    jwk_marshal (am_jose M) (jwk_public (am_jose M) key) = Some (a_jwk_json a) \<and> a_contact a = contacts_of (na_contact req)"
proof -
  let ?E = "am_env M"
  have usable: "Usable (now ?E s) cred" using assms(1) by (auto simp: register_def Let_def split: if_splits)
  from assms(1) usable obtain s1 where res: "ReserveEABAccountSlot ?E (e_id cred) s = (Inr True, s1)"
    unfolding register_def Let_def by (auto dest!: demand_InrD split: if_splits)
  note slot = ReserveEABAccountSlot_True [OF res]
  from assms(1) usable res obtain jwk_json s2 where
    create: "CreateAcmeAccount ?E
                \<lparr>a_id = 0, a_eab_id = e_id cred, a_jwk_json = jwk_json, a_jwk_thumbprint = thumb,
                 a_contact = contacts_of (na_contact req), a_status = AcmeStatusValid,
                 a_created_at = now ?E s1, a_last_used_at = None\<rparr> s1 = (Inr a, s2)"
    and new: new "obj = accountObject M a" and s': "acme_accounts s' = acme_accounts s2" "acme_eab_creds s' = acme_eab_creds s2"
    and json: "jwk_marshal (am_jose M) (jwk_public (am_jose M) key) = Some jwk_json"
    unfolding register_def Let_def by (auto split: option.splits attempt_splits)
  have only: "e = cred" if "e \<in> set (rows (acme_eab_creds s))" "e_id e = e_id cred" for e
    using that assms(3,4) by (auto simp: wf_table_def dest: distinct_map [THEN iffD1] inj_onD)
  have free: "has_free_slot cred" using slot(1) only by blast
  have found: "find (\<lambda>e. e_id e = e_id cred) (rows (acme_eab_creds s)) = Some cred"
    using eab_t.find_eq_iff [OF assms(3)] assms(4) by simp
  have wf: "wf_table a_id (acme_accounts s1)" using assms(2) slot(2) by simp
  show ?thesis
    using CreateAcmeAccount_Inr [OF create wf] slot(2,3) s' free found new usable json
    by (auto simp: registered_def Usable_def account_insertable_def find_update_where split: if_splits)
qed

text \<open>C27 (acme/service.go, NewAccount; acme/jws.go, VerifyEAB): an account is created only for a request that is signed with
  the key in its header and whose decoded payload carries, in its externalAccountBinding field, an object that is signed
  with the HMAC key of the credential of this server that it names, for this endpoint, over that very key; the credential
  is enabled and below its limit. The account holds that key and the contacts of the payload, is valid, belongs to the
  credential, no other account has its key, and the credential counts one account more.\<close>

theorem NewAccount_needs_binding:
  assumes "NewAccount M body s = (Inr (a, obj, True), s')"
    and "wf_table a_id (acme_accounts s)" and "wf_table e_id (acme_eab_creds s)"
  shows "\<exists>p jws key req cred hmac thumb.
    ParseJWS (am_jose M) body = Inr p \<and> pj_jwk p = Some key \<and> Verify (am_jose M) p key = Some jws \<and> proved M body jws key \<and>
    DecodePayload (un_new_account (am_codec M))
      \<lparr>na_contact = None, na_terms_of_service_agreed = False, na_only_return_existing = False,
       na_external_account_binding = []\<rparr> jws = Some req \<and>
    cred \<in> set (rows (acme_eab_creds s)) \<and> Decrypt (sv_box (am_ca M)) (e_hmac_key_enc cred) = Inr hmac \<and>
    binds (am_jose M) (na_external_account_binding req) (newAccountURL M) key (e_key_id cred) hmac \<and>
    Thumbprint (am_jose M) key = Some thumb \<and> registered M thumb cred a s s' \<and> obj = accountObject M a \<and>
    jwk_marshal (am_jose M) (jwk_public (am_jose M) key) = Some (a_jwk_json a) \<and> a_contact a = contacts_of (na_contact req)"
proof -
  let ?E = "am_env M" and ?J = "am_jose M"
  from assms(1) obtain p s1 key jws req thumb where p: "ParseJWS ?J body = Inr p" "pj_url p = newAccountURL M"
    and c: "Consume ?E (pj_nonce p) s = (True, s1)" and jwk: "pj_jwk p = Some key" and v: "Verify ?J p key = Some jws"
    and req: "DecodePayload (un_new_account (am_codec M))
      \<lparr>na_contact = None, na_terms_of_service_agreed = False, na_only_return_existing = False,
       na_external_account_binding = []\<rparr> jws = Some req"
    and thumb: "Thumbprint ?J key = Some thumb"
    and k: "attempt (GetAcmeAccountByThumbprint ?E thumb s1)
        (\<lambda>e s.
           refuse_if (e \<noteq> ErrNotFound) ServerInternal s (
           refuse_if (na_only_return_existing req) AccountDoesNotExist s (
           case validContacts (hier_ok (am_codec M)) (contacts_of (na_contact req)) of
             Some p \<Rightarrow> (Inl p, s)
           | None \<Rightarrow>
               (case VerifyEAB ?J (na_external_account_binding req) (pj_url jws) key (lookupHMAC M) s of
                  (kid, Inl err, s) \<Rightarrow>
                    (Inl ExternalAccountRequired,
                     audit (am_ca M) ''acme'' ''acme.account.rejected'' kid (eab_text (am_codec M) err) s)
                | (kid, Inr cred, s) \<Rightarrow> register M jws key thumb req kid cred s))))
        (\<lambda>existing s.
           refuse_if (a_status existing \<noteq> AcmeStatusValid) Unauthorized s
             (Inr (existing, accountObject M existing, False),
              snd (TouchAcmeAccountUsed ?E (a_id existing) s))) = (Inr (a, obj, True), s')"
    unfolding NewAccount_def Let_def by (auto dest!: expect_InrD checkURL_InrD checkNonce_InrD)
  have s1: "acme_accounts s1 = acme_accounts s" "acme_eab_creds s1 = acme_eab_creds s"
    using Consume_cases [of ?E "pj_nonce p" s] c by auto
  obtain x s2 where q: "GetAcmeAccountByThumbprint ?E thumb s1 = (x, s2)" by (cases "GetAcmeAccountByThumbprint ?E thumb s1")
  have s2: "s2 = s1\<lparr>tick := Suc (tick s1)\<rparr>"
    using q query_row_state by (metis GetAcmeAccountByThumbprint_def snd_conv)
  from k q obtain kid cred s3 where eab: "VerifyEAB ?J (na_external_account_binding req) (pj_url jws) key (lookupHMAC M) s2 = (kid, Inr cred, s3)"
    and reg: "register M jws key thumb req kid cred s3 = (Inr (a, obj, True), s')"
    by (cases x) (auto dest!: refuse_if_InrD split: option.splits prod.splits sum.splits)
  obtain hmac where l: "lookupHMAC M kid s2 = (Some (hmac, cred), s3)"
    and b: "binds ?J (na_external_account_binding req) (pj_url jws) key kid hmac"
    using VerifyEAB_Inr [OF eab] by blast
  note lk = lookupHMAC_Some [OF l]
  have "proved M body jws key" using ParseJWS_Inr [OF p(1)] Verify_Some [OF v] by (auto simp: proved_def)
  moreover have "registered M thumb cred a s s'" "obj = accountObject M a" "a_contact a = contacts_of (na_contact req)"
    "jwk_marshal ?J (jwk_public ?J key) = Some (a_jwk_json a)"
    using register_InrD [OF reg] assms(2,3) lk s1 s2 by (simp_all add: registered_def)
  ultimately show ?thesis
    using p(1) jwk v req thumb lk b s1 s2 p(2) Verify_Some [OF v]
    by (intro exI [of _ p] exI [of _ jws] exI [of _ key] exI [of _ req] exI [of _ cred] exI [of _ hmac] exI [of _ thumb]) simp
qed

end
