(* ===== verification/Acme_Orders.thy ===== *)
theory Acme_Orders
  imports Acme_Auth
begin

text \<open>
  Orders: which names can be ordered, what a finalized order has produced, and who may download or revoke the
  certificate of an order.
\<close>


section \<open>Ordering\<close>

definition in_scope :: "EABCred \<Rightarrow> AcmeIdentifier \<Rightarrow> bool" where
  "in_scope cred i \<longleftrightarrow>
     id_type i = ''dns'' \<and> validDNSIdentifier (id_value i) = None \<and> domainAllowed (e_allowed_domains cred) (id_value i)"

lemma order_identifiers_Inr:
  "order_identifiers cred is = Inr idents \<Longrightarrow>
     length idents = length is \<and> list_all (in_scope cred) idents \<and>
     map id_value idents = map (\<lambda>i. to_lower (trim_space (id_value i))) is"
  by (induction "is" arbitrary: idents)
     (auto simp: in_scope_def Let_def split: if_splits sum.splits)

text \<open>The first identifier that is not acceptable decides the problem.\<close>

lemma order_identifiers_Inl:
  "order_identifiers cred is = Inl p \<Longrightarrow>
     p \<in> {UnsupportedIdentifier, Malformed, RejectedIdentifier} \<and> is \<noteq> []"
  by (induction "is") (auto simp: Let_def split: if_splits sum.splits)

lemma GetEABCred_Inr:
  "GetEABCred E i s = (Inr e, s') \<Longrightarrow> e \<in> set (rows (acme_eab_creds s)) \<and> e_id e = i \<and> s' = s\<lparr>tick := Suc (tick s)\<rparr>"
  unfolding GetEABCred_def by (auto dest!: query_row_Inr select_one_Inr)

lemma activeCred_InrD:
  assumes "activeCred M a s = (Inr cred, s')"
  shows "cred \<in> set (rows (acme_eab_creds s)) \<and> e_id cred = a_eab_id a \<and> \<not> e_disabled cred \<and> s' = s\<lparr>tick := Suc (tick s)\<rparr>"
  using assms unfolding activeCred_def by (auto dest!: demand_InrD GetEABCred_Inr split: if_splits)

lemma GetAcmeOrder_Inr:
  "GetAcmeOrder E i s = (Inr x, s') \<Longrightarrow> x \<in> set (rows (acme_orders s)) \<and> o_id x = i \<and> s' = s\<lparr>tick := Suc (tick s)\<rparr>"
  unfolding GetAcmeOrder_def by (auto dest!: query_row_Inr select_one_Inr)

lemma CreateAcmeOrder_Inr:
  assumes "CreateAcmeOrder E x s = (Inr r, s')" and "wf_table o_id (acme_orders s)"
  shows "r = x\<lparr>o_id := next_id (acme_orders s), o_certificate_id := None, o_error := None\<rparr> \<and>
    rows (acme_orders s') = rows (acme_orders s) @ [r] \<and> certificates s' = certificates s"
proof -
  let ?x = "x\<lparr>o_certificate_id := None, o_error := None\<rparr>" and ?i = "next_id (acme_orders s)"
  let ?t = "insert_row (\<lambda>n. o_id_update (\<lambda>_. n)) ?x (acme_orders s)"
  from assms(1) have get: "GetAcmeOrder E ?i (s\<lparr>tick := Suc (tick s), acme_orders := ?t\<rparr>) = (Inr r, s')"
    by (auto simp: CreateAcmeOrder_def exec_insert_def run_def Let_def split: if_splits)
  from query_row_Inr [OF get [unfolded GetAcmeOrder_def]] orders_t.find_inserted [OF assms(2), of ?x]
  show ?thesis by (auto simp: select_one_def)
qed

lemma Create_authz_keeps [simp]:
  "acme_orders (snd (CreateAcmeAuthorization E z s)) = acme_orders s"
  "acme_orders (snd (CreateAcmeChallenge E h s)) = acme_orders s"
  by (auto simp: CreateAcmeAuthorization_def CreateAcmeChallenge_def GetAcmeAuthorization_def GetAcmeChallenge_def stmt_defs)

lemma create_authorizations_keeps:
  "acme_orders (snd (create_authorizations M x t is s)) = acme_orders s"
proof (induction "is" arbitrary: s)
  case (Cons i "is")
  show ?case
    unfolding create_authorizations.simps Let_def demand_def expect_def
    using Create_authz_keeps Cons.IH
    by (auto split: attempt_splits option.splits) (metis Create_authz_keeps snd_conv)+
qed simp

lemma OrderObjectFor_state: "snd (OrderObjectFor M x s) = s\<lparr>tick := Suc (tick s)\<rparr>"
  by (auto simp: OrderObjectFor_def ListAcmeAuthorizationsByOrder_def stmt_defs)

lemma OrderObjectFor_Inr:
  "OrderObjectFor M x s = (Inr obj, s') \<Longrightarrow> oo_identifiers obj = o_identifiers x \<and> oo_status obj = o_status x \<and>
     oo_certificate obj = (case o_certificate_id x of None \<Rightarrow> [] | Some c \<Rightarrow> certURL M c) \<and> s' = s\<lparr>tick := Suc (tick s)\<rparr>"
  using OrderObjectFor_state [of M x s]
  by (auto simp: OrderObjectFor_def split: attempt_splits)

lemma requestedNotAfter_Inr:
  "requestedNotAfter M req cred t = Inr (Some na) \<Longrightarrow> t < na \<and> na \<le> add_days t (max_days M cred) + 60"
  by (auto simp: requestedNotAfter_def split: if_splits option.splits)

lemma place_order_InrD:
  assumes "place_order M a cred req idents t na s = (Inr (x, obj), s')" and "wf_table o_id (acme_orders s)"
  shows "rows (acme_orders s') = rows (acme_orders s) @ [x] \<and> o_identifiers x = idents \<and> o_account_id x = a_id a \<and>
    o_status x = AcmeStatusReady \<and> o_certificate_id x = None \<and> o_not_after x = na \<and> o_created_at x = t \<and> o_expires_at x = t + orderTTL"
proof -
  let ?x = "\<lparr>o_id = 0, o_account_id = a_id a, o_status = AcmeStatusReady, o_identifiers = idents,
          o_certificate_id = None, o_error = None, o_expires_at = t + orderTTL, o_created_at = t, o_not_after = na\<rparr>"
  from assms(1) obtain s1 s2 s3 where c: "CreateAcmeOrder (am_env M) ?x s = (Inr x, s1)"
    and z: "create_authorizations M (o_id x) t idents s1 = (Inr (), s2)"
    and obj: "OrderObjectFor M x s2 = (Inr obj, s3)" and s': "acme_orders s' = acme_orders s3"
    unfolding place_order_def by (auto dest!: acme_InrD)
  have "acme_orders s2 = acme_orders s1" using create_authorizations_keeps [of M "o_id x" t idents s1] z by simp
  with CreateAcmeOrder_Inr [OF c assms(2)] OrderObjectFor_Inr [OF obj] s' show ?thesis by auto
qed

text \<open>C28 (acme/service.go, NewOrder and requestedNotAfter): an order is placed only by a request that authenticates as a
  valid account whose credential is not disabled. It has at least one identifier, and each is a well-formed DNS name in
  the scope of the credential, in lower case and without surrounding space, in the order asked for. The order starts
  ready and without a certificate; a lifetime it asks for ends in the future and at most a minute beyond the maximum of
  the credential.\<close>

theorem NewOrder_in_scope:
  assumes "NewOrder M body s = (Inr (x, obj), s')" and "wf_table o_id (acme_orders s)"
  shows "\<exists>a cred req jws s1. authenticate M body (newOrderURL M) s = (Inr (jws, a), s1) \<and>
    DecodePayload (un_new_order (am_codec M)) \<lparr>no_identifiers = [], no_not_before = [], no_not_after = []\<rparr> jws = Some req \<and>
    cred \<in> set (rows (acme_eab_creds s)) \<and> e_id cred = a_eab_id a \<and> \<not> e_disabled cred \<and>
    rows (acme_orders s') = rows (acme_orders s) @ [x] \<and> o_account_id x = a_id a \<and>
    o_status x = AcmeStatusReady \<and> o_certificate_id x = None \<and>
    o_identifiers x \<noteq> [] \<and> list_all (in_scope cred) (o_identifiers x) \<and>
    map id_value (o_identifiers x) = map (\<lambda>i. to_lower (trim_space (id_value i))) (no_identifiers req) \<and>
    (o_not_after x = None \<or>
     (\<exists>na. o_not_after x = Some na \<and> o_created_at x < na \<and> na \<le> add_days (o_created_at x) (max_days M cred) + 60))"
proof -
  let ?E = "am_env M"
  from assms(1) obtain jws a s1 req cred s2 idents na where au: "authenticate M body (newOrderURL M) s = (Inr (jws, a), s1)"
    and req: "DecodePayload (un_new_order (am_codec M)) \<lparr>no_identifiers = [], no_not_before = [], no_not_after = []\<rparr> jws = Some req"
    and ne: "no_identifiers req \<noteq> []" and cred: "activeCred M a s1 = (Inr cred, s2)"
    and ids: "order_identifiers cred (no_identifiers req) = Inr idents"
    and na: "requestedNotAfter M req cred (now ?E s2) = Inr na"
    and place: "place_order M a cred req idents (now ?E s2) na s2 = (Inr (x, obj), s')"
    unfolding NewOrder_def Let_def by (auto dest!: acme_InrD)
  have s1: "acme_orders s1 = acme_orders s" "acme_eab_creds s1 = acme_eab_creds s"
    by (rule authenticate_InrD [OF au], simp)+
  note c = activeCred_InrD [OF cred] and i = order_identifiers_Inr [OF ids]
  have wf: "wf_table o_id (acme_orders s2)" using c s1 assms(2) by simp
  note x = place_order_InrD [OF place wf]
  have "o_not_after x = None \<or>
     (\<exists>na. o_not_after x = Some na \<and> o_created_at x < na \<and> na \<le> add_days (o_created_at x) (max_days M cred) + 60)"
    using x na requestedNotAfter_Inr [of M req cred "now ?E s2"] by (cases na) auto
  moreover have "o_identifiers x \<noteq> []" using i ne x by (cases "o_identifiers x") auto
  ultimately show ?thesis using au req c i s1 x by (intro exI conjI) auto
qed


section \<open>Finalization\<close>

lemma sameStringSet_iff: "finite a \<Longrightarrow> finite b \<Longrightarrow> sameStringSet a b \<longleftrightarrow> a = b"
  unfolding sameStringSet_def by (metis card_subset_eq subsetI)

text \<open>Every order that \<open>NewOrder\<close> places has this form, and no statement changes the identifiers of an order.\<close>

definition order_wf :: "AcmeOrder \<Rightarrow> bool" where
  "order_wf x \<longleftrightarrow> o_identifiers x \<noteq> [] \<and> list_all (\<lambda>i. validDNSIdentifier (id_value i) = None) (o_identifiers x)"

lemma accepted_no_space: "validDNSIdentifier v = None \<Longrightarrow> trim_space v = v \<and> v \<noteq> []"
proof -
  assume "validDNSIdentifier v = None"
  then have v: "accepted_name v" by (simp add: validDNSIdentifier_accepts)
  have "\<not> is_space c" if "c \<in> set v" for c
    using accepted_name_chars [OF v that] by (auto simp: label_char_def is_space_def is_digit_def)
  then show ?thesis using trim_space_no_space [of v] accepted_name_normal(4) [OF v] by auto
qed

lemma order_cn_wanted:
  assumes "order_wf x" and "\<not> csr_unfit x q"
  shows "order_cn x q \<in> wanted_names x \<and> trim_space (order_cn x q) = order_cn x q \<and> order_cn x q \<noteq> []"
proof -
  have "order_cn x q \<in> wanted_names x"
    using assms by (cases "o_identifiers x") (auto simp: order_cn_def csr_unfit_def wanted_names_def order_wf_def)
  then have "validDNSIdentifier (order_cn x q) = None"
    using assms(1) by (auto simp: wanted_names_def order_wf_def list_all_iff)
  with \<open>order_cn x q \<in> wanted_names x\<close> show ?thesis by (auto dest: accepted_no_space)
qed

text \<open>The certificate of an order: its names are exactly the identifiers, its subject is one of them and nothing else.\<close>

definition for_order :: "EABCred \<Rightarrow> AcmeOrder \<Rightarrow> Certificate \<Rightarrow> bool" where
  "for_order cred x c \<longleftrightarrow>
     (\<exists>names. c_sans c = map (\<lambda>n. ''DNS:'' @ n) names \<and> set (map to_lower names) = wanted_names x) \<and>
     c_common_name c \<in> wanted_names x \<and> c_subject c = ''CN='' @ c_common_name c \<and>
     c_requested_by c = ''acme:'' @ e_name cred \<and> c_profile c \<noteq> profile_name ProfileIntermCA \<and> c_status c = CertActive"

lemma DNString_only_cn:
  assumes "trim_space cn = cn" and "cn \<noteq> []"
  shows "DNString (PKIX (only_cn cn)) = ''CN='' @ cn \<and> pn_cn (PKIX (only_cn cn)) = cn"
proof -
  have "trim_space [] = ([] :: string)" by (simp add: trim_space_def)
  then show ?thesis using assms by (simp add: DNString_def PKIX_def only_cn_def add_value_def to_upper_def)
qed

lemma from_request_for_order:
  assumes "from_request V (finalize_issue t cred x q pem) c q'" and "ParseCSR (sv_crypto V) pem = Inr q"
    and "sound_issue V (finalize_issue t cred x q pem) s c ca issuer"
    and "order_wf x" and "\<not> csr_unfit x q"
  shows "for_order cred x c"
proof -
  let ?in = "finalize_issue t cred x q pem" and ?cn = "order_cn x q"
  note cn = order_cn_wanted [OF assms(4,5)]
  have q': "q' = q" using assms(1,2) by (simp add: from_request_def finalize_issue_def)
  have subj: "c_common_name c = ?cn" "c_subject c = ''CN='' @ ?cn"
    using assms(1) cn DNString_only_cn [of ?cn]
    by (auto simp: from_request_def finalize_issue_def only_cn_def Let_def)
  have names: "set (map to_lower (DNS (q_sans q))) = wanted_names x"
    and sans: "IPs (q_sans q) = []" "Emails (q_sans q) = []" "URIs (q_sans q) = []"
    using assms(5) by (auto simp: csr_unfit_def wanted_names_def sameStringSet_iff)
  have "DNS (q_sans q) \<noteq> []" using names cn by auto
  then have "c_sans c = Strings (q_sans q)"
    using assms(1) q' by (simp add: from_request_def finalize_issue_def Empty_def)
  then have "c_sans c = map (\<lambda>n. ''DNS:'' @ n) (DNS (q_sans q))" using sans by (simp add: Strings_def)
  then show ?thesis
    using names subj cn assms(3) unfolding for_order_def sound_issue_def finalize_issue_def by auto
qed

lemma Claim_True:
  assumes "ClaimAcmeOrderForFinalize E i s = (Inr True, s')"
  shows "certificates s' = certificates s" and "cas s' = cas s"
  using assms by (auto simp: ClaimAcmeOrderForFinalize_def set_orders_def stmt_defs split: if_splits)

text \<open>The certificate service does not touch the tables of the ACME server.\<close>

definition acme_part where
  "acme_part s = (acme_orders s, acme_accounts s, acme_eab_creds s, acme_nonces s)"

interpretation acme_kept: release_frame "\<lambda>s t. acme_part t = acme_part s"
proof unfold_locales
  show "acme_part (snd (UnrevokeCertificate E i s)) = acme_part s" for E i s
    unfolding UnrevokeCertificate_def
    by (auto simp: acme_part_def set_certs_def stmt_defs GetCertificate_def select_one_def split: attempt_splits option.splits)
qed (auto simp: acme_part_def SetCAStatus_def NextCRLNumber_def RecordCARevocation_def RevokeCertificate_def
      CreateCertificate_def SetRenewedFrom_def GetCertificate_def set_certs_def stmt_defs
      split: option.splits sum.splits)

lemma SetAcmeOrderCertificate_Inr:
  assumes "SetAcmeOrderCertificate E i c s = (Inr (), s')"
  shows "acme_orders s' = update_rows (\<lambda>x. o_id x = i)
      (\<lambda>x. x\<lparr>o_status := AcmeStatusValid, o_certificate_id := Some c\<rparr>) (acme_orders s) \<and>
    certificates s' = certificates s \<and> cas s' = cas s"
  using assms by (auto simp: SetAcmeOrderCertificate_def set_orders_def run_def Let_def split: if_splits)

lemma finalize_claimed_InrD:
  assumes "finalize_claimed M cred x q pem s = (Inr obj, s')"
  obtains res s1 s2 y where "Issue (am_ca M) (finalize_issue (now (am_env M) s) cred x q pem) s = (Inr res, s1)"
    and "SetAcmeOrderCertificate (am_env M) (o_id x) (c_id (ir_certificate res)) s1 = (Inr (), s2)"
    and "certificates s' = certificates s2" and "acme_orders s' = acme_orders s2"
    and "y \<in> set (rows (acme_orders s2))" and "o_id y = o_id x"
    and "oo_status obj = o_status y"
    and "oo_certificate obj = (case o_certificate_id y of None \<Rightarrow> [] | Some c \<Rightarrow> certURL M c)"
proof -
  let ?E = "am_env M"
  obtain r s1 where issue: "Issue (am_ca M) (finalize_issue (now ?E s) cred x q pem) s = (r, s1)"
    by (cases "Issue (am_ca M) (finalize_issue (now ?E s) cred x q pem) s")
  from assms issue obtain res where r: "r = Inr res" by (cases r) (auto simp: finalize_claimed_def Let_def)
  define log where "log = audit (am_ca M) (''acme:'' @ e_name cred) ''acme.order.finalize'' (string_of_nat (o_id x))
    (''serial='' @ c_serial_hex (ir_certificate res) @ '' cn='' @ c_common_name (ir_certificate res))"
  have k: "demand (SetAcmeOrderCertificate ?E (o_id x) (c_id (ir_certificate res)) s1) ServerInternal (\<lambda>_ s.
      demand (GetAcmeOrder ?E (o_id x) (log s)) ServerInternal (\<lambda>updated s.
      demand (OrderObjectFor M updated s) ServerInternal (\<lambda>obj s. (Inr obj, s)))) = (Inr obj, s')"
    using assms issue r by (simp add: finalize_claimed_def Let_def log_def)
  obtain s2 y s4 where
    set: "SetAcmeOrderCertificate ?E (o_id x) (c_id (ir_certificate res)) s1 = (Inr (), s2)" and
    get: "GetAcmeOrder ?E (o_id x) (log s2) = (Inr y, s4)" and obj: "OrderObjectFor M y s4 = (Inr obj, s')"
    using k by (auto dest!: demand_InrD)
  have "certificates (log s2) = certificates s2" "acme_orders (log s2) = acme_orders s2" by (simp_all add: log_def)
  with that [OF issue [unfolded r] set] GetAcmeOrder_Inr [OF get] OrderObjectFor_Inr [OF obj] show thesis by auto
qed

lemma Finalize_InrD:
  assumes "Finalize M i body s = (Inr obj, s')"
  obtains jws a s1 s2 x q pem cred s3 s4 where "authenticate M body (finalizeURL M i) s = (Inr (jws, a), s1)"
    and "GetAcmeOrder (am_env M) i s1 = (Inr x, s2)" and "o_account_id x = a_id a"
    and "o_status x = AcmeStatusReady" and "now (am_env M) s2 \<le> o_expires_at x"
    and "ParseCSR (sv_crypto (am_ca M)) pem = Inr q" and "\<not> csr_unfit x q"
    and "activeCred M a s2 = (Inr cred, s3)" and "ClaimAcmeOrderForFinalize (am_env M) (o_id x) s3 = (Inr True, s4)"
    and "finalize_claimed M cred x q pem s4 = (Inr obj, s')"
proof -
  from assms obtain jws a s1 x s2 where au: "authenticate M body (finalizeURL M i) s = (Inr (jws, a), s1)"
    and x: "GetAcmeOrder (am_env M) i s1 = (Inr x, s2)" "o_account_id x = a_id a" "o_status x = AcmeStatusReady"
    unfolding Finalize_def Let_def by (auto dest!: acme_InrD) blast
  then have t: "now (am_env M) s2 \<le> o_expires_at x"
    using assms unfolding Finalize_def Let_def by (cases "o_expires_at x < now (am_env M) s2") auto
  from assms au x t obtain pem q cred s3 s4 where "ParseCSR (sv_crypto (am_ca M)) pem = Inr q" "\<not> csr_unfit x q"
    "activeCred M a s2 = (Inr cred, s3)" "ClaimAcmeOrderForFinalize (am_env M) (o_id x) s3 = (Inr True, s4)"
    "finalize_claimed M cred x q pem s4 = (Inr obj, s')"
    unfolding Finalize_def Let_def
    by (fastforce dest!: acme_InrD split: if_splits)
  with that au x t show thesis by blast
qed



section \<open>The lifetime of a finalized order\<close>

text \<open>\<open>math.Ceil\<close> in whole days: the least number of days that reaches the end.\<close>

lemma ceil_days: "x \<le> n * d \<Longrightarrow> 0 < d \<Longrightarrow> - ((- x) div d) \<le> (n :: int)"
  using zdiv_mono1 [of "- n * d" "- x" d] nonzero_mult_div_cancel_right [of d "- n"] by simp

lemma ceil_days_reaches: "0 < d \<Longrightarrow> x \<le> - ((- x) div d) * (d :: int)"
proof -
  assume "0 < d"
  then have "(- x) div d * d \<le> - x" using minus_mod_eq_div_mult [of "- x" d] pos_mod_sign [of d "- x"] by linarith
  then show ?thesis by simp
qed

text \<open>(acme/service.go, requestedNotAfter and Finalize): a certificate whose order asked for an end is valid at least
  until then. When the order was placed by the rules of \<open>NewOrder\<close> with a credential that allows \<open>max_days\<close> days and is
  finalized later, the number of days is at least one and at most one more than the credential allows; it is within the
  maximum as soon as the minute of slack was not used or has passed.\<close>

theorem finalize_days_bound:
  assumes "o_not_after x = Some na" and "na \<le> add_days t0 n + 60" and "t0 \<le> t" and "1 \<le> n"
  shows "1 \<le> finalize_days t cred x \<and> finalize_days t cred x \<le> n + 1 \<and> na \<le> add_days t (finalize_days t cred x) \<and>
    (na - n * 86400 \<le> t \<longrightarrow> finalize_days t cred x \<le> n)"
proof -
  let ?d = "- ((- (na - t)) div 86400)"
  have d: "finalize_days t cred x = (if ?d < 1 then 1 else ?d)" using assms(1) by (simp add: finalize_days_def Let_def)
  have "na - t \<le> (n + 1) * 86400" using assms(2,3) by (simp add: add_days_def algebra_simps)
  then have up: "?d \<le> n + 1" by (rule ceil_days) simp
  have "na - t \<le> ?d * 86400" by (rule ceil_days_reaches) simp
  then have "na \<le> add_days t (finalize_days t cred x)" unfolding d add_days_def by auto
  moreover have "?d \<le> n" if "na - n * 86400 \<le> t" using that by (intro ceil_days) (simp_all add: algebra_simps)
  ultimately show ?thesis using up assms(4) unfolding d by auto
qed

theorem finalize_days_bound_witness:
  "finalize_days 0 demo_cred \<lparr>o_id = 1, o_account_id = 1, o_status = AcmeStatusReady, o_identifiers = [],
     o_certificate_id = None, o_error = None, o_expires_at = 86400, o_created_at = 0, o_not_after = Some 7776000\<rparr> \<le> 91"
proof -
  let ?x = "\<lparr>o_id = 1, o_account_id = 1, o_status = AcmeStatusReady, o_identifiers = [],
     o_certificate_id = None, o_error = None, o_expires_at = 86400, o_created_at = 0, o_not_after = Some 7776000\<rparr>"
  have "o_not_after ?x = Some 7776000" "(7776000 :: int) \<le> add_days 0 90 + 60" by (simp_all add: add_days_def)
  from finalize_days_bound [OF this] show ?thesis by simp
qed

text \<open>(acme/service.go, requestedNotAfter and Finalize): the minute of slack is rounded up to a day. An order that asks
  for the end of a credential's 90 days plus 30 seconds is accepted and, finalized at once, gets a certificate of 91
  days.\<close>

theorem slack_becomes_a_day:
  "requestedNotAfter demo_acme \<lparr>no_identifiers = [], no_not_before = [], no_not_after = ''later''\<rparr> demo_cred 1000 =
     Inr (Some (1000 + 90 * 86400 + 30)) \<and> max_days demo_acme demo_cred = 90 \<and>
   finalize_days 1005 demo_cred ((demo_order AcmeStatusReady)\<lparr>o_not_after := Some (1000 + 90 * 86400 + 30)\<rparr>) = 91"
  by code_simp


section \<open>Downloading and revoking\<close>

lemma GetAcmeOrderByCertificate_Inr:
  assumes "GetAcmeOrderByCertificate E c s = (Inr x, s')"
  shows "x \<in> set (rows (acme_orders s)) \<and> o_certificate_id x = Some c \<and> s' = s\<lparr>tick := Suc (tick s)\<rparr>"
proof -
  let ?l = "\<lambda>s. rev (sort_key o_id (filter (\<lambda>x. o_certificate_id x = Some c) (rows (acme_orders s))))"
  have "(case ?l s of [] \<Rightarrow> Inl ErrNotFound | x # _ \<Rightarrow> Inr x) = Inr x" and s': "s' = s\<lparr>tick := Suc (tick s)\<rparr>"
    using query_row_Inr [OF assms [unfolded GetAcmeOrderByCertificate_def]] by simp_all
  then have "x \<in> set (?l s)" by (cases "?l s") auto
  with s' show ?thesis by auto
qed

lemma GetCertificate_Inr:
  "GetCertificate E i s = (Inr c, s') \<Longrightarrow> c \<in> set (rows (certificates s)) \<and> c_id c = i \<and> s' = s\<lparr>tick := Suc (tick s)\<rparr>"
  unfolding GetCertificate_def by (auto dest!: query_row_Inr select_one_Inr)

lemma CertChainPEM_Inr: "CertChainPEM V c s = (Inr pem, s') \<Longrightarrow> \<exists>chain. pem = c_cert_pem c @ chain"
  unfolding CertChainPEM_def by (auto dest!: stmt_InrD split: attempt_splits)

text \<open>(acme/service.go, GetCertificatePEM): an authenticated account downloads a certificate only when an order of its
  own produced it, and gets that certificate first. For any other number the answer is notFound, whether no certificate
  has it, it was issued otherwise, or it belongs to another account: the endpoint does not tell them apart.\<close>

theorem GetCertificatePEM_own_only:
  assumes "authenticate M body (certURL M i) s = (Inr (jws, a), s1)" and "IsPostAsGet jws"
  shows "(case fst (GetCertificatePEM M i body s) of
      Inr pem \<Rightarrow> (\<exists>x c chain. x \<in> set (rows (acme_orders s)) \<and> o_certificate_id x = Some i \<and> o_account_id x = a_id a \<and>
         c \<in> set (rows (certificates s)) \<and> c_id c = i \<and> pem = c_cert_pem c @ chain)
    | Inl p \<Rightarrow> p = NotFound \<or>
        (p = ServerInternal \<and> (\<exists>x. x \<in> set (rows (acme_orders s)) \<and> o_certificate_id x = Some i \<and> o_account_id x = a_id a)))"
proof -
  let ?E = "am_env M"
  have s1: "acme_orders s1 = acme_orders s" "certificates s1 = certificates s"
    by (rule authenticate_InrD [OF assms(1)], simp)+
  obtain r s2 where q: "GetAcmeOrderByCertificate ?E i s1 = (r, s2)" by (cases "GetAcmeOrderByCertificate ?E i s1")
  have run: "GetCertificatePEM M i body s = demand (r, s2) NotFound (\<lambda>x s.
      refuse_if (o_account_id x \<noteq> a_id a) NotFound s (
      demand (GetCertificate ?E i s) NotFound (\<lambda>c s.
      demand (CertChainPEM (am_ca M) c s) ServerInternal (\<lambda>chain s. (Inr chain, s)))))"
    using assms by (simp add: GetCertificatePEM_def Let_def q)
  show ?thesis
  proof (cases "\<exists>x. r = Inr x \<and> o_account_id x = a_id a")
    case False
    then show ?thesis unfolding run by (cases r) auto
  next
    case True
    then obtain x where r: "r = Inr x" "o_account_id x = a_id a" by blast
    note x = GetAcmeOrderByCertificate_Inr [OF q [unfolded r(1)]]
    obtain rc s3 where c: "GetCertificate ?E i s2 = (rc, s3)" by (cases "GetCertificate ?E i s2")
    obtain rp s4 where pem: "CertChainPEM (am_ca M) (projr rc) s3 = (rp, s4)" by (cases "CertChainPEM (am_ca M) (projr rc) s3")
    show ?thesis
      unfolding run using r x c pem s1 GetCertificate_Inr [of ?E i s2] CertChainPEM_Inr [of "am_ca M" "projr rc" s3]
      by (cases rc; cases rp) auto
  qed
qed

lemma tick_only:
  "s' = s\<lparr>tick := n\<rparr> \<Longrightarrow> acme_accounts s' = acme_accounts s \<and> acme_orders s' = acme_orders s \<and>
     acme_eab_creds s' = acme_eab_creds s \<and> certificates s' = certificates s \<and> cas s' = cas s"
  by simp

text \<open>The account whose URL a key id is.\<close>

definition named_account :: "string \<Rightarrow> AcmeAccount \<Rightarrow> bool" where
  "named_account kid a \<longleftrightarrow> (\<exists>digits. accountURLRe kid = Some digits \<and> a_id a = sscanf_int64 digits)"

lemma revoke_signer_InrD:
  assumes "revoke_signer M p s = (Inr (jws, account), s')" and "ParseJWS (am_jose M) body = Inr p"
  shows "s' = s\<lparr>tick := tick s'\<rparr> \<and> jws = p\<lparr>pj_payload := pj_payload jws\<rparr> \<and>
    (case account of
       None \<Rightarrow> \<exists>key. pj_key_id jws = [] \<and> pj_jwk jws = Some key \<and> proved M body jws key
     | Some a \<Rightarrow> a \<in> set (rows (acme_accounts s)) \<and> a_status a = AcmeStatusValid \<and> named_account (pj_key_id jws) a \<and>
         (\<exists>key. jwk_unmarshal (am_jose M) (a_jwk_json a) = Some key \<and> proved M body jws key))"
proof (cases "pj_key_id p = []")
  case True
  then show ?thesis
    using assms ParseJWS_Inr [OF assms(2)]
    by (auto simp: revoke_signer_def Let_def proved_def Verify_def dest!: expect_InrD split: bind_splits)
next
  case False
  with assms ParseJWS_Inr [OF assms(2)] show ?thesis
    unfolding revoke_signer_def Let_def proved_def named_account_def
    by (auto simp: Verify_def dest!: pass_InrD expect_InrD ResolveAccount_InrD)
qed

definition same_credential :: "AcmeAccount \<Rightarrow> Certificate \<Rightarrow> db \<Rightarrow> bool" where
  "same_credential a c s \<longleftrightarrow>
     (\<exists>x owner. x \<in> set (rows (acme_orders s)) \<and> o_certificate_id x = Some (c_id c) \<and>
        owner \<in> set (rows (acme_accounts s)) \<and> a_id owner = o_account_id x \<and> a_eab_id owner = a_eab_id a)"

lemma revoke_actor_InrD:
  assumes "revoke_actor M account c s = (Inr actor, s')"
  shows "s' = s\<lparr>tick := tick s'\<rparr> \<and> (\<forall>a. account = Some a \<longrightarrow> same_credential a c s)"
  using assms unfolding revoke_actor_def Let_def same_credential_def
  by (cases account)
     (fastforce dest!: acme_InrD GetAcmeOrderByCertificate_Inr GetAcmeAccount_Inr GetEABCred_Inr)+

text \<open>The requester of a revocation: the holder of the certificate's own key, or a valid account of the credential whose
  order produced the certificate.\<close>

definition entitled :: "acme_service \<Rightarrow> string \<Rightarrow> ParsedJWS \<Rightarrow> db \<Rightarrow> x509 \<Rightarrow> Certificate \<Rightarrow> bool" where
  "entitled M body jws s leaf c \<longleftrightarrow>
     (\<exists>key. proved M body jws key \<and>
        (pj_key_id jws = [] \<and> pj_jwk jws = Some key \<and> equal_public_key (x_pub leaf) (jwk_key (am_jose M) key) \<or>
         (\<exists>a. a \<in> set (rows (acme_accounts s)) \<and> a_status a = AcmeStatusValid \<and> named_account (pj_key_id jws) a \<and>
            jwk_unmarshal (am_jose M) (a_jwk_json a) = Some key \<and> same_credential a c s)))"

lemma Revoke_Inr:
  assumes "Revoke V i reason actor s = (Inr (), s')" and "wf_table c_id (certificates s)"
  shows "(\<exists>t. revocation_of i s' = Some (CertRevoked, Some t, reason)) \<and> (\<forall>j. j \<noteq> i \<longrightarrow> revocation_of j s' = revocation_of j s)"
proof -
  from assms(1) obtain c s1 s2 where g: "GetCertificate (sv_env V) i s = (Inr c, s1)"
    and r: "RevokeCertificate (sv_env V) i reason s1 = (Inr (), s2)" and s': "certificates s' = certificates s2"
    unfolding Revoke_def by (auto dest!: stmt_InrD)
  note c = GetCertificate_Inr [OF g]
  let ?p = "\<lambda>c. c_id c = i \<and> c_status c \<noteq> CertRevoked"
  have n: "affected ?p (rows (certificates s)) \<noteq> 0" and s2: "certificates s2 = update_rows ?p
      (\<lambda>c. c\<lparr>c_status := CertRevoked, c_revoked_at := Some (now (sv_env V) s1), c_revoke_code := reason\<rparr>) (certificates s)"
    using r c by (auto simp: RevokeCertificate_def set_certs_def stmt_defs split: if_splits)
  then obtain d where d: "d \<in> set (rows (certificates s))" "?p d" unfolding affected_zero_iff by blast
  then have "find (\<lambda>c. c_id c = i) (rows (certificates s)) = Some d" using certs_t.find_eq_iff [OF assms(2)] by blast
  moreover have "revocation_of j s' = revocation_of j s" if "j \<noteq> i" for j
    using that s' s2 by (cases "find (\<lambda>c. c_id c = j) (rows (certificates s))")
      (auto simp: revocation_of_def find_update_where dest!: find_SomeD)
  ultimately show ?thesis using d s' s2 by (auto simp: revocation_of_def find_update_where)
qed

definition requested_reason :: "RevokeCertRequest \<Rightarrow> int" where
  "requested_reason req = (case rr_reason req of None \<Rightarrow> 0 | Some r \<Rightarrow> r)"

text \<open>The checks of a revocation that succeeded, in the order of the code.\<close>

lemma RevokeCert_InrD:
  assumes "RevokeCert M body s = (Inr (), s')"
  obtains p s1 jws account s2 req der leaf c s3 actor s4 where
    "ParseJWS (am_jose M) body = Inr p" "pj_url p = revokeCertURL M" "Consume (am_env M) (pj_nonce p) s = (True, s1)"
    "revoke_signer M p s1 = (Inr (jws, account), s2)"
    "DecodePayload (un_revoke (am_codec M)) \<lparr>rr_certificate = [], rr_reason = None\<rparr> jws = Some req"
    "RawURLDecode (rr_certificate req) = Some der" "parse_certificate (sv_crypto (am_ca M)) der = Some leaf"
    "account = None \<longrightarrow> (case pj_jwk jws of None \<Rightarrow> False | Some key \<Rightarrow> equal_public_key (x_pub leaf) (jwk_key (am_jose M) key))"
    "GetCertificateBySerial (am_env M) (SerialHex (x_serial leaf)) s2 = (Inr c, s3)"
    "c_fingerprint c = FingerprintSHA256 (sv_crypto (am_ca M)) der" "c_status c \<noteq> CertRevoked"
    "revoke_actor M account c s3 = (Inr actor, s4)"
    "\<not> (requested_reason req < 0 \<or> requested_reason req = 7 \<or> 10 < requested_reason req)"
    "Revoke (am_ca M) (c_id c) (requested_reason req) actor s4 = (Inr (), s')"
  using assms that unfolding RevokeCert_def Let_def requested_reason_def
  by (auto dest!: acme_InrD checkURL_InrD checkNonce_InrD) blast+

text \<open>C29 (acme/service.go, RevokeCert): a certificate is revoked over ACME only when the request is signed with the
  certificate's own key, which it carries, or by the valid account that its key id names, which shares the credential of
  the account whose order produced the certificate. The revoked certificate is, by serial number and fingerprint, the one
  in the certificate field of the signed payload; it was not revoked before and is revoked afterwards, with the reason of
  the payload (0 when it has none), which is one of the codes of RFC 5280; no other certificate's revocation changes.\<close>

theorem RevokeCert_entitled:
  assumes "RevokeCert M body s = (Inr (), s')" and "wf_table c_id (certificates s)"
  shows "\<exists>p jws req der leaf c t.
    ParseJWS (am_jose M) body = Inr p \<and> pj_url p = revokeCertURL M \<and> jws = p\<lparr>pj_payload := pj_payload jws\<rparr> \<and>
    DecodePayload (un_revoke (am_codec M)) \<lparr>rr_certificate = [], rr_reason = None\<rparr> jws = Some req \<and>
    RawURLDecode (rr_certificate req) = Some der \<and> parse_certificate (sv_crypto (am_ca M)) der = Some leaf \<and>
    c \<in> set (rows (certificates s)) \<and> map upper_char (c_serial_hex c) = bare_serial (SerialHex (x_serial leaf)) \<and>
    c_fingerprint c = FingerprintSHA256 (sv_crypto (am_ca M)) der \<and> entitled M body jws s leaf c \<and>
    c_status c = CertActive \<and>
    revocation_of (c_id c) s' = Some (CertRevoked, Some t, requested_reason req) \<and>
    requested_reason req \<in> {0..10} - {7} \<and>
    (\<forall>j. j \<noteq> c_id c \<longrightarrow> revocation_of j s' = revocation_of j s)"
proof -
  let ?E = "am_env M" and ?J = "am_jose M" and ?K = "sv_crypto (am_ca M)"
  from assms(1) obtain p s1 jws account s2 req der leaf c s3 actor s4 where
    p: "ParseJWS ?J body = Inr p" "pj_url p = revokeCertURL M" and n: "Consume ?E (pj_nonce p) s = (True, s1)" and
    signer: "revoke_signer M p s1 = (Inr (jws, account), s2)" and
    req: "DecodePayload (un_revoke (am_codec M)) \<lparr>rr_certificate = [], rr_reason = None\<rparr> jws = Some req"
      "RawURLDecode (rr_certificate req) = Some der" "parse_certificate ?K der = Some leaf" and
    own: "account = None \<longrightarrow> (case pj_jwk jws of None \<Rightarrow> False | Some key \<Rightarrow> equal_public_key (x_pub leaf) (jwk_key ?J key))" and
    c: "GetCertificateBySerial ?E (SerialHex (x_serial leaf)) s2 = (Inr c, s3)" and
    fp: "c_fingerprint c = FingerprintSHA256 ?K der" and st: "c_status c \<noteq> CertRevoked" and
    actor: "revoke_actor M account c s3 = (Inr actor, s4)" and
    reason: "\<not> (requested_reason req < 0 \<or> requested_reason req = 7 \<or> 10 < requested_reason req)" and
    rev: "Revoke (am_ca M) (c_id c) (requested_reason req) actor s4 = (Inr (), s')"
    by (rule RevokeCert_InrD)
  note sg = revoke_signer_InrD [OF signer p(1)] and ac = revoke_actor_InrD [OF actor]
  have s1: "acme_accounts s1 = acme_accounts s" "acme_orders s1 = acme_orders s" "certificates s1 = certificates s"
    using Consume_cases [of ?E "pj_nonce p" s] n by auto
  have s2: "acme_accounts s2 = acme_accounts s" "acme_orders s2 = acme_orders s" "certificates s2 = certificates s"
    using tick_only [OF conjunct1 [OF sg]] s1 by auto
  have s3: "s3 = s2\<lparr>tick := Suc (tick s2)\<rparr>" and mem: "c \<in> set (rows (certificates s2))"
    and serial: "map upper_char (c_serial_hex c) = bare_serial (SerialHex (x_serial leaf))"
    using query_row_Inr [OF c [unfolded GetCertificateBySerial_def]] by (auto dest: select_one_Inr)
  have s4: "certificates s4 = certificates s" using tick_only [OF conjunct1 [OF ac]] s3 s2 by auto
  have same: "same_credential a c s3 = same_credential a c s" for a using s2 s3 by (simp add: same_credential_def)
  have jws: "jws = p\<lparr>pj_payload := pj_payload jws\<rparr>" using sg by blast
  have "entitled M body jws s leaf c"
  proof (cases account)
    case None
    then show ?thesis using conjunct2 [OF conjunct2 [OF sg]] own unfolding entitled_def by (fastforce split: option.splits)
  next
    case (Some a)
    then show ?thesis using conjunct2 [OF conjunct2 [OF sg]] conjunct2 [OF ac] same s1 unfolding entitled_def by fastforce
  qed
  moreover have "\<exists>t. revocation_of (c_id c) s' = Some (CertRevoked, Some t, requested_reason req)"
    "\<forall>j. j \<noteq> c_id c \<longrightarrow> revocation_of j s' = revocation_of j s"
    using Revoke_Inr [OF rev] assms(2) s4 by (auto simp: revocation_of_def)
  moreover have "c_status c = CertActive" using st by (cases "c_status c") auto
  moreover have "requested_reason req \<in> {0..10} - {7}" using reason by auto
  moreover have "c \<in> set (rows (certificates s))" using mem s2(3) by simp
  ultimately show ?thesis
    using p req jws serial fp by metis
qed


section \<open>The example\<close>

lemma demo_acme_law: "creates_what_it_is_given (sv_crypto (am_ca demo_acme))"
  by (simp add: demo_acme_def demo_service_def demo_crypto_law)

theorem authenticate_sound_witness:
  "\<exists>jws s'. authenticate demo_acme ''order'' (newOrderURL demo_acme) (demo_acme_db [demo_account] [] []) =
     (Inr (jws, demo_account), s') \<and> fst (authenticate demo_acme ''order'' (newOrderURL demo_acme) s') = Inl BadNonce"
proof -
  let ?s = "demo_acme_db [demo_account] [] []"
  have "case authenticate demo_acme ''order'' (newOrderURL demo_acme) ?s of (Inr (jws, a), s') \<Rightarrow> a = demo_account | _ \<Rightarrow> False"
    by code_simp
  then obtain jws s' where ok: "authenticate demo_acme ''order'' (newOrderURL demo_acme) ?s = (Inr (jws, demo_account), s')"
    by (auto split: sum.splits prod.splits)
  have "unique_nonces ?s" by code_simp
  from authenticate_sound [OF ok this] ok show ?thesis by blast
qed

theorem NewAccount_needs_binding_witness:
  "\<exists>a obj s' jws key. NewAccount demo_acme ''account'' (demo_acme_db [] [] []) = (Inr (a, obj, True), s') \<and>
     proved demo_acme ''account'' jws key"
proof -
  let ?s = "demo_acme_db [] [] []"
  have "case NewAccount demo_acme ''account'' ?s of (Inr (a, obj, True), s') \<Rightarrow> True | _ \<Rightarrow> False" by code_simp
  then obtain a obj s' where ok: "NewAccount demo_acme ''account'' ?s = (Inr (a, obj, True), s')"
    by (auto split: sum.splits prod.splits bool.splits)
  have "wf_table a_id (acme_accounts ?s)" "wf_table e_id (acme_eab_creds ?s)" by code_simp+
  from NewAccount_needs_binding [OF ok this] ok show ?thesis by blast
qed

theorem NewOrder_in_scope_witness:
  "\<exists>x obj s'. NewOrder demo_acme ''order'' (demo_acme_db [demo_account] [] []) = (Inr (x, obj), s') \<and> o_identifiers x \<noteq> []"
proof -
  let ?s = "demo_acme_db [demo_account] [] []"
  have "case NewOrder demo_acme ''order'' ?s of (Inr (x, obj), s') \<Rightarrow> True | _ \<Rightarrow> False" by code_simp
  then obtain x obj s' where ok: "NewOrder demo_acme ''order'' ?s = (Inr (x, obj), s')"
    by (auto split: sum.splits prod.splits)
  have "wf_table o_id (acme_orders ?s)" by code_simp
  from NewOrder_in_scope [OF ok this] ok show ?thesis by blast
qed


theorem GetCertificatePEM_own_only_witness:
  "fst (GetCertificatePEM demo_acme 1 ''certificate''
     (demo_acme_db [demo_account] [(demo_order AcmeStatusValid)\<lparr>o_account_id := 7\<rparr>] [demo_cert 1 1 CertActive 0])) = Inl NotFound"
proof -
  let ?s = "demo_acme_db [demo_account] [(demo_order AcmeStatusValid)\<lparr>o_account_id := 7\<rparr>] [demo_cert 1 1 CertActive 0]"
  have "case authenticate demo_acme ''certificate'' (certURL demo_acme 1) ?s of
      (Inr (jws, a), s') \<Rightarrow> a = demo_account \<and> IsPostAsGet jws | _ \<Rightarrow> False" by code_simp
  then obtain jws s' where *: "authenticate demo_acme ''certificate'' (certURL demo_acme 1) ?s = (Inr (jws, demo_account), s')"
    "IsPostAsGet jws" by (auto split: sum.splits prod.splits)
  have "rows (acme_orders ?s) = [(demo_order AcmeStatusValid)\<lparr>o_account_id := 7\<rparr>]" "a_id demo_account = 1" by code_simp+
  then show ?thesis using GetCertificatePEM_own_only [OF *] by (auto split: sum.splits)
qed

theorem RevokeCert_entitled_witness:
  "\<exists>s' c leaf jws. RevokeCert demo_acme ''revoke'' (demo_acme_db [demo_account] [demo_order AcmeStatusValid]
       [(demo_cert 1 1 CertActive 0)\<lparr>c_serial_hex := ''2A'', c_fingerprint := ''6C:65:61:66''\<rparr>]) = (Inr (), s') \<and>
     entitled demo_acme ''revoke'' jws (demo_acme_db [demo_account] [demo_order AcmeStatusValid]
       [(demo_cert 1 1 CertActive 0)\<lparr>c_serial_hex := ''2A'', c_fingerprint := ''6C:65:61:66''\<rparr>]) leaf c"
proof -
  let ?s = "demo_acme_db [demo_account] [demo_order AcmeStatusValid]
       [(demo_cert 1 1 CertActive 0)\<lparr>c_serial_hex := ''2A'', c_fingerprint := ''6C:65:61:66''\<rparr>]"
  have "case RevokeCert demo_acme ''revoke'' ?s of (Inr (), s') \<Rightarrow> True | _ \<Rightarrow> False" by code_simp
  then obtain s' where ok: "RevokeCert demo_acme ''revoke'' ?s = (Inr (), s')" by (auto split: sum.splits prod.splits)
  have "wf_table c_id (certificates ?s)" by code_simp
  from RevokeCert_entitled [OF ok this] ok show ?thesis by blast
qed

end
