(* ===== verification/Acme_Concurrency.thy ===== *)
theory Acme_Concurrency
  imports Acme_Orders
begin

text \<open>
  The ACME server with several replicas on one database. The statements of all requests that run at the same
  time interleave in any order; a statement itself is atomic. \<open>trace\<close> is such an interleaving, with the
  outcomes that matter as events. What the comments of \<open>store/acme.go\<close> and \<open>acme/service.go\<close> promise for
  concurrent requests is shown of every trace: a nonce is redeemed once, an order is claimed once, and a
  credential's limit on accounts holds.
\<close>

datatype event =
  NonceIssued string | NonceRedeemed string | NoncesPurged int
| SlotReserved nat | SlotReleased nat | AccountStored nat
| OrderClaimed nat
| Silent

section \<open>Statements and their events\<close>

definition nonce_event :: "string \<Rightarrow> unit stmt \<Rightarrow> event" where
  "nonce_event n r = (if fst r = Inr () then NonceIssued n else Silent)"

definition redeem_event :: "string \<Rightarrow> bool stmt \<Rightarrow> event" where
  "redeem_event n r = (if fst r = Inr True then NonceRedeemed n else Silent)"

definition reserve_event :: "nat \<Rightarrow> bool stmt \<Rightarrow> event" where
  "reserve_event i r = (if fst r = Inr True then SlotReserved i else Silent)"

definition release_event :: "nat \<Rightarrow> unit stmt \<Rightarrow> event" where
  "release_event i r = (if fst r = Inr () then SlotReleased i else Silent)"

definition claim_event :: "nat \<Rightarrow> bool stmt \<Rightarrow> event" where
  "claim_event i r = (if fst r = Inr True then OrderClaimed i else Silent)"

text \<open>The insertion of an account is the first statement of \<open>CreateAcmeAccount\<close>; reading the row back is another.\<close>

definition insert_account :: "env \<Rightarrow> AcmeAccount \<Rightarrow> db \<Rightarrow> nat stmt" where
  "insert_account E a = exec_insert E (account_insertable (a\<lparr>a_last_used_at := None\<rparr>)) (\<lambda>s. next_id (acme_accounts s))
     (\<lambda>s. s\<lparr>acme_accounts := insert_row (\<lambda>n. a_id_update (\<lambda>_. n)) (a\<lparr>a_last_used_at := None\<rparr>) (acme_accounts s)\<rparr>)"

definition stored_event :: "nat \<Rightarrow> nat stmt \<Rightarrow> event" where
  "stored_event i r = (case fst r of Inr _ \<Rightarrow> AccountStored i | Inl _ \<Rightarrow> Silent)"

lemma CreateAcmeAccount_insert:
  "CreateAcmeAccount E a s = attempt (insert_account E a s) (\<lambda>e s. (Inl e, s)) (\<lambda>i s. GetAcmeAccount E i s)"
  by (simp add: CreateAcmeAccount_def insert_account_def Let_def)

text \<open>Likewise for orders and for credentials.\<close>

definition insert_order :: "env \<Rightarrow> AcmeOrder \<Rightarrow> db \<Rightarrow> nat stmt" where
  "insert_order E x = exec_insert E (\<lambda>s. \<exists>a \<in> set (rows (acme_accounts s)). a_id a = o_account_id x)
     (\<lambda>s. next_id (acme_orders s))
     (\<lambda>s. s\<lparr>acme_orders := insert_row (\<lambda>n. o_id_update (\<lambda>_. n)) (x\<lparr>o_certificate_id := None, o_error := None\<rparr>) (acme_orders s)\<rparr>)"

lemma CreateAcmeOrder_insert:
  "CreateAcmeOrder E x s = attempt (insert_order E x s) (\<lambda>e s. (Inl e, s)) (\<lambda>i s. GetAcmeOrder E i s)"
  by (simp add: CreateAcmeOrder_def insert_order_def Let_def)

definition insert_cred :: "env \<Rightarrow> EABCred \<Rightarrow> db \<Rightarrow> nat stmt" where
  "insert_cred E e =
     (let e' = e\<lparr>e_profile := nz (e_profile e) ''server'', e_account_count := 0, e_last_used_at := None\<rparr> in
      exec_insert E (eab_insertable e') (\<lambda>s. next_id (acme_eab_creds s))
        (\<lambda>s. s\<lparr>acme_eab_creds := insert_row (\<lambda>n. e_id_update (\<lambda>_. n)) e' (acme_eab_creds s)\<rparr>))"

lemma CreateEABCred_insert:
  "CreateEABCred E e s = attempt (insert_cred E e s) (\<lambda>x s. (Inl x, s)) (\<lambda>i s. GetEABCred E i s)"
  by (simp add: CreateEABCred_def insert_cred_def Let_def)

text \<open>One statement of any request. \<open>other\<close> covers all that leave nonces, orders, accounts and credentials alone: reads,
  authorizations, challenges, the audit log and every statement of the certificate service. \<open>SetAcmeOrderStatus\<close>, which
  nothing in the program calls, is left out.\<close>

inductive stmt_step :: "env \<Rightarrow> db \<Rightarrow> event \<Rightarrow> db \<Rightarrow> bool" for E where
  other: "acme_part t = acme_part s \<Longrightarrow> stmt_step E s Silent t"
| new_nonce: "r = CreateAcmeNonce E n x s \<Longrightarrow> stmt_step E s (nonce_event n r) (snd r)"
| redeem: "r = ConsumeAcmeNonce E n x s \<Longrightarrow> stmt_step E s (redeem_event n r) (snd r)"
| purge: "stmt_step E s (NoncesPurged x) (snd (PurgeExpiredAcmeNonces E x s))"
| reserve: "r = ReserveEABAccountSlot E i s \<Longrightarrow> stmt_step E s (reserve_event i r) (snd r)"
| release: "r = ReleaseEABAccountSlot E i s \<Longrightarrow> stmt_step E s (release_event i r) (snd r)"
| insert_acc: "r = insert_account E a s \<Longrightarrow> stmt_step E s (stored_event (a_eab_id a) r) (snd r)"
| acc_status: "stmt_step E s Silent (snd (SetAcmeAccountStatus E i st s))"
| acc_contact: "stmt_step E s Silent (snd (SetAcmeAccountContact E i cs s))"
| acc_touch: "stmt_step E s Silent (snd (TouchAcmeAccountUsed E i s))"
| disable: "stmt_step E s Silent (snd (SetEABCredDisabled E i b s))"
| new_cred: "stmt_step E s Silent (snd (insert_cred E e s))"
| delete_cred: "stmt_step E s Silent (snd (DeleteEABCred E i s))"
| new_order: "stmt_step E s Silent (snd (insert_order E x s))"
| order_error: "stmt_step E s Silent (snd (SetAcmeOrderError E i p s))"
| claim: "r = ClaimAcmeOrderForFinalize E i s \<Longrightarrow> stmt_step E s (claim_event i r) (snd r)"
| order_cert: "stmt_step E s Silent (snd (SetAcmeOrderCertificate E i c s))"

inductive_cases stmt_stepE: "stmt_step E s e t"

inductive trace :: "env \<Rightarrow> db \<Rightarrow> event list \<Rightarrow> db \<Rightarrow> bool" for E where
  trace_nil: "trace E s [] s"
| trace_step: "trace E s es t \<Longrightarrow> stmt_step E t e u \<Longrightarrow> trace E s (es @ [e]) u"

lemmas event_defs = nonce_event_def redeem_event_def reserve_event_def release_event_def claim_event_def stored_event_def


lemmas acme_stmt_defs = CreateAcmeNonce_def ConsumeAcmeNonce_def PurgeExpiredAcmeNonces_def ReserveEABAccountSlot_def
  ReleaseEABAccountSlot_def insert_account_def SetAcmeAccountStatus_def SetAcmeAccountContact_def
  TouchAcmeAccountUsed_def SetEABCredDisabled_def insert_cred_def DeleteEABCred_def insert_order_def
  SetAcmeOrderError_def ClaimAcmeOrderForFinalize_def SetAcmeOrderCertificate_def
  set_creds_def set_accounts_def set_orders_def stmt_defs

text \<open>What each statement leaves alone.\<close>

lemma nonces_kept [simp]:
  "acme_nonces (snd (ReserveEABAccountSlot E i s)) = acme_nonces s"
  "acme_nonces (snd (ReleaseEABAccountSlot E i s)) = acme_nonces s"
  "acme_nonces (snd (insert_account E a s)) = acme_nonces s"
  "acme_nonces (snd (SetAcmeAccountStatus E i st s)) = acme_nonces s"
  "acme_nonces (snd (SetAcmeAccountContact E i cs s)) = acme_nonces s"
  "acme_nonces (snd (TouchAcmeAccountUsed E i s)) = acme_nonces s"
  "acme_nonces (snd (SetEABCredDisabled E i b s)) = acme_nonces s"
  "acme_nonces (snd (insert_cred E e s)) = acme_nonces s"
  "acme_nonces (snd (DeleteEABCred E i s)) = acme_nonces s"
  "acme_nonces (snd (insert_order E x' s)) = acme_nonces s"
  "acme_nonces (snd (SetAcmeOrderError E i p s)) = acme_nonces s"
  "acme_nonces (snd (ClaimAcmeOrderForFinalize E i s)) = acme_nonces s"
  "acme_nonces (snd (SetAcmeOrderCertificate E i c s)) = acme_nonces s"
  by (auto simp: acme_stmt_defs)

lemma orders_kept [simp]:
  "acme_orders (snd (CreateAcmeNonce E n x s)) = acme_orders s"
  "acme_orders (snd (ConsumeAcmeNonce E n x s)) = acme_orders s"
  "acme_orders (snd (PurgeExpiredAcmeNonces E x s)) = acme_orders s"
  "acme_orders (snd (ReserveEABAccountSlot E i s)) = acme_orders s"
  "acme_orders (snd (ReleaseEABAccountSlot E i s)) = acme_orders s"
  "acme_orders (snd (insert_account E a s)) = acme_orders s"
  "acme_orders (snd (SetAcmeAccountStatus E i st s)) = acme_orders s"
  "acme_orders (snd (SetAcmeAccountContact E i cs s)) = acme_orders s"
  "acme_orders (snd (TouchAcmeAccountUsed E i s)) = acme_orders s"
  "acme_orders (snd (SetEABCredDisabled E i b s)) = acme_orders s"
  "acme_orders (snd (insert_cred E e s)) = acme_orders s"
  "acme_orders (snd (DeleteEABCred E i s)) = acme_orders s"
  by (auto simp: acme_stmt_defs)

definition registrations where
  "registrations s = (acme_eab_creds s, map a_eab_id (rows (acme_accounts s)))"

lemma registrations_kept [simp]:
  "registrations (snd (CreateAcmeNonce E n x s)) = registrations s"
  "registrations (snd (ConsumeAcmeNonce E n x s)) = registrations s"
  "registrations (snd (PurgeExpiredAcmeNonces E x s)) = registrations s"
  "registrations (snd (SetAcmeAccountStatus E i st s)) = registrations s"
  "registrations (snd (SetAcmeAccountContact E i cs s)) = registrations s"
  "registrations (snd (TouchAcmeAccountUsed E i s)) = registrations s"
  "registrations (snd (insert_order E x' s)) = registrations s"
  "registrations (snd (SetAcmeOrderError E i p s)) = registrations s"
  "registrations (snd (ClaimAcmeOrderForFinalize E i s)) = registrations s"
  "registrations (snd (SetAcmeOrderCertificate E i c s)) = registrations s"
  by (auto simp: registrations_def acme_stmt_defs map_update_where)


section \<open>A nonce is redeemed once\<close>

definition held :: "string \<Rightarrow> db \<Rightarrow> nat" where
  "held n s = (if n \<in> n_nonce ` set (acme_nonces s) then 1 else 0)"

lemma held_delete_le: "acme_nonces t = delete_where p (acme_nonces s) \<Longrightarrow> held n t \<le> held n s"
  by (auto simp: held_def delete_where_def)

lemma unique_delete: "unique_nonces s \<Longrightarrow> acme_nonces t = delete_where p (acme_nonces s) \<Longrightarrow> unique_nonces t"
  by (auto simp: unique_nonces_def delete_where_def distinct_map_filter)

lemma unique_nonce_eq:
  "unique_nonces s \<Longrightarrow> y \<in> set (acme_nonces s) \<Longrightarrow> z \<in> set (acme_nonces s) \<Longrightarrow> n_nonce z = n_nonce y \<Longrightarrow> z = y"
  by (simp add: unique_nonces_def distinct_map inj_on_def)

lemma redeem_step:
  assumes "unique_nonces s" and "r = ConsumeAcmeNonce E m x s"
  shows "unique_nonces (snd r) \<and>
    of_bool (redeem_event m r = NonceRedeemed n) + held n (snd r) \<le> held n s"
proof -
  let ?p = "\<lambda>y. n_nonce y = m \<and> x < n_expires_at y"
  consider "r = (Inl ErrIO, s\<lparr>tick := Suc (tick s)\<rparr>)"
    | "r = (Inr (affected ?p (acme_nonces s) = 1), s\<lparr>tick := Suc (tick s), acme_nonces := delete_where ?p (acme_nonces s)\<rparr>)"
    using assms(2) by (cases "fault E (tick s)") (auto simp: ConsumeAcmeNonce_def stmt_defs)
  then show ?thesis
  proof cases
    case 1
    then show ?thesis using assms(1) by (auto simp: unique_nonces_def held_def redeem_event_def)
  next
    case 2
    then have t: "acme_nonces (snd r) = delete_where ?p (acme_nonces s)" by simp
    show ?thesis
    proof (cases "redeem_event m r = NonceRedeemed n")
      case True
      then have "affected ?p (acme_nonces s) = 1" "m = n" using 2 by (auto simp: redeem_event_def split: if_splits)
      then obtain y where y: "y \<in> set (acme_nonces s)" "?p y"
        using affected_nonce [OF assms(1), of m "\<lambda>y. x < n_expires_at y"] by blast
      have "n \<notin> n_nonce ` set (acme_nonces (snd r))"
      proof
        assume "n \<in> n_nonce ` set (acme_nonces (snd r))"
        then obtain z where z: "z \<in> set (acme_nonces s)" "\<not> ?p z" "n_nonce z = n"
          unfolding t by (auto simp: delete_where_def)
        with unique_nonce_eq [OF assms(1) y(1) z(1)] y(2) \<open>m = n\<close> show False by simp
      qed
      then have "held n (snd r) = 0" "held n s = 1" using y \<open>m = n\<close> by (auto simp: held_def)
      then show ?thesis using unique_delete [OF assms(1) t] True by simp
    next
      case False
      then show ?thesis using unique_delete [OF assms(1) t] held_delete_le [OF t] by simp
    qed
  qed
qed

lemma nonce_step:
  assumes "stmt_step E s e t" and "unique_nonces s"
  shows "unique_nonces t \<and>
    of_bool (e = NonceRedeemed n) + held n t \<le> of_bool (e = NonceIssued n) + held n s"
  using assms
proof cases
  case (new_nonce r m x)
  then show ?thesis
    using assms(2) by (auto simp: CreateAcmeNonce_def nonce_event_def unique_nonces_def held_def run_def Let_def)
next
  case (redeem r m x)
  then show ?thesis
    using redeem_step [OF assms(2) redeem(3), of n] by (metis trans_le_add2)
next
  case (purge x)
  then have "acme_nonces t = acme_nonces s \<or> acme_nonces t = delete_where (\<lambda>y. n_expires_at y \<le> x) (acme_nonces s)"
    by (auto simp: PurgeExpiredAcmeNonces_def stmt_defs)
  then show ?thesis
    using purge assms(2) unique_delete [OF assms(2)] held_delete_le by (auto simp: unique_nonces_def held_def delete_where_def)
qed (auto simp: acme_part_def unique_nonces_def held_def event_defs split: sum.splits)

text \<open>C6 (acme/nonce.go; store/acme.go, ConsumeAcmeNonce): whatever the replicas do at the same time, a nonce is redeemed
  at most as often as it was handed out, so two requests with one nonce never both pass.\<close>

theorem nonce_redeemed_once:
  assumes "trace E s es t" and "unique_nonces s"
  shows "count_list es (NonceRedeemed n) \<le> count_list es (NonceIssued n) + held n s"
proof -
  have "unique_nonces t \<and> count_list es (NonceRedeemed n) + held n t \<le> count_list es (NonceIssued n) + held n s"
    using assms
  proof induction
    case (trace_step s es t e u)
    then show ?case using nonce_step [of E t e u n] by (auto simp: of_bool_def split: if_splits)
  qed simp
  then show ?thesis by simp
qed


section \<open>An order is claimed once\<close>

definition claimable :: "nat \<Rightarrow> db \<Rightarrow> nat" where
  "claimable i s = of_bool (\<exists>x \<in> set (rows (acme_orders s)). o_id x = i \<and> o_status x = AcmeStatusReady)"

definition settled :: "nat \<Rightarrow> db \<Rightarrow> bool" where
  "settled i s \<longleftrightarrow> (\<exists>x \<in> set (rows (acme_orders s)). o_id x = i \<and> o_status x = AcmeStatusValid)"

text \<open>The keys of new orders are fresh, so an order that is not ready now never becomes ready.\<close>

definition claims_left :: "nat \<Rightarrow> db \<Rightarrow> nat" where
  "claims_left i s = (if i < next_id (acme_orders s) then claimable i s else 1)"

definition orders_below :: "db \<Rightarrow> bool" where
  "orders_below s \<longleftrightarrow> (\<forall>x \<in> set (rows (acme_orders s)). o_id x < next_id (acme_orders s))"

lemma settled_update:
  assumes "acme_orders t = update_rows q f (acme_orders s)" and "\<And>y. o_id (f y) = o_id y"
    and "\<And>y. q y \<Longrightarrow> o_status y = AcmeStatusValid \<Longrightarrow> o_status (f y) = AcmeStatusValid" and "settled k s"
  shows "settled k t"
proof -
  from assms(4) obtain x where x: "x \<in> set (rows (acme_orders s))" "o_id x = k" "o_status x = AcmeStatusValid"
    by (auto simp: settled_def)
  have "o_id (if q x then f x else x) = k \<and> o_status (if q x then f x else x) = AcmeStatusValid"
    using x assms(2,3) by simp
  then show ?thesis unfolding settled_def assms(1) rows_update_rows bex_update_where using x(1) by blast
qed

lemma claim_result:
  assumes "r = ClaimAcmeOrderForFinalize E i s"
  obtains "r = (Inl ErrIO, s\<lparr>tick := Suc (tick s)\<rparr>)"
  | "fst r = Inr (affected (\<lambda>x. o_id x = i \<and> o_status x = AcmeStatusReady) (rows (acme_orders s)) = 1)"
    "acme_orders (snd r) = update_rows (\<lambda>x. o_id x = i \<and> o_status x = AcmeStatusReady)
       (\<lambda>x. x\<lparr>o_status := AcmeStatusProcessing\<rparr>) (acme_orders s)"
  using assms by (cases "fault E (tick s)") (auto simp: ClaimAcmeOrderForFinalize_def set_orders_def stmt_defs)

lemma claim_step:
  assumes "r = ClaimAcmeOrderForFinalize E i s" and "orders_below s"
  shows "orders_below (snd r) \<and> of_bool (claim_event i r = OrderClaimed k) + claims_left k (snd r) \<le> claims_left k s \<and>
    (settled k s \<longrightarrow> settled k (snd r))"
proof (rule claim_result [OF assms(1)])
  assume "r = (Inl ErrIO, s\<lparr>tick := Suc (tick s)\<rparr>)"
  then show ?thesis using assms(2) by (simp add: orders_below_def claim_event_def claims_left_def claimable_def settled_def)
next
  let ?p = "\<lambda>x. o_id x = i \<and> o_status x = AcmeStatusReady"
  assume r: "fst r = Inr (affected ?p (rows (acme_orders s)) = 1)"
    "acme_orders (snd r) = update_rows ?p (\<lambda>x. x\<lparr>o_status := AcmeStatusProcessing\<rparr>) (acme_orders s)"
  have left: "claimable k (snd r) = (if k = i then 0 else claimable k s)"
    unfolding claimable_def r(2) rows_update_rows bex_update_where by (cases "k = i") (auto split: if_splits)
  have "of_bool (claim_event i r = OrderClaimed k) + claims_left k (snd r) \<le> claims_left k s"
  proof (cases "claim_event i r = OrderClaimed k")
    case True
    then have k: "k = i" and "affected ?p (rows (acme_orders s)) = 1" using r(1) by (auto simp: claim_event_def split: if_splits)
    then have "affected ?p (rows (acme_orders s)) \<noteq> 0" by simp
    then obtain x where x: "x \<in> set (rows (acme_orders s))" "?p x" unfolding affected_zero_iff by blast
    then have "claimable i s = 1" "i < next_id (acme_orders s)" using assms(2) by (auto simp: claimable_def orders_below_def)
    then show ?thesis using left k True r(2) by (simp add: claims_left_def)
  next
    case False
    then show ?thesis using left r(2) by (auto simp: claims_left_def)
  qed
  moreover have "settled k s \<longrightarrow> settled k (snd r)"
    using settled_update [OF r(2)] by simp
  moreover have "orders_below (snd r)"
    using assms(2) unfolding orders_below_def r(2) rows_update_rows ball_update_where by auto
  ultimately show ?thesis by blast
qed

text \<open>The other statements on orders.\<close>

lemma order_step:
  assumes "t = snd (insert_order E x s) \<or> t = snd (SetAcmeOrderError E i p s) \<or> t = snd (SetAcmeOrderCertificate E i c s)"
    and "orders_below s"
  shows "orders_below t \<and> claims_left k t \<le> claims_left k s \<and> (settled k s \<longrightarrow> settled k t)"
proof -
  let ?x = "x\<lparr>o_certificate_id := None, o_error := None\<rparr>"
  consider "acme_orders t = acme_orders s"
    | "acme_orders t = insert_row (\<lambda>n. o_id_update (\<lambda>_. n)) ?x (acme_orders s)"
    | q f where "acme_orders t = update_rows q f (acme_orders s)" "\<And>y. o_id (f y) = o_id y"
      "\<And>y. o_status (f y) \<noteq> AcmeStatusReady" "\<And>y. q y \<Longrightarrow> o_status y = AcmeStatusValid \<Longrightarrow> o_status (f y) = AcmeStatusValid"
    using assms(1)
  proof (elim disjE)
    assume "t = snd (insert_order E x s)"
    then have "acme_orders t = acme_orders s \<or> acme_orders t = insert_row (\<lambda>n. o_id_update (\<lambda>_. n)) ?x (acme_orders s)"
      by (auto simp: insert_order_def stmt_defs)
    then show thesis using that(1,2) by blast
  next
    assume "t = snd (SetAcmeOrderError E i p s)"
    then have "acme_orders t = acme_orders s \<or>
      acme_orders t = update_rows (\<lambda>x. o_id x = i \<and> o_status x \<noteq> AcmeStatusValid)
        (\<lambda>x. x\<lparr>o_status := AcmeStatusInvalid, o_error := Some p\<rparr>) (acme_orders s)"
      by (auto simp: SetAcmeOrderError_def set_orders_def stmt_defs)
    then show thesis using that(1) that(3) [of _ "\<lambda>x. x\<lparr>o_status := AcmeStatusInvalid, o_error := Some p\<rparr>"] by force
  next
    assume "t = snd (SetAcmeOrderCertificate E i c s)"
    then have "acme_orders t = acme_orders s \<or>
      acme_orders t = update_rows (\<lambda>x. o_id x = i)
        (\<lambda>x. x\<lparr>o_status := AcmeStatusValid, o_certificate_id := Some c\<rparr>) (acme_orders s)"
      by (auto simp: SetAcmeOrderCertificate_def set_orders_def stmt_defs)
    then show thesis using that(1) that(3) [of _ "\<lambda>x. x\<lparr>o_status := AcmeStatusValid, o_certificate_id := Some c\<rparr>"] by force
  qed
  then show ?thesis
  proof cases
    case 1
    then show ?thesis using assms(2) by (simp add: orders_below_def claims_left_def claimable_def settled_def)
  next
    case 2
    then show ?thesis using assms(2) by (auto simp: orders_below_def claims_left_def claimable_def settled_def less_Suc_eq)
  next
    case 3
    have "settled k s \<longrightarrow> settled k t"
      using settled_update [OF 3(1,2,4)] by blast
    moreover have "claimable k t \<le> claimable k s"
      unfolding claimable_def 3(1) rows_update_rows bex_update_where using 3(3) by (auto split: if_splits)
    moreover have "orders_below t"
      using assms(2) 3(2) unfolding orders_below_def 3(1) rows_update_rows ball_update_where by auto
    ultimately show ?thesis using 3(1) by (simp add: claims_left_def)
  qed
qed

lemma orders_step:
  assumes "stmt_step E s e t" and "orders_below s"
  shows "orders_below t \<and> of_bool (e = OrderClaimed k) + claims_left k t \<le> claims_left k s \<and> (settled k s \<longrightarrow> settled k t)"
  using assms
proof cases
  case (claim r i)
  then show ?thesis using claim_step [OF claim(3) assms(2), of k] by simp
next
  case (new_order x)
  then show ?thesis using order_step [of t E x s] assms(2) by simp
next
  case (order_error i p)
  then show ?thesis using order_step [of t E _ s i p] assms(2) by simp
next
  case (order_cert i c)
  then show ?thesis using order_step [of t E _ s i _ c] assms(2) by simp
qed (auto simp: acme_part_def orders_below_def claims_left_def claimable_def settled_def event_defs split: sum.splits)

text \<open>C5 (store/acme.go, ClaimAcmeOrderForFinalize, SetAcmeOrderError and SetAcmeOrderCertificate): of any number of
  requests that finalize an order at the same time, at most one gets to issue a certificate; and an order that has its
  certificate stays valid, whatever the requests that lost report.\<close>

theorem order_claimed_once:
  assumes "trace E s es t" and "orders_below s"
  shows "count_list es (OrderClaimed i) \<le> 1 \<and> (settled i s \<longrightarrow> settled i t)"
proof -
  have "orders_below t \<and> count_list es (OrderClaimed i) + claims_left i t \<le> claims_left i s \<and> (settled i s \<longrightarrow> settled i t)"
    using assms
  proof induction
    case (trace_step s es t e u)
    then show ?case using orders_step [of E t e u i] by (auto simp: of_bool_def split: if_splits)
  qed simp
  moreover have "claims_left i s \<le> 1" by (simp add: claims_left_def claimable_def)
  ultimately show ?thesis by linarith
qed


section \<open>The limit on the accounts of a credential\<close>

text \<open>A request stores an account, or gives its slot back, only after it reserved one: in every prefix of the
  interleaving there are enough reservations.\<close>

definition balance :: "nat \<Rightarrow> event list \<Rightarrow> int" where
  "balance i es = int (count_list es (SlotReserved i)) - int (count_list es (SlotReleased i)) - int (count_list es (AccountStored i))"

definition disciplined :: "nat \<Rightarrow> event list \<Rightarrow> bool" where
  "disciplined i es \<longleftrightarrow> (\<forall>n. 0 \<le> balance i (take n es))"

lemma disciplined_snoc: "disciplined i (es @ [e]) \<longleftrightarrow> disciplined i es \<and> 0 \<le> balance i (es @ [e])"
proof
  assume *: "disciplined i (es @ [e])"
  have "0 \<le> balance i (take n es)" for n
    using * [unfolded disciplined_def, rule_format, of "min n (length es)"] by (simp add: min_def split: if_splits)
  moreover have "0 \<le> balance i (es @ [e])"
    using * [unfolded disciplined_def, rule_format, of "Suc (length es)"] by simp
  ultimately show "disciplined i es \<and> 0 \<le> balance i (es @ [e])" by (simp add: disciplined_def)
next
  assume "disciplined i es \<and> 0 \<le> balance i (es @ [e])"
  then show "disciplined i (es @ [e])" by (auto simp: disciplined_def take_Cons' split: if_splits)
qed

lemma disciplined_nil [simp]: "disciplined i []"
  by (simp add: disciplined_def balance_def)

text \<open>Requests that keep to this keep to it together.\<close>

lemma balance_append: "balance i (xs @ ys) = balance i xs + balance i ys"
  by (simp add: balance_def)

lemma balance_shuffle: "es \<in> shuffles xs ys \<Longrightarrow> balance i es = balance i xs + balance i ys"
proof (induction xs ys arbitrary: es rule: shuffles.induct)
  case (3 x xs y ys)
  have c: "balance i (z # zs) = balance i [z] + balance i zs" for z zs using balance_append [of i "[z]" zs] by simp
  from 3 consider zs where "es = x # zs" "zs \<in> shuffles xs (y # ys)" | zs where "es = y # zs" "zs \<in> shuffles (x # xs) ys"
    by auto
  then show ?case
  proof cases
    case 1
    with 3 c [of x zs] c [of x xs] show ?thesis by simp
  next
    case 2
    with 3 c [of y zs] c [of y ys] show ?thesis by simp
  qed
qed (simp_all add: balance_def)

lemma take_shuffle: "es \<in> shuffles xs ys \<Longrightarrow> \<exists>j k. take n es \<in> shuffles (take j xs) (take k ys)"
proof (induction xs ys arbitrary: es n rule: shuffles.induct)
  case (1 ys)
  then show ?case by (intro exI [of _ 0] exI [of _ n]) simp
next
  case (2 xs)
  then show ?case by (intro exI [of _ n] exI [of _ 0]) simp
next
  case (3 x xs y ys)
  show ?case
  proof (cases n)
    case 0
    then show ?thesis by (intro exI [of _ 0] exI [of _ 0]) simp
  next
    case (Suc m)
    from 3(3) consider zs where "es = x # zs" "zs \<in> shuffles xs (y # ys)" | zs where "es = y # zs" "zs \<in> shuffles (x # xs) ys"
      by auto
    then show ?thesis
    proof cases
      case 1
      from 3(1) [OF 1(2), of m] obtain j k where "take m zs \<in> shuffles (take j xs) (take k (y # ys))" by blast
      then have "take n es \<in> shuffles (take (Suc j) (x # xs)) (take k (y # ys))"
        using 1 Suc by (simp add: Cons_in_shuffles_leftI)
      then show ?thesis by blast
    next
      case 2
      from 3(2) [OF 2(2), of m] obtain j k where "take m zs \<in> shuffles (take j (x # xs)) (take k ys)" by blast
      then have "take n es \<in> shuffles (take j (x # xs)) (take (Suc k) (y # ys))"
        using 2 Suc by (simp add: Cons_in_shuffles_rightI)
      then show ?thesis by blast
    qed
  qed
qed

lemma disciplined_shuffle:
  assumes "disciplined i xs" and "disciplined i ys" and "es \<in> shuffles xs ys"
  shows "disciplined i es"
  unfolding disciplined_def
proof
  fix n
  obtain j k where "take n es \<in> shuffles (take j xs) (take k ys)" using take_shuffle [OF assms(3)] by blast
  then have "balance i (take n es) = balance i (take j xs) + balance i (take k ys)" by (rule balance_shuffle)
  with assms(1,2) show "0 \<le> balance i (take n es)" by (simp add: disciplined_def)
qed


definition accounts_of :: "nat \<Rightarrow> db \<Rightarrow> nat" where
  "accounts_of i s = count_list (map a_eab_id (rows (acme_accounts s))) i"

definition reserved :: "nat \<Rightarrow> event list \<Rightarrow> int" where
  "reserved i es = int (count_list es (SlotReserved i)) - int (count_list es (SlotReleased i))"

text \<open>The books of credential \<open>i\<close>, which started with \<open>c\<close> slots taken of \<open>m\<close> and \<open>n\<close> accounts.\<close>

definition tally :: "nat \<Rightarrow> int \<Rightarrow> int \<Rightarrow> nat \<Rightarrow> event list \<Rightarrow> db \<Rightarrow> bool" where
  "tally i m c n es t \<longleftrightarrow>
     wf_table e_id (acme_eab_creds t) \<and> i < next_id (acme_eab_creds t) \<and>
     (case find (\<lambda>e. e_id e = i) (rows (acme_eab_creds t)) of
        None \<Rightarrow> accounts_of i t = 0
      | Some e \<Rightarrow> e_max_accounts e = m \<and> e_account_count e = c + reserved i es \<and> e_account_count e \<le> m \<and>
                  accounts_of i t = n + count_list es (AccountStored i))"

lemma accounts_of_registrations: "accounts_of i s = count_list (snd (registrations s)) i"
  by (simp add: accounts_of_def registrations_def)

lemma tally_same:
  assumes "tally i m c n es t" and "registrations u = registrations t"
    and "e \<notin> {SlotReserved i, SlotReleased i, AccountStored i}"
  shows "tally i m c n (es @ [e]) u"
proof -
  have "acme_eab_creds u = acme_eab_creds t" "accounts_of i u = accounts_of i t"
    using assms(2) by (simp_all add: accounts_of_registrations) (simp_all add: registrations_def)
  then show ?thesis using assms(1,3) by (auto simp: tally_def reserved_def split: option.splits)
qed

text \<open>An update of the credentials that keeps keys and limits and changes the count by \<open>d\<close>.\<close>

lemma tally_update:
  assumes "tally i m c n es t" and "acme_eab_creds u = update_rows p f (acme_eab_creds t)"
    and "acme_accounts u = acme_accounts t" and "\<And>r. e_id (f r) = e_id r" and "\<And>r. e_max_accounts (f r) = e_max_accounts r"
    and "\<And>r. find (\<lambda>e. e_id e = i) (rows (acme_eab_creds t)) = Some r \<Longrightarrow>
      e_account_count (if p r then f r else r) = c + reserved i (es @ [e]) \<and> e_account_count (if p r then f r else r) \<le> m"
    and "e \<noteq> AccountStored i"
  shows "tally i m c n (es @ [e]) u"
proof -
  have "wf_table e_id (acme_eab_creds u)"
    unfolding assms(2) using assms(1,4) by (intro eab_t.wf_update) (auto simp: tally_def)
  moreover have "find (\<lambda>e. e_id e = i) (rows (acme_eab_creds u)) =
      map_option (\<lambda>r. if p r then f r else r) (find (\<lambda>e. e_id e = i) (rows (acme_eab_creds t)))"
    unfolding assms(2) using assms(4) by (intro eab_t.find_updated)
  moreover have "accounts_of i u = accounts_of i t" by (simp add: accounts_of_def assms(3))
  ultimately show ?thesis
    using assms(1,5,6,7) by (auto simp: tally_def assms(2) split: option.splits)
qed

lemma tally_reserve:
  assumes "tally i m c n es t" and "0 < m" and "r = ReserveEABAccountSlot E j t"
  shows "tally i m c n (es @ [reserve_event j r]) (snd r)"
proof (cases "fault E (tick t)")
  case True
  then have "r = (Inl ErrIO, t\<lparr>tick := Suc (tick t)\<rparr>)" using assms(3) by (simp add: ReserveEABAccountSlot_def stmt_defs)
  then show ?thesis using tally_same [OF assms(1)] by (simp add: reserve_event_def registrations_def)
next
  case False
  let ?p = "\<lambda>e. e_id e = j \<and> (e_max_accounts e = 0 \<or> e_account_count e < e_max_accounts e)"
  let ?f = "\<lambda>e. e\<lparr>e_account_count := e_account_count e + 1, e_last_used_at := Some (now E t)\<rparr>"
  have r: "fst r = Inr (affected ?p (rows (acme_eab_creds t)) = 1)"
    "acme_eab_creds (snd r) = update_rows ?p ?f (acme_eab_creds t)" "acme_accounts (snd r) = acme_accounts t"
    using False assms(3) by (simp_all add: ReserveEABAccountSlot_def set_creds_def stmt_defs)
  have wf: "wf_table e_id (acme_eab_creds t)" using assms(1) by (simp add: tally_def)
  have one: "affected ?p (rows (acme_eab_creds t)) = 1 \<longleftrightarrow> ?p e"
    if e: "find (\<lambda>e. e_id e = j) (rows (acme_eab_creds t)) = Some e" for e
  proof -
    have mem: "e \<in> set (rows (acme_eab_creds t))" "e_id e = j" using e eab_t.find_eq_iff [OF wf] by blast+
    have "affected ?p (rows (acme_eab_creds t)) \<le> 1" by (rule eab_t.affected_key [OF wf])
    moreover have "affected ?p (rows (acme_eab_creds t)) = 0 \<longleftrightarrow> \<not> ?p e"
    proof -
      have "x = e" if "x \<in> set (rows (acme_eab_creds t))" "e_id x = j" for x
        using that e eab_t.find_eq_iff [OF wf, of j x] by simp
      then show ?thesis unfolding affected_zero_iff using mem by blast
    qed
    ultimately show ?thesis by linarith
  qed
  show ?thesis
  proof (rule tally_update [OF assms(1) r(2,3)])
    fix e assume e: "find (\<lambda>e. e_id e = i) (rows (acme_eab_creds t)) = Some e"
    then have id: "e_id e = i" by (auto dest: find_SomeD)
    have "reserved i (es @ [reserve_event j r]) = reserved i es + (if j = i \<and> ?p e then 1 else 0)"
      using one [of e] e r(1) by (cases "j = i") (auto simp: reserve_event_def reserved_def)
    moreover have "e_max_accounts e = m" "e_account_count e = c + reserved i es" "e_account_count e \<le> m"
      using assms(1) e by (simp_all add: tally_def)
    ultimately show "e_account_count (if ?p e then ?f e else e) = c + reserved i (es @ [reserve_event j r]) \<and>
        e_account_count (if ?p e then ?f e else e) \<le> m"
      using assms(2) id by (cases "j = i") simp_all
  qed (auto simp: reserve_event_def)
qed

lemma tally_release:
  assumes "tally i m c n es t" and "0 \<le> c" and "r = ReleaseEABAccountSlot E j t"
    and "0 \<le> balance i (es @ [release_event j r])"
  shows "tally i m c n (es @ [release_event j r]) (snd r)"
proof (cases "fault E (tick t)")
  case True
  then have "r = (Inl ErrIO, t\<lparr>tick := Suc (tick t)\<rparr>)" using assms(3) by (simp add: ReleaseEABAccountSlot_def stmt_defs)
  then show ?thesis using tally_same [OF assms(1)] by (simp add: release_event_def registrations_def)
next
  case False
  let ?p = "\<lambda>e. e_id e = j \<and> 0 < e_account_count e" and ?f = "\<lambda>e. e\<lparr>e_account_count := e_account_count e - 1\<rparr>"
  have r: "release_event j r = SlotReleased j"
    "acme_eab_creds (snd r) = update_rows ?p ?f (acme_eab_creds t)" "acme_accounts (snd r) = acme_accounts t"
    using False assms(3) by (simp_all add: ReleaseEABAccountSlot_def release_event_def set_creds_def stmt_defs)
  show ?thesis
  proof (rule tally_update [OF assms(1) r(2,3)])
    fix e assume e: "find (\<lambda>e. e_id e = i) (rows (acme_eab_creds t)) = Some e"
    then have id: "e_id e = i" by (auto dest: find_SomeD)
    have *: "e_account_count e = c + reserved i es" "e_account_count e \<le> m" using assms(1) e by (auto simp: tally_def)
    have "j = i \<Longrightarrow> 0 < e_account_count e"
      using assms(2,4) * r(1) by (simp add: balance_def reserved_def)
    then show "e_account_count (if ?p e then ?f e else e) = c + reserved i (es @ [release_event j r]) \<and>
        e_account_count (if ?p e then ?f e else e) \<le> m"
      using * id r(1) by (auto simp: reserved_def)
  qed (auto simp: r(1))
qed

lemma tally_insert:
  assumes "tally i m c n es t" and "r = insert_account E a t"
  shows "tally i m c n (es @ [stored_event (a_eab_id a) r]) (snd r)"
proof (cases "fault E (tick t) \<or> \<not> account_insertable (a\<lparr>a_last_used_at := None\<rparr>) t")
  case True
  then have "\<exists>x. fst r = Inl x" "registrations (snd r) = registrations t"
    using assms(2) by (auto simp: insert_account_def stmt_defs registrations_def account_insertable_def)
  then show ?thesis using tally_same [OF assms(1)] by (auto simp: stored_event_def)
next
  case False
  then have r: "stored_event (a_eab_id a) r = AccountStored (a_eab_id a)" "acme_eab_creds (snd r) = acme_eab_creds t"
    "map a_eab_id (rows (acme_accounts (snd r))) = map a_eab_id (rows (acme_accounts t)) @ [a_eab_id a]"
    and ex: "\<exists>e \<in> set (rows (acme_eab_creds t)). e_id e = a_eab_id a"
    using assms(2) by (auto simp: insert_account_def stmt_defs stored_event_def account_insertable_def)
  have "a_eab_id a \<noteq> i" if "find (\<lambda>e. e_id e = i) (rows (acme_eab_creds t)) = None"
    using that ex by (auto dest: find_NoneD)
  then show ?thesis
    using assms(1) unfolding r(1) tally_def r(2) accounts_of_def r(3)
    by (auto simp: reserved_def split: option.splits)
qed


lemma tally_disable:
  assumes "tally i m c n es t"
  shows "tally i m c n (es @ [Silent]) (snd (SetEABCredDisabled E j b t))"
proof (cases "fault E (tick t)")
  case True
  then have "registrations (snd (SetEABCredDisabled E j b t)) = registrations t"
    by (simp add: SetEABCredDisabled_def stmt_defs registrations_def)
  then show ?thesis using tally_same [OF assms] by simp
next
  case False
  then have u: "acme_eab_creds (snd (SetEABCredDisabled E j b t)) =
      update_rows (\<lambda>e. e_id e = j) (\<lambda>e. e\<lparr>e_disabled := b\<rparr>) (acme_eab_creds t)"
    "acme_accounts (snd (SetEABCredDisabled E j b t)) = acme_accounts t"
    by (auto simp: SetEABCredDisabled_def set_creds_def stmt_defs)
  show ?thesis by (rule tally_update [OF assms u]) (use assms in \<open>auto simp: tally_def reserved_def\<close>)
qed

lemma tally_new_cred:
  assumes "tally i m c n es t"
  shows "tally i m c n (es @ [Silent]) (snd (insert_cred E e t))"
proof -
  let ?e = "e\<lparr>e_profile := nz (e_profile e) ''server'', e_account_count := 0, e_last_used_at := None\<rparr>"
  let ?u = "snd (insert_cred E e t)"
  have acc: "accounts_of i ?u = accounts_of i t" by (simp add: insert_cred_def stmt_defs accounts_of_def)
  have "acme_eab_creds ?u = acme_eab_creds t \<or>
    acme_eab_creds ?u = insert_row (\<lambda>n. e_id_update (\<lambda>_. n)) ?e (acme_eab_creds t)"
    by (auto simp: insert_cred_def stmt_defs)
  then consider "acme_eab_creds ?u = acme_eab_creds t"
    | "acme_eab_creds ?u = insert_row (\<lambda>n. e_id_update (\<lambda>_. n)) ?e (acme_eab_creds t)" by blast
  then show ?thesis
  proof cases
    case 1
    then show ?thesis using assms acc by (auto simp: tally_def reserved_def split: option.splits)
  next
    case 2
    have "i < next_id (acme_eab_creds t)" using assms by (simp add: tally_def)
    then have "find (\<lambda>e. e_id e = i) (rows (acme_eab_creds ?u)) = find (\<lambda>e. e_id e = i) (rows (acme_eab_creds t))"
      unfolding 2 by (rule eab_t.find_other_inserted)
    moreover have "wf_table e_id (acme_eab_creds ?u)" unfolding 2 using assms by (intro eab_t.wf_insert) (simp add: tally_def)
    ultimately show ?thesis using assms acc 2 by (auto simp: tally_def reserved_def split: option.splits)
  qed
qed

lemma find_delete_where:
  "find q (delete_where p rs) = (if \<forall>r \<in> set rs. q r \<longrightarrow> \<not> p r then find q rs else find q (delete_where p rs))"
  by (induction rs) (auto simp: delete_where_def)

lemma tally_delete:
  assumes "tally i m c n es t"
  shows "tally i m c n (es @ [Silent]) (snd (DeleteEABCred E j t))"
proof -
  let ?u = "snd (DeleteEABCred E j t)"
  have acc: "accounts_of i ?u = accounts_of i t" by (auto simp: DeleteEABCred_def stmt_defs accounts_of_def)
  have "acme_eab_creds ?u = acme_eab_creds t \<or>
    acme_eab_creds ?u = delete_rows (\<lambda>e. e_id e = j) (acme_eab_creds t) \<and> accounts_of j t = 0"
    by (auto simp: DeleteEABCred_def stmt_defs accounts_of_def count_list_0_iff)
  then consider "acme_eab_creds ?u = acme_eab_creds t"
    | "acme_eab_creds ?u = delete_rows (\<lambda>e. e_id e = j) (acme_eab_creds t)" "accounts_of j t = 0" by metis
  then show ?thesis
  proof cases
    case 1
    then show ?thesis using assms acc by (auto simp: tally_def reserved_def split: option.splits)
  next
    case 2
    have wf: "wf_table e_id (acme_eab_creds ?u)" unfolding 2 using assms by (intro eab_t.wf_delete) (simp add: tally_def)
    show ?thesis
    proof (cases "j = i")
      case True
      then have "find (\<lambda>e. e_id e = i) (rows (acme_eab_creds ?u)) = None"
        unfolding 2 by (auto simp: find_None_iff delete_where_def)
      then show ?thesis using assms acc wf 2 True by (simp add: tally_def)
    next
      case False
      then have "find (\<lambda>e. e_id e = i) (rows (acme_eab_creds ?u)) = find (\<lambda>e. e_id e = i) (rows (acme_eab_creds t))"
        unfolding 2 rows_delete_rows by (subst find_delete_where) auto
      then show ?thesis using assms acc wf 2 by (auto simp: tally_def reserved_def split: option.splits)
    qed
  qed
qed

lemma tally_step:
  assumes "stmt_step E t e u" and "tally i m c n es t" and "0 < m" and "0 \<le> c" and "0 \<le> balance i (es @ [e])"
  shows "tally i m c n (es @ [e]) u"
  using assms(1)
proof cases
  case other
  then show ?thesis using tally_same [OF assms(2), of u Silent] by (simp add: acme_part_def registrations_def)
next
  case (reserve r j)
  then show ?thesis using tally_reserve [OF assms(2,3)] by simp
next
  case (release r j)
  then show ?thesis using tally_release [OF assms(2,4)] assms(5) by simp
next
  case (insert_acc r a)
  then show ?thesis using tally_insert [OF assms(2)] by simp
next
  case (disable j b)
  then show ?thesis using tally_disable [OF assms(2)] by simp
next
  case (new_cred x)
  then show ?thesis using tally_new_cred [OF assms(2)] by simp
next
  case (delete_cred j)
  then show ?thesis using tally_delete [OF assms(2)] by simp
qed (auto intro!: tally_same [OF assms(2)] simp: nonce_event_def redeem_event_def claim_event_def)

lemma tally_trace:
  assumes "trace E s es t" and "disciplined i es" and "tally i m c n [] s" and "0 < m" and "0 \<le> c"
  shows "tally i m c n es t"
  using assms
proof induction
  case (trace_step s es t e u)
  then show ?case using tally_step [of E t e u i m c n es] by (simp add: disciplined_snoc)
qed

text \<open>The interleavings of the requests \<open>xss\<close>.\<close>

fun interleavings :: "event list list \<Rightarrow> event list set" where
  "interleavings [] = {[]}"
| "interleavings (xs # xss) = (\<Union>ys \<in> interleavings xss. shuffles xs ys)"

lemma disciplined_interleavings:
  "es \<in> interleavings xss \<Longrightarrow> list_all (disciplined i) xss \<Longrightarrow> disciplined i es"
proof (induction xss arbitrary: es)
  case (Cons xs xss)
  then obtain ys where "ys \<in> interleavings xss" "es \<in> shuffles xs ys" by auto
  with Cons disciplined_shuffle [of i xs ys es] show ?case by simp
qed simp

lemma tally_start:
  assumes "wf_table e_id (acme_eab_creds s)" and "e \<in> set (rows (acme_eab_creds s))" and "e_account_count e \<le> e_max_accounts e"
  shows "tally (e_id e) (e_max_accounts e) (e_account_count e) (accounts_of (e_id e) s) [] s"
proof -
  have "find (\<lambda>x. e_id x = e_id e) (rows (acme_eab_creds s)) = Some e" using eab_t.find_eq_iff [OF assms(1)] assms(2) by simp
  moreover have "e_id e < next_id (acme_eab_creds s)" using assms(1,2) by (simp add: wf_table_def)
  ultimately show ?thesis using assms by (simp add: tally_def reserved_def)
qed

text \<open>C4 (store/acme.go, ReserveEABAccountSlot and ReleaseEABAccountSlot; acme/service.go, NewAccount): with any number of
  registrations, changes and deletions at the same time, a credential with a limit never has more accounts than it
  allows, as long as every request stores an account or gives a slot back only for a slot it reserved. Requests that do
  so each on their own do so together, in every interleaving.\<close>

theorem account_limit_holds:
  assumes "trace E s es t" and "wf_table e_id (acme_eab_creds s)" and "e \<in> set (rows (acme_eab_creds s))"
    and "0 < e_max_accounts e" and "int (accounts_of (e_id e) s) \<le> e_account_count e" and "e_account_count e \<le> e_max_accounts e"
    and "es \<in> interleavings xss" and "list_all (disciplined (e_id e)) xss"
  shows "int (accounts_of (e_id e) t) \<le> e_max_accounts e"
proof -
  let ?i = "e_id e" and ?m = "e_max_accounts e" and ?c = "e_account_count e" and ?n = "accounts_of (e_id e) s"
  have d: "disciplined ?i es" by (rule disciplined_interleavings [OF assms(7,8)])
  have "0 \<le> ?c" using assms(5) by linarith
  then have "tally ?i ?m ?c ?n es t" by (rule tally_trace [OF assms(1) d tally_start [OF assms(2,3,6)] assms(4)])
  moreover have "0 \<le> balance ?i es" using d [unfolded disciplined_def, rule_format, of "length es"] by simp
  ultimately show ?thesis
    using assms(4,5) by (cases "find (\<lambda>x. e_id x = e_id e) (rows (acme_eab_creds t))") (simp_all add: tally_def balance_def reserved_def)
qed


section \<open>One registration\<close>

text \<open>The statements of one registration, run alone. The read of the new row is the third.\<close>

lemma trace_one: "stmt_step E s e t \<Longrightarrow> trace E s [e] t"
  using trace_step [OF trace_nil] by simp

lemma trace_append: "trace E t fs u \<Longrightarrow> trace E s es t \<Longrightarrow> trace E s (es @ fs) u"
proof (induction rule: trace.induct)
  case (trace_step t fs u e v)
  then show ?case using trace.trace_step [of E s "es @ fs" u e v] by simp
qed simp

lemma reserve_outcome:
  assumes "ReserveEABAccountSlot E i s = (r, t)"
  shows "stmt_step E s (if r = Inr True then SlotReserved i else Silent) t \<and> tick t = Suc (tick s)"
proof -
  have "tick t = Suc (tick s)" using assms by (auto simp: ReserveEABAccountSlot_def stmt_defs set_creds_def split: if_splits)
  then show ?thesis using reserve [OF refl, of E s i] assms by (simp add: reserve_event_def)
qed

lemma release_outcome: "\<exists>e \<in> {SlotReleased i, Silent}. stmt_step E s e (snd (ReleaseEABAccountSlot E i s))"
  using release [OF refl, of E s i] by (auto simp: release_event_def split: if_splits)

lemma insert_outcome:
  assumes "insert_account E a s = (r, t)"
  shows "stmt_step E s (case r of Inr _ \<Rightarrow> AccountStored (a_eab_id a) | Inl _ \<Rightarrow> Silent) t \<and> tick t = Suc (tick s) \<and>
    (\<forall>n. r = Inr n \<longrightarrow> (\<exists>x \<in> set (rows (acme_accounts t)). a_id x = n))"
proof -
  have "tick t = Suc (tick s) \<and> (\<forall>n. r = Inr n \<longrightarrow> (\<exists>x \<in> set (rows (acme_accounts t)). a_id x = n))"
    using assms by (auto simp: insert_account_def stmt_defs split: if_splits)
  then show ?thesis using insert_acc [OF refl, of E s a] assms by (simp add: stored_event_def)
qed

lemma read_back_outcome:
  assumes "GetAcmeAccount E n s = (r, t)"
  shows "stmt_step E s Silent t" and "\<not> fault E (tick s) \<Longrightarrow> \<exists>x \<in> set (rows (acme_accounts s)). a_id x = n \<Longrightarrow> \<exists>x. r = Inr x"
proof -
  have "acme_part t = acme_part s" using assms by (auto simp: GetAcmeAccount_def stmt_defs acme_part_def split: if_splits)
  then show "stmt_step E s Silent t" by (rule other)
  assume "\<not> fault E (tick s)" "\<exists>x \<in> set (rows (acme_accounts s)). a_id x = n"
  then show "\<exists>x. r = Inr x"
    using assms by (auto simp: GetAcmeAccount_def stmt_defs select_one_def find_None_iff split: option.splits)
qed

lemma audit_outcome: "stmt_step E s Silent (audit V actor action target detail s)"
  by (rule other) (simp add: acme_part_def)


lemma disciplined_Silent [simp]: "disciplined i (es @ [Silent]) \<longleftrightarrow> disciplined i es"
proof -
  have "0 \<le> balance i es" if "disciplined i es" using that [unfolded disciplined_def, rule_format, of "length es"] by simp
  then show ?thesis by (auto simp: disciplined_snoc balance_def)
qed

lemma disciplined_runs [simp]:
  "disciplined i [Silent]" "disciplined i [SlotReserved k]" "disciplined i [SlotReserved k, Silent]"
  "disciplined i [SlotReserved k, SlotReleased k]" "disciplined i [SlotReserved k, Silent, SlotReleased k]"
  "disciplined i [SlotReserved k, AccountStored k]" "disciplined i [SlotReserved k, AccountStored k, Silent]"
  "disciplined i [SlotReserved k, AccountStored k, Silent, Silent]" "disciplined i [SlotReserved k, Silent, Silent]"
  by (simp_all add: disciplined_def balance_def take_Cons')

text \<open>(acme/service.go, NewAccount): the statements of a registration reserve a slot before the account is stored, and
  give it back only when no account was stored, unless the read of the stored row itself fails.\<close>

theorem register_disciplined:
  assumes "register M jws key thumb req kid cred s = (r, s')" and "\<not> fault (am_env M) (Suc (Suc (tick s)))"
  shows "\<exists>es. trace (am_env M) s es s' \<and> disciplined i es"
proof (cases "Usable (now (am_env M) s) cred")
  case False
  then show ?thesis using assms(1) trace_one [OF audit_outcome] by (fastforce simp: register_def Let_def)
next
  case True
  let ?E = "am_env M" and ?k = "e_id cred"
  obtain q t where q: "ReserveEABAccountSlot ?E ?k s = (q, t)" by fastforce
  note step = reserve_outcome [OF q]
  show ?thesis
  proof (cases "q = Inr True")
    case False
    then have "trace ?E s [Silent] t" using step trace_one by fastforce
    moreover have "s' = t \<or> (\<exists>x. s' = audit (am_ca M) ''acme'' ''acme.account.rejected'' kid x t)"
      using assms(1) True q False by (cases q) (auto simp: register_def demand_def Let_def)
    ultimately show ?thesis using trace_append [OF trace_one [OF audit_outcome], of ?E s "[Silent]" t]
      disciplined_Silent [of i "[Silent]"] by (auto simp del: disciplined_Silent) fastforce+
  next
    case q': True
    then have t: "trace ?E s [SlotReserved ?k] t" using step trace_one by fastforce
    show ?thesis
    proof (cases "jwk_marshal (am_jose M) (jwk_public (am_jose M) key)")
      case None
      then have "s' = snd (ReleaseEABAccountSlot ?E ?k t)"
        using assms(1) True q q' by (auto simp: register_def demand_def Let_def)
      then show ?thesis using trace_append [OF trace_one t] release_outcome [of ?k ?E t] by fastforce
    next
      case (Some j)
      let ?a = "\<lparr>a_id = 0, a_eab_id = ?k, a_jwk_json = j, a_jwk_thumbprint = thumb, a_contact = contacts_of (na_contact req),
        a_status = AcmeStatusValid, a_created_at = now ?E t, a_last_used_at = None\<rparr>"
      obtain n u where n: "insert_account ?E ?a t = (n, u)" by fastforce
      note ins = insert_outcome [OF n]
      show ?thesis
      proof (cases n)
        case (Inl x)
        then have "s' = snd (ReleaseEABAccountSlot ?E ?k u)"
          using assms(1) True q q' Some n by (auto simp: register_def demand_def Let_def CreateAcmeAccount_insert)
        moreover have "trace ?E s [SlotReserved ?k, Silent] u" using trace_append [OF trace_one t] ins Inl by fastforce
        ultimately show ?thesis using trace_append [OF trace_one] release_outcome [of ?k ?E u] by fastforce
      next
        case (Inr m)
        obtain x v where x: "GetAcmeAccount ?E m u = (x, v)" by fastforce
        have "\<exists>y. x = Inr y" using read_back_outcome(2) [OF x] ins Inr step assms(2) by simp
        then have "\<exists>actor action target detail. s' = audit (am_ca M) actor action target detail v"
          using assms(1) True q q' Some n x Inr
          by (auto simp: register_def demand_def Let_def CreateAcmeAccount_insert simp del: append.simps) blast
        moreover have "trace ?E s [SlotReserved ?k, AccountStored ?k] u" using trace_append [OF trace_one t] ins Inr by fastforce
        then have "trace ?E s [SlotReserved ?k, AccountStored ?k, Silent] v"
          using trace_append [OF trace_one [OF read_back_outcome(1) [OF x]]] by fastforce
        ultimately show ?thesis using trace_append [OF trace_one [OF audit_outcome]] by fastforce
      qed
    qed
  qed
qed

text \<open>(acme/service.go, NewAccount; store/acme.go, CreateAcmeAccount): when only the read of the stored row fails, the
  client is told of a server error and the slot is given back, although the account exists and can be used. The credential
  then counts fewer accounts than it has, and its limit can be passed.\<close>

lemma stored_but_released:
  "let M = demo_acme\<lparr>am_ca := demo_V\<lparr>sv_env := demo_env\<lparr>fault := (\<lambda>n. n = 5)\<rparr>\<rparr>\<rparr>; s = demo_acme_db [] [] [];
       r = NewAccount M ''account'' s in
   fst r = Inl ServerInternal \<and> accounts_of 1 s = 0 \<and> accounts_of 1 (snd r) = 1 \<and>
   map e_account_count (rows (acme_eab_creds (snd r))) = map e_account_count (rows (acme_eab_creds s))"
  by code_simp

text \<open>(acme/service.go, Finalize): when the certificate is issued but storing its id in the order fails, the order stays
  in processing for ever: it can be neither finalized again nor downloaded, and the certificate is not revoked.\<close>

lemma order_left_processing:
  "let M = demo_acme\<lparr>am_ca := demo_V\<lparr>sv_env := demo_env\<lparr>fault := (\<lambda>n. n = 10)\<rparr>\<rparr>\<rparr>;
       r = Finalize M 1 ''finalize'' (demo_acme_db [demo_account] [demo_order AcmeStatusReady] []) in
   fst r = Inl ServerInternal \<and> map c_status (rows (certificates (snd r))) = [CertActive] \<and>
   map (\<lambda>x. (o_status x, o_certificate_id x)) (rows (acme_orders (snd r))) = [(AcmeStatusProcessing, None)]"
  by code_simp


section \<open>Examples\<close>

theorem nonce_redeemed_once_witness:
  "\<exists>t. trace demo_env (demo_acme_db [] [] []) [NonceRedeemed ''n1'', Silent] t \<and>
     count_list [NonceRedeemed ''n1'', Silent] (NonceRedeemed ''n1'') \<le> held ''n1'' (demo_acme_db [] [] [])"
proof -
  let ?s = "demo_acme_db [] [] []"
  let ?r = "ConsumeAcmeNonce demo_env ''n1'' 1000 ?s"
  let ?q = "ConsumeAcmeNonce demo_env ''n1'' 1000 (snd ?r)"
  have "redeem_event ''n1'' ?r = NonceRedeemed ''n1''" "redeem_event ''n1'' ?q = Silent" "unique_nonces ?s" by code_simp+
  then have t: "trace demo_env ?s [NonceRedeemed ''n1'', Silent] (snd ?q)"
    using trace_append [OF trace_one [OF redeem [OF refl, of demo_env "snd ?r" "''n1''" 1000]] trace_one [OF redeem [OF refl, of demo_env ?s "''n1''" 1000]]]
    by simp
  then show ?thesis using nonce_redeemed_once [OF t \<open>unique_nonces ?s\<close>, of "''n1''"] by (intro exI [of _ "snd ?q"]) simp
qed

theorem order_claimed_once_witness:
  "\<exists>t. trace demo_env (demo_acme_db [demo_account] [demo_order AcmeStatusReady] []) [OrderClaimed 1, Silent] t \<and>
     count_list [OrderClaimed 1, Silent] (OrderClaimed 1) \<le> 1"
proof -
  let ?s = "demo_acme_db [demo_account] [demo_order AcmeStatusReady] []"
  let ?r = "ClaimAcmeOrderForFinalize demo_env 1 ?s"
  let ?q = "ClaimAcmeOrderForFinalize demo_env 1 (snd ?r)"
  have "claim_event 1 ?r = OrderClaimed 1" "claim_event 1 ?q = Silent" "orders_below ?s" by code_simp+
  then have t: "trace demo_env ?s [OrderClaimed 1, Silent] (snd ?q)"
    using trace_append [OF trace_one [OF claim [OF refl, of demo_env "snd ?r" 1]] trace_one [OF claim [OF refl, of demo_env ?s 1]]]
    by simp
  then show ?thesis using order_claimed_once [OF t \<open>orders_below ?s\<close>, of 1] by (intro exI [of _ "snd ?q"]) simp
qed

theorem account_limit_holds_witness:
  "\<exists>t. trace demo_env (demo_acme_db [demo_account] [] []) [SlotReserved 1, Silent, AccountStored 1] t \<and>
     int (accounts_of 1 t) \<le> 2"
proof -
  let ?s = "demo_acme_db [demo_account] [] []" and ?E = demo_env
  let ?r = "ReserveEABAccountSlot ?E 1 ?s"
  let ?q = "ReserveEABAccountSlot ?E 1 (snd ?r)"
  let ?a = "insert_account ?E (demo_account\<lparr>a_jwk_thumbprint := ''6262''\<rparr>) (snd ?q)"
  have ev: "reserve_event 1 ?r = SlotReserved 1" "reserve_event 1 ?q = Silent" "stored_event 1 ?a = AccountStored 1" "a_eab_id demo_account = 1"
    by code_simp+
  have t: "trace ?E ?s [SlotReserved 1, Silent, AccountStored 1] (snd ?a)"
    using trace_append [OF trace_one [OF insert_acc [OF refl, of ?E "snd ?q" "demo_account\<lparr>a_jwk_thumbprint := ''6262''\<rparr>"]]
        trace_append [OF trace_one [OF reserve [OF refl, of ?E "snd ?r" 1]] trace_one [OF reserve [OF refl, of ?E ?s 1]]]] ev
    by simp
  have wf: "wf_table e_id (acme_eab_creds ?s)" "demo_cred \<in> set (rows (acme_eab_creds ?s))" "0 < e_max_accounts demo_cred"
    "int (accounts_of (e_id demo_cred) ?s) \<le> e_account_count demo_cred" "e_account_count demo_cred \<le> e_max_accounts demo_cred"
    by code_simp+
  have mix: "[SlotReserved 1, Silent, AccountStored 1] \<in> interleavings [[SlotReserved 1, AccountStored 1], [Silent]]" by simp
  have "list_all (disciplined (e_id demo_cred)) [[SlotReserved 1, AccountStored 1], [Silent]]" by simp
  from account_limit_holds [OF t wf mix this] have "int (accounts_of 1 (snd ?a)) \<le> 2" by (simp add: demo_cred_def)
  with t show ?thesis by blast
qed

theorem register_disciplined_witness:
  "\<exists>es. trace (am_env demo_acme) (demo_acme_db [] [] []) es
     (snd (register demo_acme (the (ok (ParseJWS demo_jose ''account''))) (JWK ''ak'') ''616b'' \<lparr>na_contact = None, na_terms_of_service_agreed = True,
        na_only_return_existing = False, na_external_account_binding = ''eab''\<rparr> ''kid1'' demo_cred (demo_acme_db [] [] []))) \<and>
     disciplined 1 es"
  by (rule register_disciplined [OF prod.collapse [symmetric]]) code_simp

end
