(* ===== verification/Acme_Admin.thy ===== *)
theory Acme_Admin
  imports Acme_Concurrency
begin

text \<open>
  The administration of the ACME server (\<open>internal/acme/eab_admin.go\<close>): creating, finding, disabling and deleting
  external account binding credentials, and deactivating accounts. The protocol side is in \<open>Acme_Service\<close>; the
  theorems here say how the two meet: a credential that was created can be used to register, one that was disabled
  stops every account made with it, and a deactivated account cannot sign in.
\<close>


section \<open>Creating a credential\<close>

datatype admin_error =
  AdminDb db_error | AdminPki pki_error | AdminBox box_error | AdminPattern pattern_error
| EABNameRequired | EABIntermediateProfile | EABNoDomains | EABDomainsAndAny | EABNoSuchCA string db_error | EABRandFailed
| EABRefRequired | EABNoMatch string | EABAmbiguous string nat | EABHasAccounts nat string | AccountAlreadyDeactivated nat

type_synonym 'a admin = "(admin_error, 'a, db) outcome"

record CreateEABInput =
  ce_name :: string
  ce_ca :: string
  ce_profile :: string
  ce_days :: int
  ce_allowed_domains :: "string list"
  ce_allow_any_domain :: bool
  ce_max_accounts :: int
  ce_expires_in_days :: int
  ce_actor :: string

record CreateEABResult =
  cr_cred :: EABCred
  cr_hmac_key_b64 :: string

definition keyIDAlphabet :: string where
  "keyIDAlphabet = ''23456789abcdefghjkmnpqrstuvwxyz''"

text \<open>The argument is what \<open>rand.Read\<close> put into the buffer, \<open>None\<close> when it failed.\<close>

definition randomKeyID :: "string option \<Rightarrow> string option" where
  "randomKeyID rnd = map_option (map (\<lambda>v. keyIDAlphabet ! (of_char v mod length keyIDAlphabet))) rnd"

definition admin_stmt :: "'a stmt \<Rightarrow> ('a \<Rightarrow> db \<Rightarrow> 'b admin) \<Rightarrow> 'b admin" where
  "admin_stmt r k = attempt r (\<lambda>e s. (Inl (AdminDb e), s)) k"

definition eab_domains :: "CreateEABInput \<Rightarrow> admin_error + string list" where
  "eab_domains inp =
     (case normalizeDomainPatterns (ce_allowed_domains inp) of
        Inl e \<Rightarrow> Inl (AdminPattern e)
      | Inr domains \<Rightarrow>
          if domains = [] \<and> \<not> ce_allow_any_domain inp then Inl EABNoDomains
          else if domains \<noteq> [] \<and> ce_allow_any_domain inp then Inl EABDomainsAndAny
          else Inr domains)"

definition eab_profile :: "CreateEABInput \<Rightarrow> admin_error + Profile" where
  "eab_profile inp =
     (let profile = trim_space (ce_profile inp) in
      case ParseProfile (if profile = [] then profile_name ProfileServer else profile) of
        Inl e \<Rightarrow> Inl (AdminPki e)
      | Inr parsed \<Rightarrow> if parsed = ProfileIntermCA then Inl EABIntermediateProfile else Inr parsed)"

definition eab_ca :: "acme_service \<Rightarrow> CreateEABInput \<Rightarrow> db \<Rightarrow> nat option admin" where
  "eab_ca M inp s =
     (let ref = trim_space (ce_ca inp) in
      if ref = [] then (Inr None, s)
      else attempt (GetCAByRef (am_env M) ref s) (\<lambda>e s. (Inl (EABNoSuchCA ref e), s)) (\<lambda>ca s. (Inr (Some (ca_id ca)), s)))"

text \<open>\<open>id_bytes\<close> and \<open>key_bytes\<close> are the two draws from the random source, of 20 and of 32 bytes.\<close>

definition CreateEAB ::
  "acme_service \<Rightarrow> string option \<Rightarrow> string option \<Rightarrow> CreateEABInput \<Rightarrow> db \<Rightarrow> CreateEABResult admin" where
  "CreateEAB M id_bytes key_bytes inp s =
     (let E = am_env M; V = am_ca M; name = trim_space (ce_name inp) in
      if name = [] then (Inl EABNameRequired, s)
      else case eab_profile inp of Inl e \<Rightarrow> (Inl e, s) | Inr profile \<Rightarrow>
      (case eab_domains inp of Inl e \<Rightarrow> (Inl e, s) | Inr domains \<Rightarrow>
      attempt (eab_ca M inp s) (\<lambda>e s. (Inl e, s)) (\<lambda>ca s.
      case randomKeyID id_bytes of None \<Rightarrow> (Inl EABRandFailed, s) | Some key_id \<Rightarrow>
      (case key_bytes of None \<Rightarrow> (Inl EABRandFailed, s) | Some hmac \<Rightarrow>
      (case Encrypt (sv_box V) (sv_nonce V (tick s)) hmac of Inl e \<Rightarrow> (Inl (AdminBox e), s) | Inr hmac_enc \<Rightarrow>
      admin_stmt (CreateEABCred E
          \<lparr>e_id = 0, e_key_id = key_id, e_hmac_key_enc = hmac_enc, e_name = name, e_ca_id = ca,
           e_profile = profile_name profile, e_days = ce_days inp, e_allowed_domains = domains,
           e_max_accounts = ce_max_accounts inp, e_account_count = 0, e_disabled = False,
           e_expires_at = (if 0 < ce_expires_in_days inp then Some (add_days (now E s) (ce_expires_in_days inp)) else None),
           e_created_by = ce_actor inp, e_created_at = now E s, e_last_used_at = None\<rparr> s) (\<lambda>cred s.
      (Inr \<lparr>cr_cred = cred, cr_hmac_key_b64 = RawURLEncode hmac\<rparr>,
       audit V (ce_actor inp) ''acme.eab.create'' name
         (''key_id='' @ key_id @ '' profile='' @ profile_name profile @ '' domains='' @ describeDomains domains) s)))))))"


section \<open>Finding, disabling and deleting\<close>

text \<open>\<open>fmt.Sscanf\<close> with \<open>%d\<close> reads an optional sign and the digits at the start of the text and does not look at the
  rest. The value must fit an \<open>int64\<close>.\<close>

definition scan_int64 :: "string \<Rightarrow> int option" where
  "scan_int64 x =
     (let signed = (x \<noteq> [] \<and> (hd x = CHR ''-'' \<or> hd x = CHR ''+''));
          ds = takeWhile is_digit (if signed then tl x else x);
          n = (if signed \<and> hd x = CHR ''-'' then - int (nat_of_string ds) else int (nat_of_string ds)) in
      if ds \<noteq> [] \<and> - (2 ^ 63) \<le> n \<and> n < 2 ^ 63 then Some n else None)"

text \<open>No row has a negative id; the statement is still executed.\<close>

definition eab_by_number :: "env \<Rightarrow> string \<Rightarrow> db \<Rightarrow> EABCred option \<times> db" where
  "eab_by_number E ref s =
     (case scan_int64 ref of
        None \<Rightarrow> (None, s)
      | Some i \<Rightarrow>
          if i < 0 then (None, s\<lparr>tick := Suc (tick s)\<rparr>)
          else attempt (GetEABCred E (nat i) s) (\<lambda>_ s. (None, s)) (\<lambda>c s. (Some c, s)))"

definition eab_by_name :: "env \<Rightarrow> string \<Rightarrow> db \<Rightarrow> EABCred admin" where
  "eab_by_name E ref s =
     admin_stmt (ListEABCreds E s) (\<lambda>all s.
     case filter (\<lambda>c. to_lower (e_name c) = to_lower ref) all of
       [c] \<Rightarrow> (Inr c, s)
     | [] \<Rightarrow> (Inl (EABNoMatch ref), s)
     | matches \<Rightarrow> (Inl (EABAmbiguous ref (length matches)), s))"

definition ResolveEAB :: "acme_service \<Rightarrow> string \<Rightarrow> db \<Rightarrow> EABCred admin" where
  "ResolveEAB M ref0 s =
     (let E = am_env M; ref = trim_space ref0 in
      if ref = [] then (Inl EABRefRequired, s)
      else attempt (GetEABCredByKeyID E ref s)
        (\<lambda>_ s. case eab_by_number E ref s of
                 (Some c, s) \<Rightarrow> (Inr c, s)
               | (None, s) \<Rightarrow> eab_by_name E ref s)
        (\<lambda>c s. (Inr c, s)))"

definition SetEABDisabled :: "acme_service \<Rightarrow> nat \<Rightarrow> bool \<Rightarrow> string \<Rightarrow> db \<Rightarrow> unit admin" where
  "SetEABDisabled M i disabled actor s =
     (let E = am_env M in
      admin_stmt (GetEABCred E i s) (\<lambda>c s.
      admin_stmt (SetEABCredDisabled E i disabled s) (\<lambda>_ s.
      (Inr (), audit (am_ca M) actor (if disabled then ''acme.eab.disable'' else ''acme.eab.enable'') (e_name c)
                 (''key_id='' @ e_key_id c) s))))"

definition DeleteEAB :: "acme_service \<Rightarrow> nat \<Rightarrow> string \<Rightarrow> db \<Rightarrow> unit admin" where
  "DeleteEAB M i actor s =
     (let E = am_env M in
      admin_stmt (GetEABCred E i s) (\<lambda>c s.
      admin_stmt (ListAcmeAccountsByEAB E i s) (\<lambda>accounts s.
      if accounts \<noteq> [] then (Inl (EABHasAccounts (length accounts) (e_name c)), s)
      else admin_stmt (DeleteEABCred E i s) (\<lambda>_ s.
      (Inr (), audit (am_ca M) actor ''acme.eab.delete'' (e_name c) (''key_id='' @ e_key_id c) s)))))"

definition DeactivateAccount :: "acme_service \<Rightarrow> nat \<Rightarrow> string \<Rightarrow> db \<Rightarrow> unit admin" where
  "DeactivateAccount M i actor s =
     (let E = am_env M in
      admin_stmt (GetAcmeAccount E i s) (\<lambda>a s.
      if a_status a = AcmeStatusDeactivated then (Inl (AccountAlreadyDeactivated i), s)
      else admin_stmt (SetAcmeAccountStatus E i AcmeStatusDeactivated s) (\<lambda>_ s.
      (Inr (), audit (am_ca M) actor ''acme.account.deactivate'' (string_of_nat i) ''by administrator'' s))))"


section \<open>A new credential can be used\<close>

lemma admin_stmt_InrD: "admin_stmt r k = (Inr y, s') \<Longrightarrow> \<exists>x s1. r = (Inr x, s1) \<and> k x s1 = (Inr y, s')"
  unfolding admin_stmt_def by (cases r; cases "fst r") auto

lemma eab_profile_Inr: "eab_profile inp = Inr p \<Longrightarrow> p \<noteq> ProfileIntermCA"
  by (auto simp: eab_profile_def Let_def split: sum.splits if_splits)

lemma eab_domains_Inr:
  assumes "eab_domains inp = Inr ds"
  shows "(ds = [] \<longleftrightarrow> ce_allow_any_domain inp) \<and> list_all (\<lambda>p. \<not> bad_pattern p) ds \<and> distinct ds"
proof -
  have n: "normalizeDomainPatterns (ce_allowed_domains inp) = Inr ds" and *: "ds = [] \<longleftrightarrow> ce_allow_any_domain inp"
    using assms by (auto simp: eab_domains_def split: sum.splits if_splits)
  have "distinct ds \<and> set ds = normal_pattern ` set (ce_allowed_domains inp) - {[]} \<and>
    (\<forall>p \<in> normal_pattern ` set (ce_allowed_domains inp). \<not> bad_pattern p)"
    using normalize_from_ok [of "[]" _ ds] n by (auto simp: normalizeDomainPatterns_def)
  with * show ?thesis by (auto simp: list_all_iff)
qed

lemma GetCAByRef_state: "acme_eab_creds (snd (GetCAByRef E ref s)) = acme_eab_creds s"
  by (auto simp: GetCAByRef_def DefaultCA_def stmt_defs)

lemma eab_ca_keeps: "eab_ca M inp s = (r, s') \<Longrightarrow> acme_eab_creds s' = acme_eab_creds s"
  using GetCAByRef_state [of "am_env M" "trim_space (ce_ca inp)" s]
  by (auto simp: eab_ca_def Let_def split: if_splits attempt_splits)

lemma CreateEABCred_Inr:
  assumes "CreateEABCred E e s = (Inr r, s')" and "wf_table e_id (acme_eab_creds s)"
  shows "r = e\<lparr>e_profile := nz (e_profile e) ''server'', e_account_count := 0, e_last_used_at := None,
      e_id := next_id (acme_eab_creds s)\<rparr>"
    and "acme_eab_creds s' = insert_row (\<lambda>n. e_id_update (\<lambda>_. n))
      (e\<lparr>e_profile := nz (e_profile e) ''server'', e_account_count := 0, e_last_used_at := None\<rparr>) (acme_eab_creds s)"
    and "list_all (\<lambda>x. e_key_id x \<noteq> e_key_id e) (rows (acme_eab_creds s))"
proof -
  let ?e = "e\<lparr>e_profile := nz (e_profile e) ''server'', e_account_count := 0, e_last_used_at := None\<rparr>"
  let ?t = "insert_row (\<lambda>n. e_id_update (\<lambda>_. n)) ?e (acme_eab_creds s)"
  from assms(1) have get: "GetEABCred E (next_id (acme_eab_creds s)) (s\<lparr>tick := Suc (tick s), acme_eab_creds := ?t\<rparr>) = (Inr r, s')"
    and fresh: "eab_insertable ?e (s\<lparr>tick := Suc (tick s)\<rparr>)"
    by (auto simp: CreateEABCred_def exec_insert_def run_def Let_def split: if_splits)
  from query_row_Inr [OF get [unfolded GetEABCred_def]] eab_t.find_inserted [OF assms(2), of ?e]
  show "r = e\<lparr>e_profile := nz (e_profile e) ''server'', e_account_count := 0, e_last_used_at := None,
      e_id := next_id (acme_eab_creds s)\<rparr>" and "acme_eab_creds s' = ?t"
    by (simp_all add: select_one_def)
  from fresh show "list_all (\<lambda>x. e_key_id x \<noteq> e_key_id e) (rows (acme_eab_creds s))"
    by (auto simp: eab_insertable_def list_all_iff)
qed

lemma nz_profile [simp]: "nz (profile_name p) d = profile_name p"
  by (simp add: nz_def profile_name_trim)

lemma randomKeyID_Some:
  "randomKeyID rnd = Some k \<Longrightarrow> \<exists>b. rnd = Some b \<and> length k = length b \<and> list_all (\<lambda>c. c \<in> set keyIDAlphabet) k"
proof -
  have "keyIDAlphabet ! (n mod length keyIDAlphabet) \<in> set keyIDAlphabet" for n
    by (rule nth_mem) (simp add: keyIDAlphabet_def)
  then show "randomKeyID rnd = Some k \<Longrightarrow> ?thesis" by (auto simp: randomKeyID_def list_all_iff)
qed

lemma CreateEAB_InrD:
  assumes "CreateEAB M id_bytes key_bytes inp s = (Inr r, s')" and "wf_table e_id (acme_eab_creds s)"
  obtains s1 profile domains key_id hmac enc where "eab_profile inp = Inr profile" "eab_domains inp = Inr domains"
    "randomKeyID id_bytes = Some key_id" "key_bytes = Some hmac"
    "Encrypt (sv_box (am_ca M)) (sv_nonce (am_ca M) (tick (s1 :: db))) hmac = Inr enc"
    "e_key_id (cr_cred r) = key_id" "e_hmac_key_enc (cr_cred r) = enc" "e_profile (cr_cred r) = profile_name profile"
    "e_allowed_domains (cr_cred r) = domains" "e_account_count (cr_cred r) = 0" "\<not> e_disabled (cr_cred r)"
    "e_max_accounts (cr_cred r) = ce_max_accounts inp" "cr_hmac_key_b64 r = RawURLEncode hmac"
    "rows (acme_eab_creds s') = rows (acme_eab_creds s) @ [cr_cred r]"
    "list_all (\<lambda>x. e_key_id x \<noteq> key_id) (rows (acme_eab_creds s))"
proof -
  from assms(1) obtain profile domains ca s1 key_id hmac enc cred s2 x where
    *: "eab_profile inp = Inr profile" "eab_domains inp = Inr domains" "eab_ca M inp s = (Inr ca, s1)"
    "randomKeyID id_bytes = Some key_id" "key_bytes = Some hmac"
    "Encrypt (sv_box (am_ca M)) (sv_nonce (am_ca M) (tick s1)) hmac = Inr enc"
    and c: "CreateEABCred (am_env M)
          \<lparr>e_id = 0, e_key_id = key_id, e_hmac_key_enc = enc, e_name = trim_space (ce_name inp), e_ca_id = ca,
           e_profile = profile_name profile, e_days = ce_days inp, e_allowed_domains = domains,
           e_max_accounts = ce_max_accounts inp, e_account_count = 0, e_disabled = False,
           e_expires_at = x, e_created_by = ce_actor inp, e_created_at = now (am_env M) s1, e_last_used_at = None\<rparr> s1 = (Inr cred, s2)"
    and r: "r = \<lparr>cr_cred = cred, cr_hmac_key_b64 = RawURLEncode hmac\<rparr>" "acme_eab_creds s' = acme_eab_creds s2"
    unfolding CreateEAB_def Let_def
    by (auto split: if_splits sum.splits option.splits attempt_splits dest!: admin_stmt_InrD)
  have k: "acme_eab_creds s1 = acme_eab_creds s" by (rule eab_ca_keeps [OF *(3)])
  note cr = CreateEABCred_Inr [OF c, unfolded k, OF assms(2)]
  show thesis by (rule that [OF *(1,2,4,5,6)]) (use cr r in simp_all)
qed

text \<open>\<open>rand.Read\<close> fills the whole buffer of the nonce or fails.\<close>

definition draws_nonces :: "service \<Rightarrow> bool" where
  "draws_nonces V \<longleftrightarrow> (\<forall>n x. sv_nonce V n = Some x \<longrightarrow> length x = aead_nonce_size (sv_box V))"

text \<open>(acme/eab_admin.go, CreateEAB; acme/service.go, NewAccount): a new credential can be used at once. The key that is
  shown to the operator decodes to the drawn HMAC key, and looking the new key id up decrypts to the same key, so a binding
  made with the shown key verifies. The credential is enabled, has no account, is never for subordinate authorities, and
  has no domain patterns exactly when any domain was asked for; none of its patterns is malformed or matches every name.
  The stored key is not the key itself.\<close>

theorem CreateEAB_usable:
  assumes "CreateEAB M id_bytes key_bytes inp s = (Inr r, s')" and "wf_table e_id (acme_eab_creds s)"
    and "opens_sealed (sv_box (am_ca M))" and "draws_nonces (am_ca M)"
    and "\<not> fault (am_env M) (tick s')"
  shows "\<exists>hmac. key_bytes = Some hmac \<and> RawURLDecode (cr_hmac_key_b64 r) = Some hmac \<and>
    lookupHMAC M (e_key_id (cr_cred r)) s' = (Some (hmac, cr_cred r), s'\<lparr>tick := Suc (tick s')\<rparr>) \<and>
    (hmac \<noteq> [] \<longrightarrow> IsEncrypted (e_hmac_key_enc (cr_cred r))) \<and>
    \<not> e_disabled (cr_cred r) \<and> e_account_count (cr_cred r) = 0 \<and> e_profile (cr_cred r) \<noteq> profile_name ProfileIntermCA \<and>
    (e_allowed_domains (cr_cred r) = [] \<longleftrightarrow> ce_allow_any_domain inp) \<and>
    list_all (\<lambda>p. \<not> bad_pattern p) (e_allowed_domains (cr_cred r)) \<and>
    list_all (\<lambda>c. c \<in> set keyIDAlphabet) (e_key_id (cr_cred r))"
  using CreateEAB_InrD [OF assms(1,2)]
proof cases
  case (1 s1 profile domains key_id hmac enc)
  then obtain x where "sv_nonce (am_ca M) (tick s1) = Some x \<or> hmac = []" "hmac = [] \<or> length x = aead_nonce_size (sv_box (am_ca M))"
    using assms(4) by (cases "sv_nonce (am_ca M) (tick s1)") (auto simp: draws_nonces_def Encrypt_def split: if_splits)
  then have dec: "Decrypt (sv_box (am_ca M)) enc = Inr hmac" "hmac \<noteq> [] \<longrightarrow> IsEncrypted enc"
    using Encrypt_opens [OF assms(3), of x hmac enc] 1(5) by (cases "hmac = []"; simp add: Encrypt_def Decrypt_def)+
  have "find (\<lambda>e. e_key_id e = key_id) (rows (acme_eab_creds s')) = Some (cr_cred r)"
    using 1 by (auto simp: find_append_row list_all_iff dest!: find_SomeD split: option.split)
  then have "lookupHMAC M key_id s' = (Some (hmac, cr_cred r), s'\<lparr>tick := Suc (tick s')\<rparr>)"
    using assms(5) dec 1 by (simp add: lookupHMAC_def GetEABCredByKeyID_def stmt_defs select_one_def)
  then show ?thesis
    using 1 dec eab_profile_Inr [OF 1(1)] eab_domains_Inr [OF 1(2)] randomKeyID_Some [OF 1(3)]
      profile_name_cases [of profile] by (intro exI [of _ hmac]) auto
qed


section \<open>Disabling a credential cuts off its accounts\<close>

lemma SetEABCredDisabled_Inr:
  "SetEABCredDisabled E i b s = (Inr (), s') \<Longrightarrow>
     acme_eab_creds s' = update_rows (\<lambda>e. e_id e = i) (\<lambda>e. e\<lparr>e_disabled := b\<rparr>) (acme_eab_creds s)"
  by (auto simp: SetEABCredDisabled_def set_creds_def stmt_defs split: if_splits attempt_splits)

definition cut_off :: "nat \<Rightarrow> db \<Rightarrow> bool" where
  "cut_off i s \<longleftrightarrow> list_all (\<lambda>e. e_id e = i \<longrightarrow> e_disabled e) (rows (acme_eab_creds s))"

lemma SetEABDisabled_cuts_off:
  assumes "SetEABDisabled M i True actor s = (Inr (), s')"
  shows "cut_off i s'"
proof -
  from assms obtain s1 s2 where "SetEABCredDisabled (am_env M) i True s1 = (Inr (), s2)" "acme_eab_creds s' = acme_eab_creds s2"
    unfolding SetEABDisabled_def Let_def by (auto dest!: admin_stmt_InrD)
  then show ?thesis by (simp add: cut_off_def list_all_iff ball_update_where SetEABCredDisabled_Inr)
qed

lemma activeCred_cut_off:
  assumes "cut_off (a_eab_id a) s"
  obtains p t where "activeCred M a s = (Inl p, t)" "certificates t = certificates s" "acme_orders t = acme_orders s"
proof -
  obtain q t where q: "activeCred M a s = (q, t)" by fastforce
  have "q \<noteq> Inr cred" for cred
    using activeCred_InrD [of M a s cred t] q assms by (auto simp: cut_off_def list_all_iff)
  moreover have "certificates t = certificates s \<and> acme_orders t = acme_orders s"
    using q by (auto simp: activeCred_def GetEABCred_def demand_def stmt_defs split: if_splits attempt_splits)
  ultimately show thesis using that q by (cases q) auto
qed

lemma authenticate_keeps:
  assumes "authenticate M body url s = (Inr (jws, a), s1)"
  shows "certificates s1 = certificates s" "acme_orders s1 = acme_orders s" "acme_eab_creds s1 = acme_eab_creds s"
  by (rule authenticate_InrD [OF assms], simp)+

lemma GetAcmeOrder_state: "snd (GetAcmeOrder E i s) = s\<lparr>tick := Suc (tick s)\<rparr>"
  by (simp add: GetAcmeOrder_def query_row_state)

lemma SetAcmeOrderError_keeps [simp]: "certificates (snd (SetAcmeOrderError E i p s)) = certificates s"
  by (auto simp: SetAcmeOrderError_def set_orders_def stmt_defs)

lemma Finalize_cut_off:
  assumes "authenticate M body (finalizeURL M n) s = (Inr (jws, a), s1)" and "cut_off (a_eab_id a) s"
  shows "(\<exists>p. fst (Finalize M n body s) = Inl p) \<and> certificates (snd (Finalize M n body s)) = certificates s"
proof -
  note k = authenticate_keeps [OF assms(1)]
  obtain q t where q: "GetAcmeOrder (am_env M) n s1 = (q, t)" by fastforce
  have t: "t = s1\<lparr>tick := Suc (tick s1)\<rparr>" using GetAcmeOrder_state [of "am_env M" n s1] q by simp
  then have "cut_off (a_eab_id a) t" using assms(2) k by (simp add: cut_off_def)
  then obtain p u where p: "activeCred M a t = (Inl p, u)" "certificates u = certificates t" by (rule activeCred_cut_off)
  show ?thesis
    unfolding Finalize_def Let_def assms(1) pass_simps prod.case q
    using p k t by (cases q) (auto simp: refuse_if_def expect_def split: option.splits)
qed

lemma NewOrder_cut_off:
  assumes "authenticate M body (newOrderURL M) s = (Inr (jws, a), s1)" and "cut_off (a_eab_id a) s"
  shows "(\<exists>p. fst (NewOrder M body s) = Inl p) \<and> acme_orders (snd (NewOrder M body s)) = acme_orders s"
proof -
  note k = authenticate_keeps [OF assms(1)]
  have "cut_off (a_eab_id a) s1" using assms(2) k by (simp add: cut_off_def)
  then obtain p u where p: "activeCred M a s1 = (Inl p, u)" "acme_orders u = acme_orders s1" by (rule activeCred_cut_off)
  show ?thesis
    unfolding NewOrder_def Let_def assms(1) pass_simps prod.case
    using p k by (auto simp: refuse_if_def expect_def split: option.splits)
qed

text \<open>C30 (acme/eab_admin.go, SetEABDisabled; acme/policy.go, activeCred): in the state in which an administrator's disabling of
  a credential leaves the server, no account made with it places an order or finalizes one, and no certificate is issued
  by trying.\<close>

theorem disable_cuts_off:
  assumes "SetEABDisabled M (a_eab_id a) True actor s = (Inr (), s')"
  shows "(authenticate M body (newOrderURL M) s' = (Inr (jws, a), s1) \<longrightarrow>
      (\<exists>p. fst (NewOrder M body s') = Inl p) \<and> acme_orders (snd (NewOrder M body s')) = acme_orders s') \<and>
    (authenticate M body (finalizeURL M n) s' = (Inr (jws, a), s1) \<longrightarrow>
      (\<exists>p. fst (Finalize M n body s') = Inl p) \<and> certificates (snd (Finalize M n body s')) = certificates s')"
  using NewOrder_cut_off Finalize_cut_off SetEABDisabled_cuts_off [OF assms] by blast


section \<open>Deactivating an account and deleting a credential\<close>

text \<open>(acme/eab_admin.go, DeactivateAccount; acme/service.go, authenticate): once an administrator has deactivated an
  account, no request is authenticated as it, and a second deactivation is refused and changes nothing but the count of
  statements.\<close>

theorem DeactivateAccount_final:
  assumes "DeactivateAccount M i actor s = (Inr (), s')"
  shows "\<not> (\<exists>jws a s1. authenticate M body url s' = (Inr (jws, a), s1) \<and> a_id a = i) \<and>
    fst (DeactivateAccount M i other s') \<noteq> Inr () \<and> acme_accounts (snd (DeactivateAccount M i other s')) = acme_accounts s'"
proof -
  from assms obtain s1 s2 where set: "SetAcmeAccountStatus (am_env M) i AcmeStatusDeactivated s1 = (Inr (), s2)"
    and s': "acme_accounts s' = acme_accounts s2"
    unfolding DeactivateAccount_def Let_def by (auto dest!: admin_stmt_InrD split: if_splits)
  have "acme_accounts s2 = update_rows (\<lambda>a. a_id a = i) (\<lambda>a. a\<lparr>a_status := AcmeStatusDeactivated\<rparr>) (acme_accounts s1)"
    using set by (auto simp: SetAcmeAccountStatus_def set_accounts_def stmt_defs split: if_splits attempt_splits)
  then have "\<forall>a \<in> set (rows (acme_accounts s')). a_id a = i \<longrightarrow> a_status a = AcmeStatusDeactivated"
    by (simp add: s' ball_update_where)
  then have off: "a_status a = AcmeStatusDeactivated" if "a \<in> set (rows (acme_accounts s'))" "a_id a = i" for a
    using that by blast
  have "\<not> (\<exists>jws a s1. authenticate M body url s' = (Inr (jws, a), s1) \<and> a_id a = i)"
  proof (intro notI, elim exE conjE)
    fix jws a s1 assume a: "authenticate M body url s' = (Inr (jws, a), s1)" "a_id a = i"
    have "a \<in> set (rows (acme_accounts s')) \<and> a_status a = AcmeStatusValid" by (rule authenticate_InrD [OF a(1)]) simp
    with off [of a] a(2) show False by simp
  qed
  moreover have "fst (DeactivateAccount M i other s') \<noteq> Inr () \<and>
      acme_accounts (snd (DeactivateAccount M i other s')) = acme_accounts s'"
  proof -
    obtain q t where q: "GetAcmeAccount (am_env M) i s' = (q, t)" by fastforce
    have "acme_accounts t = acme_accounts s'"
      using q by (auto simp: GetAcmeAccount_def stmt_defs split: if_splits)
    moreover have "a_status a = AcmeStatusDeactivated" if "q = Inr a" for a
      using GetAcmeAccount_Inr [of "am_env M" i s' a t] q that off [of a] by simp
    ultimately show ?thesis using q by (cases q) (auto simp: DeactivateAccount_def admin_stmt_def)
  qed
  ultimately show ?thesis by blast
qed

lemma GetEABCred_state: "snd (GetEABCred E i s) = s\<lparr>tick := Suc (tick s)\<rparr>"
  by (simp add: GetEABCred_def query_row_state)

lemma sort_key_Nil_iff [simp]: "sort_key f xs = [] \<longleftrightarrow> xs = []"
  by (metis length_0_conv length_sort)

lemma ListAccounts_Inr:
  "ListAcmeAccountsByEAB E i s = (Inr as, s') \<Longrightarrow> s' = s\<lparr>tick := Suc (tick s)\<rparr> \<and> (as = [] \<longleftrightarrow> accounts_of i s = 0)"
  unfolding ListAcmeAccountsByEAB_def
  by (auto simp: accounts_of_def count_list_0_iff filter_empty_conv dest!: query_row_Inr)

lemma delete_none: "affected p rs = 0 \<Longrightarrow> delete_where p rs = rs"
  by (auto simp: affected_zero_iff delete_where_def)

lemma DeleteEABCred_outcome:
  "case fst (DeleteEABCred E i s) of
     Inr _ \<Rightarrow> accounts_of i s = 0 \<and> affected (\<lambda>e. e_id e = i) (rows (acme_eab_creds s)) \<noteq> 0 \<and>
       acme_eab_creds (snd (DeleteEABCred E i s)) = delete_rows (\<lambda>e. e_id e = i) (acme_eab_creds s)
   | Inl _ \<Rightarrow> acme_eab_creds (snd (DeleteEABCred E i s)) = acme_eab_creds s"
proof (cases "fault E (tick s)")
  case True
  then show ?thesis by (simp add: DeleteEABCred_def stmt_defs)
next
  case False
  have acc: "(\<exists>a \<in> set (rows (acme_accounts s)). a_eab_id a = i) \<longleftrightarrow> accounts_of i s \<noteq> 0"
    by (auto simp: accounts_of_def count_list_0_iff)
  have same: "affected (\<lambda>e. e_id e = i) (rows (acme_eab_creds s)) = 0 \<Longrightarrow>
      delete_rows (\<lambda>e. e_id e = i) (acme_eab_creds s) = acme_eab_creds s"
    by (simp add: delete_rows_def delete_none)
  show ?thesis
    using False same
    by (cases "accounts_of i s = 0"; cases "affected (\<lambda>e. e_id e = i) (rows (acme_eab_creds s)) = 0")
       (simp_all add: DeleteEABCred_def stmt_defs acc)
qed

text \<open>(acme/eab_admin.go, DeleteEAB; store/acme.go, DeleteEABCred): a credential is deleted only when no account was
  made with it, and then it alone disappears; a deletion that reports any error leaves every credential as it was.\<close>

theorem DeleteEAB_outcome:
  "case fst (DeleteEAB M i actor s) of
     Inr _ \<Rightarrow> accounts_of i s = 0 \<and> filter (\<lambda>e. e_id e = i) (rows (acme_eab_creds s)) \<noteq> [] \<and>
       rows (acme_eab_creds (snd (DeleteEAB M i actor s))) = filter (\<lambda>e. e_id e \<noteq> i) (rows (acme_eab_creds s))
   | Inl _ \<Rightarrow> acme_eab_creds (snd (DeleteEAB M i actor s)) = acme_eab_creds s"
proof -
  let ?E = "am_env M"
  obtain q t where q: "GetEABCred ?E i s = (q, t)" by fastforce
  obtain as u where l: "ListAcmeAccountsByEAB ?E i t = (as, u)" by fastforce
  have t: "acme_eab_creds t = acme_eab_creds s" "accounts_of i t = accounts_of i s"
    using GetEABCred_state [of ?E i s] q by (simp_all add: accounts_of_def)
  have u: "acme_eab_creds u = acme_eab_creds t" "accounts_of i u = accounts_of i t"
    using l by (auto simp: ListAcmeAccountsByEAB_def stmt_defs accounts_of_def split: if_splits)
  show ?thesis
  proof (cases "(\<exists>c. q = Inr c) \<and> as = Inr []")
    case True
    obtain d v where d: "DeleteEABCred ?E i u = (d, v)" by fastforce
    from True obtain c where c: "q = Inr c" "as = Inr []" by blast
    note del = DeleteEABCred_outcome [of ?E i u, unfolded d fst_conv snd_conv]
    show ?thesis
    proof (cases d)
      case (Inl e)
      then show ?thesis using q l d t u c del by (simp add: DeleteEAB_def admin_stmt_def)
    next
      case (Inr x)
      then show ?thesis
        using q l d t u c del by (simp add: DeleteEAB_def admin_stmt_def affected_def delete_where_def)
    qed
  next
    case False
    then show ?thesis using q l t u by (cases q; cases as) (auto simp: DeleteEAB_def admin_stmt_def)
  qed
qed


section \<open>Finding a credential\<close>

lemma ListEABCreds_Inr:
  "ListEABCreds E s = (Inr cs, s') \<Longrightarrow> set cs = set (rows (acme_eab_creds s)) \<and> s' = s\<lparr>tick := Suc (tick s)\<rparr>"
  unfolding ListEABCreds_def by (auto dest!: query_row_Inr)

lemma eab_by_number_Some:
  assumes "eab_by_number E ref s = (Some c, s')"
  shows "c \<in> set (rows (acme_eab_creds s)) \<and> scan_int64 ref = Some (int (e_id c))"
  using assms unfolding eab_by_number_def
  by (auto split: option.splits if_splits attempt_splits dest!: GetEABCred_Inr)

lemma eab_by_number_state: "acme_eab_creds (snd (eab_by_number E ref s)) = acme_eab_creds s"
  by (auto simp: eab_by_number_def GetEABCred_def stmt_defs split: option.split attempt_splits)

text \<open>(acme/eab_admin.go, ResolveEAB): the credential found has the text as its key id, or its number stands at the start of
  the text, or it is the only one with that name.\<close>

lemma ResolveEAB_sound:
  assumes "ResolveEAB M ref s = (Inr c, s')"
  shows "c \<in> set (rows (acme_eab_creds s)) \<and>
    (e_key_id c = trim_space ref \<or> scan_int64 (trim_space ref) = Some (int (e_id c)) \<or>
     {x \<in> set (rows (acme_eab_creds s)). to_lower (e_name x) = to_lower (trim_space ref)} = {c})"
proof -
  let ?E = "am_env M" and ?r = "trim_space ref"
  obtain q t where q: "GetEABCredByKeyID ?E ?r s = (q, t)" by fastforce
  have t: "t = s\<lparr>tick := Suc (tick s)\<rparr>" using q query_row_state by (metis GetEABCredByKeyID_def snd_conv)
  show ?thesis
  proof (cases q)
    case (Inr x)
    then show ?thesis
      using assms q by (auto simp: ResolveEAB_def Let_def GetEABCredByKeyID_def dest!: query_row_Inr select_one_Inr split: if_splits)
  next
    case (Inl e)
    obtain n u where n: "eab_by_number ?E ?r t = (n, u)" by fastforce
    have u: "acme_eab_creds u = acme_eab_creds s" using eab_by_number_state [of ?E ?r t] n t by simp
    show ?thesis
    proof (cases n)
      case (Some x)
      then show ?thesis using assms q Inl n t eab_by_number_Some [of ?E ?r t x u] by (auto simp: ResolveEAB_def Let_def split: if_splits)
    next
      case None
      then have "eab_by_name ?E ?r u = (Inr c, s')" using assms q Inl n by (auto simp: ResolveEAB_def Let_def split: if_splits)
      then obtain all v where all: "ListEABCreds ?E u = (Inr all, v)" "filter (\<lambda>x. to_lower (e_name x) = to_lower ?r) all = [c]"
        unfolding eab_by_name_def by (auto dest!: admin_stmt_InrD split: list.splits)
      then have "set (filter (\<lambda>x. to_lower (e_name x) = to_lower ?r) all) = {c}" by simp
      then show ?thesis using ListEABCreds_Inr [OF all(1)] u by auto
    qed
  qed
qed

text \<open>A name that starts with the number of another credential finds that other one: \<open>Sscanf\<close> does not look at the rest of
  the text.\<close>

lemma name_taken_for_a_number:
  "let s = (demo_acme_db [] [] [])\<lparr>acme_eab_creds :=
       \<lparr>rows = [demo_cred, demo_cred\<lparr>e_id := 2, e_key_id := ''kid2'', e_name := ''1st cluster''\<rparr>], next_id = 3\<rparr>\<rparr> in
   fst (ResolveEAB demo_acme ''1st cluster'' s) = Inr demo_cred \<and> e_name demo_cred = ''cluster''"
  by code_simp


section \<open>Examples\<close>

definition demo_eab :: CreateEABInput where
  "demo_eab = \<lparr>ce_name = '' edge '', ce_ca = [], ce_profile = [], ce_days = 30, ce_allowed_domains = [''*.Edge.test''],
     ce_allow_any_domain = False, ce_max_accounts = 1, ce_expires_in_days = 7, ce_actor = ''bob''\<rparr>"

theorem CreateEAB_usable_witness:
  "\<exists>r s'. CreateEAB demo_acme (Some ''01234'') (Some ''secret'') demo_eab (demo_acme_db [] [] []) = (Inr r, s') \<and>
     lookupHMAC demo_acme (e_key_id (cr_cred r)) s' = (Some (''secret'', cr_cred r), s'\<lparr>tick := Suc (tick s')\<rparr>) \<and>
     e_allowed_domains (cr_cred r) \<noteq> []"
proof -
  let ?s = "demo_acme_db [] [] []"
  have "case CreateEAB demo_acme (Some ''01234'') (Some ''secret'') demo_eab ?s of (Inr r, s') \<Rightarrow> True | _ \<Rightarrow> False" by code_simp
  then obtain r s' where ok: "CreateEAB demo_acme (Some ''01234'') (Some ''secret'') demo_eab ?s = (Inr r, s')"
    by (auto split: sum.splits prod.splits)
  have wf: "wf_table e_id (acme_eab_creds ?s)" by code_simp
  have box: "opens_sealed (sv_box (am_ca demo_acme))"
    by (auto simp: opens_sealed_def demo_acme_def demo_service_def demo_aead_def)
  have n: "draws_nonces (am_ca demo_acme)"
    by (auto simp: draws_nonces_def demo_acme_def demo_service_def demo_aead_def)
  have "\<not> fault (am_env demo_acme) (tick s')" by (simp add: demo_acme_def demo_service_def demo_env_def)
  note u = CreateEAB_usable [OF ok wf box n this]
  have "\<not> ce_allow_any_domain demo_eab" by (simp add: demo_eab_def)
  with u ok show ?thesis by (intro exI [of _ r] exI [of _ s']) (elim exE conjE, simp)
qed

theorem disable_cuts_off_witness:
  "\<exists>t. SetEABDisabled demo_acme 1 True ''bob'' (demo_acme_db [demo_account] [demo_order AcmeStatusReady] []) = (Inr (), t) \<and>
     (\<exists>jws s1. authenticate demo_acme ''finalize'' (finalizeURL demo_acme 1) t = (Inr (jws, demo_account), s1)) \<and>
     (\<exists>p. fst (Finalize demo_acme 1 ''finalize'' t) = Inl p) \<and> rows (certificates (snd (Finalize demo_acme 1 ''finalize'' t))) = []"
proof -
  let ?s = "demo_acme_db [demo_account] [demo_order AcmeStatusReady] []"
  let ?t = "snd (SetEABDisabled demo_acme 1 True ''bob'' ?s)"
  let ?au = "authenticate demo_acme ''finalize'' (finalizeURL demo_acme 1) ?t"
  have "fst (SetEABDisabled demo_acme 1 True ''bob'' ?s) = Inr ()" and none: "rows (certificates ?t) = []" by code_simp+
  then have t: "SetEABDisabled demo_acme 1 True ''bob'' ?s = (Inr (), ?t)" by (metis prod.collapse)
  have "map_option snd (ok (fst ?au)) = Some demo_account" by code_simp
  then obtain jws where "fst ?au = Inr (jws, demo_account)" by (cases "fst ?au") auto
  then have a: "?au = (Inr (jws, demo_account), snd ?au)" by (metis prod.collapse)
  have "a_eab_id demo_account = 1" by code_simp
  then have "SetEABDisabled demo_acme (a_eab_id demo_account) True ''bob'' ?s = (Inr (), ?t)" using t by simp
  from disable_cuts_off [OF this, of "''finalize''" jws "snd ?au" 1] a none t show ?thesis
    by (intro exI [of _ ?t] conjI) auto
qed

theorem DeactivateAccount_final_witness:
  "\<exists>t. DeactivateAccount demo_acme 1 ''bob'' (demo_acme_db [demo_account] [] []) = (Inr (), t) \<and>
     (\<nexists>jws a s1. authenticate demo_acme ''order'' (newOrderURL demo_acme) t = (Inr (jws, a), s1) \<and> a_id a = 1)"
proof -
  let ?s = "demo_acme_db [demo_account] [] []"
  have "case DeactivateAccount demo_acme 1 ''bob'' ?s of (Inr (), t) \<Rightarrow> True | _ \<Rightarrow> False" by code_simp
  then obtain t where ok: "DeactivateAccount demo_acme 1 ''bob'' ?s = (Inr (), t)" by (auto split: sum.splits prod.splits)
  from DeactivateAccount_final [OF ok, of "''order''" "newOrderURL demo_acme" "''eve''"] ok show ?thesis by blast
qed
end
