(* ===== verification/Acme_Invariants.thy ===== *)
theory Acme_Invariants
  imports Acme_Admin
begin

text \<open>
  What holds of the tables of the ACME server in every reachable state, and what a client can rely on: the database
  starts and stays well formed under any interleaving of statements, a nonce that was handed out is accepted, and an
  order ends in a state its status machine allows, whatever fails on the way.
\<close>


section \<open>Well-formed tables\<close>

definition wf_creds :: "EABCred table \<Rightarrow> bool" where
  "wf_creds C \<longleftrightarrow> wf_table e_id C \<and> distinct (map e_key_id (rows C))"

definition wf_accounts :: "EABCred table \<Rightarrow> AcmeAccount table \<Rightarrow> bool" where
  "wf_accounts C A \<longleftrightarrow> wf_table a_id A \<and> distinct (map a_jwk_thumbprint (rows A)) \<and>
     a_eab_id ` set (rows A) \<subseteq> e_id ` set (rows C)"

definition wf_orders :: "AcmeAccount table \<Rightarrow> AcmeOrder table \<Rightarrow> bool" where
  "wf_orders A T \<longleftrightarrow> wf_table o_id T \<and> o_account_id ` set (rows T) \<subseteq> a_id ` set (rows A) \<and>
     list_all (\<lambda>x. o_certificate_id x = None \<or> o_status x = AcmeStatusValid) (rows T)"

definition acme_wf :: "db \<Rightarrow> bool" where
  "acme_wf s \<longleftrightarrow> wf_creds (acme_eab_creds s) \<and> wf_accounts (acme_eab_creds s) (acme_accounts s) \<and>
     wf_orders (acme_accounts s) (acme_orders s) \<and> unique_nonces s"

lemma acme_wf_part: "acme_part t = acme_part s \<Longrightarrow> acme_wf s \<Longrightarrow> acme_wf t"
  by (simp add: acme_part_def acme_wf_def unique_nonces_def)

lemma acme_wf_empty: "acme_wf empty_db"
  by (simp add: acme_wf_def wf_creds_def wf_accounts_def wf_orders_def unique_nonces_def empty_db_def empty_table_def wf_table_def)

lemma image_update: "(\<And>r. key (f r) = key r) \<Longrightarrow> key ` set (update_where p f rs) = key ` set rs"
  by (metis image_set map_update_where)

text \<open>Updates that keep keys, unique columns and references.\<close>

lemma wf_creds_update:
  assumes "\<And>e. e_id (f e) = e_id e" and "\<And>e. e_key_id (f e) = e_key_id e"
  shows "wf_creds C \<Longrightarrow> wf_creds (update_rows p f C)" and "wf_accounts (update_rows p f C) A = wf_accounts C A"
  using assms eab_t.wf_update [of C p f] map_update_where [of p e_key_id f "rows C"]
  by (simp_all add: wf_creds_def wf_accounts_def image_update)

lemma wf_accounts_update:
  assumes "\<And>a. a_id (f a) = a_id a" and "\<And>a. a_jwk_thumbprint (f a) = a_jwk_thumbprint a" and "\<And>a. a_eab_id (f a) = a_eab_id a"
  shows "wf_accounts C A \<Longrightarrow> wf_accounts C (update_rows p f A)" and "wf_orders (update_rows p f A) T = wf_orders A T"
  using assms accounts_t.wf_update [of A p f] map_update_where [of p a_jwk_thumbprint f "rows A"]
  by (simp_all add: wf_accounts_def wf_orders_def image_update)

lemma wf_orders_update:
  assumes "\<And>x. o_id (f x) = o_id x" and "\<And>x. o_account_id (f x) = o_account_id x"
    and "\<And>x. p x \<Longrightarrow> o_certificate_id x = None \<or> o_status x = AcmeStatusValid \<Longrightarrow>
      o_certificate_id (f x) = None \<or> o_status (f x) = AcmeStatusValid"
    and "wf_orders A T"
  shows "wf_orders A (update_rows p f T)"
  using assms orders_t.wf_update [of T p f]
  by (simp add: wf_orders_def image_update list_all_iff ball_update_where)

text \<open>New rows: the constraints of the insertions are what makes them fit.\<close>

lemma acme_wf_insert_cred:
  assumes "acme_wf s"
  shows "acme_wf (snd (insert_cred E e s))"
proof -
  let ?e = "e\<lparr>e_profile := nz (e_profile e) ''server'', e_account_count := 0, e_last_used_at := None\<rparr>"
  let ?C = "insert_row (\<lambda>n. e_id_update (\<lambda>_. n)) ?e (acme_eab_creds s)" and ?t = "snd (insert_cred E e s)"
  have "acme_part ?t = acme_part s \<or>
      (acme_part ?t = acme_part (s\<lparr>acme_eab_creds := ?C\<rparr>) \<and> e_key_id e \<notin> e_key_id ` set (rows (acme_eab_creds s)))"
    by (cases "fault E (tick s)"; cases "eab_insertable ?e (s\<lparr>tick := Suc (tick s)\<rparr>)")
       (auto simp: insert_cred_def stmt_defs acme_part_def eab_insertable_def)
  then show ?thesis
  proof
    assume *: "acme_part ?t = acme_part (s\<lparr>acme_eab_creds := ?C\<rparr>) \<and> e_key_id e \<notin> e_key_id ` set (rows (acme_eab_creds s))"
    then have "wf_creds ?C" using assms eab_t.wf_insert [of "acme_eab_creds s" ?e] by (simp add: acme_wf_def wf_creds_def)
    moreover have "wf_accounts ?C (acme_accounts s)" using assms by (auto simp: acme_wf_def wf_accounts_def)
    ultimately have "acme_wf (s\<lparr>acme_eab_creds := ?C\<rparr>)" using assms by (simp add: acme_wf_def unique_nonces_def)
    with * show ?thesis by (blast intro: acme_wf_part)
  qed (use assms in \<open>blast intro: acme_wf_part\<close>)
qed

lemma acme_wf_insert_account:
  assumes "acme_wf s"
  shows "acme_wf (snd (insert_account E a s))"
proof -
  let ?A = "insert_row (\<lambda>n. a_id_update (\<lambda>_. n)) (a\<lparr>a_last_used_at := None\<rparr>) (acme_accounts s)" and ?t = "snd (insert_account E a s)"
  have "acme_part ?t = acme_part s \<or>
      (acme_part ?t = acme_part (s\<lparr>acme_accounts := ?A\<rparr>) \<and>
       a_jwk_thumbprint a \<notin> a_jwk_thumbprint ` set (rows (acme_accounts s)) \<and> a_eab_id a \<in> e_id ` set (rows (acme_eab_creds s)))"
    by (cases "fault E (tick s)"; cases "account_insertable (a\<lparr>a_last_used_at := None\<rparr>) (s\<lparr>tick := Suc (tick s)\<rparr>)")
       (force simp: insert_account_def stmt_defs acme_part_def account_insertable_def)+
  then show ?thesis
  proof
    assume *: "acme_part ?t = acme_part (s\<lparr>acme_accounts := ?A\<rparr>) \<and>
      a_jwk_thumbprint a \<notin> a_jwk_thumbprint ` set (rows (acme_accounts s)) \<and> a_eab_id a \<in> e_id ` set (rows (acme_eab_creds s))"
    then have "wf_accounts (acme_eab_creds s) ?A"
      using assms accounts_t.wf_insert [of "acme_accounts s" "a\<lparr>a_last_used_at := None\<rparr>"] by (simp add: acme_wf_def wf_accounts_def)
    moreover have "wf_orders ?A (acme_orders s)" using assms by (auto simp: acme_wf_def wf_orders_def)
    ultimately have "acme_wf (s\<lparr>acme_accounts := ?A\<rparr>)" using assms by (simp add: acme_wf_def unique_nonces_def)
    with * show ?thesis by (blast intro: acme_wf_part)
  qed (use assms in \<open>blast intro: acme_wf_part\<close>)
qed

lemma acme_wf_insert_order:
  assumes "acme_wf s"
  shows "acme_wf (snd (insert_order E x s))"
proof -
  let ?x = "x\<lparr>o_certificate_id := None, o_error := None\<rparr>"
  let ?T = "insert_row (\<lambda>n. o_id_update (\<lambda>_. n)) ?x (acme_orders s)" and ?t = "snd (insert_order E x s)"
  have "acme_part ?t = acme_part s \<or>
      (acme_part ?t = acme_part (s\<lparr>acme_orders := ?T\<rparr>) \<and> o_account_id x \<in> a_id ` set (rows (acme_accounts s)))"
    by (cases "fault E (tick s)"; cases "\<exists>a \<in> set (rows (acme_accounts s)). a_id a = o_account_id x")
       (simp_all add: insert_order_def stmt_defs acme_part_def image_iff eq_commute)
  then show ?thesis
  proof
    assume *: "acme_part ?t = acme_part (s\<lparr>acme_orders := ?T\<rparr>) \<and> o_account_id x \<in> a_id ` set (rows (acme_accounts s))"
    then have "wf_orders (acme_accounts s) ?T"
      using assms orders_t.wf_insert [of "acme_orders s" ?x] by (simp add: acme_wf_def wf_orders_def)
    then have "acme_wf (s\<lparr>acme_orders := ?T\<rparr>)" using assms by (simp add: acme_wf_def unique_nonces_def)
    with * show ?thesis by (blast intro: acme_wf_part)
  qed (use assms in \<open>blast intro: acme_wf_part\<close>)
qed

lemma acme_wf_delete_cred:
  assumes "acme_wf s"
  shows "acme_wf (snd (DeleteEABCred E i s))"
proof -
  let ?C = "delete_rows (\<lambda>e. e_id e = i) (acme_eab_creds s)" and ?t = "snd (DeleteEABCred E i s)"
  have "acme_part ?t = acme_part s \<or> (acme_part ?t = acme_part (s\<lparr>acme_eab_creds := ?C\<rparr>) \<and> i \<notin> a_eab_id ` set (rows (acme_accounts s)))"
    by (cases "fault E (tick s)"; cases "\<exists>a \<in> set (rows (acme_accounts s)). a_eab_id a = i")
       (auto simp: DeleteEABCred_def stmt_defs acme_part_def)
  then show ?thesis
  proof
    assume *: "acme_part ?t = acme_part (s\<lparr>acme_eab_creds := ?C\<rparr>) \<and> i \<notin> a_eab_id ` set (rows (acme_accounts s))"
    have "wf_creds ?C"
      using assms eab_t.wf_delete [of "acme_eab_creds s"] by (simp add: acme_wf_def wf_creds_def distinct_map_delete_where)
    moreover have "wf_accounts ?C (acme_accounts s)"
    proof -
      have "e_id ` set (rows ?C) = e_id ` set (rows (acme_eab_creds s)) - {i}" by (auto simp: delete_where_def)
      then show ?thesis using assms * unfolding acme_wf_def wf_accounts_def by blast
    qed
    ultimately have "acme_wf (s\<lparr>acme_eab_creds := ?C\<rparr>)" using assms by (simp add: acme_wf_def unique_nonces_def)
    with * show ?thesis by (blast intro: acme_wf_part)
  qed (use assms in \<open>blast intro: acme_wf_part\<close>)
qed

lemma acme_wf_set_creds:
  "acme_wf s \<Longrightarrow> acme_part t = acme_part s \<or> acme_part t = acme_part (set_creds p f s) \<Longrightarrow> (\<And>e. e_id (f e) = e_id e) \<Longrightarrow> (\<And>e. e_key_id (f e) = e_key_id e) \<Longrightarrow> acme_wf t"
  by (elim disjE; erule acme_wf_part) (simp_all add: acme_wf_def set_creds_def unique_nonces_def wf_creds_update)

lemma acme_wf_set_accounts:
  "acme_wf s \<Longrightarrow> acme_part t = acme_part s \<or> acme_part t = acme_part (set_accounts p f s) \<Longrightarrow> (\<And>a. a_id (f a) = a_id a) \<Longrightarrow>
     (\<And>a. a_jwk_thumbprint (f a) = a_jwk_thumbprint a) \<Longrightarrow> (\<And>a. a_eab_id (f a) = a_eab_id a) \<Longrightarrow> acme_wf t"
  by (elim disjE; erule acme_wf_part) (simp_all add: acme_wf_def set_accounts_def unique_nonces_def wf_accounts_update [of f])

lemma acme_wf_set_orders:
  "acme_wf s \<Longrightarrow> acme_part t = acme_part s \<or> acme_part t = acme_part (set_orders p f s) \<Longrightarrow> (\<And>x. o_id (f x) = o_id x) \<Longrightarrow>
     (\<And>x. o_account_id (f x) = o_account_id x) \<Longrightarrow>
     (\<And>x. p x \<Longrightarrow> o_certificate_id x = None \<or> o_status x = AcmeStatusValid \<Longrightarrow>
        o_certificate_id (f x) = None \<or> o_status (f x) = AcmeStatusValid) \<Longrightarrow> acme_wf t"
  by (elim disjE; erule acme_wf_part) (simp_all add: acme_wf_def set_orders_def unique_nonces_def wf_orders_update)


text \<open>The updates: each either fails, or is an update of one table.\<close>

lemma update_parts:
  "acme_part (snd (ReserveEABAccountSlot E i s)) = acme_part s \<or>
   acme_part (snd (ReserveEABAccountSlot E i s)) = acme_part (set_creds
     (\<lambda>e. e_id e = i \<and> (e_max_accounts e = 0 \<or> e_account_count e < e_max_accounts e))
     (\<lambda>e. e\<lparr>e_account_count := e_account_count e + 1, e_last_used_at := Some (now E s)\<rparr>) s)"
  "acme_part (snd (ReleaseEABAccountSlot E i s)) = acme_part s \<or>
   acme_part (snd (ReleaseEABAccountSlot E i s)) = acme_part (set_creds (\<lambda>e. e_id e = i \<and> 0 < e_account_count e)
     (\<lambda>e. e\<lparr>e_account_count := e_account_count e - 1\<rparr>) s)"
  "acme_part (snd (SetEABCredDisabled E i b s)) = acme_part s \<or>
   acme_part (snd (SetEABCredDisabled E i b s)) = acme_part (set_creds (\<lambda>e. e_id e = i) (\<lambda>e. e\<lparr>e_disabled := b\<rparr>) s)"
  "acme_part (snd (SetAcmeAccountStatus E i st s)) = acme_part s \<or>
   acme_part (snd (SetAcmeAccountStatus E i st s)) = acme_part (set_accounts (\<lambda>a. a_id a = i) (\<lambda>a. a\<lparr>a_status := st\<rparr>) s)"
  "acme_part (snd (SetAcmeAccountContact E i cs s)) = acme_part s \<or>
   acme_part (snd (SetAcmeAccountContact E i cs s)) = acme_part (set_accounts (\<lambda>a. a_id a = i) (\<lambda>a. a\<lparr>a_contact := cs\<rparr>) s)"
  "acme_part (snd (TouchAcmeAccountUsed E i s)) = acme_part s \<or>
   acme_part (snd (TouchAcmeAccountUsed E i s)) =
     acme_part (set_accounts (\<lambda>a. a_id a = i) (\<lambda>a. a\<lparr>a_last_used_at := Some (now E s)\<rparr>) s)"
  "acme_part (snd (SetAcmeOrderError E i p s)) = acme_part s \<or>
   acme_part (snd (SetAcmeOrderError E i p s)) = acme_part (set_orders (\<lambda>x. o_id x = i \<and> o_status x \<noteq> AcmeStatusValid)
     (\<lambda>x. x\<lparr>o_status := AcmeStatusInvalid, o_error := Some p\<rparr>) s)"
  "acme_part (snd (ClaimAcmeOrderForFinalize E i s)) = acme_part s \<or>
   acme_part (snd (ClaimAcmeOrderForFinalize E i s)) = acme_part (set_orders (\<lambda>x. o_id x = i \<and> o_status x = AcmeStatusReady)
     (\<lambda>x. x\<lparr>o_status := AcmeStatusProcessing\<rparr>) s)"
  "acme_part (snd (SetAcmeOrderCertificate E i c s)) = acme_part s \<or>
   acme_part (snd (SetAcmeOrderCertificate E i c s)) = acme_part (set_orders (\<lambda>x. o_id x = i)
     (\<lambda>x. x\<lparr>o_status := AcmeStatusValid, o_certificate_id := Some c\<rparr>) s)"
  by (cases "fault E (tick s)"; simp add: acme_stmt_defs acme_part_def)+

lemma acme_wf_update:
  assumes "acme_wf s"
  shows "acme_wf (snd (ReserveEABAccountSlot E i s))" "acme_wf (snd (ReleaseEABAccountSlot E i s))"
    "acme_wf (snd (SetEABCredDisabled E i b s))" "acme_wf (snd (SetAcmeAccountStatus E i st s))"
    "acme_wf (snd (SetAcmeAccountContact E i cs s))" "acme_wf (snd (TouchAcmeAccountUsed E i s))"
    "acme_wf (snd (SetAcmeOrderError E i p s))" "acme_wf (snd (ClaimAcmeOrderForFinalize E i s))"
    "acme_wf (snd (SetAcmeOrderCertificate E i c s))"
  by (rule acme_wf_set_creds [OF assms update_parts(1)], simp_all)
     (rule acme_wf_set_creds [OF assms update_parts(2)], simp_all,
      rule acme_wf_set_creds [OF assms update_parts(3)], simp_all,
      rule acme_wf_set_accounts [OF assms update_parts(4)], simp_all,
      rule acme_wf_set_accounts [OF assms update_parts(5)], simp_all,
      rule acme_wf_set_accounts [OF assms update_parts(6)], simp_all,
      rule acme_wf_set_orders [OF assms update_parts(7)], simp_all,
      rule acme_wf_set_orders [OF assms update_parts(8)], simp_all,
      rule acme_wf_set_orders [OF assms update_parts(9)], simp_all)

lemma acme_wf_nonces:
  "acme_wf s \<Longrightarrow> unique_nonces t \<Longrightarrow> acme_orders t = acme_orders s \<Longrightarrow> registrations t = registrations s \<Longrightarrow>
     acme_accounts t = acme_accounts s \<Longrightarrow> acme_wf t"
  by (simp add: acme_wf_def registrations_def)

lemma nonce_accounts [simp]:
  "acme_accounts (snd (CreateAcmeNonce E n x s)) = acme_accounts s"
  "acme_accounts (snd (ConsumeAcmeNonce E n x s)) = acme_accounts s"
  "acme_accounts (snd (PurgeExpiredAcmeNonces E x s)) = acme_accounts s"
  by (auto simp: acme_stmt_defs)

lemma acme_wf_step:
  assumes "stmt_step E s e t" and "acme_wf s"
  shows "acme_wf t"
proof -
  have u: "unique_nonces t" using nonce_step [OF assms(1)] assms(2) by (simp add: acme_wf_def)
  from assms(1) show ?thesis
  proof cases
    case other
    then show ?thesis using assms(2) by (blast intro: acme_wf_part)
  qed (use assms(2) u in \<open>auto intro: acme_wf_update acme_wf_insert_cred acme_wf_insert_account acme_wf_insert_order
      acme_wf_delete_cred acme_wf_nonces\<close>)
qed

text \<open>C7 (store/acme.go): in every interleaving of the statements of the ACME server its tables stay well formed. Keys, key
  ids, thumbprints and nonces are unique, every account refers to a credential and every order to an account, and only a
  valid order has a certificate.\<close>

theorem acme_tables_wf:
  assumes "trace E s es t" and "acme_wf s"
  shows "acme_wf t"
  using assms by (induction rule: trace.induct) (auto intro: acme_wf_step)


section \<open>A nonce that was handed out is accepted\<close>

definition offered :: "string \<Rightarrow> int \<Rightarrow> db \<Rightarrow> bool" where
  "offered n x s \<longleftrightarrow> \<lparr>n_nonce = n, n_expires_at = x\<rparr> \<in> set (acme_nonces s)"

lemma offered_consume:
  assumes "unique_nonces s" and "offered n x s" and "r = ConsumeAcmeNonce E m y s" and "redeem_event m r \<noteq> NonceRedeemed n"
  shows "offered n x (snd r)"
proof (cases "fault E (tick s)")
  case True
  then show ?thesis using assms(2,3) by (simp add: ConsumeAcmeNonce_def stmt_defs offered_def)
next
  case False
  let ?p = "\<lambda>z. n_nonce z = m \<and> y < n_expires_at z"
  have r: "fst r = Inr (affected ?p (acme_nonces s) = 1)" "acme_nonces (snd r) = delete_where ?p (acme_nonces s)"
    using False assms(3) by (simp_all add: ConsumeAcmeNonce_def stmt_defs)
  have "\<not> (m = n \<and> y < x)"
  proof
    assume *: "m = n \<and> y < x"
    then have "affected ?p (acme_nonces s) = 1"
      using assms(2) affected_nonce [OF assms(1), of m "\<lambda>z. y < n_expires_at z"] by (force simp: offered_def)
    with r(1) * assms(4) show False by (simp add: redeem_event_def)
  qed
  then show ?thesis using assms(2) by (auto simp: offered_def r(2) delete_where_def)
qed

lemma offered_step:
  assumes "stmt_step E s e t" and "unique_nonces s" and "offered n x s" and "e \<noteq> NonceRedeemed n"
    and "case e of NoncesPurged y \<Rightarrow> y < x | _ \<Rightarrow> True"
  shows "offered n x t"
  using assms(1)
proof cases
  case (redeem r m y)
  then show ?thesis using offered_consume [OF assms(2,3)] assms(4) by simp
next
  case (purge y)
  then show ?thesis
    using assms(3,5) by (cases "fault E (tick s)") (auto simp: PurgeExpiredAcmeNonces_def stmt_defs offered_def delete_where_def)
next
  case (new_nonce r m y)
  then show ?thesis using assms(3) by (auto simp: CreateAcmeNonce_def stmt_defs offered_def)
qed (use assms(3) in \<open>auto simp: offered_def acme_part_def\<close>)

definition lives_on :: "string \<Rightarrow> int \<Rightarrow> event \<Rightarrow> bool" where
  "lives_on n x e \<longleftrightarrow> (case e of NonceRedeemed m \<Rightarrow> m \<noteq> n | NoncesPurged y \<Rightarrow> y < x | _ \<Rightarrow> True)"

lemma offered_trace:
  assumes "trace E s es t" and "unique_nonces s" and "offered n x s" and "list_all (lives_on n x) es"
  shows "offered n x t \<and> unique_nonces t"
  using assms
proof induction
  case (trace_step s es t e u)
  then have "offered n x t \<and> unique_nonces t" and e: "lives_on n x e" by simp_all
  then have "offered n x u" using trace_step.hyps offered_step [of E t e u n x] by (auto simp: lives_on_def split: event.splits)
  then show ?case using nonce_step [OF trace_step.hyps(2)] \<open>offered n x t \<and> unique_nonces t\<close> by simp
qed simp

text \<open>C8 (acme/nonce.go, New, Consume and Purge): a nonce that was handed out is accepted by any replica, after any statements
  of other requests, as long as it was not redeemed, its ten minutes are not over, no purge ran with a later time, and the
  database answers.\<close>

theorem nonce_accepted:
  assumes "NonceManager_New E s = Some (Inr n, s1)" and "unique_nonces s" and "trace E s1 es t"
    and "list_all (lives_on n (now E s + nonceTTL)) es" and "now E t < now E s + nonceTTL" and "n \<noteq> []" and "\<not> fault E (tick t)"
  shows "fst (Consume E n t)"
proof -
  let ?x = "now E s + nonceTTL"
  from assms(1) obtain b where "attempt (CreateAcmeNonce E (RawURLEncode b) ?x s) (\<lambda>e s. (Inl e, s))
      (\<lambda>_ s. (Inr (RawURLEncode b), s)) = (Inr n, s1)"
    by (auto simp: NonceManager_New_def Let_def)
  then have "CreateAcmeNonce E n ?x s = (Inr (), s1)"
    by (cases "CreateAcmeNonce E (RawURLEncode b) ?x s"; cases "fst (CreateAcmeNonce E (RawURLEncode b) ?x s)") auto
  then have off: "offered n ?x s1" and u: "unique_nonces s1"
    using assms(2) by (auto simp: CreateAcmeNonce_def run_def Let_def offered_def unique_nonces_def split: if_splits)
  have t: "offered n ?x t" "unique_nonces t" using offered_trace [OF assms(3) u off assms(4)] by simp_all
  then have "affected (\<lambda>z. n_nonce z = n \<and> now E t < n_expires_at z) (acme_nonces t) = 1"
    using affected_nonce [OF t(2), of n "\<lambda>z. now E t < n_expires_at z"] assms(5) by (force simp: offered_def)
  then show ?thesis using assms(6,7) by (simp add: Consume_def ConsumeAcmeNonce_def stmt_defs)
qed


section \<open>The status machine of an order\<close>

definition order_life :: "nat \<Rightarrow> db \<Rightarrow> acme_status option" where
  "order_life i s = map_option o_status (find (\<lambda>x. o_id x = i) (rows (acme_orders s)))"

text \<open>The abstract request to finalize: the status of the order, whether the request succeeded, and how many certificates it
  made. A certificate without a valid order is possible only when the database fails on the way.\<close>

inductive finalize_spec :: "bool \<Rightarrow> acme_status option \<Rightarrow> acme_status option \<Rightarrow> nat \<Rightarrow> bool" where
  refused: "finalize_spec False l l 0"
| invalidated: "n \<le> 1 \<Longrightarrow> finalize_spec False (Some AcmeStatusReady) (Some AcmeStatusInvalid) n"
| interrupted: "n \<le> 1 \<Longrightarrow> finalize_spec False (Some AcmeStatusReady) (Some AcmeStatusProcessing) n"
| unseen: "finalize_spec False (Some AcmeStatusReady) (Some AcmeStatusValid) 1"
| finalized: "finalize_spec True (Some AcmeStatusReady) (Some AcmeStatusValid) 1"

inductive_simps finalize_spec_success: "finalize_spec True l m n"

definition issued_since :: "db \<Rightarrow> db \<Rightarrow> nat" where
  "issued_since s t = length (rows (certificates t)) - length (rows (certificates s))"

definition grows :: "nat \<Rightarrow> db \<Rightarrow> db \<Rightarrow> bool" where
  "grows n s t \<longleftrightarrow> length (rows (certificates t)) = length (rows (certificates s)) + n"

text \<open>The calls that hand the state they got to what follows, as membership of the outcome in a set that has every error
  in that state.\<close>

lemma in_pki: "(\<And>e. (Inl e, s) \<in> T) \<Longrightarrow> (\<And>x. k x \<in> T) \<Longrightarrow> pki r s k \<in> T"
  by (cases r) auto

lemma in_boxed: "(\<And>e. (Inl e, s) \<in> T) \<Longrightarrow> (\<And>x. k x \<in> T) \<Longrightarrow> boxed r s k \<in> T"
  by (cases r) auto

lemma in_decrypt: "(\<And>e. (Inl e, s) \<in> T) \<Longrightarrow> (\<And>x. k x \<in> T) \<Longrightarrow> decryptKey V enc s k \<in> T"
  unfolding decryptKey_def by (intro in_boxed in_pki)

lemma in_issue_request: "(\<And>e. (Inl e, s) \<in> T) \<Longrightarrow> (\<And>x. k x \<in> T) \<Longrightarrow> issue_request V inp s k \<in> T"
  unfolding issue_request_def Let_def by (auto intro!: in_pki split: option.split)

lemma in_san_override: "(\<And>e. (Inl e, s) \<in> T) \<Longrightarrow> (\<And>x. k x \<in> T) \<Longrightarrow> issue_san_override V inp s k \<in> T"
  unfolding issue_san_override_def by (auto intro!: in_pki)

lemma CreateCertificate_grows:
  "CreateCertificate E c s = (r, t) \<Longrightarrow> (\<exists>n \<le> 1. grows n s t) \<and> (isl r \<or> grows 1 s t)"
proof (cases "fault E (tick s) \<or> \<not> cert_insertable (new_certificate E s c) (s\<lparr>tick := Suc (tick s)\<rparr>)")
  case True
  assume "CreateCertificate E c s = (r, t)"
  with True have "isl r \<and> t = s\<lparr>tick := Suc (tick s)\<rparr>"
    by (cases "fault E (tick s)") (auto simp: CreateCertificate_def stmt_defs)
  then show ?thesis by (auto intro!: exI [of _ 0] simp: grows_def)
next
  case False
  assume "CreateCertificate E c s = (r, t)"
  with False have "grows 1 s t"
    by (auto simp: CreateCertificate_def exec_insert_def run_def Let_def GetCertificate_def query_row_def grows_def split: if_splits)
  then show ?thesis by blast
qed

definition at_most_one :: "db \<Rightarrow> (('e + 'a) \<times> db) set" where
  "at_most_one s = {(r, t). (\<exists>n \<le> 1. grows n s t) \<and> (isl r \<or> grows 1 s t)}"

lemma grows_kept: "grows n s t \<Longrightarrow> certificates u = certificates t \<Longrightarrow> grows n s u"
  by (simp add: grows_def)

lemma error_in_at_most_one: "certificates t = certificates s \<Longrightarrow> (Inl e, t) \<in> at_most_one s"
  by (auto simp: at_most_one_def grows_def)

lemma issue_sign_grows: "issue_sign V inp ca issuer key profile s req \<in> at_most_one s"
proof -
  have tail: "(case CAChainPEM V ca (audit V a b c d u) of (chain, s) \<Rightarrow> (Inr (f chain), s)) \<in> at_most_one s"
    if "grows 1 s u" for a b c d u and f :: "ca_error + string \<Rightarrow> IssueResult"
  proof -
    obtain chain v where v: "CAChainPEM V ca (audit V a b c d u) = (chain, v)" by fastforce
    have "certificates v = certificates u"
      using certs_kept.acc_chain_pem [OF certs_kept.acc_audit [OF certs_kept.refl], of V ca V a b c d u] v by simp
    with that v show ?thesis by (auto simp: at_most_one_def dest: grows_kept)
  qed
  have create: "stmt (CreateCertificate E c s) k \<in> at_most_one s"
    if "\<And>x u. grows 1 s u \<Longrightarrow> k x u \<in> at_most_one s" for E c and k :: "Certificate \<Rightarrow> db \<Rightarrow> IssueResult op"
  proof -
    obtain r u where r: "CreateCertificate E c s = (r, u)" by fastforce
    then show ?thesis using CreateCertificate_grows [OF r] that by (cases r) (auto simp: at_most_one_def)
  qed
  show ?thesis
    unfolding issue_sign_def Let_def
    by (cases req) (auto intro!: in_san_override in_pki in_boxed create tail error_in_at_most_one)
qed

lemma Issue_grows: "Issue V inp s \<in> at_most_one s"
proof -
  obtain q t where q: "GetCAByRef (sv_env V) (in_ca inp) s = (q, t)" by fastforce
  have t: "certificates t = certificates s"
    using certs_kept.acc_reads(9) [OF certs_kept.refl, of "sv_env V" "in_ca inp" s] q by simp
  have sub: "issue_sign V inp ca issuer key profile t req \<in> at_most_one s" for ca issuer key profile req
    using issue_sign_grows [of V inp ca issuer key profile t req] t by (simp add: at_most_one_def grows_def)
  show ?thesis
  proof (cases q)
    case (Inl e)
    obtain err u where u: "noIssuerError V (in_ca inp) t = (err, u)" by fastforce
    then have "certificates u = certificates t"
      using certs_kept.acc_no_issuer [OF certs_kept.refl, of V "in_ca inp" t] by simp
    with Inl q u t show ?thesis by (auto simp: Issue_def Let_def intro: error_in_at_most_one)
  next
    case (Inr ca)
    then show ?thesis
      unfolding Issue_def Let_def q Inr attempt_simps
      by (auto intro!: in_pki in_decrypt in_issue_request error_in_at_most_one t sub split: option.split)
  qed
qed

text \<open>The statements on one order.\<close>

lemma order_life_update:
  "(\<And>x. o_id (f x) = o_id x) \<Longrightarrow> acme_orders t = update_rows p f (acme_orders s) \<Longrightarrow>
     order_life j t = map_option (\<lambda>x. o_status (if p x then f x else x)) (find (\<lambda>x. o_id x = j) (rows (acme_orders s)))"
  using orders_t.find_updated [of p f j "acme_orders s"] by (simp add: order_life_def option.map_comp comp_def)

definition moves :: "nat \<Rightarrow> acme_status option \<Rightarrow> db \<Rightarrow> db \<Rightarrow> bool" where
  "moves i l s t \<longleftrightarrow> (\<forall>j. order_life j t = (if j = i then l else order_life j s))"

lemma moves_same: "acme_orders t = acme_orders s \<Longrightarrow> moves i (order_life i s) s t"
  by (simp add: moves_def order_life_def)

lemma moves_trans: "moves i l s t \<Longrightarrow> moves i m t u \<Longrightarrow> moves i m s u"
  by (simp add: moves_def)

lemma moves_kept: "moves i l s t \<Longrightarrow> acme_orders u = acme_orders t \<Longrightarrow> moves i l s u"
  by (simp add: moves_def order_life_def)

lemma order_life_ready:
  "wf_table o_id (acme_orders s) \<Longrightarrow> x \<in> set (rows (acme_orders s)) \<Longrightarrow> order_life (o_id x) s = Some (o_status x)"
  using orders_t.find_eq_iff [of "acme_orders s" "o_id x" x] by (simp add: order_life_def)

lemma SetAcmeOrderError_moves:
  assumes "order_life i s = Some st" and "st \<noteq> AcmeStatusValid"
  shows "moves i (Some st) s (snd (SetAcmeOrderError E i p s)) \<or> moves i (Some AcmeStatusInvalid) s (snd (SetAcmeOrderError E i p s))"
proof (cases "fault E (tick s)")
  case True
  then have "acme_orders (snd (SetAcmeOrderError E i p s)) = acme_orders s" by (simp add: SetAcmeOrderError_def stmt_defs)
  then show ?thesis using moves_same assms(1) by metis
next
  case False
  have u: "acme_orders (snd (SetAcmeOrderError E i p s)) = update_rows (\<lambda>x. o_id x = i \<and> o_status x \<noteq> AcmeStatusValid)
      (\<lambda>x. x\<lparr>o_status := AcmeStatusInvalid, o_error := Some p\<rparr>) (acme_orders s)"
    using False by (simp add: SetAcmeOrderError_def stmt_defs set_orders_def)
  show ?thesis
    using assms order_life_update [OF _ u]
    by (auto simp: moves_def order_life_def map_option_case dest!: find_SomeD split: option.splits)
qed

lemma Claim_moves:
  assumes "ClaimAcmeOrderForFinalize E i s = (r, t)" and "order_life i s = Some AcmeStatusReady"
  shows "certificates t = certificates s \<and>
    ((r \<noteq> Inr True \<and> moves i (Some AcmeStatusReady) s t) \<or> moves i (Some AcmeStatusProcessing) s t)"
proof (cases "fault E (tick s)")
  case True
  then have "r = Inl ErrIO" "t = s\<lparr>tick := Suc (tick s)\<rparr>" using assms(1) by (simp_all add: ClaimAcmeOrderForFinalize_def stmt_defs)
  then show ?thesis using moves_same [of t s i] assms(2) by simp
next
  case False
  have u: "acme_orders t = update_rows (\<lambda>x. o_id x = i \<and> o_status x = AcmeStatusReady)
      (\<lambda>x. x\<lparr>o_status := AcmeStatusProcessing\<rparr>) (acme_orders s)" and c: "certificates t = certificates s"
    using False assms(1) by (auto simp: ClaimAcmeOrderForFinalize_def stmt_defs set_orders_def)
  have "moves i (Some AcmeStatusProcessing) s t"
    using assms(2) order_life_update [OF _ u]
    by (auto simp: moves_def order_life_def map_option_case dest!: find_SomeD split: option.splits)
  with c show ?thesis by blast
qed

lemma SetAcmeOrderCertificate_moves:
  assumes "SetAcmeOrderCertificate E i c s = (r, t)" and "order_life i s = Some st"
  shows "certificates t = certificates s \<and>
    ((isl r \<and> moves i (Some st) s t) \<or> (\<not> isl r \<and> moves i (Some AcmeStatusValid) s t))"
proof (cases "isl r")
  case True
  then have "acme_orders t = acme_orders s" "certificates t = certificates s"
    using assms(1) by (auto simp: SetAcmeOrderCertificate_def run_def Let_def split: if_splits)
  then show ?thesis using True moves_same [of t s i] assms(2) by simp
next
  case False
  then have "SetAcmeOrderCertificate E i c s = (Inr (), t)" using assms(1) by (cases r) auto
  note u = SetAcmeOrderCertificate_Inr [OF this]
  have "moves i (Some AcmeStatusValid) s t"
    using assms(2) order_life_update [OF _ u [THEN conjunct1]]
    by (auto simp: moves_def order_life_def map_option_case dest!: find_SomeD split: option.splits)
  with False u show ?thesis by blast
qed

lemma grows_trans0: "grows n s t \<Longrightarrow> certificates u = certificates t \<Longrightarrow> grows n s u"
  by (rule grows_kept)

lemma finalize_claimed_moves:
  assumes "finalize_claimed M cred x q pem s = (r, t)" and "order_life (o_id x) s = Some AcmeStatusProcessing"
  shows "\<exists>l n. moves (o_id x) l s t \<and> grows n s t \<and> n \<le> 1 \<and>
    (l = Some AcmeStatusValid \<and> n = 1 \<or> isl r \<and> l \<in> {Some AcmeStatusProcessing, Some AcmeStatusInvalid})"
proof -
  let ?E = "am_env M" and ?V = "am_ca M"
  obtain i u where i: "Issue ?V (finalize_issue (now ?E s) cred x q pem) s = (i, u)" by fastforce
  obtain n where n: "n \<le> 1" "grows n s u" "isl i \<or> n = 1"
    using Issue_grows [of ?V "finalize_issue (now ?E s) cred x q pem" s] i by (auto simp: at_most_one_def)
  have o: "acme_orders u = acme_orders s"
    using acme_kept.Issue_in_frame [OF acme_kept.refl, of ?V "finalize_issue (now ?E s) cred x q pem" s] i
    by (simp add: acme_part_def)
  have su: "moves (o_id x) (Some AcmeStatusProcessing) s u" using moves_same [OF o, of "o_id x"] assms(2) by simp
  then have lu: "order_life (o_id x) u = Some AcmeStatusProcessing" by (simp add: moves_def)
  show ?thesis
  proof (cases i)
    case (Inl e)
    then have r: "r = Inl ServerInternal" "t = snd (SetAcmeOrderError ?E (o_id x) ServerInternal u)"
      using assms(1) i by (auto simp: finalize_claimed_def Let_def)
    then have "grows n s t" using grows_kept [OF n(2), of t] by simp
    then show ?thesis
      using r n(1) SetAcmeOrderError_moves [OF lu, of ?E ServerInternal] moves_trans [OF su] by fastforce
  next
    case (Inr res)
    obtain c v where c: "SetAcmeOrderCertificate ?E (o_id x) (c_id (ir_certificate res)) u = (c, v)" by fastforce
    note m = SetAcmeOrderCertificate_moves [OF c lu]
    have gv: "grows 1 s v" using n Inr m by (auto dest: grows_kept)
    show ?thesis
    proof (cases c)
      case (Inl e)
      then have "r = Inl ServerInternal" "t = v" using assms(1) i c Inr by (auto simp: finalize_claimed_def Let_def)
      then show ?thesis using m gv moves_trans [OF su] Inl by fastforce
    next
      case (Inr c')
      let ?a = "audit ?V (''acme:'' @ e_name cred) ''acme.order.finalize'' (string_of_nat (o_id x))
        (''serial='' @ c_serial_hex (ir_certificate res) @ '' cn='' @ c_common_name (ir_certificate res)) v"
      obtain g w where g: "GetAcmeOrder ?E (o_id x) ?a = (g, w)" by fastforce
      have w: "w = ?a\<lparr>tick := Suc (tick ?a)\<rparr>" using GetAcmeOrder_state [of ?E "o_id x" ?a] g by simp
      have "t = w \<or> t = w\<lparr>tick := Suc (tick w)\<rparr>"
      proof (cases g)
        case (Inl e)
        then show ?thesis using assms(1) i c \<open>i = Inr res\<close> \<open>c = Inr c'\<close> g by (simp add: finalize_claimed_def Let_def)
      next
        case (Inr y)
        obtain h z where h: "OrderObjectFor M y w = (h, z)" by fastforce
        then have "t = z"
          using assms(1) i c \<open>i = Inr res\<close> \<open>c = Inr c'\<close> g Inr by (cases h) (simp_all add: finalize_claimed_def Let_def)
        then show ?thesis using OrderObjectFor_state [of M y w] h by simp
      qed
      then have "certificates t = certificates v" "acme_orders t = acme_orders v" using w by auto
      moreover have "moves (o_id x) (Some AcmeStatusValid) s v" using m Inr moves_trans [OF su] by simp
      ultimately show ?thesis using gv by (blast intro: grows_kept moves_kept)
    qed
  qed
qed

lemma Consume_keeps: "certificates (snd (Consume E n s)) = certificates s" "acme_orders (snd (Consume E n s)) = acme_orders s"
  using Consume_cases [of E n s] by auto

lemma ResolveAccount_keeps:
  "certificates (snd (ResolveAccount M kid s)) = certificates s" "acme_orders (snd (ResolveAccount M kid s)) = acme_orders s"
  unfolding ResolveAccount_def GetAcmeAccount_def demand_def expect_def refuse_if_def
  by (auto simp: stmt_defs split: option.split attempt_splits)

lemma Touch_keeps_parts:
  "certificates (snd (TouchAcmeAccountUsed E i s)) = certificates s" "acme_orders (snd (TouchAcmeAccountUsed E i s)) = acme_orders s"
  by (auto simp: TouchAcmeAccountUsed_def set_accounts_def stmt_defs)

definition quiet :: "db \<Rightarrow> ('e + 'a) \<times> db \<Rightarrow> bool" where
  "quiet s r \<longleftrightarrow> certificates (snd r) = certificates s \<and> acme_orders (snd r) = acme_orders s"

definition unmoved :: "db \<Rightarrow> db \<Rightarrow> bool" where
  "unmoved s t \<longleftrightarrow> certificates t = certificates s \<and> acme_orders t = acme_orders s"

lemma quiet_error: "unmoved s t \<Longrightarrow> quiet s (Inl p, t)"
  by (simp add: quiet_def unmoved_def)

lemma quiet_expect: "unmoved s t \<Longrightarrow> (\<And>x. quiet s (k x)) \<Longrightarrow> quiet s (expect r p t k)"
  by (cases r) (auto intro: quiet_error)

lemma quiet_refuse: "unmoved s t \<Longrightarrow> quiet s k \<Longrightarrow> quiet s (refuse_if b p t k)"
  by (cases b) (auto intro: quiet_error)

lemma quiet_pass: "quiet s r \<Longrightarrow> (\<And>x t. unmoved s t \<Longrightarrow> quiet s (k x t)) \<Longrightarrow> quiet s (pass r k)"
  by (cases r; cases "fst r") (auto simp: quiet_def unmoved_def)

lemma authenticate_quiet: "quiet s (authenticate M body url s)"
proof -
  have touch: "quiet s (Inr y, snd (TouchAcmeAccountUsed E i t))" if "unmoved s t" for y :: "ParsedJWS \<times> AcmeAccount" and E i t
    using that by (simp add: quiet_def unmoved_def Touch_keeps_parts)
  have account: "quiet s (ResolveAccount M kid t)" if "unmoved s t" for kid t
    using that ResolveAccount_keeps [of M kid t] by (simp add: quiet_def unmoved_def)
  have nonce: "quiet s (case Consume E n s of (redeemed, t) \<Rightarrow> refuse_if (\<not> redeemed) BadNonce t (k t))"
    if "\<And>t. unmoved s t \<Longrightarrow> quiet s (k t)" for E n and k :: "db \<Rightarrow> (ParsedJWS \<times> AcmeAccount) acme"
  proof -
    obtain b t where b: "Consume E n s = (b, t)" by fastforce
    then have "unmoved s t" using Consume_keeps [of E n s] by (simp add: unmoved_def)
    with b that show ?thesis by (auto intro: quiet_refuse)
  qed
  have start: "unmoved s s" by (simp add: unmoved_def)
  show ?thesis
    unfolding authenticate_def checkURL_def checkNonce_def
    by (intro quiet_expect start quiet_refuse nonce quiet_pass account touch; assumption)
qed

lemma activeCred_quiet: "quiet s (activeCred M a s)"
  by (auto simp: quiet_def activeCred_def GetEABCred_def demand_def stmt_defs split: attempt_splits)

text \<open>The checks between reading a ready order and claiming it.\<close>

lemma Finalize_checks:
  assumes "authenticate M body (finalizeURL M i) s = (Inr (jws, a), s1)" and "GetAcmeOrder (am_env M) i s1 = (Inr x, s2)"
    and "o_account_id x = a_id a" and "o_status x = AcmeStatusReady"
  shows "(\<exists>p. Finalize M i body s = (Inl p, s2)) \<or>
    (\<exists>p p'. Finalize M i body s = (Inl p, snd (SetAcmeOrderError (am_env M) (o_id x) p' s2))) \<or>
    (\<exists>pem y. Finalize M i body s = pass (activeCred M a s2) (\<lambda>cred s.
       demand (ClaimAcmeOrderForFinalize (am_env M) (o_id x) s) ServerInternal (\<lambda>claimed s.
       refuse_if (\<not> claimed) OrderNotReady s (finalize_claimed M cred x y pem s))))"
proof -
  let ?K = "sv_crypto (am_ca M)"
  show ?thesis
  proof (cases "o_expires_at x < now (am_env M) s2")
    case True
    then show ?thesis using assms by (auto simp: Finalize_def Let_def)
  next
    case fresh: False
    show ?thesis
    proof (cases "DecodePayload (un_finalize (am_codec M)) \<lparr>fr_csr = []\<rparr> jws")
      case None
      then show ?thesis using assms fresh by (simp add: Finalize_def Let_def)
    next
      case req: (Some req)
      show ?thesis
      proof (cases "RawURLDecode (fr_csr req)")
        case None
        then show ?thesis using assms fresh req by (simp add: Finalize_def Let_def)
      next
        case der: (Some der)
        let ?pem = "pem_encode ?K ''CERTIFICATE REQUEST'' der"
        show ?thesis
          using assms fresh req der
          by (cases "ParseCSR ?K ?pem"; cases "csr_unfit x (projr (ParseCSR ?K ?pem))") (auto simp: Finalize_def Let_def)
      qed
    qed
  qed
qed

text \<open>From the check of the credential on.\<close>

definition finalize_outcome :: "nat \<Rightarrow> db \<Rightarrow> (Problem + OrderObject) \<times> db \<Rightarrow> bool" where
  "finalize_outcome i s r \<longleftrightarrow>
     (\<exists>l n. finalize_spec (\<not> isl (fst r)) (order_life i s) l n \<and> moves i l s (snd r) \<and> grows n s (snd r))"

lemma finalize_outcome_same: "acme_orders t = acme_orders s \<Longrightarrow> certificates t = certificates s \<Longrightarrow> finalize_outcome i s (Inl p, t)"
  using moves_same [of t s i] by (auto simp: finalize_outcome_def grows_def intro!: exI [of _ "order_life i s"] exI [of _ 0] refused)

lemma finalize_outcome_from:
  "acme_orders s2 = acme_orders s \<Longrightarrow> certificates s2 = certificates s \<Longrightarrow> finalize_outcome i s2 r \<Longrightarrow> finalize_outcome i s r"
proof -
  assume *: "acme_orders s2 = acme_orders s" "certificates s2 = certificates s" "finalize_outcome i s2 r"
  then have life: "order_life j s2 = order_life j s" for j by (simp add: order_life_def)
  then have "moves i l s2 t = moves i l s t" "grows n s2 t = grows n s t" for l n t
    using *(2) by (simp_all add: moves_def grows_def)
  with *(3) show ?thesis unfolding finalize_outcome_def life by blast
qed

lemma finalize_outcome_moved:
  assumes "order_life i s = Some AcmeStatusReady" and "moves i l s t" and "certificates t = certificates s"
    and "l \<in> {Some AcmeStatusReady, Some AcmeStatusInvalid, Some AcmeStatusProcessing}"
  shows "finalize_outcome i s (Inl p, t)"
proof -
  have "finalize_spec False (order_life i s) l 0" using assms(1,4) by (auto intro: finalize_spec.intros)
  then show ?thesis using assms(2,3) by (auto simp: finalize_outcome_def grows_def)
qed

lemma finalize_from_claim:
  assumes "order_life (o_id x) s = Some AcmeStatusReady"
  shows "finalize_outcome (o_id x) s (demand (ClaimAcmeOrderForFinalize (am_env M) (o_id x) s) ServerInternal (\<lambda>claimed s.
       refuse_if (\<not> claimed) OrderNotReady s (finalize_claimed M cred x y pem s)))"
proof -
  let ?i = "o_id x"
  obtain b t where b: "ClaimAcmeOrderForFinalize (am_env M) ?i s = (b, t)" by fastforce
  note cl = Claim_moves [OF b assms]
  show ?thesis
  proof (cases "b = Inr True")
    case False
    have "finalize_outcome ?i s (Inl p, t)" for p
      using cl finalize_outcome_moved [OF assms, of _ t p] by auto
    with False b show ?thesis by (cases b) auto
  next
    case True
    then have p: "moves ?i (Some AcmeStatusProcessing) s t" "certificates t = certificates s" using cl by auto
    then have "order_life ?i t = Some AcmeStatusProcessing" by (simp add: moves_def)
    moreover obtain r u where r: "finalize_claimed M cred x y pem t = (r, u)" by fastforce
    ultimately obtain l n where l: "moves ?i l t u" "grows n t u" "n \<le> 1"
      "l = Some AcmeStatusValid \<and> n = 1 \<or> isl r \<and> l \<in> {Some AcmeStatusProcessing, Some AcmeStatusInvalid}"
      using finalize_claimed_moves [OF r] by blast
    have "finalize_spec (\<not> isl r) (order_life ?i s) l n"
      using l(3,4) assms by (cases "isl r") (auto intro: finalize_spec.intros simp del: One_nat_def)
    moreover have "moves ?i l s u" "grows n s u" using l(1,2) p by (simp_all add: moves_def grows_def)
    ultimately show ?thesis using True b r by (auto simp: finalize_outcome_def)
  qed
qed

text \<open>C2 (acme/service.go, Finalize): whatever fails and wherever it stops, a request to finalize implements the abstract
  request on the order it names and leaves the status of every other order alone. It succeeds only from ready to valid
  and with exactly one certificate; every other request makes at most one, and none unless the order leaves the state
  ready, so an order never yields a certificate and can be finalized again.\<close>

theorem Finalize_refines:
  assumes "wf_table o_id (acme_orders s)"
  shows "\<exists>l n. finalize_spec (\<not> isl (fst (Finalize M i body s))) (order_life i s) l n \<and>
    moves i l s (snd (Finalize M i body s)) \<and> grows n s (snd (Finalize M i body s))"
proof -
  let ?E = "am_env M"
  obtain q s1 where q: "authenticate M body (finalizeURL M i) s = (q, s1)" by fastforce
  obtain g s2 where g: "GetAcmeOrder ?E i s1 = (g, s2)" by fastforce
  have s1: "acme_orders s1 = acme_orders s" "certificates s1 = certificates s"
    using authenticate_quiet [of s M body "finalizeURL M i"] q by (simp_all add: quiet_def)
  then have s2: "acme_orders s2 = acme_orders s" "certificates s2 = certificates s"
    using GetAcmeOrder_state [of ?E i s1] g by simp_all
  have "finalize_outcome i s (Finalize M i body s)"
  proof (cases "\<exists>jws a x. q = Inr (jws, a) \<and> g = Inr x \<and> o_account_id x = a_id a \<and> o_status x = AcmeStatusReady")
    case False
    then have "\<exists>p. Finalize M i body s = (Inl p, s1) \<or> Finalize M i body s = (Inl p, s2)"
      using q g by (cases q; cases g) (auto simp: Finalize_def Let_def refuse_if_def)
    then show ?thesis using s1 s2 finalize_outcome_same by auto
  next
    case True
    then obtain jws a x where x: "q = Inr (jws, a)" "g = Inr x" "o_account_id x = a_id a" "o_status x = AcmeStatusReady" by blast
    then have i: "o_id x = i" and life: "order_life i s2 = Some AcmeStatusReady"
      using GetAcmeOrder_Inr [of ?E i s1 x s2] g s1 s2 order_life_ready [OF assms, of x] by (auto simp: order_life_def)
    have "finalize_outcome i s2 (Inl p, snd (SetAcmeOrderError ?E i p' s2))" for p p'
      using SetAcmeOrderError_moves [OF life, of ?E p'] finalize_outcome_moved [OF life] by fastforce
    moreover have "finalize_outcome i s2 (Inl p, s2)" for p by (rule finalize_outcome_same) simp_all
    moreover have "finalize_outcome i s2 (pass (activeCred M a s2) (\<lambda>cred s.
       demand (ClaimAcmeOrderForFinalize ?E i s) ServerInternal (\<lambda>claimed s.
       refuse_if (\<not> claimed) OrderNotReady s (finalize_claimed M cred x y pem s))))" for y pem
    proof -
      obtain c s3 where c: "activeCred M a s2 = (c, s3)" by fastforce
      then have s3: "acme_orders s3 = acme_orders s2" "certificates s3 = certificates s2"
        using activeCred_quiet [of s2 M a] by (simp_all add: quiet_def)
      then have "order_life (o_id x) s3 = Some AcmeStatusReady" using life i by (simp add: order_life_def)
      from finalize_outcome_from [OF s3 finalize_from_claim [OF this]] show ?thesis
        using c i finalize_outcome_same [OF s3] by (cases c) auto
    qed
    ultimately have "finalize_outcome i s2 (Finalize M i body s)"
      using Finalize_checks [OF q [unfolded x] g [unfolded x] x(3,4)] i by auto
    then show ?thesis by (rule finalize_outcome_from [OF s2])
  qed
  then show ?thesis by (simp add: finalize_outcome_def)
qed


section \<open>Examples\<close>

theorem acme_tables_wf_witness:
  "\<exists>t. trace demo_env (demo_acme_db [demo_account] [demo_order AcmeStatusReady] []) [OrderClaimed 1] t \<and> acme_wf t"
proof -
  let ?s = "demo_acme_db [demo_account] [demo_order AcmeStatusReady] []"
  have "claim_event 1 (ClaimAcmeOrderForFinalize demo_env 1 ?s) = OrderClaimed 1" and wf: "acme_wf ?s" by code_simp+
  then have t: "trace demo_env ?s [OrderClaimed 1] (snd (ClaimAcmeOrderForFinalize demo_env 1 ?s))"
    using trace_one [OF claim [OF refl, of demo_env ?s 1]] by simp
  from acme_tables_wf [OF t wf] t show ?thesis by blast
qed

theorem nonce_accepted_witness:
  "\<exists>n s1 t. NonceManager_New demo_env (demo_acme_db [] [] []) = Some (Inr n, s1) \<and> trace demo_env s1 [SlotReserved 1] t \<and>
     fst (Consume demo_env n t)"
proof -
  let ?s = "demo_acme_db [] [] []"
  let ?r = "NonceManager_New demo_env ?s"
  have "map_option fst ?r = Some (Inr (RawURLEncode ''tok''))" by code_simp
  then obtain s1 where s1: "?r = Some (Inr (RawURLEncode ''tok''), s1)" by (cases ?r) auto
  let ?q = "ReserveEABAccountSlot demo_env 1 (snd (the ?r))"
  have "reserve_event 1 ?q = SlotReserved 1" by code_simp
  then have t: "trace demo_env s1 [SlotReserved 1] (snd ?q)"
    using trace_one [OF reserve [OF refl, of demo_env "snd (the ?r)" 1]] s1 by simp
  have "unique_nonces ?s" "RawURLEncode ''tok'' \<noteq> []" by code_simp+
  from nonce_accepted [OF s1 this(1) t _ _ this(2)] s1 t show ?thesis
    by (intro exI [of _ "RawURLEncode ''tok''"] exI [of _ s1] exI [of _ "snd ?q"])
       (simp add: lives_on_def now_def demo_env_def nonceTTL_def)
qed

theorem Finalize_refines_witness:
  "\<exists>n. finalize_spec True (Some AcmeStatusReady) (Some AcmeStatusValid) n \<and>
     grows n (demo_acme_db [demo_account] [demo_order AcmeStatusReady] [])
       (snd (Finalize demo_acme 1 ''finalize'' (demo_acme_db [demo_account] [demo_order AcmeStatusReady] [])))"
proof -
  let ?s = "demo_acme_db [demo_account] [demo_order AcmeStatusReady] []"
  have "\<not> isl (fst (Finalize demo_acme 1 ''finalize'' ?s))" "order_life 1 ?s = Some AcmeStatusReady" "wf_table o_id (acme_orders ?s)"
    by code_simp+
  with Finalize_refines [OF this(3), of demo_acme 1 "''finalize''"] show ?thesis
    by (auto simp: finalize_spec_success)
qed
end
