(* ===== verification/Auth_Store.thy ===== *)
theory Auth_Store
  imports Acme_Store
begin

text \<open>
  The tables of users, sessions, API tokens and sign-in failures and the statements on them
  (\<open>internal/store/store.go\<close>, \<open>models.go\<close>). They share no column with the tables of \<open>Store\<close>, so they have a state of
  their own. Deleting a user deletes its sessions and tokens (\<open>ON DELETE CASCADE\<close>); a session or a token needs its
  user and an unused hash; user names are unique as they are written, and looked up without regard to case.
\<close>


section \<open>Rows\<close>

definition RoleAdmin :: string where "RoleAdmin = ''admin''"
definition RoleUser :: string where "RoleUser = ''user''"
definition SourceLocal :: string where "SourceLocal = ''local''"
definition SourceLDAP :: string where "SourceLDAP = ''ldap''"
definition SourceOIDC :: string where "SourceOIDC = ''oidc''"

lemmas role_defs = RoleAdmin_def RoleUser_def
lemmas source_defs = SourceLocal_def SourceLDAP_def SourceOIDC_def

record User =
  u_id :: nat
  u_username :: string
  u_source :: string
  u_display_name :: string
  u_email :: string
  u_role :: string
  u_disabled :: bool
  u_pass_hash :: string
  u_created_at :: int
  u_last_login :: "int option"

definition IsAdmin :: "User \<Rightarrow> bool" where
  "IsAdmin u \<longleftrightarrow> u_role u = RoleAdmin"

record Session =
  ss_id :: nat
  ss_user_id :: nat
  ss_token_hash :: string
  ss_expires_at :: int
  ss_created_at :: int
  ss_ip :: string
  ss_user_agent :: string

text \<open>The user name of a token is not a column: the statements join it.\<close>

record APIToken =
  tk_id :: nat
  tk_user_id :: nat
  tk_username :: string
  tk_name :: string
  tk_prefix :: string
  tk_token_hash :: string
  tk_role :: string
  tk_expires_at :: "int option"
  tk_created_at :: int
  tk_last_used_at :: "int option"
  tk_revoked :: bool

record AuthFailure =
  fl_key :: string
  fl_at :: int

text \<open>The last two fields are not tables: the password hash of the break-glass administrator in the configuration that
  the server holds, and in its file.\<close>

record auth_db = tick_state +
  users :: "User table"
  sessions :: "Session table"
  api_tokens :: "APIToken table"
  auth_failures :: "AuthFailure list"
  auth_log :: "AuditEntry list"
  cfg_admin_hash :: string
  file_admin_hash :: string

definition empty_auth_db :: auth_db where
  "empty_auth_db = \<lparr>tick = 0, users = empty_table, sessions = empty_table, api_tokens = empty_table,
     auth_failures = [], auth_log = [], cfg_admin_hash = [], file_admin_hash = []\<rparr>"

type_synonym 'a auth_stmt = "(db_error, 'a, auth_db) outcome"

interpretation users_t: keyed u_id "\<lambda>n. u_id_update (\<lambda>_. n)" by unfold_locales simp
interpretation sessions_t: keyed ss_id "\<lambda>n. ss_id_update (\<lambda>_. n)" by unfold_locales simp
interpretation tokens_t: keyed tk_id "\<lambda>n. tk_id_update (\<lambda>_. n)" by unfold_locales simp


section \<open>Users\<close>

definition GetUser :: "env \<Rightarrow> nat \<Rightarrow> auth_db \<Rightarrow> User auth_stmt" where
  "GetUser E i = query_row E (\<lambda>s. select_one (\<lambda>u. u_id u = i) (rows (users s)))"

definition GetUserByName :: "env \<Rightarrow> string \<Rightarrow> auth_db \<Rightarrow> User auth_stmt" where
  "GetUserByName E name = query_row E (\<lambda>s.
     select_one (\<lambda>u. to_lower (u_username u) = to_lower name) (rows (users s)))"

definition ListUsers :: "env \<Rightarrow> auth_db \<Rightarrow> User list auth_stmt" where
  "ListUsers E = query_row E (\<lambda>s. Inr (sort_key u_username (rows (users s))))"

definition set_users :: "(User \<Rightarrow> bool) \<Rightarrow> (User \<Rightarrow> User) \<Rightarrow> auth_db \<Rightarrow> auth_db" where
  "set_users p f s = s\<lparr>users := update_rows p f (users s)\<rparr>"

definition user_insertable :: "User \<Rightarrow> auth_db \<Rightarrow> bool" where
  "user_insertable u s \<longleftrightarrow> (\<forall>x \<in> set (rows (users s)). u_username x \<noteq> u_username u)"

text \<open>The columns of an inserted user, and of one that is refreshed.\<close>

definition new_user :: "env \<Rightarrow> auth_db \<Rightarrow> User \<Rightarrow> User" where
  "new_user E s u =
     u\<lparr>u_source := nz (u_source u) SourceLocal, u_role := nz (u_role u) RoleUser, u_created_at := now E s,
       u_last_login := None\<rparr>"

definition refreshed_user :: "User \<Rightarrow> User \<Rightarrow> User \<Rightarrow> User" where
  "refreshed_user u ex x =
     x\<lparr>u_source := nz (u_source u) (u_source ex), u_display_name := nz (u_display_name u) (u_display_name ex),
       u_email := nz (u_email u) (u_email ex), u_role := nz (u_role u) (u_role ex)\<rparr>"

definition insert_user :: "env \<Rightarrow> User \<Rightarrow> auth_db \<Rightarrow> nat auth_stmt" where
  "insert_user E x = exec_insert E (user_insertable x) (\<lambda>s. next_id (users s))
     (\<lambda>s. s\<lparr>users := insert_row (\<lambda>n. u_id_update (\<lambda>_. n)) x (users s)\<rparr>)"

definition refresh_user :: "env \<Rightarrow> User \<Rightarrow> User \<Rightarrow> auth_db \<Rightarrow> unit auth_stmt" where
  "refresh_user E u ex = exec E (set_users (\<lambda>x. u_id x = u_id ex) (refreshed_user u ex))"

definition upsertUserOnce :: "env \<Rightarrow> User \<Rightarrow> auth_db \<Rightarrow> User auth_stmt" where
  "upsertUserOnce E u s =
     attempt (GetUserByName E (u_username u) s)
       (\<lambda>e s. if e = ErrNotFound
              then attempt (insert_user E (new_user E s u) s)
                     (\<lambda>e s. (Inl e, s)) (\<lambda>i s. GetUser E i s)
              else (Inl e, s))
       (\<lambda>ex s. attempt (refresh_user E u ex s)
                 (\<lambda>e s. (Inl e, s)) (\<lambda>_ s. GetUser E (u_id ex) s))"

definition UpsertUser :: "env \<Rightarrow> User \<Rightarrow> auth_db \<Rightarrow> User auth_stmt" where
  "UpsertUser E u s =
     attempt (upsertUserOnce E u s)
       (\<lambda>err s. attempt (GetUserByName E (u_username u) s)
                  (\<lambda>_ s. (Inl err, s)) (\<lambda>_ s. upsertUserOnce E u s))
       (\<lambda>u s. (Inr u, s))"

definition SetUserRole :: "env \<Rightarrow> nat \<Rightarrow> string \<Rightarrow> auth_db \<Rightarrow> unit auth_stmt" where
  "SetUserRole E i role = exec E (set_users (\<lambda>u. u_id u = i) (\<lambda>u. u\<lparr>u_role := role\<rparr>))"

definition SetUserDisabled :: "env \<Rightarrow> nat \<Rightarrow> bool \<Rightarrow> auth_db \<Rightarrow> unit auth_stmt" where
  "SetUserDisabled E i d = exec E (set_users (\<lambda>u. u_id u = i) (\<lambda>u. u\<lparr>u_disabled := d\<rparr>))"

definition SetUserPassword :: "env \<Rightarrow> nat \<Rightarrow> string \<Rightarrow> auth_db \<Rightarrow> unit auth_stmt" where
  "SetUserPassword E i h = exec E (set_users (\<lambda>u. u_id u = i) (\<lambda>u. u\<lparr>u_pass_hash := h\<rparr>))"

definition TouchLogin :: "env \<Rightarrow> nat \<Rightarrow> auth_db \<Rightarrow> unit auth_stmt" where
  "TouchLogin E i s = exec E (set_users (\<lambda>u. u_id u = i) (\<lambda>u. u\<lparr>u_last_login := Some (now E s)\<rparr>)) s"

definition DeleteUser :: "env \<Rightarrow> nat \<Rightarrow> auth_db \<Rightarrow> unit auth_stmt" where
  "DeleteUser E i s =
     attempt (exec_count E (\<lambda>s. affected (\<lambda>u. u_id u = i) (rows (users s)))
                (\<lambda>s. s\<lparr>users := delete_rows (\<lambda>u. u_id u = i) (users s),
                       sessions := delete_rows (\<lambda>x. ss_user_id x = i) (sessions s),
                       api_tokens := delete_rows (\<lambda>t. tk_user_id t = i) (api_tokens s)\<rparr>) s)
       (\<lambda>e s. (Inl e, s)) (\<lambda>n s. if n = 0 then (Inl ErrNotFound, s) else (Inr (), s))"


section \<open>Sessions\<close>

definition session_insertable :: "Session \<Rightarrow> auth_db \<Rightarrow> bool" where
  "session_insertable x s \<longleftrightarrow>
     (\<exists>u \<in> set (rows (users s)). u_id u = ss_user_id x) \<and>
     (\<forall>y \<in> set (rows (sessions s)). ss_token_hash y \<noteq> ss_token_hash x)"

definition CreateSession :: "env \<Rightarrow> Session \<Rightarrow> auth_db \<Rightarrow> unit auth_stmt" where
  "CreateSession E x0 s =
     (let x = x0\<lparr>ss_created_at := now E s\<rparr> in
      attempt (exec_insert E (session_insertable x) (\<lambda>s. next_id (sessions s))
                (\<lambda>s. s\<lparr>sessions := insert_row (\<lambda>n. ss_id_update (\<lambda>_. n)) x (sessions s)\<rparr>) s)
       (\<lambda>e s. (Inl e, s)) (\<lambda>_ s. (Inr (), s)))"

text \<open>The join of the sessions that have this hash and are alive with their users.\<close>

definition session_users :: "string \<Rightarrow> int \<Rightarrow> auth_db \<Rightarrow> User list" where
  "session_users h t s =
     [u. x \<leftarrow> rows (sessions s), ss_token_hash x = h \<and> t < ss_expires_at x,
         u \<leftarrow> rows (users s), u_id u = ss_user_id x]"

definition SessionUser :: "env \<Rightarrow> string \<Rightarrow> auth_db \<Rightarrow> User auth_stmt" where
  "SessionUser E h s = query_row E (\<lambda>s'. select_one (\<lambda>_. True) (session_users h (now E s) s')) s"

definition DeleteSession :: "env \<Rightarrow> string \<Rightarrow> auth_db \<Rightarrow> unit auth_stmt" where
  "DeleteSession E h = exec E (\<lambda>s. s\<lparr>sessions := delete_rows (\<lambda>x. ss_token_hash x = h) (sessions s)\<rparr>)"

definition DeleteUserSessions :: "env \<Rightarrow> nat \<Rightarrow> auth_db \<Rightarrow> unit auth_stmt" where
  "DeleteUserSessions E i = exec E (\<lambda>s. s\<lparr>sessions := delete_rows (\<lambda>x. ss_user_id x = i) (sessions s)\<rparr>)"

definition PurgeExpiredSessions :: "env \<Rightarrow> auth_db \<Rightarrow> nat auth_stmt" where
  "PurgeExpiredSessions E s =
     (let p = (\<lambda>x. ss_expires_at x \<le> now E s) in
      exec_count E (\<lambda>s. affected p (rows (sessions s))) (\<lambda>s. s\<lparr>sessions := delete_rows p (sessions s)\<rparr>) s)"


section \<open>API tokens\<close>

definition token_insertable :: "APIToken \<Rightarrow> auth_db \<Rightarrow> bool" where
  "token_insertable t s \<longleftrightarrow>
     (\<exists>u \<in> set (rows (users s)). u_id u = tk_user_id t) \<and>
     (\<forall>y \<in> set (rows (api_tokens s)). tk_token_hash y \<noteq> tk_token_hash t)"

text \<open>\<open>LEFT JOIN users\<close>: the name of the owner, or the empty string.\<close>

definition with_owner :: "auth_db \<Rightarrow> APIToken \<Rightarrow> APIToken" where
  "with_owner s t =
     t\<lparr>tk_username := (case find (\<lambda>u. u_id u = tk_user_id t) (rows (users s)) of None \<Rightarrow> [] | Some u \<Rightarrow> u_username u)\<rparr>"

definition joined :: "auth_db \<Rightarrow> db_error \<Rightarrow> (APIToken \<Rightarrow> bool) \<Rightarrow> db_error + APIToken" where
  "joined s none p = (case find p (rows (api_tokens s)) of None \<Rightarrow> Inl none | Some t \<Rightarrow> Inr (with_owner s t))"

definition insert_token :: "env \<Rightarrow> APIToken \<Rightarrow> auth_db \<Rightarrow> nat auth_stmt" where
  "insert_token E t = exec_insert E (token_insertable t) (\<lambda>s. next_id (api_tokens s))
     (\<lambda>s. s\<lparr>api_tokens := insert_row (\<lambda>n. tk_id_update (\<lambda>_. n)) t (api_tokens s)\<rparr>)"

definition new_token :: "env \<Rightarrow> auth_db \<Rightarrow> APIToken \<Rightarrow> APIToken" where
  "new_token E s t =
     t\<lparr>tk_username := [], tk_role := nz (tk_role t) RoleUser, tk_created_at := now E s,
       tk_last_used_at := None, tk_revoked := False\<rparr>"

definition CreateAPIToken :: "env \<Rightarrow> APIToken \<Rightarrow> auth_db \<Rightarrow> APIToken auth_stmt" where
  "CreateAPIToken E t0 s =
     attempt (insert_token E (new_token E s t0) s)
       (\<lambda>e s. (Inl e, s))
       (\<lambda>i s. query_row E (\<lambda>s. joined s (ErrText ''sql: no rows in result set'') (\<lambda>t. tk_id t = i)) s)"

definition token_expired :: "int \<Rightarrow> APIToken \<Rightarrow> bool" where
  "token_expired t k \<longleftrightarrow> (case tk_expires_at k of None \<Rightarrow> False | Some x \<Rightarrow> x < t)"

definition set_tokens :: "(APIToken \<Rightarrow> bool) \<Rightarrow> (APIToken \<Rightarrow> APIToken) \<Rightarrow> auth_db \<Rightarrow> auth_db" where
  "set_tokens p f s = s\<lparr>api_tokens := update_rows p f (api_tokens s)\<rparr>"

definition touch_token :: "env \<Rightarrow> nat \<Rightarrow> auth_db \<Rightarrow> unit auth_stmt" where
  "touch_token E i s = exec E (set_tokens (\<lambda>x. tk_id x = i) (\<lambda>x. x\<lparr>tk_last_used_at := Some (now E s)\<rparr>)) s"

definition LookupAPIToken :: "env \<Rightarrow> string \<Rightarrow> auth_db \<Rightarrow> (APIToken \<times> User) auth_stmt" where
  "LookupAPIToken E h s =
     attempt (query_row E (\<lambda>s. joined s ErrNotFound (\<lambda>t. tk_token_hash t = h \<and> \<not> tk_revoked t)) s)
       (\<lambda>e s. (Inl e, s))
       (\<lambda>t s. if token_expired (now E s) t then (Inl ErrNotFound, s)
              else attempt (GetUser E (tk_user_id t) s)
                     (\<lambda>e s. (Inl e, s))
                     (\<lambda>u s. (Inr (t, u), snd (touch_token E (tk_id t) s))))"

text \<open>\<open>ORDER BY created_at DESC\<close>; user 0 stands for all.\<close>

definition ListAPITokens :: "env \<Rightarrow> nat \<Rightarrow> auth_db \<Rightarrow> APIToken list auth_stmt" where
  "ListAPITokens E i = query_row E (\<lambda>s. Inr (sort_key (\<lambda>t. - tk_created_at t)
     (map (with_owner s) (filter (\<lambda>t. i = 0 \<or> tk_user_id t = i) (rows (api_tokens s))))))"

definition RevokeAPIToken :: "env \<Rightarrow> nat \<Rightarrow> auth_db \<Rightarrow> unit auth_stmt" where
  "RevokeAPIToken E i s =
     attempt (exec_count E (\<lambda>s. affected (\<lambda>t. tk_id t = i) (rows (api_tokens s)))
                (set_tokens (\<lambda>t. tk_id t = i) (\<lambda>t. t\<lparr>tk_revoked := True\<rparr>)) s)
       (\<lambda>e s. (Inl e, s)) (\<lambda>n s. if n = 0 then (Inl ErrNotFound, s) else (Inr (), s))"


section \<open>Sign-in failures and the audit log\<close>

definition RecordAuthFailure :: "env \<Rightarrow> string \<Rightarrow> int \<Rightarrow> auth_db \<Rightarrow> unit auth_stmt" where
  "RecordAuthFailure E key at =
     exec E (\<lambda>s. s\<lparr>auth_failures := auth_failures s @ [\<lparr>fl_key = key, fl_at = at\<rparr>]\<rparr>)"

definition RecentAuthFailures :: "env \<Rightarrow> string \<Rightarrow> int \<Rightarrow> nat \<Rightarrow> auth_db \<Rightarrow> int list auth_stmt" where
  "RecentAuthFailures E key since limit = query_row E (\<lambda>s. Inr
     (take limit (sort (map fl_at (filter (\<lambda>f. fl_key f = key \<and> since < fl_at f) (auth_failures s))))))"

definition ClearAuthFailures :: "env \<Rightarrow> string \<Rightarrow> auth_db \<Rightarrow> unit auth_stmt" where
  "ClearAuthFailures E key = exec E (\<lambda>s. s\<lparr>auth_failures := delete_where (\<lambda>f. fl_key f = key) (auth_failures s)\<rparr>)"

definition PurgeAuthFailures :: "env \<Rightarrow> int \<Rightarrow> auth_db \<Rightarrow> nat auth_stmt" where
  "PurgeAuthFailures E t =
     exec_count E (\<lambda>s. affected (\<lambda>f. fl_at f \<le> t) (auth_failures s))
       (\<lambda>s. s\<lparr>auth_failures := delete_where (\<lambda>f. fl_at f \<le> t) (auth_failures s)\<rparr>)"

text \<open>\<open>recordAudit\<close> of the service, which ignores a failure of the statement.\<close>

definition AuditWithIP :: "env \<Rightarrow> string \<Rightarrow> string \<Rightarrow> string \<Rightarrow> string \<Rightarrow> string \<Rightarrow> auth_db \<Rightarrow> auth_db" where
  "AuditWithIP E actor action target detail ip s = snd (exec E (\<lambda>s. s\<lparr>auth_log := auth_log s @
     [\<lparr>au_actor = (if actor = [] then ''system'' else actor), au_action = action, au_target = target,
       au_detail = detail, au_ip = ip\<rparr>]\<rparr>) s)"


section \<open>Sequences of statements\<close>

text \<open>Every statement that changes a table, and the writes of the configuration and of its file.\<close>

datatype auth_statement =
    InsertUser User | RefreshUser User User | PutRole nat string | PutDisabled nat bool | PutPassword nat string
  | PutLogin nat | DropUser nat
  | InsertSession Session | DropSession string | DropSessionsOf nat | SweepSessions
  | InsertToken APIToken | TouchToken nat | DropToken nat
  | PutFailure string int | DropFailures string | SweepFailures int
  | PutAudit string string string string string | PutConfig string | SaveConfig

fun auth_exec :: "env \<Rightarrow> auth_statement \<Rightarrow> auth_db \<Rightarrow> auth_db" where
  "auth_exec E (InsertUser u) s = snd (insert_user E u s)"
| "auth_exec E (RefreshUser u ex) s = snd (refresh_user E u ex s)"
| "auth_exec E (PutRole i r) s = snd (SetUserRole E i r s)"
| "auth_exec E (PutDisabled i d) s = snd (SetUserDisabled E i d s)"
| "auth_exec E (PutPassword i h) s = snd (SetUserPassword E i h s)"
| "auth_exec E (PutLogin i) s = snd (TouchLogin E i s)"
| "auth_exec E (DropUser i) s = snd (DeleteUser E i s)"
| "auth_exec E (InsertSession x) s = snd (CreateSession E x s)"
| "auth_exec E (DropSession h) s = snd (DeleteSession E h s)"
| "auth_exec E (DropSessionsOf i) s = snd (DeleteUserSessions E i s)"
| "auth_exec E SweepSessions s = snd (PurgeExpiredSessions E s)"
| "auth_exec E (InsertToken t) s = snd (insert_token E t s)"
| "auth_exec E (TouchToken i) s = snd (touch_token E i s)"
| "auth_exec E (DropToken i) s = snd (RevokeAPIToken E i s)"
| "auth_exec E (PutFailure k t) s = snd (RecordAuthFailure E k t s)"
| "auth_exec E (DropFailures k) s = snd (ClearAuthFailures E k s)"
| "auth_exec E (SweepFailures t) s = snd (PurgeAuthFailures E t s)"
| "auth_exec E (PutAudit a b c d e) s = AuditWithIP E a b c d e s"
| "auth_exec E (PutConfig h) s = s\<lparr>cfg_admin_hash := h\<rparr>"
| "auth_exec E SaveConfig s = s\<lparr>file_admin_hash := cfg_admin_hash s\<rparr>"

text \<open>The states that a sequence of statements reaches, those that change a table being among \<open>Q\<close>: the statements of one
  operation, or of any number of operations of any number of processes, interleaved.\<close>

inductive auth_reach :: "env \<Rightarrow> (auth_statement \<Rightarrow> bool) \<Rightarrow> auth_db \<Rightarrow> auth_db \<Rightarrow> bool" for E Q s0 where
  start: "auth_reach E Q s0 s0"
| select: "auth_reach E Q s0 s \<Longrightarrow> auth_reach E Q s0 (s\<lparr>tick := Suc (tick s)\<rparr>)"
| change: "auth_reach E Q s0 s \<Longrightarrow> Q st \<Longrightarrow> auth_reach E Q s0 (auth_exec E st s)"

lemma auth_reach_trans: "auth_reach E Q t u \<Longrightarrow> auth_reach E Q s t \<Longrightarrow> auth_reach E Q s u"
  by (induction rule: auth_reach.induct) (auto intro: auth_reach.intros)

lemma auth_reach_mono: "auth_reach E Q s t \<Longrightarrow> (\<And>st. Q st \<Longrightarrow> Q' st) \<Longrightarrow> auth_reach E Q' s t"
  by (induction rule: auth_reach.induct) (auto intro: auth_reach.intros)

lemma auth_reach_invariant:
  assumes "auth_reach E Q s t" and "P s"
    and "\<And>s. P s \<Longrightarrow> P (s\<lparr>tick := Suc (tick s)\<rparr>)"
    and "\<And>s st. P s \<Longrightarrow> Q st \<Longrightarrow> P (auth_exec E st s)"
  shows "P t"
  using assms by (induction rule: auth_reach.induct) auto

interpretation reach: state_frame "auth_reach E Q" for E Q
  by unfold_locales (auto intro: auth_reach.intros elim: auth_reach_trans)

lemmas reach_change =
  change [of _ _ _ _ "InsertUser u" for u, unfolded auth_exec.simps]
  change [of _ _ _ _ "RefreshUser u x" for u x, unfolded auth_exec.simps]
  change [of _ _ _ _ "PutRole i r" for i r, unfolded auth_exec.simps]
  change [of _ _ _ _ "PutDisabled i d" for i d, unfolded auth_exec.simps]
  change [of _ _ _ _ "PutPassword i h" for i h, unfolded auth_exec.simps]
  change [of _ _ _ _ "PutLogin i" for i, unfolded auth_exec.simps]
  change [of _ _ _ _ "DropUser i" for i, unfolded auth_exec.simps]
  change [of _ _ _ _ "InsertSession x" for x, unfolded auth_exec.simps]
  change [of _ _ _ _ "DropSession h" for h, unfolded auth_exec.simps]
  change [of _ _ _ _ "DropSessionsOf i" for i, unfolded auth_exec.simps]
  change [of _ _ _ _ SweepSessions, unfolded auth_exec.simps]
  change [of _ _ _ _ "InsertToken k" for k, unfolded auth_exec.simps]
  change [of _ _ _ _ "TouchToken i" for i, unfolded auth_exec.simps]
  change [of _ _ _ _ "DropToken i" for i, unfolded auth_exec.simps]
  change [of _ _ _ _ "PutFailure k at" for k at, unfolded auth_exec.simps]
  change [of _ _ _ _ "DropFailures k" for k, unfolded auth_exec.simps]
  change [of _ _ _ _ "SweepFailures at" for at, unfolded auth_exec.simps]
  change [of _ _ _ _ "PutAudit a b c d e" for a b c d e, unfolded auth_exec.simps]
  change [of _ _ _ _ "PutConfig h" for h, unfolded auth_exec.simps]
  change [of _ _ _ _ SaveConfig, unfolded auth_exec.simps]

lemma reach_reads:
  assumes "auth_reach E Q s0 s"
  shows "auth_reach E Q s0 (snd (GetUser F i s))" "auth_reach E Q s0 (snd (GetUserByName F n s))"
    "auth_reach E Q s0 (snd (ListUsers F s))" "auth_reach E Q s0 (snd (SessionUser F h s))"
    "auth_reach E Q s0 (snd (ListAPITokens F i s))" "auth_reach E Q s0 (snd (RecentAuthFailures F n at m s))"
  unfolding GetUser_def GetUserByName_def ListUsers_def SessionUser_def ListAPITokens_def RecentAuthFailures_def
  using assms by (auto intro: reach.acc_query)

lemma reach_upsertUserOnce:
  assumes "auth_reach E Q s0 s" and "\<And>t. Q (InsertUser (new_user E t u))" and "\<And>x. Q (RefreshUser u x)"
  shows "auth_reach E Q s0 (snd (upsertUserOnce E u s))"
  using assms unfolding upsertUserOnce_def by (auto intro!: reach.acc_attempt reach_reads reach_change)

lemma reach_UpsertUser:
  assumes "auth_reach E Q s0 s" and "\<And>t. Q (InsertUser (new_user E t u))" and "\<And>x. Q (RefreshUser u x)"
  shows "auth_reach E Q s0 (snd (UpsertUser E u s))"
  using assms unfolding UpsertUser_def by (auto intro!: reach.acc_attempt reach_reads reach_upsertUserOnce)

lemma reach_CreateAPIToken:
  assumes "auth_reach E Q s0 s" and "\<And>x. Q (InsertToken x)"
  shows "auth_reach E Q s0 (snd (CreateAPIToken E t s))"
  using assms unfolding CreateAPIToken_def by (auto intro!: reach.acc_attempt reach.acc_query reach_change)

lemma reach_LookupAPIToken:
  assumes "auth_reach E Q s0 s" and "\<And>i. Q (TouchToken i)"
  shows "auth_reach E Q s0 (snd (LookupAPIToken E h s))"
  using assms unfolding LookupAPIToken_def
  by (auto intro!: reach.acc_attempt reach.acc_query reach_reads reach_change)


section \<open>The tables stay well formed\<close>

definition auth_wf :: "auth_db \<Rightarrow> bool" where
  "auth_wf s \<longleftrightarrow>
     wf_table u_id (users s) \<and> wf_table ss_id (sessions s) \<and> wf_table tk_id (api_tokens s) \<and>
     distinct (map u_username (rows (users s))) \<and>
     distinct (map ss_token_hash (rows (sessions s))) \<and>
     distinct (map tk_token_hash (rows (api_tokens s))) \<and>
     ss_user_id ` set (rows (sessions s)) \<subseteq> u_id ` set (rows (users s)) \<and>
     tk_user_id ` set (rows (api_tokens s)) \<subseteq> u_id ` set (rows (users s))"

lemma auth_wf_empty [simp]: "auth_wf empty_auth_db"
  by (simp add: auth_wf_def empty_auth_db_def empty_table_def wf_table_def)

lemma auth_wf_other [simp]:
  "auth_wf (s\<lparr>tick := n\<rparr>) = auth_wf s" "auth_wf (s\<lparr>auth_failures := f\<rparr>) = auth_wf s" "auth_wf (s\<lparr>auth_log := l\<rparr>) = auth_wf s"
  "auth_wf (s\<lparr>cfg_admin_hash := h\<rparr>) = auth_wf s" "auth_wf (s\<lparr>file_admin_hash := h\<rparr>) = auth_wf s"
  by (simp_all add: auth_wf_def)

lemma set_users_wf:
  assumes "auth_wf s" and "\<And>u. u_id (f u) = u_id u" and "\<And>u. u_username (f u) = u_username u"
  shows "auth_wf (set_users p f s)"
proof -
  have ids: "map u_id (update_where p f rs) = map u_id rs" and names: "map u_username (update_where p f rs) = map u_username rs" for rs
    using assms(2,3) by (auto intro: map_update_where)
  have "u_id ` set (update_where p f rs) = u_id ` set rs" for rs
    using ids [of rs] by (metis set_map)
  with assms ids names show ?thesis
    by (auto simp: auth_wf_def set_users_def intro: users_t.wf_update)
qed

lemma set_tokens_wf:
  assumes "auth_wf s" and "\<And>t. tk_id (f t) = tk_id t" and "\<And>t. tk_token_hash (f t) = tk_token_hash t"
    and "\<And>t. tk_user_id (f t) = tk_user_id t"
  shows "auth_wf (set_tokens p f s)"
proof -
  have hs: "map tk_token_hash (update_where p f rs) = map tk_token_hash rs"
    and us: "map tk_user_id (update_where p f rs) = map tk_user_id rs" for rs
    using assms(2-4) by (auto intro: map_update_where)
  have "tk_user_id ` set (update_where p f rs) = tk_user_id ` set rs" for rs
    using us [of rs] by (metis set_map)
  with assms hs show ?thesis
    by (auto simp: auth_wf_def set_tokens_def intro: tokens_t.wf_update)
qed

lemma delete_sessions_wf: "auth_wf s \<Longrightarrow> auth_wf (s\<lparr>sessions := delete_rows p (sessions s)\<rparr>)"
  by (auto simp: auth_wf_def intro: sessions_t.wf_delete distinct_map_delete_where)

lemma insert_user_wf: "auth_wf s \<Longrightarrow> auth_wf (snd (insert_user E x s))"
  by (auto simp: insert_user_def stmt_defs auth_wf_def user_insertable_def intro!: users_t.wf_insert)

lemma CreateSession_wf: "auth_wf s \<Longrightarrow> auth_wf (snd (CreateSession E x s))"
  by (auto simp: CreateSession_def stmt_defs auth_wf_def session_insertable_def intro!: sessions_t.wf_insert intro: rev_image_eqI)

lemma insert_token_wf: "auth_wf s \<Longrightarrow> auth_wf (snd (insert_token E t s))"
  by (auto simp: insert_token_def stmt_defs auth_wf_def token_insertable_def intro!: tokens_t.wf_insert intro: rev_image_eqI)

lemma DeleteUser_wf: "auth_wf s \<Longrightarrow> auth_wf (snd (DeleteUser E i s))"
  by (auto simp: DeleteUser_def stmt_defs auth_wf_def
      intro!: users_t.wf_delete sessions_t.wf_delete tokens_t.wf_delete distinct_map_delete_where)

lemma exec_keeps: "auth_wf (f (s\<lparr>tick := Suc (tick s)\<rparr>)) \<Longrightarrow> auth_wf s \<Longrightarrow> auth_wf (snd (exec E f s))"
  by (simp add: stmt_defs)

lemma exec_count_keeps:
  "auth_wf (f (s\<lparr>tick := Suc (tick s)\<rparr>)) \<Longrightarrow> auth_wf s \<Longrightarrow> auth_wf (snd (exec_count E n f s))"
  by (simp add: stmt_defs)

lemma auth_exec_wf:
  assumes "auth_wf s"
  shows "auth_wf (auth_exec E st s)"
proof (cases st)
  case (RefreshUser u ex)
  show ?thesis
    using assms by (auto simp: RefreshUser refresh_user_def refreshed_user_def intro!: exec_keeps set_users_wf)
next
  case (DropToken i)
  show ?thesis
    using assms by (auto simp: DropToken RevokeAPIToken_def stmt_defs intro!: set_tokens_wf)
qed (use assms in \<open>auto simp: SetUserRole_def SetUserDisabled_def SetUserPassword_def TouchLogin_def DeleteSession_def
      DeleteUserSessions_def PurgeExpiredSessions_def touch_token_def RecordAuthFailure_def ClearAuthFailures_def
      PurgeAuthFailures_def AuditWithIP_def Let_def
      intro!: exec_keeps exec_count_keeps set_users_wf set_tokens_wf delete_sessions_wf insert_user_wf CreateSession_wf
        insert_token_wf DeleteUser_wf\<close>)

lemma auth_reach_wf: "auth_reach E Q s t \<Longrightarrow> auth_wf s \<Longrightarrow> auth_wf t"
  by (erule auth_reach_invariant) (auto intro: auth_exec_wf)

section \<open>What lives and what ends\<close>

lemma tick_exec_mono: "tick s \<le> tick (auth_exec E st s)"
  by (cases st) (auto simp: insert_user_def refresh_user_def SetUserRole_def SetUserDisabled_def SetUserPassword_def
      TouchLogin_def DeleteUser_def CreateSession_def DeleteSession_def DeleteUserSessions_def PurgeExpiredSessions_def
      insert_token_def touch_token_def RevokeAPIToken_def RecordAuthFailure_def ClearAuthFailures_def
      PurgeAuthFailures_def AuditWithIP_def set_users_def set_tokens_def stmt_defs)

lemma auth_reach_ticks: "auth_reach E Q s t \<Longrightarrow> tick s \<le> tick t"
proof (induction rule: auth_reach.induct)
  case (change t st)
  then show ?case using tick_exec_mono [of t E st] by linarith
qed simp_all

text \<open>Which statements touch the sessions, the users and the tokens.\<close>

definition no_session :: "string \<Rightarrow> auth_db \<Rightarrow> bool" where
  "no_session h s \<longleftrightarrow> (\<forall>x \<in> set (rows (sessions s)). ss_token_hash x \<noteq> h)"

definition no_live_token :: "string \<Rightarrow> auth_db \<Rightarrow> bool" where
  "no_live_token h s \<longleftrightarrow> (\<forall>x \<in> set (rows (api_tokens s)). tk_token_hash x = h \<longrightarrow> tk_revoked x)"

lemmas auth_stmt_defs = insert_user_def refresh_user_def SetUserRole_def SetUserDisabled_def SetUserPassword_def
  TouchLogin_def DeleteUser_def CreateSession_def DeleteSession_def DeleteUserSessions_def PurgeExpiredSessions_def
  insert_token_def touch_token_def RevokeAPIToken_def RecordAuthFailure_def ClearAuthFailures_def
  PurgeAuthFailures_def AuditWithIP_def set_users_def set_tokens_def

lemma no_session_stays:
  assumes "no_session h s" and "\<And>x. st = InsertSession x \<Longrightarrow> ss_token_hash x \<noteq> h"
  shows "no_session h (auth_exec E st s)"
  using assms by (cases st) (auto simp: no_session_def auth_stmt_defs stmt_defs)

lemma no_live_token_stays:
  assumes "no_live_token h s" and "\<And>x. st = InsertToken x \<Longrightarrow> tk_token_hash x \<noteq> h"
  shows "no_live_token h (auth_exec E st s)"
  using assms by (cases st) (auto simp: no_live_token_def auth_stmt_defs stmt_defs set_update_where)

lemma reach_no_session:
  assumes "auth_reach E Q s t" and "no_session h s" and "\<And>x. Q (InsertSession x) \<Longrightarrow> ss_token_hash x \<noteq> h"
  shows "no_session h t"
  using assms(1,2)
proof (rule auth_reach_invariant)
  show "no_session h (s\<lparr>tick := Suc (tick s)\<rparr>)" if "no_session h s" for s :: auth_db
    using that by (simp add: no_session_def)
qed (use assms(3) in \<open>auto intro: no_session_stays\<close>)

lemma reach_no_live_token:
  assumes "auth_reach E Q s t" and "no_live_token h s" and "\<And>x. Q (InsertToken x) \<Longrightarrow> tk_token_hash x \<noteq> h"
  shows "no_live_token h t"
  using assms(1,2)
proof (rule auth_reach_invariant)
  show "no_live_token h (s\<lparr>tick := Suc (tick s)\<rparr>)" if "no_live_token h s" for s :: auth_db
    using that by (simp add: no_live_token_def)
qed (use assms(3) in \<open>auto intro: no_live_token_stays\<close>)

text \<open>A session of an enabled user, and the statements that leave it alone.\<close>

definition live_session :: "string \<Rightarrow> nat \<Rightarrow> int \<Rightarrow> auth_db \<Rightarrow> bool" where
  "live_session h i e s \<longleftrightarrow>
     (\<exists>x \<in> set (rows (sessions s)). ss_token_hash x = h \<and> ss_user_id x = i \<and> ss_expires_at x = e) \<and>
     (\<exists>u \<in> set (rows (users s)). u_id u = i) \<and>
     (\<forall>u \<in> set (rows (users s)). u_id u = i \<longrightarrow> \<not> u_disabled u)"

fun leaves_session :: "string \<Rightarrow> nat \<Rightarrow> auth_statement \<Rightarrow> bool" where
  "leaves_session h i (DropSession h') \<longleftrightarrow> h' \<noteq> h"
| "leaves_session h i (DropSessionsOf j) \<longleftrightarrow> j \<noteq> i"
| "leaves_session h i (DropUser j) \<longleftrightarrow> j \<noteq> i"
| "leaves_session h i (PutDisabled j d) \<longleftrightarrow> \<not> (j = i \<and> d)"
| "leaves_session h i _ \<longleftrightarrow> True"

lemma live_session_stays:
  assumes "live_session h i e s" and "auth_wf s" and "leaves_session h i st" and "clock E (tick s) < e"
  shows "live_session h i e (auth_exec E st s)"
proof -
  obtain x u where x: "x \<in> set (rows (sessions s))" "ss_token_hash x = h" "ss_user_id x = i" "ss_expires_at x = e"
    and u: "u \<in> set (rows (users s))" "u_id u = i"
    and en: "\<forall>u \<in> set (rows (users s)). u_id u = i \<longrightarrow> \<not> u_disabled u"
    using assms(1) by (auto simp: live_session_def)
  have "i < next_id (users s)" using assms(2) u by (auto simp: auth_wf_def wf_table_def)
  with x u en assms(3,4) show ?thesis
    by (cases st) (auto simp: live_session_def auth_stmt_defs stmt_defs bex_update_where ball_update_where
        refreshed_user_def now_def intro!: bexI [of _ x] bexI [of _ u] split: if_splits)
qed

lemma reach_live_session:
  assumes "auth_reach E (leaves_session h i) s t" and "live_session h i e s" and "auth_wf s"
    and "\<And>n. n \<le> tick t \<Longrightarrow> clock E n < e"
  shows "live_session h i e t"
  using assms
proof (induction rule: auth_reach.induct)
  case start
  then show ?case by simp
next
  case (select t)
  then show ?case by (simp add: live_session_def)
next
  case (change t st)
  have "auth_wf t" using auth_reach_wf change.hyps(1) change.prems(2) by blast
  moreover have "tick t \<le> tick (auth_exec E st t)" by (rule tick_exec_mono)
  ultimately show ?case
    using change.prems change.hyps(2) by (intro live_session_stays change.IH) auto
qed

text \<open>A token that was not revoked, of an enabled user, and the statements that leave it alone.\<close>

definition live_token :: "string \<Rightarrow> nat \<Rightarrow> string \<Rightarrow> int option \<Rightarrow> nat \<Rightarrow> auth_db \<Rightarrow> bool" where
  "live_token h i role e j s \<longleftrightarrow>
     (\<exists>x \<in> set (rows (api_tokens s)). tk_token_hash x = h \<and> tk_user_id x = i \<and> tk_role x = role \<and>
        tk_expires_at x = e \<and> \<not> tk_revoked x \<and> tk_id x = j) \<and>
     (\<exists>u \<in> set (rows (users s)). u_id u = i) \<and>
     (\<forall>u \<in> set (rows (users s)). u_id u = i \<longrightarrow> \<not> u_disabled u)"

fun leaves_token :: "nat \<Rightarrow> nat \<Rightarrow> auth_statement \<Rightarrow> bool" where
  "leaves_token j i (DropToken k) \<longleftrightarrow> k \<noteq> j"
| "leaves_token j i (DropUser k) \<longleftrightarrow> k \<noteq> i"
| "leaves_token j i (PutDisabled k d) \<longleftrightarrow> \<not> (k = i \<and> d)"
| "leaves_token j i _ \<longleftrightarrow> True"

lemma live_token_stays:
  assumes "live_token h i role e j s" and "auth_wf s" and "leaves_token j i st"
  shows "live_token h i role e j (auth_exec E st s)"
proof -
  obtain x u where x: "x \<in> set (rows (api_tokens s))" "tk_token_hash x = h" "tk_user_id x = i" "tk_role x = role"
      "tk_expires_at x = e" "\<not> tk_revoked x" "tk_id x = j"
    and u: "u \<in> set (rows (users s))" "u_id u = i"
    and en: "\<forall>u \<in> set (rows (users s)). u_id u = i \<longrightarrow> \<not> u_disabled u"
    using assms(1) by (auto simp: live_token_def)
  have "i < next_id (users s)" using assms(2) u by (auto simp: auth_wf_def wf_table_def)
  with x u en assms(3) show ?thesis
    by (cases st) (auto simp: live_token_def auth_stmt_defs stmt_defs bex_update_where ball_update_where
        refreshed_user_def intro!: bexI [of _ x] bexI [of _ u] split: if_splits)
qed

lemma reach_live_token:
  assumes "auth_reach E (leaves_token j i) s t" and "live_token h i role e j s" and "auth_wf s"
  shows "live_token h i role e j t"
proof -
  have "auth_wf t \<and> live_token h i role e j t"
    using assms(1)
  proof (rule auth_reach_invariant)
    show "auth_wf (s\<lparr>tick := Suc (tick s)\<rparr>) \<and> live_token h i role e j (s\<lparr>tick := Suc (tick s)\<rparr>)"
      if "auth_wf s \<and> live_token h i role e j s" for s
      using that by (simp add: live_token_def)
  qed (use assms(2,3) in \<open>auto intro: live_token_stays auth_exec_wf\<close>)
  then show ?thesis ..
qed

end
