(* ===== verification/Auth.thy ===== *)
theory Auth
  imports Auth_Store Pki "HOL-Library.Word"
begin

text \<open>
  \<open>internal/auth/auth.go\<close>: sign-in with a local password or against a directory, sessions, API tokens and local
  accounts. bcrypt, SHA-256, the random source, the directory and the write of the configuration file are parameters of
  the manager. The metrics counters are left out. A \<open>time.Duration\<close> is a 64-bit number of nanoseconds; the clock counts
  seconds.
\<close>


section \<open>The manager\<close>

datatype auth_error = InvalidCredentials | AccountDisabled | DirectoryDown | AuthRefused | AuthStore db_error

datatype auth_mode = AuthModeLocal | AuthModeLDAP | AuthModeBoth

record identity =
  id_username :: string
  id_display_name :: string
  id_email :: string
  id_is_admin :: bool

datatype ldap_answer = LdapInvalid | LdapError | LdapIdentity identity

text \<open>The functions that read the random source take the count of statements, as the clock does.\<close>

record manager =
  mg_env :: env
  mg_mode :: auth_mode
  mg_admin_name :: string
  mg_path :: string
  mg_session_ttl :: int
  mg_ldap :: "(string \<Rightarrow> string \<Rightarrow> nat \<Rightarrow> ldap_answer) option"
  mg_compare :: "string \<Rightarrow> string \<Rightarrow> bool"
  mg_bcrypt :: "string \<Rightarrow> nat \<Rightarrow> string option"
  mg_sha256 :: "string \<Rightarrow> string"
  mg_prefix :: "nat \<Rightarrow> string option"
  mg_saves :: "nat \<Rightarrow> bool"

type_synonym 'a auth_op = "(auth_error, 'a, auth_db) outcome"

definition stored :: "'a auth_stmt \<Rightarrow> ('a \<Rightarrow> auth_db \<Rightarrow> 'b auth_op) \<Rightarrow> 'b auth_op" where
  "stored r k = attempt r (\<lambda>e s. (Inl (AuthStore e), s)) k"

definition LocalEnabled :: "manager \<Rightarrow> bool" where
  "LocalEnabled M \<longleftrightarrow> mg_mode M = AuthModeLocal \<or> mg_mode M = AuthModeBoth"

definition LDAPEnabled :: "manager \<Rightarrow> bool" where
  "LDAPEnabled M \<longleftrightarrow> mg_ldap M \<noteq> None"

definition TokenPrefix :: string where "TokenPrefix = ''goca_''"

definition hex_encode :: "string \<Rightarrow> string" where
  "hex_encode bs = concat (map (\<lambda>c. [hex_digit (of_char c div 16), hex_digit (of_char c mod 16)]) bs)"

definition HashToken :: "manager \<Rightarrow> string \<Rightarrow> string" where
  "HashToken M tok = hex_encode (mg_sha256 M tok)"

definition ValidatePassword :: "string \<Rightarrow> bool" where
  "ValidatePassword p \<longleftrightarrow> \<not> length p < 8 \<and> \<not> 200 < length p"

definition CheckPassword :: "manager \<Rightarrow> string \<Rightarrow> string \<Rightarrow> bool" where
  "CheckPassword M h p = mg_compare M h p"

definition HashPassword :: "manager \<Rightarrow> string \<Rightarrow> nat \<Rightarrow> string option" where
  "HashPassword M p n = mg_bcrypt M p n"

definition ConstantTimeEqual :: "string \<Rightarrow> string \<Rightarrow> bool" where
  "ConstantTimeEqual a b \<longleftrightarrow> a = b"

definition password_alphabet :: string where
  "password_alphabet = ''abcdefghijkmnopqrstuvwxyzABCDEFGHJKLMNPQRSTUVWXYZ23456789!@#%^*-_=+''"

text \<open>The random bytes are given; the code draws as many as it needs.\<close>

definition GeneratePassword :: "int \<Rightarrow> (nat \<Rightarrow> string option) \<Rightarrow> string option" where
  "GeneratePassword n0 rand =
     (let n = (if n0 < 12 then 12 else n0) in
      case rand (nat n) of
        None \<Rightarrow> None
      | Some b \<Rightarrow> Some (map (\<lambda>v. password_alphabet ! (of_char v mod length password_alphabet)) b))"


section \<open>Accounts\<close>

definition blank_user :: User where
  "blank_user = \<lparr>u_id = 0, u_username = [], u_source = [], u_display_name = [], u_email = [], u_role = [],
     u_disabled = False, u_pass_hash = [], u_created_at = 0, u_last_login = None\<rparr>"

definition EnsureLocalAdmin :: "manager \<Rightarrow> auth_db \<Rightarrow> unit auth_op" where
  "EnsureLocalAdmin M s =
     (let E = mg_env M; name = mg_admin_name M; h = cfg_admin_hash s in
      if name = [] \<or> h = [] then (Inr (), s)
      else attempt (GetUserByName E name s)
        (\<lambda>e s. if e = ErrNotFound
               then stored (UpsertUser E (blank_user\<lparr>u_username := name, u_source := SourceLocal,
                      u_display_name := ''Local administrator'', u_role := RoleAdmin, u_pass_hash := h\<rparr>) s)
                      (\<lambda>_ s. (Inr (), s))
               else (Inl (AuthStore e), s))
        (\<lambda>u s. stored (if u_pass_hash u \<noteq> h then SetUserPassword E (u_id u) h s else (Inr (), s))
          (\<lambda>_ s. if u_role u \<noteq> RoleAdmin
                 then stored (SetUserRole E (u_id u) RoleAdmin s) (\<lambda>_ s. (Inr (), s))
                 else (Inr (), s))))"

text \<open>The lookup that fails is treated like one that finds nobody.\<close>

definition syncDirectoryUser :: "manager \<Rightarrow> string \<Rightarrow> identity \<Rightarrow> auth_db \<Rightarrow> User auth_op" where
  "syncDirectoryUser M source x s =
     (let E = mg_env M;
          role = (if id_is_admin x then RoleAdmin else RoleUser);
          sync = (\<lambda>role s. stored (UpsertUser E (blank_user\<lparr>u_username := id_username x, u_source := source,
                    u_display_name := id_display_name x, u_email := id_email x, u_role := role\<rparr>) s)
                    (\<lambda>u s. (Inr u, snd (TouchLogin E (u_id u) s)))) in
      attempt (GetUserByName E (id_username x) s)
        (\<lambda>_ s. sync role s)
        (\<lambda>ex s. if u_disabled ex then (Inl AccountDisabled, s)
                else sync (if u_role ex = RoleAdmin then RoleAdmin else role) s))"

definition SyncOIDCUser :: "manager \<Rightarrow> identity \<Rightarrow> auth_db \<Rightarrow> User auth_op" where
  "SyncOIDCUser M = syncDirectoryUser M SourceOIDC"

definition directory_login :: "manager \<Rightarrow> string \<Rightarrow> string \<Rightarrow> auth_db \<Rightarrow> User auth_op" where
  "directory_login M username password s =
     (case mg_ldap M of
        None \<Rightarrow> (Inl InvalidCredentials, s)
      | Some ask \<Rightarrow>
          (case ask username password (tick s) of
             LdapInvalid \<Rightarrow> (Inl InvalidCredentials, s)
           | LdapError \<Rightarrow> (Inl DirectoryDown, s)
           | LdapIdentity x \<Rightarrow> syncDirectoryUser M SourceLDAP x s))"

definition Authenticate :: "manager \<Rightarrow> string \<Rightarrow> string \<Rightarrow> auth_db \<Rightarrow> User auth_op" where
  "Authenticate M username0 password s =
     (let E = mg_env M; username = trim_space username0 in
      if username = [] \<or> password = [] then (Inl InvalidCredentials, s)
      else if LocalEnabled M
      then attempt (GetUserByName E username s)
             (\<lambda>_ s. directory_login M username password s)
             (\<lambda>u s. if u_source u = SourceLocal \<and> u_pass_hash u \<noteq> []
                    then if u_disabled u then (Inl AccountDisabled, s)
                         else if mg_compare M (u_pass_hash u) password
                         then (Inr u, snd (TouchLogin E (u_id u) s))
                         else (Inl InvalidCredentials, s)
                    else directory_login M username password s)
      else directory_login M username password s)"

definition CreateLocalUser ::
  "manager \<Rightarrow> string \<Rightarrow> string \<Rightarrow> string \<Rightarrow> string \<Rightarrow> string \<Rightarrow> auth_db \<Rightarrow> User auth_op" where
  "CreateLocalUser M username password display email role s =
     (let E = mg_env M in
      if trim_space username = [] then (Inl AuthRefused, s)
      else if \<not> ValidatePassword password then (Inl AuthRefused, s)
      else attempt (GetUserByName E username s)
        (\<lambda>_ s. case HashPassword M password (tick s) of
                 None \<Rightarrow> (Inl AuthRefused, s)
               | Some h \<Rightarrow>
                   stored (UpsertUser E (blank_user\<lparr>u_username := username, u_source := SourceLocal,
                       u_display_name := display, u_email := email,
                       u_role := (if role \<noteq> RoleAdmin then RoleUser else role), u_pass_hash := h\<rparr>) s)
                     (\<lambda>u s. (Inr u, s)))
        (\<lambda>_ s. (Inl AuthRefused, s)))"

text \<open>The password of the break-glass administrator is written to the configuration as well, so that the next start
  does not bring the old one back.\<close>

definition SetPassword :: "manager \<Rightarrow> User \<Rightarrow> string \<Rightarrow> auth_db \<Rightarrow> unit auth_op" where
  "SetPassword M u password s =
     (if u_source u \<noteq> SourceLocal then (Inl AuthRefused, s)
      else if \<not> ValidatePassword password then (Inl AuthRefused, s)
      else case HashPassword M password (tick s) of
        None \<Rightarrow> (Inl AuthRefused, s)
      | Some h \<Rightarrow>
          stored (SetUserPassword (mg_env M) (u_id u) h s)
            (\<lambda>_ s. if to_lower (u_username u) = to_lower (mg_admin_name M) \<and> mg_path M \<noteq> []
                   then let s = s\<lparr>cfg_admin_hash := h\<rparr> in
                        if mg_saves M (tick s) then (Inr (), s\<lparr>file_admin_hash := cfg_admin_hash s\<rparr>)
                        else (Inl AuthRefused, s)
                   else (Inr (), s)))"


section \<open>Sessions\<close>

definition CreateUserSession :: "manager \<Rightarrow> User \<Rightarrow> string \<Rightarrow> string \<Rightarrow> auth_db \<Rightarrow> (string \<times> int) auth_op" where
  "CreateUserSession M u ip ua s =
     (case random_token (mg_env M) (tick s) of
        None \<Rightarrow> (Inl AuthRefused, s)
      | Some tok \<Rightarrow>
          let e = now (mg_env M) s + mg_session_ttl M in
          stored (CreateSession (mg_env M)
              \<lparr>ss_id = 0, ss_user_id = u_id u, ss_token_hash = HashToken M tok, ss_expires_at = e,
               ss_created_at = 0, ss_ip = ip, ss_user_agent = ua\<rparr> s)
            (\<lambda>_ s. (Inr (tok, e), s)))"

definition UserFromSession :: "manager \<Rightarrow> string \<Rightarrow> auth_db \<Rightarrow> User auth_op" where
  "UserFromSession M tok s =
     (if tok = [] then (Inl (AuthStore ErrNotFound), s)
      else stored (SessionUser (mg_env M) (HashToken M tok) s)
        (\<lambda>u s. if u_disabled u then (Inl AccountDisabled, s) else (Inr u, s)))"

definition DestroySession :: "manager \<Rightarrow> string \<Rightarrow> auth_db \<Rightarrow> unit auth_op" where
  "DestroySession M tok s =
     (if tok = [] then (Inr (), s)
      else stored (DeleteSession (mg_env M) (HashToken M tok) s) (\<lambda>_ s. (Inr (), s)))"


section \<open>API tokens\<close>

definition in_seconds :: "64 word \<Rightarrow> int" where
  "in_seconds d = sint d div 1000000000"

definition IssueAPIToken :: "manager \<Rightarrow> User \<Rightarrow> string \<Rightarrow> string \<Rightarrow> 64 word \<Rightarrow> auth_db \<Rightarrow> (string \<times> APIToken) auth_op" where
  "IssueAPIToken M u name role0 ttl s =
     (let role = (if role0 = [] then u_role u else role0) in
      if trim_space name = [] then (Inl AuthRefused, s)
      else if role = RoleAdmin \<and> \<not> IsAdmin u then (Inl AuthRefused, s)
      else case random_token (mg_env M) (tick s) of
        None \<Rightarrow> (Inl AuthRefused, s)
      | Some body \<Rightarrow>
          (case mg_prefix M (tick s) of
             None \<Rightarrow> (Inl AuthRefused, s)
           | Some four \<Rightarrow>
               let prefix = hex_encode four; plaintext = TokenPrefix @ prefix @ ''_'' @ body in
               stored (CreateAPIToken (mg_env M)
                   \<lparr>tk_id = 0, tk_user_id = u_id u, tk_username = [], tk_name = name, tk_prefix = prefix,
                    tk_token_hash = HashToken M plaintext, tk_role = role,
                    tk_expires_at = (if ttl \<noteq> 0 then Some (now (mg_env M) s + in_seconds ttl) else None),
                    tk_created_at = 0, tk_last_used_at = None, tk_revoked = False\<rparr> s)
                 (\<lambda>k s. (Inr (plaintext, k), s))))"

definition effective_user :: "User \<Rightarrow> APIToken \<Rightarrow> User" where
  "effective_user u k = (if tk_role k \<noteq> RoleAdmin then u\<lparr>u_role := tk_role k\<rparr> else u)"

definition UserFromAPIToken :: "manager \<Rightarrow> string \<Rightarrow> auth_db \<Rightarrow> (User \<times> APIToken) auth_op" where
  "UserFromAPIToken M tok0 s =
     (let tok = trim_space tok0 in
      if tok = [] \<or> \<not> has_prefix tok TokenPrefix then (Inl (AuthStore ErrNotFound), s)
      else stored (LookupAPIToken (mg_env M) (HashToken M tok) s)
        (\<lambda>(k, u) s. if u_disabled u then (Inl AccountDisabled, s) else (Inr (effective_user u k, k), s)))"

definition RevokeToken :: "manager \<Rightarrow> nat \<Rightarrow> auth_db \<Rightarrow> unit auth_op" where
  "RevokeToken M i s = stored (RevokeAPIToken (mg_env M) i s) (\<lambda>_ s. (Inr (), s))"

definition TokensOf :: "manager \<Rightarrow> nat \<Rightarrow> auth_db \<Rightarrow> APIToken list auth_op" where
  "TokensOf M i s = stored (ListAPITokens (mg_env M) i s) (\<lambda>ks s. (Inr ks, s))"


section \<open>What each operation reads and writes\<close>

lemma stored_simps [simp]: "stored (Inl e, s) k = (Inl (AuthStore e), s)" "stored (Inr x, s) k = k x s"
  by (simp_all add: stored_def)

lemma stored_InrE:
  assumes "stored r k = (Inr y, s')"
  obtains x s1 where "r = (Inr x, s1)" "k x s1 = (Inr y, s')"
  using assms by (cases r; cases "fst r") auto

lemma reach_stored:
  assumes "auth_reach E Q s0 (snd r)" and "\<And>x s. auth_reach E Q s0 s \<Longrightarrow> auth_reach E Q s0 (snd (k x s))"
  shows "auth_reach E Q s0 (snd (stored r k))"
  unfolding stored_def using assms by (intro reach.acc_attempt) auto

lemma GetUserByName_Inr:
  "GetUserByName E n s = (Inr u, s') \<Longrightarrow>
     u \<in> set (rows (users s)) \<and> to_lower (u_username u) = to_lower n \<and> s' = s\<lparr>tick := Suc (tick s)\<rparr>"
  unfolding GetUserByName_def by (auto dest!: query_row_Inr select_one_Inr)

lemma GetUser_Inr:
  "GetUser E i s = (Inr u, s') \<Longrightarrow> u \<in> set (rows (users s)) \<and> u_id u = i \<and> s' = s\<lparr>tick := Suc (tick s)\<rparr>"
  unfolding GetUser_def by (auto dest!: query_row_Inr select_one_Inr)

lemma users_unique: "auth_wf s \<Longrightarrow> u \<in> set (rows (users s)) \<Longrightarrow> v \<in> set (rows (users s)) \<Longrightarrow> u_id u = u_id v \<Longrightarrow> u = v"
  by (auto simp: auth_wf_def wf_table_def distinct_map dest: inj_onD)

lemma sessions_unique:
  "auth_wf s \<Longrightarrow> x \<in> set (rows (sessions s)) \<Longrightarrow> y \<in> set (rows (sessions s)) \<Longrightarrow>
     ss_token_hash x = ss_token_hash y \<Longrightarrow> x = y"
  by (auto simp: auth_wf_def distinct_map dest: inj_onD)

lemma set_session_users:
  "u \<in> set (session_users h t s) \<longleftrightarrow>
     (\<exists>x \<in> set (rows (sessions s)). ss_token_hash x = h \<and> t < ss_expires_at x \<and>
        u \<in> set (rows (users s)) \<and> u_id u = ss_user_id x)"
  by (auto simp: session_users_def)

text \<open>A session resolves exactly while it is stored, has not expired and belongs to an enabled user.\<close>

lemma UserFromSession_Inr:
  assumes "UserFromSession M tok s = (Inr u, s')"
  shows "tok \<noteq> [] \<and> \<not> u_disabled u \<and> u \<in> set (rows (users s)) \<and>
    (\<exists>x \<in> set (rows (sessions s)). ss_token_hash x = HashToken M tok \<and> ss_user_id x = u_id u \<and>
       now (mg_env M) s < ss_expires_at x)"
proof -
  have tok: "tok \<noteq> []" using assms by (auto simp: UserFromSession_def)
  with assms obtain s1 where l: "SessionUser (mg_env M) (HashToken M tok) s = (Inr u, s1)" and en: "\<not> u_disabled u"
    unfolding UserFromSession_def by (auto elim!: stored_InrE split: if_splits)
  then have "u \<in> set (session_users (HashToken M tok) (now (mg_env M) s) (s\<lparr>tick := Suc (tick s)\<rparr>))"
    unfolding SessionUser_def by (auto dest!: query_row_Inr select_one_Inr)
  with tok en show ?thesis by (auto simp: set_session_users)
qed

lemma UserFromSession_live:
  assumes "live_session (HashToken M tok) i e s" and "auth_wf s" and "tok \<noteq> []"
    and "\<not> fault (mg_env M) (tick s)" and "clock (mg_env M) (tick s) < e"
  shows "\<exists>u s'. UserFromSession M tok s = (Inr u, s') \<and> u_id u = i \<and> \<not> u_disabled u"
proof -
  let ?h = "HashToken M tok" and ?t = "now (mg_env M) s"
  obtain x u where x: "x \<in> set (rows (sessions s))" "ss_token_hash x = ?h" "ss_user_id x = i" "ss_expires_at x = e"
    and u: "u \<in> set (rows (users s))" "u_id u = i"
    and en: "\<forall>u \<in> set (rows (users s)). u_id u = i \<longrightarrow> \<not> u_disabled u"
    using assms(1) by (auto simp: live_session_def)
  let ?s = "s\<lparr>tick := Suc (tick s)\<rparr>"
  have mem: "u \<in> set (session_users ?h ?t ?s)"
    using x u assms(5) by (auto simp: set_session_users now_def)
  have only: "v = u" if "v \<in> set (session_users ?h ?t ?s)" for v
    using that x u sessions_unique [OF assms(2)] users_unique [OF assms(2)]
    by (fastforce simp: set_session_users)
  from mem obtain v vs where v: "session_users ?h ?t ?s = v # vs"
    by (cases "session_users ?h ?t ?s") auto
  with only have "v = u" by simp
  with v have "SessionUser (mg_env M) ?h s = (Inr u, ?s)"
    using assms(4) by (simp add: SessionUser_def stmt_defs select_one_def)
  with assms(3) u en show ?thesis by (simp add: UserFromSession_def)
qed

text \<open>C14 (auth.go, CreateSession, UserFromSession; store.go): a session that was created for an enabled user resolves
  to that user until it expires, whatever statements any number of processes execute in between, as long as none of
  them ends the session or disables or deletes the user. In particular the janitor does not sweep it early.\<close>

theorem session_resolves:
  assumes "auth_wf s" and "CreateUserSession M u ip ua s = (Inr (tok, e), s1)" and "tok \<noteq> []"
    and "\<forall>v \<in> set (rows (users s)). u_id v = u_id u \<longrightarrow> \<not> u_disabled v"
    and "auth_reach (mg_env M) (leaves_session (HashToken M tok) (u_id u)) s1 s2"
    and "\<forall>n \<le> tick s2. clock (mg_env M) n < e"
    and "\<not> fault (mg_env M) (tick s2)"
  shows "\<exists>v s3. UserFromSession M tok s2 = (Inr v, s3) \<and> u_id v = u_id u \<and> \<not> u_disabled v"
proof -
  let ?x = "\<lparr>ss_id = 0, ss_user_id = u_id u, ss_token_hash = HashToken M tok, ss_expires_at = e, ss_created_at = 0,
               ss_ip = ip, ss_user_agent = ua\<rparr>"
  have c: "CreateSession (mg_env M) ?x s = (Inr (), s1)"
    using assms(2) by (auto simp: CreateUserSession_def Let_def elim!: stored_InrE split: option.splits)
  then have "live_session (HashToken M tok) (u_id u) e s1"
    using assms(4) by (auto simp: live_session_def CreateSession_def stmt_defs session_insertable_def split: if_splits)
  moreover have "auth_wf s1" using CreateSession_wf [OF assms(1), of "mg_env M" ?x] c by simp
  ultimately have "live_session (HashToken M tok) (u_id u) e s2" "auth_wf s2"
    using reach_live_session [OF assms(5)] auth_reach_wf [OF assms(5)] assms(6) by auto
  with assms(3,6,7) show ?thesis by (intro UserFromSession_live) auto
qed

text \<open>C15 (auth.go, DestroySession, UserFromSession): after a sign-out that succeeded the token never resolves again,
  whatever any number of processes execute, unless one of them creates a session with the same hash.\<close>

theorem session_ends:
  assumes "DestroySession M tok s = (Inr (), s1)" and "tok \<noteq> []"
    and "auth_reach (mg_env M) (\<lambda>st. \<forall>x. st = InsertSession x \<longrightarrow> ss_token_hash x \<noteq> HashToken M tok) s1 s2"
  shows "\<exists>e s3. UserFromSession M tok s2 = (Inl e, s3)"
proof -
  have "DeleteSession (mg_env M) (HashToken M tok) s = (Inr (), s1)"
    using assms(1,2) by (auto simp: DestroySession_def elim!: stored_InrE)
  then have "no_session (HashToken M tok) s1"
    by (auto simp: DeleteSession_def stmt_defs no_session_def split: if_splits)
  with reach_no_session [OF assms(3)] have gone: "no_session (HashToken M tok) s2" by auto
  show ?thesis
  proof (cases "fst (UserFromSession M tok s2)")
    case (Inl e)
    then show ?thesis by (metis prod.collapse)
  next
    case (Inr u)
    then have "UserFromSession M tok s2 = (Inr u, snd (UserFromSession M tok s2))" by (metis prod.collapse)
    from UserFromSession_Inr [OF this] gone show ?thesis by (auto simp: no_session_def)
  qed
qed


text \<open>The statements of each operation.\<close>

lemma reach_UserFromSession: "auth_reach E Q s0 s \<Longrightarrow> auth_reach E Q s0 (snd (UserFromSession M tok s))"
  unfolding UserFromSession_def by (auto intro!: reach_stored reach_reads)

lemma reach_DestroySession:
  assumes "auth_reach (mg_env M) Q s0 s" and "\<And>h. Q (DropSession h)"
  shows "auth_reach (mg_env M) Q s0 (snd (DestroySession M tok s))"
  using assms unfolding DestroySession_def by (auto intro!: reach_stored reach_change)

lemma reach_CreateUserSession:
  assumes "auth_reach (mg_env M) Q s0 s" and "\<And>x. Q (InsertSession x)"
  shows "auth_reach (mg_env M) Q s0 (snd (CreateUserSession M u ip ua s))"
  using assms unfolding CreateUserSession_def Let_def by (auto intro!: reach_stored reach_change split: option.split)

lemma reach_IssueAPIToken:
  assumes "auth_reach (mg_env M) Q s0 s" and "\<And>x. Q (InsertToken x)"
  shows "auth_reach (mg_env M) Q s0 (snd (IssueAPIToken M u name role ttl s))"
  using assms unfolding IssueAPIToken_def Let_def by (auto intro!: reach_stored reach_CreateAPIToken split: option.split)

lemma reach_UserFromAPIToken:
  assumes "auth_reach (mg_env M) Q s0 s" and "\<And>i. Q (TouchToken i)"
  shows "auth_reach (mg_env M) Q s0 (snd (UserFromAPIToken M tok s))"
  using assms unfolding UserFromAPIToken_def Let_def
  by (auto intro!: reach_stored reach_LookupAPIToken split: prod.split)

lemma reach_SetPassword:
  assumes "auth_reach (mg_env M) Q s0 s" and "\<And>i h. Q (PutPassword i h)" and "\<And>h. Q (PutConfig h)" and "Q SaveConfig"
  shows "auth_reach (mg_env M) Q s0 (snd (SetPassword M u p s))"
proof -
  have "auth_reach (mg_env M) Q s0 (t\<lparr>cfg_admin_hash := h\<rparr>)"
    and "auth_reach (mg_env M) Q s0 (t\<lparr>cfg_admin_hash := h, file_admin_hash := h\<rparr>)" if "auth_reach (mg_env M) Q s0 t" for t h
  proof -
    show c: "auth_reach (mg_env M) Q s0 (t\<lparr>cfg_admin_hash := h\<rparr>)" using that assms(3) by (rule reach_change)
    show "auth_reach (mg_env M) Q s0 (t\<lparr>cfg_admin_hash := h, file_admin_hash := h\<rparr>)"
      using auth_reach.change [OF c assms(4)] by simp
  qed
  with assms show ?thesis
    unfolding SetPassword_def Let_def by (auto intro!: reach_stored reach_change split: option.split)
qed

lemma reach_syncDirectoryUser:
  assumes "auth_reach (mg_env M) Q s0 s" and "\<And>x. Q (InsertUser x)" and "\<And>u x. Q (RefreshUser u x)" and "\<And>i. Q (PutLogin i)"
  shows "auth_reach (mg_env M) Q s0 (snd (syncDirectoryUser M source x s))"
  using assms unfolding syncDirectoryUser_def Let_def
  by (auto intro!: reach_stored reach.acc_attempt reach_reads reach_UpsertUser reach_change)

lemma reach_Authenticate:
  assumes "auth_reach (mg_env M) Q s0 s" and "\<And>x. Q (InsertUser x)" and "\<And>u x. Q (RefreshUser u x)" and "\<And>i. Q (PutLogin i)"
  shows "auth_reach (mg_env M) Q s0 (snd (Authenticate M name pw s))"
proof -
  have "auth_reach (mg_env M) Q s0 (snd (directory_login M n pw t))" if "auth_reach (mg_env M) Q s0 t" for n t
    using that assms(2-) unfolding directory_login_def
    by (auto intro!: reach_syncDirectoryUser split: option.split ldap_answer.split)
  with assms show ?thesis
    unfolding Authenticate_def Let_def by (auto intro!: reach.acc_attempt reach_reads reach_change)
qed

lemma reach_CreateLocalUser:
  assumes "auth_reach (mg_env M) Q s0 s" and "\<And>x. Q (InsertUser x)" and "\<And>u x. Q (RefreshUser u x)"
  shows "auth_reach (mg_env M) Q s0 (snd (CreateLocalUser M name pw d e role s))"
  using assms unfolding CreateLocalUser_def Let_def
  by (auto intro!: reach_stored reach.acc_attempt reach_reads reach_UpsertUser split: option.split)

text \<open>The log of failures belongs to the throttle.\<close>

fun spares_failures :: "auth_statement \<Rightarrow> bool" where
  "spares_failures (PutFailure k t) \<longleftrightarrow> False"
| "spares_failures (DropFailures k) \<longleftrightarrow> False"
| "spares_failures (SweepFailures t) \<longleftrightarrow> False"
| "spares_failures _ \<longleftrightarrow> True"

lemma reach_spares_failures:
  assumes "auth_reach E spares_failures s t"
  shows "auth_failures t = auth_failures s"
  using assms
proof (rule auth_reach_invariant)
  show "auth_failures (auth_exec E st s') = auth_failures s" if "auth_failures s' = auth_failures s" "spares_failures st" for s' :: auth_db and st
    using that by (cases st) (auto simp: auth_stmt_defs stmt_defs)
qed simp_all


section \<open>Tokens\<close>

lemma with_owner_tick [simp]: "with_owner (s\<lparr>tick := n\<rparr>) k = with_owner s k"
  by (simp add: with_owner_def)

lemma LookupAPIToken_Inr:
  assumes "LookupAPIToken E h s = (Inr (k, u), s')"
  shows "\<exists>r \<in> set (rows (api_tokens s)). tk_token_hash r = h \<and> \<not> tk_revoked r \<and>
    \<not> token_expired (clock E (Suc (tick s))) r \<and> k = with_owner s r \<and> u \<in> set (rows (users s)) \<and> u_id u = tk_user_id r"
proof -
  obtain k1 s1 where q: "query_row E (\<lambda>s. joined s ErrNotFound (\<lambda>t. tk_token_hash t = h \<and> \<not> tk_revoked t)) s = (Inr k1, s1)"
    and ne: "\<not> token_expired (now E s1) k1" and g: "\<exists>s2. GetUser E (tk_user_id k1) s1 = (Inr u, s2)" and k: "k = k1"
    using assms unfolding LookupAPIToken_def by (auto split: attempt_splits if_splits)
  from query_row_Inr [OF q] obtain r where r: "r \<in> set (rows (api_tokens s))" "tk_token_hash r = h" "\<not> tk_revoked r"
    "k1 = with_owner s r" and s1: "s1 = s\<lparr>tick := Suc (tick s)\<rparr>"
    by (auto simp: joined_def dest!: find_SomeD split: option.splits)
  from g have "u \<in> set (rows (users s))" "u_id u = tk_user_id r"
    using r s1 by (auto dest!: GetUser_Inr simp: with_owner_def)
  with r s1 k ne show ?thesis by (auto simp: with_owner_def token_expired_def now_def)
qed

text \<open>(auth.go, UserFromAPIToken; store.go, LookupAPIToken): a bearer token resolves only through a stored token with
  its hash that is neither revoked nor expired, to the owner of that token, who is enabled; and the caller is an
  administrator only if both the token and its owner are.\<close>

theorem UserFromAPIToken_sound:
  assumes "UserFromAPIToken M tok s = (Inr (u, k), s')"
  shows "\<exists>r \<in> set (rows (api_tokens s)). \<exists>v \<in> set (rows (users s)).
    tk_token_hash r = HashToken M (trim_space tok) \<and> \<not> tk_revoked r \<and>
    \<not> token_expired (clock (mg_env M) (Suc (tick s))) r \<and>
    u_id v = tk_user_id r \<and> \<not> u_disabled v \<and> u = effective_user v r \<and> k = with_owner s r \<and>
    has_prefix (trim_space tok) TokenPrefix \<and> (IsAdmin u \<longleftrightarrow> IsAdmin v \<and> tk_role r = RoleAdmin)"
proof -
  obtain v s1 where "LookupAPIToken (mg_env M) (HashToken M (trim_space tok)) s = (Inr (k, v), s1)"
    and "\<not> u_disabled v" "u = effective_user v k" "has_prefix (trim_space tok) TokenPrefix"
    using assms unfolding UserFromAPIToken_def Let_def by (auto elim!: stored_InrE split: if_splits)
  from LookupAPIToken_Inr [OF this(1)] this(2-4) show ?thesis
    by (force simp: with_owner_def effective_user_def IsAdmin_def)
qed

lemma IssueAPIToken_InrD:
  assumes "IssueAPIToken M u name role0 ttl s = (Inr (plain, k), s1)" and "auth_wf s"
  shows "trim_space name \<noteq> [] \<and> has_prefix plain TokenPrefix \<and> (tk_role k = RoleAdmin \<longrightarrow> IsAdmin u) \<and>
    tk_user_id k = u_id u \<and> tk_expires_at k = (if ttl \<noteq> 0 then Some (now (mg_env M) s + in_seconds ttl) else None) \<and>
    users s1 = users s \<and> auth_wf s1 \<and>
    (\<exists>x \<in> set (rows (api_tokens s1)). tk_token_hash x = HashToken M plain \<and> tk_user_id x = u_id u \<and>
       tk_role x = tk_role k \<and> tk_expires_at x = tk_expires_at k \<and> \<not> tk_revoked x \<and> tk_id x = tk_id k)"
proof -
  let ?role = "if role0 = [] then u_role u else role0"
  obtain p t0 where c: "CreateAPIToken (mg_env M) t0 s = (Inr k, s1)" and plain: "plain = TokenPrefix @ p"
    and t0: "tk_user_id t0 = u_id u" "tk_token_hash t0 = HashToken M plain" "tk_role t0 = ?role"
      "tk_expires_at t0 = (if ttl \<noteq> 0 then Some (now (mg_env M) s + in_seconds ttl) else None)"
    and ok: "trim_space name \<noteq> []" "\<not> (?role = RoleAdmin \<and> \<not> IsAdmin u)"
    using assms(1) unfolding IssueAPIToken_def Let_def
    by (auto elim!: stored_InrE split: if_splits option.splits)
  let ?t = "new_token (mg_env M) s t0"
  obtain i s2 where ins: "insert_token (mg_env M) ?t s = (Inr i, s2)"
    and q: "query_row (mg_env M) (\<lambda>s. joined s (ErrText ''sql: no rows in result set'') (\<lambda>t. tk_id t = i)) s2 = (Inr k, s1)"
    using c unfolding CreateAPIToken_def by (auto split: attempt_splits)
  have i: "i = next_id (api_tokens s)" and s2: "rows (api_tokens s2) = rows (api_tokens s) @ [?t\<lparr>tk_id := i\<rparr>]" "users s2 = users s"
    using ins by (auto simp: insert_token_def stmt_defs split: if_splits)
  have "find (\<lambda>t. tk_id t = i) (rows (api_tokens s2)) = Some (?t\<lparr>tk_id := i\<rparr>)"
    using assms(2) unfolding i s2 auth_wf_def wf_table_def
    by (auto simp: find_append_row split: option.split dest!: find_SomeD)
  then have k: "k = with_owner s2 (?t\<lparr>tk_id := i\<rparr>)" and s1: "s1 = s2\<lparr>tick := Suc (tick s2)\<rparr>"
    using query_row_Inr [OF q] by (auto simp: joined_def with_owner_def)
  have "auth_wf s1" using insert_token_wf [OF assms(2), of "mg_env M" ?t] ins s1 by simp
  moreover have "\<exists>x \<in> set (rows (api_tokens s1)). tk_token_hash x = HashToken M plain \<and> tk_user_id x = u_id u \<and>
       tk_role x = tk_role k \<and> tk_expires_at x = tk_expires_at k \<and> \<not> tk_revoked x \<and> tk_id x = tk_id k"
    using s2 s1 k t0 by (intro bexI [of _ "?t\<lparr>tk_id := i\<rparr>"]) (auto simp: with_owner_def new_token_def)
  ultimately show ?thesis
    using ok plain k t0 s1 s2 by (auto simp: with_owner_def new_token_def nz_def role_defs split: if_splits)
qed

lemma tokens_unique:
  "auth_wf s \<Longrightarrow> x \<in> set (rows (api_tokens s)) \<Longrightarrow> y \<in> set (rows (api_tokens s)) \<Longrightarrow>
     tk_token_hash x = tk_token_hash y \<Longrightarrow> x = y"
  by (auto simp: auth_wf_def distinct_map dest: inj_onD)

lemma find_unique: "x \<in> set xs \<Longrightarrow> p x \<Longrightarrow> (\<And>y. y \<in> set xs \<Longrightarrow> p y \<Longrightarrow> y = x) \<Longrightarrow> find p xs = Some x"
proof (cases "find p xs")
  case None
  then show "x \<in> set xs \<Longrightarrow> p x \<Longrightarrow> find p xs = Some x" by (auto dest: find_NoneD)
next
  case (Some y)
  then show "(\<And>y. y \<in> set xs \<Longrightarrow> p y \<Longrightarrow> y = x) \<Longrightarrow> find p xs = Some x" by (auto dest: find_SomeD)
qed

lemma UserFromAPIToken_live:
  assumes "live_token (HashToken M tok) i role e j s" and "auth_wf s" and "trim_space tok = tok" and "has_prefix tok TokenPrefix"
    and "case e of None \<Rightarrow> True | Some x \<Rightarrow> clock (mg_env M) (Suc (tick s)) \<le> x"
    and "\<not> fault (mg_env M) (tick s)" and "\<not> fault (mg_env M) (Suc (tick s))"
  shows "\<exists>w k s'. UserFromAPIToken M tok s = (Inr (w, k), s') \<and> u_id w = i \<and> tk_id k = j \<and> tk_role k = role \<and>
    (IsAdmin w \<longrightarrow> role = RoleAdmin)"
proof -
  obtain x u where x: "x \<in> set (rows (api_tokens s))" "tk_token_hash x = HashToken M tok" "tk_user_id x = i" "tk_role x = role"
      "tk_expires_at x = e" "\<not> tk_revoked x" "tk_id x = j"
    and u: "u \<in> set (rows (users s))" "u_id u = i"
    and en: "\<forall>u \<in> set (rows (users s)). u_id u = i \<longrightarrow> \<not> u_disabled u"
    using assms(1) by (auto simp: live_token_def)
  have f: "find (\<lambda>t. tk_token_hash t = HashToken M tok \<and> \<not> tk_revoked t) (rows (api_tokens s)) = Some x"
    using x tokens_unique [OF assms(2)] by (intro find_unique) auto
  have g: "find (\<lambda>v. u_id v = i) (rows (users s)) = Some u"
    using u users_unique [OF assms(2)] by (intro find_unique) auto
  have "tok \<noteq> []" using assms(4) by (auto simp: has_prefix_def TokenPrefix_def)
  have "LookupAPIToken (mg_env M) (HashToken M tok) s = (Inr (with_owner s x, u),
      snd (touch_token (mg_env M) j (s\<lparr>tick := Suc (Suc (tick s))\<rparr>)))"
    using f g x assms(5-7)
    by (auto simp: LookupAPIToken_def joined_def stmt_defs GetUser_def select_one_def token_expired_def with_owner_def now_def
        split: option.splits)
  then have "UserFromAPIToken M tok s = (Inr (effective_user u (with_owner s x), with_owner s x),
      snd (touch_token (mg_env M) j (s\<lparr>tick := Suc (Suc (tick s))\<rparr>)))"
    using assms(3,4) \<open>tok \<noteq> []\<close> u en by (auto simp: UserFromAPIToken_def)
  with x u show ?thesis by (auto simp: effective_user_def with_owner_def IsAdmin_def split: if_splits)
qed

text \<open>C16 (auth.go, IssueAPIToken, UserFromAPIToken): a token that was issued to an enabled user resolves to that user until
  its expiry, whatever statements are executed in between, as long as none revokes it or disables or deletes the user;
  and it never makes an administrator of someone who was not one when it was issued, so a caller that is limited by its
  own token cannot mint itself a stronger one.\<close>

theorem token_resolves:
  assumes "auth_wf s" and "IssueAPIToken M u name role ttl s = (Inr (plain, k), s1)" and "trim_space plain = plain"
    and "\<forall>v \<in> set (rows (users s)). u_id v = u_id u \<longrightarrow> \<not> u_disabled v"
    and "auth_reach (mg_env M) (leaves_token (tk_id k) (u_id u)) s1 s2"
    and "case tk_expires_at k of None \<Rightarrow> True | Some e \<Rightarrow> clock (mg_env M) (Suc (tick s2)) \<le> e"
    and "\<not> fault (mg_env M) (tick s2)" and "\<not> fault (mg_env M) (Suc (tick s2))"
  shows "\<exists>w k' s3. UserFromAPIToken M plain s2 = (Inr (w, k'), s3) \<and> u_id w = u_id u \<and> tk_id k' = tk_id k \<and>
    (IsAdmin w \<longrightarrow> IsAdmin u)"
proof -
  from IssueAPIToken_InrD [OF assms(2,1)] obtain x where d: "has_prefix plain TokenPrefix"
    "tk_role k = RoleAdmin \<longrightarrow> IsAdmin u" "users s1 = users s" "auth_wf s1"
    and x: "x \<in> set (rows (api_tokens s1))" "tk_token_hash x = HashToken M plain" "tk_user_id x = u_id u"
       "tk_role x = tk_role k" "tk_expires_at x = tk_expires_at k" "\<not> tk_revoked x" "tk_id x = tk_id k" by blast
  have "\<exists>v \<in> set (rows (users s1)). u_id v = u_id u"
    using d(4) x(1,3) unfolding auth_wf_def by (metis (no_types, lifting) image_iff subset_iff)
  with d x assms(4) have "live_token (HashToken M plain) (u_id u) (tk_role k) (tk_expires_at k) (tk_id k) s1"
    unfolding live_token_def by (intro conjI bexI [of _ x]) auto
  from reach_live_token [OF assms(5) this d(4)] auth_reach_wf [OF assms(5) d(4)]
  have "live_token (HashToken M plain) (u_id u) (tk_role k) (tk_expires_at k) (tk_id k) s2" "auth_wf s2" by auto
  from UserFromAPIToken_live [OF this assms(3) d(1) assms(6-8)] d(2) show ?thesis by blast
qed


section \<open>Sign-in\<close>

lemma refresh_user_Inr:
  "refresh_user E u ex s = (Inr x, s') \<Longrightarrow>
     s' = set_users (\<lambda>y. u_id y = u_id ex) (refreshed_user u ex) (s\<lparr>tick := Suc (tick s)\<rparr>)"
  by (auto simp: refresh_user_def stmt_defs split: if_splits)

text \<open>The account that a name finds is enabled.\<close>

definition first_enabled :: "string \<Rightarrow> auth_db \<Rightarrow> bool" where
  "first_enabled name s \<longleftrightarrow>
     (\<forall>x. find (\<lambda>u. to_lower (u_username u) = to_lower name) (rows (users s)) = Some x \<longrightarrow> \<not> u_disabled x)"

lemma first_enabled_tick [simp]: "first_enabled name (s\<lparr>tick := n\<rparr>) = first_enabled name s"
  by (simp add: first_enabled_def)

lemma upsertUserOnce_Inr:
  assumes "upsertUserOnce E u s = (Inr v, s')" and "auth_wf s"
  shows "v \<in> set (rows (users s')) \<and> to_lower (u_username v) = to_lower (u_username u) \<and>
    (trim_space (u_source u) \<noteq> [] \<longrightarrow> u_source v = u_source u) \<and>
    (trim_space (u_role u) \<noteq> [] \<longrightarrow> u_role v = u_role u) \<and>
    (first_enabled (u_username u) s \<longrightarrow> u_disabled v \<longrightarrow> u_disabled u)"
proof (cases "fst (GetUserByName E (u_username u) s)")
  case (Inr ex)
  then obtain s1 where g: "GetUserByName E (u_username u) s = (Inr ex, s1)" by (metis prod.collapse)
  with assms(1) obtain s2 x where r: "refresh_user E u ex s1 = (Inr x, s2)" and v: "GetUser E (u_id ex) s2 = (Inr v, s')"
    by (auto simp: upsertUserOnce_def split: attempt_splits)
  from GetUserByName_Inr [OF g] have ex: "ex \<in> set (rows (users s))" "to_lower (u_username ex) = to_lower (u_username u)"
    "s1 = s\<lparr>tick := Suc (tick s)\<rparr>" by auto
  from GetUser_Inr [OF v] refresh_user_Inr [OF r] ex(3) obtain y where
    y: "y \<in> set (rows (users s))" "v = (if u_id y = u_id ex then refreshed_user u ex y else y)" "u_id v = u_id ex"
    and s': "v \<in> set (rows (users s'))"
    by (auto simp: set_users_def set_update_where)
  then have "u_id y = u_id ex" by (auto simp: refreshed_user_def split: if_splits)
  with y ex users_unique [OF assms(2)] have "v = refreshed_user u ex ex" by metis
  moreover have "find (\<lambda>v. to_lower (u_username v) = to_lower (u_username u)) (rows (users s)) = Some ex"
    using g by (auto simp: GetUserByName_def stmt_defs select_one_def split: if_splits option.splits)
  ultimately show ?thesis using ex s' by (auto simp: refreshed_user_def nz_def first_enabled_def)
next
  case (Inl e)
  then obtain s1 where g: "GetUserByName E (u_username u) s = (Inl e, s1)" by (metis prod.collapse)
  with assms(1) have e: "e = ErrNotFound" by (auto simp: upsertUserOnce_def split: if_splits)
  with g have none: "\<forall>x \<in> set (rows (users s)). to_lower (u_username x) \<noteq> to_lower (u_username u)"
    and s1: "s1 = s\<lparr>tick := Suc (tick s)\<rparr>"
    by (auto simp: GetUserByName_def stmt_defs select_one_def split: if_splits option.splits dest: find_NoneD)
  let ?x = "new_user E s1 u"
  from assms(1) g e obtain i s2 where r: "insert_user E ?x s1 = (Inr i, s2)" and v: "GetUser E i s2 = (Inr v, s')"
    by (auto simp: upsertUserOnce_def split: attempt_splits)
  from r s1 have i: "i = next_id (users s)" and rows2: "rows (users s2) = rows (users s) @ [?x\<lparr>u_id := i\<rparr>]"
    by (auto simp: insert_user_def stmt_defs split: if_splits)
  from GetUser_Inr [OF v] rows2 have s': "v \<in> set (rows (users s'))" and "v \<in> set (rows (users s)) \<or> v = ?x\<lparr>u_id := i\<rparr>" "u_id v = i"
    by auto
  with i assms(2) have "v = ?x\<lparr>u_id := i\<rparr>" by (auto simp: auth_wf_def wf_table_def)
  with s' none show ?thesis by (auto simp: new_user_def nz_def)
qed

definition refreshes :: "User \<Rightarrow> auth_statement \<Rightarrow> bool" where
  "refreshes u st \<longleftrightarrow> (\<exists>E t. st = InsertUser (new_user E t u)) \<or> (\<exists>x. st = RefreshUser u x)"

lemma refreshes_first_enabled:
  assumes "auth_reach E (refreshes u) s t" and "\<not> u_disabled u" and "first_enabled name s"
  shows "first_enabled name t"
  using assms(1,3)
proof (rule auth_reach_invariant)
  fix s' :: auth_db and st
  assume P: "first_enabled name s'"
  then show "first_enabled name (s'\<lparr>tick := Suc (tick s')\<rparr>)" by simp
  assume "refreshes u st"
  then show "first_enabled name (auth_exec E st s')"
    using P assms(2)
    by (cases "fault E (tick s')")
      (auto simp: refreshes_def auth_stmt_defs stmt_defs first_enabled_def new_user_def refreshed_user_def find_append_row
        find_update_where split: option.splits if_splits)
qed

lemma UpsertUser_Inr:
  assumes "UpsertUser E u s = (Inr v, s')" and "auth_wf s" and "\<not> u_disabled u"
  shows "v \<in> set (rows (users s')) \<and> to_lower (u_username v) = to_lower (u_username u) \<and>
    (trim_space (u_source u) \<noteq> [] \<longrightarrow> u_source v = u_source u) \<and>
    (trim_space (u_role u) \<noteq> [] \<longrightarrow> u_role v = u_role u) \<and>
    (first_enabled (u_username u) s \<longrightarrow> \<not> u_disabled v)"
proof -
  obtain s1 where o: "upsertUserOnce E u s1 = (Inr v, s')" and wf: "auth_wf s1"
    and en: "first_enabled (u_username u) s \<Longrightarrow> first_enabled (u_username u) s1"
  proof (cases "fst (upsertUserOnce E u s)")
    case (Inr w)
    with assms(1,2) that show thesis by (auto simp: UpsertUser_def split: attempt_splits)
  next
    case (Inl e)
    then obtain s1 where s1: "upsertUserOnce E u s = (Inl e, s1)" by (metis prod.collapse)
    with assms(1) obtain w s2 where g: "GetUserByName E (u_username u) s1 = (Inr w, s2)" and "upsertUserOnce E u s2 = (Inr v, s')"
      by (auto simp: UpsertUser_def split: attempt_splits)
    moreover have r: "auth_reach E (refreshes u) s s1"
      using reach_upsertUserOnce [of E "refreshes u" s s u] s1 by (auto simp: refreshes_def intro: auth_reach.start)
    moreover have s2: "s2 = s1\<lparr>tick := Suc (tick s1)\<rparr>" using GetUserByName_Inr [OF g] by simp
    ultimately show thesis
      using that auth_reach_wf [OF r assms(2)] refreshes_first_enabled [OF r assms(3)] by simp
  qed
  from upsertUserOnce_Inr [OF o wf] en assms(3) show ?thesis by auto
qed

lemma trim_words [simp]:
  "trim_space RoleAdmin = RoleAdmin" "trim_space RoleUser = RoleUser" "trim_space SourceLocal = SourceLocal"
  "trim_space SourceLDAP = SourceLDAP" "trim_space SourceOIDC = SourceOIDC"
  by code_simp+

lemma words_distinct [simp]:
  "RoleAdmin \<noteq> RoleUser" "RoleUser \<noteq> RoleAdmin" "RoleAdmin \<noteq> []" "RoleUser \<noteq> []" "SourceLDAP \<noteq> SourceLocal"
  "SourceOIDC \<noteq> SourceLocal" "SourceLocal \<noteq> []" "SourceLDAP \<noteq> []" "SourceOIDC \<noteq> []"
  by (simp_all add: role_defs source_defs)

lemma syncDirectoryUser_Inr:
  assumes "syncDirectoryUser M source x s = (Inr u, s')" and "auth_wf s" and "trim_space source \<noteq> []"
  shows "to_lower (u_username u) = to_lower (id_username x) \<and> u_source u = source \<and>
    (u_role u = RoleAdmin \<longrightarrow> id_is_admin x \<or> (\<exists>v \<in> set (rows (users s)). to_lower (u_username v) = to_lower (id_username x) \<and> IsAdmin v)) \<and>
    (u_disabled u \<longrightarrow> fault (mg_env M) (tick s))"
proof -
  let ?E = "mg_env M" and ?role = "if id_is_admin x then RoleAdmin else RoleUser"
  obtain role s1 s2 where up: "UpsertUser ?E (blank_user\<lparr>u_username := id_username x, u_source := source,
                    u_display_name := id_display_name x, u_email := id_email x, u_role := role\<rparr>) s1 = (Inr u, s2)"
    and s1: "s1 = s\<lparr>tick := Suc (tick s)\<rparr>"
    and role: "role = ?role \<or> role = RoleAdmin \<and> (\<exists>v \<in> set (rows (users s)). to_lower (u_username v) = to_lower (id_username x) \<and> IsAdmin v)"
    and en: "\<not> fault ?E (tick s) \<Longrightarrow> first_enabled (id_username x) s"
  proof (cases "fst (GetUserByName ?E (id_username x) s)")
    case (Inl e)
    then obtain s1 where g: "GetUserByName ?E (id_username x) s = (Inl e, s1)" by (metis prod.collapse)
    then have "s1 = s\<lparr>tick := Suc (tick s)\<rparr>" unfolding GetUserByName_def by (rule query_row_Inl)
    moreover have "\<not> fault ?E (tick s) \<Longrightarrow> first_enabled (id_username x) s"
      using g by (auto simp: GetUserByName_def stmt_defs select_one_def first_enabled_def split: option.splits)
    ultimately show thesis
      using g assms(1) by (auto simp: syncDirectoryUser_def Let_def elim!: stored_InrE intro: that)
  next
    case (Inr ex)
    then obtain s1 where g: "GetUserByName ?E (id_username x) s = (Inr ex, s1)" by (metis prod.collapse)
    let ?r = "if u_role ex = RoleAdmin then RoleAdmin else ?role"
    from GetUserByName_Inr [OF g] have ex: "ex \<in> set (rows (users s))" "to_lower (u_username ex) = to_lower (id_username x)"
      and s1: "s1 = s\<lparr>tick := Suc (tick s)\<rparr>" by auto
    from g assms(1) obtain s2 where "UpsertUser ?E (blank_user\<lparr>u_username := id_username x, u_source := source,
                    u_display_name := id_display_name x, u_email := id_email x, u_role := ?r\<rparr>) s1 = (Inr u, s2)"
      by (auto simp: syncDirectoryUser_def Let_def elim!: stored_InrE split: if_splits)
    moreover have "?r = ?role \<or> ?r = RoleAdmin \<and> (\<exists>v \<in> set (rows (users s)).
        to_lower (u_username v) = to_lower (id_username x) \<and> IsAdmin v)"
    proof (cases "u_role ex = RoleAdmin")
      case True
      then show ?thesis using ex by (intro disjI2 conjI bexI [of _ ex]) (simp_all add: IsAdmin_def)
    qed simp
    moreover have "\<not> u_disabled ex" using g assms(1) by (auto simp: syncDirectoryUser_def Let_def split: if_splits)
    then have "first_enabled (id_username x) s"
      using g by (auto simp: GetUserByName_def stmt_defs select_one_def first_enabled_def split: option.splits if_splits)
    ultimately show thesis using s1 that by blast
  qed
  have wf: "auth_wf s1" and nd: "first_enabled (id_username x) s1 = first_enabled (id_username x) s"
    using assms(2) s1 by simp_all
  have "trim_space role \<noteq> []" using role by (auto split: if_splits)
  with UpsertUser_Inr [OF up wf] assms(3) nd have
    u: "to_lower (u_username u) = to_lower (id_username x)" "u_source u = source" "u_role u = role"
       "first_enabled (id_username x) s \<Longrightarrow> \<not> u_disabled u"
    by (auto simp: blank_user_def)
  have "u_role u = RoleAdmin \<longrightarrow> id_is_admin x \<or>
      (\<exists>v \<in> set (rows (users s)). to_lower (u_username v) = to_lower (id_username x) \<and> IsAdmin v)"
    using role u(3) by (cases "id_is_admin x") auto
  then show ?thesis using u en by blast
qed

lemma directory_login_Inr:
  assumes "directory_login M name pw s = (Inr u, s')" and "auth_wf s"
  shows "\<exists>ask x. mg_ldap M = Some ask \<and> ask name pw (tick s) = LdapIdentity x \<and>
    to_lower (u_username u) = to_lower (id_username x) \<and> u_source u = SourceLDAP \<and>
    (u_role u = RoleAdmin \<longrightarrow> id_is_admin x \<or>
       (\<exists>v \<in> set (rows (users s)). to_lower (u_username v) = to_lower (id_username x) \<and> IsAdmin v)) \<and>
    (u_disabled u \<longrightarrow> fault (mg_env M) (tick s))"
proof -
  from assms(1) obtain ask x where ask: "mg_ldap M = Some ask" "ask name pw (tick s) = LdapIdentity x"
    and sync: "syncDirectoryUser M SourceLDAP x s = (Inr u, s')"
    by (auto simp: directory_login_def split: option.splits ldap_answer.splits)
  from syncDirectoryUser_Inr [OF sync assms(2)] ask show ?thesis by auto
qed

text \<open>The count of statements at which the directory is asked, and its name is then looked up: the local lookup comes before
  it when local accounts are enabled.\<close>

definition asked_at :: "manager \<Rightarrow> auth_db \<Rightarrow> nat" where
  "asked_at M s = (if LocalEnabled M then Suc (tick s) else tick s)"

lemma Authenticate_cases:
  assumes "Authenticate M name pw s = (Inr u, s')" and "auth_wf s" and ne: "trim_space name \<noteq> []" "pw \<noteq> []"
  obtains (local) "LocalEnabled M" "u \<in> set (rows (users s))" "to_lower (u_username u) = to_lower (trim_space name)"
      "u_source u = SourceLocal" "\<not> u_disabled u" "u_pass_hash u \<noteq> []" "mg_compare M (u_pass_hash u) pw"
    | (directory) s1 where "directory_login M (trim_space name) pw s1 = (Inr u, s')" "users s1 = users s" "auth_wf s1"
      "tick s1 = asked_at M s"
      "\<And>v. LocalEnabled M \<Longrightarrow> \<not> fault (mg_env M) (tick s) \<Longrightarrow>
         find (\<lambda>v. to_lower (u_username v) = to_lower (trim_space name)) (rows (users s)) = Some v \<Longrightarrow>
         u_source v \<noteq> SourceLocal \<or> u_pass_hash v = []"
proof -
  let ?n = "trim_space name" and ?E = "mg_env M"
  show thesis
  proof (cases "LocalEnabled M")
    case False
    with assms ne directory show thesis by (auto simp: Authenticate_def Let_def asked_at_def)
  next
    case True
    show thesis
    proof (cases "fst (GetUserByName ?E ?n s)")
      case (Inl e)
      then have g: "GetUserByName ?E ?n s = (Inl e, s\<lparr>tick := Suc (tick s)\<rparr>)"
        by (metis prod.collapse query_row_state GetUserByName_def)
      with True ne assms have "directory_login M ?n pw (s\<lparr>tick := Suc (tick s)\<rparr>) = (Inr u, s')"
        by (simp add: Authenticate_def Let_def)
      moreover have "find (\<lambda>v. to_lower (u_username v) = to_lower ?n) (rows (users s)) = None" if "\<not> fault ?E (tick s)"
        using g that by (auto simp: GetUserByName_def stmt_defs select_one_def split: option.splits)
      ultimately show thesis using assms(2) True by (intro directory [of "s\<lparr>tick := Suc (tick s)\<rparr>"]) (auto simp: asked_at_def)
    next
      case (Inr v)
      then have g: "GetUserByName ?E ?n s = (Inr v, s\<lparr>tick := Suc (tick s)\<rparr>)"
        by (metis prod.collapse query_row_state GetUserByName_def)
      from GetUserByName_Inr [OF g] have v: "v \<in> set (rows (users s))" "to_lower (u_username v) = to_lower ?n" by auto
      have f: "find (\<lambda>v. to_lower (u_username v) = to_lower ?n) (rows (users s)) = Some v"
        using g by (auto simp: GetUserByName_def stmt_defs select_one_def split: if_splits option.splits)
      show thesis
      proof (cases "u_source v = SourceLocal \<and> u_pass_hash v \<noteq> []")
        case True
        with g ne assms(1) \<open>LocalEnabled M\<close> have "u = v" "\<not> u_disabled v" "mg_compare M (u_pass_hash v) pw"
          by (auto simp: Authenticate_def Let_def split: if_splits)
        with True v \<open>LocalEnabled M\<close> show thesis by (intro local) auto
      next
        case False
        with g ne assms(1) \<open>LocalEnabled M\<close> have "directory_login M ?n pw (s\<lparr>tick := Suc (tick s)\<rparr>) = (Inr u, s')"
          by (auto simp: Authenticate_def Let_def split: if_splits)
        with f False assms(2) \<open>LocalEnabled M\<close> show thesis
          by (intro directory [of "s\<lparr>tick := Suc (tick s)\<rparr>"]) (auto simp: asked_at_def)
      qed
    qed
  qed
qed

text \<open>C10 (auth.go, Authenticate): who signs in has either, where local accounts are enabled, given the password of an
  enabled local account of that name, or been accepted by the directory under that name and password. Where local accounts
  are enabled and the name belongs to a local account with a password, the directory is not asked, unless the lookup of
  that account fails. An account of the directory is an administrator only if the directory says so or it was one
  already, and it is enabled, unless the lookup of the name that the directory returned, the next statement after its
  answer, fails.\<close>

theorem Authenticate_sound:
  assumes "Authenticate M name pw s = (Inr u, s')" and "auth_wf s"
  shows "trim_space name \<noteq> [] \<and> pw \<noteq> [] \<and>
    (LocalEnabled M \<and> u \<in> set (rows (users s)) \<and> to_lower (u_username u) = to_lower (trim_space name) \<and>
       u_source u = SourceLocal \<and> \<not> u_disabled u \<and> u_pass_hash u \<noteq> [] \<and> mg_compare M (u_pass_hash u) pw \<or>
     (\<exists>ask x. mg_ldap M = Some ask \<and> ask (trim_space name) pw (asked_at M s) = LdapIdentity x \<and>
       to_lower (u_username u) = to_lower (id_username x) \<and> u_source u = SourceLDAP \<and>
       (u_role u = RoleAdmin \<longrightarrow> id_is_admin x \<or>
          (\<exists>v \<in> set (rows (users s)). to_lower (u_username v) = to_lower (id_username x) \<and> IsAdmin v)) \<and>
       (u_disabled u \<longrightarrow> fault (mg_env M) (asked_at M s)) \<and>
       (\<forall>v. LocalEnabled M \<and> \<not> fault (mg_env M) (tick s) \<and>
          find (\<lambda>v. to_lower (u_username v) = to_lower (trim_space name)) (rows (users s)) = Some v \<longrightarrow>
          u_source v \<noteq> SourceLocal \<or> u_pass_hash v = [])))"
proof -
  let ?n = "trim_space name" and ?E = "mg_env M"
  have ne: "?n \<noteq> []" "pw \<noteq> []" using assms(1) by (auto simp: Authenticate_def split: if_splits)
  show ?thesis
    using assms ne
  proof (cases rule: Authenticate_cases)
    case local
    with ne show ?thesis by simp
  next
    case (directory s1)
    from directory_login_Inr [OF directory(1,3)] obtain ask x where
      "mg_ldap M = Some ask" "ask ?n pw (tick s1) = LdapIdentity x" "to_lower (u_username u) = to_lower (id_username x)"
      "u_source u = SourceLDAP" "u_disabled u \<longrightarrow> fault ?E (tick s1)"
      "u_role u = RoleAdmin \<longrightarrow> id_is_admin x \<or>
         (\<exists>v \<in> set (rows (users s)). to_lower (u_username v) = to_lower (id_username x) \<and> IsAdmin v)"
      unfolding directory(2) by blast
    with ne directory(4,5) show ?thesis
      by (intro conjI disjI2 exI [of _ ask] exI [of _ x]) simp_all
  qed
qed

lemma GetUserByName_Inl: "GetUserByName E n s = (Inl e, s') \<Longrightarrow> s' = s\<lparr>tick := Suc (tick s)\<rparr>"
  unfolding GetUserByName_def by (rule query_row_Inl)

lemma directory_login_Inl:
  assumes "directory_login M name pw s = (Inl e, s')"
  shows "(users s' = users s \<and> (e = InvalidCredentials \<or>
      e = AccountDisabled \<and> (\<exists>v \<in> set (rows (users s)). u_disabled v) \<or>
      e = DirectoryDown \<and> (\<exists>ask n. mg_ldap M = Some ask \<and> ask name pw n = LdapError))) \<or>
    (\<exists>d ask n x. e = AuthStore d \<and> mg_ldap M = Some ask \<and> ask name pw n = LdapIdentity x)"
proof (cases "mg_ldap M")
  case None
  then show ?thesis using assms by (simp add: directory_login_def)
next
  case (Some ask)
  show ?thesis
  proof (cases "ask name pw (tick s)")
    case (LdapIdentity x)
    with Some assms have sync: "syncDirectoryUser M SourceLDAP x s = (Inl e, s')" by (simp add: directory_login_def)
    have "(\<exists>d. e = AuthStore d) \<or> users s' = users s \<and> e = AccountDisabled \<and> (\<exists>v \<in> set (rows (users s)). u_disabled v)"
      using sync unfolding syncDirectoryUser_def Let_def stored_def
      by (auto split: attempt_splits if_splits dest!: GetUserByName_Inr)
    with Some LdapIdentity show ?thesis by blast
  qed (use Some assms in \<open>auto simp: directory_login_def\<close>)
qed

text \<open>Every answer that a refused sign-in can get, and what it leaves alone.\<close>

lemma refusal_answers:
  assumes "Authenticate M name pw s = (Inl e, s')"
  shows "((users s' = users s \<and> (e = InvalidCredentials \<or>
      e = AccountDisabled \<and> (\<exists>v \<in> set (rows (users s)). u_disabled v) \<or>
      e = DirectoryDown \<and> (\<exists>ask n. mg_ldap M = Some ask \<and> ask (trim_space name) pw n = LdapError))) \<or>
    (\<exists>d ask n x. e = AuthStore d \<and> mg_ldap M = Some ask \<and> ask (trim_space name) pw n = LdapIdentity x)) \<and>
    sessions s' = sessions s \<and> api_tokens s' = api_tokens s"
proof -
  let ?Q = "\<lambda>st. (\<exists>x. st = InsertUser x) \<or> (\<exists>u x. st = RefreshUser u x) \<or> (\<exists>i. st = PutLogin i)"
  have "auth_reach (mg_env M) ?Q s (snd (Authenticate M name pw s))"
    by (intro reach_Authenticate auth_reach.start) auto
  then have "sessions s' = sessions s \<and> api_tokens s' = api_tokens s"
    unfolding assms snd_conv by (rule auth_reach_invariant) (auto simp: auth_stmt_defs stmt_defs)
  moreover consider (wrong) "users s' = users s" "e = InvalidCredentials"
    | (disabled) v where "users s' = users s" "e = AccountDisabled" "v \<in> set (rows (users s))" "u_disabled v"
    | (directory) s1 where "directory_login M (trim_space name) pw s1 = (Inl e, s')" "users s1 = users s"
    using assms unfolding Authenticate_def Let_def
    by (auto split: attempt_splits if_splits dest!: GetUserByName_Inr dest: GetUserByName_Inl)
  then have "(users s' = users s \<and> (e = InvalidCredentials \<or>
      e = AccountDisabled \<and> (\<exists>v \<in> set (rows (users s)). u_disabled v) \<or>
      e = DirectoryDown \<and> (\<exists>ask n. mg_ldap M = Some ask \<and> ask (trim_space name) pw n = LdapError))) \<or>
    (\<exists>d ask n x. e = AuthStore d \<and> mg_ldap M = Some ask \<and> ask (trim_space name) pw n = LdapIdentity x)"
  proof cases
    case (directory s1)
    from directory_login_Inl [OF directory(1)] directory(2) show ?thesis by simp
  qed blast+
  ultimately show ?thesis by simp
qed

text \<open>C11 (auth.go, Authenticate): when no account is disabled and there is no directory or it rejects the credentials, a
  refused sign-in always gets the one answer of wrong credentials, whether the account exists, has a password, is a local
  one, whether the password was wrong or missing and whether the database failed; and it leaves every table as it was.
  So in these cases the answer tells nothing about the accounts. (A disabled account and a directory that cannot be
  reached do get answers of their own, see \<open>refusal_answers\<close>.)\<close>

theorem Authenticate_refusals:
  assumes "Authenticate M name pw s = (Inl e, s')" and "\<forall>v \<in> set (rows (users s)). \<not> u_disabled v"
    and "\<forall>ask. mg_ldap M = Some ask \<longrightarrow> ask (trim_space name) pw (asked_at M s) = LdapInvalid"
  shows "e = InvalidCredentials \<and> s' = s\<lparr>tick := tick s'\<rparr>"
proof -
  have rejected: "directory_login M (trim_space name) pw s1 = (Inl InvalidCredentials, s1)" if "tick s1 = asked_at M s" for s1
    using assms(3) that by (auto simp: directory_login_def split: option.split)
  show ?thesis
  proof (cases "GetUserByName (mg_env M) (trim_space name) s")
    case (Pair r s1)
    then have "s1 = s\<lparr>tick := Suc (tick s)\<rparr>"
      by (cases r) (auto dest: GetUserByName_Inl GetUserByName_Inr)
    with Pair show ?thesis
      using assms(1,2) rejected [of s] rejected [of s1]
      by (cases r) (auto simp: Authenticate_def Let_def asked_at_def dest: GetUserByName_Inr split: if_splits)
  qed
qed


section \<open>Passwords\<close>

lemma GeneratePassword_valid:
  assumes "\<And>k b. rand k = Some b \<Longrightarrow> length b = k" and "GeneratePassword n rand = Some p" and "n \<le> 200"
  shows "ValidatePassword p \<and> 12 \<le> length p \<and> set p \<subseteq> set password_alphabet"
proof -
  obtain b where b: "rand (nat (if n < 12 then 12 else n)) = Some b"
    and p: "p = map (\<lambda>v. password_alphabet ! (of_char v mod length password_alphabet)) b"
    using assms(2) by (auto simp: GeneratePassword_def Let_def split: option.splits)
  have "length p = nat (if n < 12 then 12 else n)" using assms(1) [OF b] p by simp
  moreover have "length password_alphabet > 0" by (simp add: password_alphabet_def)
  then have "set p \<subseteq> set password_alphabet" unfolding p by auto
  ultimately show ?thesis using assms(3) by (auto simp: ValidatePassword_def)
qed

text \<open>bcrypt refuses more than 72 bytes, so the upper bound of the policy is never the one that counts.\<close>

lemma long_password_refused:
  assumes "\<And>p n. 72 < length p \<Longrightarrow> mg_bcrypt M p n = None" and "72 < length p" and "length p \<le> 200" and "u_source u = SourceLocal"
  shows "ValidatePassword p \<and> SetPassword M u p s = (Inl AuthRefused, s)"
  using assms by (simp add: ValidatePassword_def SetPassword_def HashPassword_def)

lemma SetUserPassword_Inr:
  "SetUserPassword E i h s = (Inr x, s') \<Longrightarrow>
     s' = set_users (\<lambda>u. u_id u = i) (\<lambda>u. u\<lparr>u_pass_hash := h\<rparr>) (s\<lparr>tick := Suc (tick s)\<rparr>)"
  by (auto simp: SetUserPassword_def stmt_defs split: if_splits)

lemma SetPassword_admin_Inr:
  assumes "SetPassword M u p s = (Inr (), s1)" and "to_lower (u_username u) = to_lower (mg_admin_name M)" and "mg_path M \<noteq> []"
  obtains h where "HashPassword M p (tick s) = Some h" "cfg_admin_hash s1 = h" "file_admin_hash s1 = h"
    "users s1 = update_rows (\<lambda>v. u_id v = u_id u) (\<lambda>v. v\<lparr>u_pass_hash := h\<rparr>) (users s)"
  using assms
  by (auto simp: SetPassword_def Let_def set_users_def elim!: stored_InrE dest!: SetUserPassword_Inr
      split: if_splits option.splits)

lemma EnsureLocalAdmin_hashes:
  assumes "\<exists>v \<in> set (rows (users s)). to_lower (u_username v) = to_lower (mg_admin_name M)"
    and "\<forall>v \<in> set (rows (users s)). u_id v = i \<longrightarrow> u_pass_hash v = cfg_admin_hash s"
  shows "\<forall>v \<in> set (rows (users (snd (EnsureLocalAdmin M s)))). u_id v = i \<longrightarrow> u_pass_hash v = cfg_admin_hash s"
proof (cases "fst (GetUserByName (mg_env M) (mg_admin_name M) s)")
  case (Inl e)
  then have g: "GetUserByName (mg_env M) (mg_admin_name M) s = (Inl e, s\<lparr>tick := Suc (tick s)\<rparr>)"
    by (metis prod.collapse query_row_state GetUserByName_def)
  with assms(1) have "e \<noteq> ErrNotFound"
    by (auto simp: GetUserByName_def stmt_defs select_one_def split: if_splits option.splits dest: find_NoneD)
  with g assms(2) show ?thesis by (simp add: EnsureLocalAdmin_def Let_def)
next
  case (Inr u)
  then have g: "GetUserByName (mg_env M) (mg_admin_name M) s = (Inr u, s\<lparr>tick := Suc (tick s)\<rparr>)"
    by (metis prod.collapse query_row_state GetUserByName_def)
  with assms(2) show ?thesis
    by (auto simp: EnsureLocalAdmin_def Let_def stored_def attempt_def SetUserPassword_def SetUserRole_def set_users_def
        stmt_defs set_update_where split: sum.splits if_splits)
qed

text \<open>(auth.go, SetPassword, EnsureLocalAdmin): a change of the password of the break-glass administrator that reported
  success survives the next start, at which the server mirrors the configuration file into the database, whatever
  statement fails then.\<close>

theorem password_survives_restart:
  assumes "SetPassword M u p s = (Inr (), s1)" and "u \<in> set (rows (users s))"
    and "to_lower (u_username u) = to_lower (mg_admin_name M)" and "mg_path M \<noteq> []"
    and "EnsureLocalAdmin M (s1\<lparr>cfg_admin_hash := file_admin_hash s1\<rparr>) = (r, s2)"
  shows "\<exists>h. HashPassword M p (tick s) = Some h \<and> (\<forall>v \<in> set (rows (users s2)). u_id v = u_id u \<longrightarrow> u_pass_hash v = h)"
proof -
  obtain h where h: "HashPassword M p (tick s) = Some h" "cfg_admin_hash s1 = h" "file_admin_hash s1 = h"
    and us: "users s1 = update_rows (\<lambda>v. u_id v = u_id u) (\<lambda>v. v\<lparr>u_pass_hash := h\<rparr>) (users s)"
    using SetPassword_admin_Inr [OF assms(1,3,4)] .
  let ?s = "s1\<lparr>cfg_admin_hash := file_admin_hash s1\<rparr>"
  have "\<exists>v \<in> set (rows (users ?s)). to_lower (u_username v) = to_lower (mg_admin_name M)"
    using us assms(2,3) by (auto simp: bex_update_where)
  moreover have "\<forall>v \<in> set (rows (users ?s)). u_id v = u_id u \<longrightarrow> u_pass_hash v = cfg_admin_hash ?s"
    using us h by (auto simp: ball_update_where)
  ultimately show ?thesis using EnsureLocalAdmin_hashes [of ?s M "u_id u"] assms(5) h by simp
qed


section \<open>Examples\<close>

text \<open>A server with a break-glass administrator and a user, whose bcrypt and SHA-256 are replaced by simple functions.\<close>

definition demo_auth_env :: env where
  "demo_auth_env = \<lparr>fault = (\<lambda>_. False), clock = (\<lambda>n. 1000 + int n), random_token = (\<lambda>_. Some ''t0k'')\<rparr>"

definition demo_manager :: manager where
  "demo_manager = \<lparr>mg_env = demo_auth_env, mg_mode = AuthModeBoth, mg_admin_name = ''admin'', mg_path = ''/etc/goca.yaml'',
     mg_session_ttl = 28800, mg_ldap = None, mg_compare = (\<lambda>h p. h = ''H:'' @ p),
     mg_bcrypt = (\<lambda>p _. if 72 < length p then None else Some (''H:'' @ p)), mg_sha256 = (\<lambda>t. t),
     mg_prefix = (\<lambda>_. Some ''ab''), mg_saves = (\<lambda>_. True)\<rparr>"

definition demo_admin :: User where
  "demo_admin = blank_user\<lparr>u_id := 1, u_username := ''admin'', u_source := SourceLocal, u_role := RoleAdmin,
     u_pass_hash := ''H:hunter22''\<rparr>"

definition demo_user :: User where
  "demo_user = blank_user\<lparr>u_id := 2, u_username := ''alice'', u_source := SourceLocal, u_role := RoleUser,
     u_pass_hash := ''H:password''\<rparr>"

definition demo_auth_db :: auth_db where
  "demo_auth_db = empty_auth_db\<lparr>users := \<lparr>rows = [demo_admin, demo_user], next_id = 3\<rparr>,
     cfg_admin_hash := ''H:hunter22'', file_admin_hash := ''H:hunter22''\<rparr>"

lemmas demo_auth_defs = demo_auth_env_def demo_manager_def demo_admin_def demo_user_def demo_auth_db_def
  empty_auth_db_def blank_user_def empty_table_def

lemma demo_auth_wf: "auth_wf demo_auth_db"
  by (simp add: auth_wf_def wf_table_def demo_auth_defs)

text \<open>A directory account of the same name takes the break-glass administrator over: the role stays, the password does not
  work any more. (The directory decides who may call itself \<open>admin\<close>.)\<close>

lemma directory_takes_over:
  "let s = snd (SyncOIDCUser demo_manager \<lparr>id_username = ''Admin'', id_display_name = [], id_email = [], id_is_admin = False\<rparr> demo_auth_db) in
   (case fst (SyncOIDCUser demo_manager \<lparr>id_username = ''Admin'', id_display_name = [], id_email = [], id_is_admin = False\<rparr> demo_auth_db) of
      Inr u \<Rightarrow> IsAdmin u \<and> u_id u = 1 | Inl _ \<Rightarrow> False) \<and>
   fst (Authenticate demo_manager ''admin'' ''hunter22'' demo_auth_db) = Inr demo_admin \<and>
   fst (Authenticate demo_manager ''admin'' ''hunter22'' s) = Inl InvalidCredentials"
  by code_simp

text \<open>When the first read of a sign-in fails and the following ones do not, an administrator loses the role that was
  granted here; and the creation of an account overwrites the one that exists.\<close>

lemma failed_read_demotes:
  "let M = demo_manager\<lparr>mg_env := demo_auth_env\<lparr>fault := (\<lambda>n. n = 0)\<rparr>\<rparr>;
       r = SyncOIDCUser M \<lparr>id_username = ''admin'', id_display_name = [], id_email = [], id_is_admin = False\<rparr> demo_auth_db in
   (case fst r of Inr u \<Rightarrow> u_id u = 1 \<and> \<not> IsAdmin u | Inl _ \<Rightarrow> False) \<and>
   (\<forall>u \<in> set (rows (users (snd r))). \<not> IsAdmin u)"
  by code_simp

lemma failed_read_overwrites:
  "let M = demo_manager\<lparr>mg_env := demo_auth_env\<lparr>fault := (\<lambda>n. n = 0)\<rparr>\<rparr>;
       r = CreateLocalUser M ''admin'' ''new-password'' ''Someone'' [] RoleUser demo_auth_db in
   (case fst r of Inr u \<Rightarrow> u_id u = 1 \<and> \<not> IsAdmin u \<and> u_pass_hash u = ''H:hunter22'' | Inl _ \<Rightarrow> False)"
  by code_simp

lemma session_resolves_witness:
  "\<exists>v s3. UserFromSession demo_manager ''t0k'' (auth_exec demo_auth_env SweepSessions
      (snd (CreateUserSession demo_manager demo_user ''10.0.0.1'' ''ua'' demo_auth_db))) = (Inr v, s3) \<and> u_id v = 2 \<and> \<not> u_disabled v"
proof -
  let ?r = "CreateUserSession demo_manager demo_user ''10.0.0.1'' ''ua'' demo_auth_db"
  let ?s2 = "auth_exec demo_auth_env SweepSessions (snd ?r)"
  have r: "?r = (Inr (''t0k'', 29800), snd ?r)" by code_simp
  have e: "mg_env demo_manager = demo_auth_env" by (simp add: demo_manager_def)
  have "auth_reach (mg_env demo_manager) (leaves_session (HashToken demo_manager ''t0k'') (u_id demo_user)) (snd ?r) ?s2"
    unfolding e by (intro auth_reach.change auth_reach.start) simp
  moreover have "\<forall>v \<in> set (rows (users demo_auth_db)). u_id v = u_id demo_user \<longrightarrow> \<not> u_disabled v" by code_simp
  moreover have "tick ?s2 = 2" by code_simp
  then have "\<forall>n \<le> tick ?s2. clock (mg_env demo_manager) n < 29800" unfolding e by (simp add: demo_auth_env_def)
  moreover have "\<not> fault (mg_env demo_manager) (tick ?s2)" unfolding e by (simp add: demo_auth_env_def)
  moreover have "u_id demo_user = 2" by (simp add: demo_user_def)
  ultimately show ?thesis using session_resolves [OF demo_auth_wf r] by simp
qed

lemma session_ends_witness:
  "\<exists>e s3. UserFromSession demo_manager ''t0k'' (auth_exec demo_auth_env (PutLogin 2) (snd (DestroySession demo_manager ''t0k''
      (snd (CreateUserSession demo_manager demo_user ''10.0.0.1'' ''ua'' demo_auth_db))))) = (Inl e, s3)"
proof -
  let ?s1 = "snd (CreateUserSession demo_manager demo_user ''10.0.0.1'' ''ua'' demo_auth_db)"
  let ?d = "DestroySession demo_manager ''t0k'' ?s1"
  have d: "?d = (Inr (), snd ?d)" by code_simp
  have e: "mg_env demo_manager = demo_auth_env" by (simp add: demo_manager_def)
  have "auth_reach (mg_env demo_manager) (\<lambda>st. \<forall>x. st = InsertSession x \<longrightarrow> ss_token_hash x \<noteq> HashToken demo_manager ''t0k'')
      (snd ?d) (auth_exec demo_auth_env (PutLogin 2) (snd ?d))"
    unfolding e by (intro auth_reach.change auth_reach.start) simp
  from session_ends [OF d _ this] show ?thesis by simp
qed

lemma UserFromAPIToken_sound_witness:
  "\<exists>r \<in> set (rows (api_tokens (snd (IssueAPIToken demo_manager demo_admin ''ci'' RoleUser 0 demo_auth_db)))).
     tk_token_hash r = HashToken demo_manager (trim_space ''goca_6162_t0k'') \<and> \<not> tk_revoked r"
proof -
  let ?s = "snd (IssueAPIToken demo_manager demo_admin ''ci'' RoleUser 0 demo_auth_db)"
  let ?r = "UserFromAPIToken demo_manager ''goca_6162_t0k'' ?s"
  have "\<not> isl (fst ?r)" by code_simp
  then obtain u k where "?r = (Inr (u, k), snd ?r)" by (metis isl_def prod.collapse sum.exhaust surj_pair)
  from UserFromAPIToken_sound [OF this] show ?thesis by blast
qed

lemma token_resolves_witness:
  "\<exists>w k' s3. UserFromAPIToken demo_manager ''goca_6162_t0k'' (auth_exec demo_auth_env (DropToken 9)
      (snd (IssueAPIToken demo_manager demo_user ''ci'' [] 3600000000000 demo_auth_db))) = (Inr (w, k'), s3) \<and> u_id w = 2 \<and> tk_id k' = 1"
proof -
  let ?r = "IssueAPIToken demo_manager demo_user ''ci'' [] 3600000000000 demo_auth_db"
  let ?s2 = "auth_exec demo_auth_env (DropToken 9) (snd ?r)"
  let ?k = "\<lparr>tk_id = 1, tk_user_id = 2, tk_username = ''alice'', tk_name = ''ci'', tk_prefix = ''6162'',
      tk_token_hash = HashToken demo_manager ''goca_6162_t0k'', tk_role = RoleUser, tk_expires_at = Some 4600,
      tk_created_at = 1000, tk_last_used_at = None, tk_revoked = False\<rparr>"
  have r: "?r = (Inr (''goca_6162_t0k'', ?k), snd ?r)" by code_simp
  have e: "mg_env demo_manager = demo_auth_env" by (simp add: demo_manager_def)
  have "auth_reach (mg_env demo_manager) (leaves_token (tk_id ?k) (u_id demo_user)) (snd ?r) ?s2"
    unfolding e by (intro auth_reach.change auth_reach.start) simp
  moreover have "\<forall>v \<in> set (rows (users demo_auth_db)). u_id v = u_id demo_user \<longrightarrow> \<not> u_disabled v" by code_simp
  moreover have "trim_space ''goca_6162_t0k'' = ''goca_6162_t0k''" by code_simp
  moreover have "tick ?s2 = 3" by code_simp
  then have "case tk_expires_at ?k of None \<Rightarrow> True | Some x \<Rightarrow> clock (mg_env demo_manager) (Suc (tick ?s2)) \<le> x"
    "\<not> fault (mg_env demo_manager) (tick ?s2)" "\<not> fault (mg_env demo_manager) (Suc (tick ?s2))"
    unfolding e by (simp_all add: demo_auth_env_def)
  moreover have "u_id demo_user = 2" by (simp add: demo_user_def)
  ultimately show ?thesis using token_resolves [OF demo_auth_wf r] by fastforce
qed

lemma Authenticate_sound_witness:
  "trim_space ''alice'' \<noteq> [] \<and> ''password'' \<noteq> [] \<and> mg_compare demo_manager ''H:password'' ''password''"
proof -
  let ?r = "Authenticate demo_manager ''alice'' ''password'' demo_auth_db"
  have "?r = (Inr demo_user, snd ?r)" by code_simp
  from Authenticate_sound [OF this demo_auth_wf] show ?thesis by (auto simp: demo_user_def demo_manager_def)
qed

lemma password_survives_restart_witness:
  "\<exists>h. HashPassword demo_manager ''correct horse'' 0 = Some h \<and>
     u_pass_hash (hd (rows (users (snd (EnsureLocalAdmin demo_manager
       ((snd (SetPassword demo_manager demo_admin ''correct horse'' demo_auth_db))\<lparr>cfg_admin_hash :=
          file_admin_hash (snd (SetPassword demo_manager demo_admin ''correct horse'' demo_auth_db))\<rparr>)))))) = h"
proof -
  let ?p = "SetPassword demo_manager demo_admin ''correct horse'' demo_auth_db"
  let ?e = "EnsureLocalAdmin demo_manager ((snd ?p)\<lparr>cfg_admin_hash := file_admin_hash (snd ?p)\<rparr>)"
  have p: "?p = (Inr (), snd ?p)" by code_simp
  have m: "demo_admin \<in> set (rows (users demo_auth_db))" "to_lower (u_username demo_admin) = to_lower (mg_admin_name demo_manager)"
    "mg_path demo_manager \<noteq> []"
    by (simp_all add: demo_auth_defs)
  have e: "?e = (fst ?e, snd ?e)" by simp
  from password_survives_restart [OF p m e] obtain h where
    h: "HashPassword demo_manager ''correct horse'' 0 = Some h"
       "\<forall>v \<in> set (rows (users (snd ?e))). u_id v = u_id demo_admin \<longrightarrow> u_pass_hash v = h"
    by (auto simp: demo_auth_db_def empty_auth_db_def)
  have "rows (users (snd ?e)) \<noteq> []" "u_id (hd (rows (users (snd ?e)))) = u_id demo_admin"
    by code_simp+
  with h show ?thesis using hd_in_set by metis
qed

lemma Authenticate_refusals_witness:
  "fst (Authenticate demo_manager ''nobody'' ''password'' demo_auth_db) = Inl InvalidCredentials \<and>
   users (snd (Authenticate demo_manager ''nobody'' ''password'' demo_auth_db)) = users demo_auth_db"
proof -
  let ?r = "Authenticate demo_manager ''nobody'' ''password'' demo_auth_db"
  have "isl (fst ?r)" by code_simp
  then obtain e where r: "?r = (Inl e, snd ?r)" by (metis isl_def prod.collapse)
  have none: "\<forall>v \<in> set (rows (users demo_auth_db)). \<not> u_disabled v"
    by (simp add: demo_auth_defs)
  have "\<forall>ask. mg_ldap demo_manager = Some ask \<longrightarrow> ask (trim_space ''nobody'') ''password'' (asked_at demo_manager demo_auth_db) = LdapInvalid"
    by (simp add: demo_manager_def)
  from Authenticate_refusals [OF r none this] have e: "e = InvalidCredentials" and s: "snd ?r = demo_auth_db\<lparr>tick := tick (snd ?r)\<rparr>" by auto
  have "users (demo_auth_db\<lparr>tick := n\<rparr>) = users demo_auth_db" for n by simp
  then have "users (snd ?r) = users demo_auth_db" using s by metis
  with r e show ?thesis by (metis fst_conv)
qed

text \<open>That an account is disabled is said before the password is looked at, so anyone learns that it exists.\<close>

lemma disabled_account_is_disclosed:
  assumes "LocalEnabled M" and "\<not> fault (mg_env M) (tick s)" and "trim_space name \<noteq> []" and "pw \<noteq> []"
    and "find (\<lambda>v. to_lower (u_username v) = to_lower (trim_space name)) (rows (users s)) = Some u"
    and "u_source u = SourceLocal" and "u_pass_hash u \<noteq> []" and "u_disabled u"
  shows "fst (Authenticate M name pw s) = Inl AccountDisabled"
  using assms by (simp add: Authenticate_def Let_def GetUserByName_def stmt_defs select_one_def)

end
