(* ===== verification/Login.thy ===== *)
theory Login
  imports Auth
begin

text \<open>
  Sign-in over HTTP: the throttle (\<open>internal/web/ratelimit.go\<close>), the session middleware, the CSRF check, the login form
  and the OpenID Connect callback (\<open>session.go\<close>, \<open>oidc.go\<close>), the bearer middleware (\<open>api.go\<close>) and the password grant
  (\<open>api_auth.go\<close>). A request is the record of what the handlers read of it; cookies and bodies are decoded. The provider
  is a parameter. Rendering, headers and the text of messages are left out.
\<close>


section \<open>The throttle\<close>

definition loginFailLimit :: nat where "loginFailLimit = 5"
definition loginFailWindow :: int where "loginFailWindow = 900"

text \<open>A failure of the database admits the attempt.\<close>

definition retryAfter :: "env \<Rightarrow> string \<Rightarrow> auth_db \<Rightarrow> int \<times> auth_db" where
  "retryAfter E key s =
     (let t = now E s in
      attempt (RecentAuthFailures E key (t - loginFailWindow) loginFailLimit s)
        (\<lambda>_ s. (0, s))
        (\<lambda>recent s. if length recent < loginFailLimit then (0, s)
                    else let wait = recent ! 0 + loginFailWindow - t in (if 0 < wait then wait else 0, s)))"

definition Fail :: "env \<Rightarrow> string \<Rightarrow> auth_db \<Rightarrow> auth_db" where
  "Fail E key s = snd (RecordAuthFailure E key (now E s) s)"

definition Reset :: "env \<Rightarrow> string \<Rightarrow> auth_db \<Rightarrow> auth_db" where
  "Reset E key s = snd (ClearAuthFailures E key s)"

definition PurgeFailures :: "env \<Rightarrow> auth_db \<Rightarrow> nat auth_stmt" where
  "PurgeFailures E s = PurgeAuthFailures E (now E s - loginFailWindow) s"

definition user_key :: "string \<Rightarrow> string" where "user_key u = ''user:'' @ u"
definition ip_key :: "string \<Rightarrow> string" where "ip_key ip = ''ip:'' @ ip"

definition loginThrottle :: "env \<Rightarrow> string \<Rightarrow> string \<Rightarrow> auth_db \<Rightarrow> int \<times> auth_db" where
  "loginThrottle E username ip s =
     (let (wait, s) = retryAfter E (user_key username) s in
      if 0 < wait then (wait, s) else retryAfter E (ip_key ip) s)"

definition loginFailed :: "env \<Rightarrow> string \<Rightarrow> string \<Rightarrow> auth_db \<Rightarrow> auth_db" where
  "loginFailed E username ip s = Fail E (ip_key ip) (Fail E (user_key username) s)"

definition loginSucceeded :: "env \<Rightarrow> string \<Rightarrow> string \<Rightarrow> auth_db \<Rightarrow> auth_db" where
  "loginSucceeded E username ip s = Reset E (ip_key ip) (Reset E (user_key username) s)"


section \<open>Requests\<close>

record oidcState =
  os_state :: string
  os_nonce :: string
  os_next :: string

record request =
  rq_ip :: string
  rq_agent :: string
  rq_safe :: bool
  rq_session :: "string option"
  rq_csrf :: "string option"
  rq_csrf_header :: string
  rq_csrf_form :: string
  rq_authorization :: string
  rq_oidc_state :: "oidcState option"

datatype oidc_answer = OidcNotAllowed | OidcError string | OidcIdentity identity

record web =
  wb_manager :: manager
  wb_login_ttl :: "64 word"
  wb_login_max_days :: "64 word"
  wb_exchange :: "(string \<Rightarrow> string \<Rightarrow> nat \<Rightarrow> oidc_answer) option"

definition wb_env :: "web \<Rightarrow> env" where
  "wb_env W = mg_env (wb_manager W)"

definition checkCSRF :: "request \<Rightarrow> bool" where
  "checkCSRF r =
     (case rq_csrf r of
        None \<Rightarrow> False
      | Some c \<Rightarrow>
          let sent = (if rq_csrf_header r = [] then rq_csrf_form r else rq_csrf_header r) in
          c \<noteq> [] \<and> sent \<noteq> [] \<and> ConstantTimeEqual sent c)"

definition userFromRequest :: "web \<Rightarrow> request \<Rightarrow> auth_db \<Rightarrow> (User \<times> string) option \<times> auth_db" where
  "userFromRequest W r s =
     (case rq_session r of
        None \<Rightarrow> (None, s)
      | Some c \<Rightarrow>
          if c = [] then (None, s)
          else attempt (UserFromSession (wb_manager W) c s) (\<lambda>_ s. (None, s)) (\<lambda>u s. (Some (u, c), s)))"

datatype page_gate = ToLogin | CsrfExpired | NotAdministrator | Page User string

definition requireUser :: "web \<Rightarrow> request \<Rightarrow> auth_db \<Rightarrow> page_gate \<times> auth_db" where
  "requireUser W r s =
     (case userFromRequest W r s of
        (None, s) \<Rightarrow> (ToLogin, s)
      | (Some (u, tok), s) \<Rightarrow>
          if \<not> rq_safe r \<and> \<not> checkCSRF r then (CsrfExpired, s) else (Page u tok, s))"

definition requireAdmin :: "web \<Rightarrow> request \<Rightarrow> auth_db \<Rightarrow> page_gate \<times> auth_db" where
  "requireAdmin W r s =
     (case requireUser W r s of
        (Page u tok, s) \<Rightarrow> if \<not> IsAdmin u then (NotAdministrator, s) else (Page u tok, s)
      | other \<Rightarrow> other)"

datatype api_gate = Denied int | Entered User "APIToken option"

definition bearer :: string where "bearer = ''bearer ''"

definition apiAuth :: "web \<Rightarrow> bool \<Rightarrow> request \<Rightarrow> auth_db \<Rightarrow> api_gate \<times> auth_db" where
  "apiAuth W adminOnly r s =
     (let enter = (\<lambda>u tok s. if adminOnly \<and> \<not> IsAdmin u then (Denied 403, s) else (Entered u tok, s)) in
      if has_prefix (to_lower (rq_authorization r)) bearer
      then attempt (UserFromAPIToken (wb_manager W) (trim_space (drop 7 (rq_authorization r))) s)
             (\<lambda>_ s. (Denied 401, s))
             (\<lambda>(u, tok) s. enter u (Some tok) s)
      else (case userFromRequest W r s of
              (None, s) \<Rightarrow> (Denied 401, s)
            | (Some (u, _), s) \<Rightarrow>
                if \<not> rq_safe r \<and> \<not> checkCSRF r then (Denied 403, s) else enter u None s))"


section \<open>The login form\<close>

text \<open>Where the browser is sent after a sign-in.\<close>

definition login_dest :: "string \<Rightarrow> string" where
  "login_dest next = (if next \<noteq> [] \<and> has_prefix next ''/'' \<and> \<not> has_prefix next ''//'' then next else ''/'')"

datatype login_page =
    LoginExpired | LoginThrottled int | LoginRefused auth_error | LoginUnverified | NoSession auth_error
  | SignedIn string string

definition auth_error_text :: "auth_error \<Rightarrow> string" where
  "auth_error_text e =
     (case e of
        InvalidCredentials \<Rightarrow> ''invalid username or password''
      | AccountDisabled \<Rightarrow> ''this account is disabled''
      | _ \<Rightarrow> [])"

definition finishLogin :: "web \<Rightarrow> request \<Rightarrow> User \<Rightarrow> string \<Rightarrow> auth_db \<Rightarrow> login_page \<times> auth_db" where
  "finishLogin W r u next s =
     attempt (CreateUserSession (wb_manager W) u (rq_ip r) (rq_agent r) s)
       (\<lambda>e s. (NoSession e, s))
       (\<lambda>(tok, _) s. (SignedIn tok (login_dest next),
          AuditWithIP (wb_env W) (u_username u) ''auth.login'' (u_username u)
            (''source='' @ u_source u @ '' role='' @ u_role u) (rq_ip r) s))"

definition handleLoginSubmit :: "web \<Rightarrow> request \<Rightarrow> string \<Rightarrow> string \<Rightarrow> string \<Rightarrow> auth_db \<Rightarrow> login_page \<times> auth_db" where
  "handleLoginSubmit W r username0 password next s =
     (let E = wb_env W; username = trim_space username0; ip = rq_ip r in
      if \<not> checkCSRF r then (LoginExpired, s)
      else let (wait, s) = loginThrottle E username ip s in
      if 0 < wait
      then (LoginThrottled wait, AuditWithIP E username ''auth.login_throttled'' username ''via=form'' ip s)
      else attempt (Authenticate (wb_manager W) username password s)
        (\<lambda>e s. (LoginRefused e,
           AuditWithIP E username ''auth.login_failed'' username (auth_error_text e) ip (loginFailed E username ip s)))
        (\<lambda>u s. finishLogin W r u next (loginSucceeded E username ip s)))"

definition handleLogout :: "web \<Rightarrow> request \<Rightarrow> auth_db \<Rightarrow> auth_db" where
  "handleLogout W r s =
     (case rq_session r of
        None \<Rightarrow> s
      | Some c \<Rightarrow>
          let (who, s) = userFromRequest W r s;
              s = (case who of
                     None \<Rightarrow> s
                   | Some (u, _) \<Rightarrow> AuditWithIP (wb_env W) (u_username u) ''auth.logout'' (u_username u) [] (rq_ip r) s)
          in snd (DestroySession (wb_manager W) c s))"


section \<open>Single sign-on\<close>

text \<open>The query parameters of the callback: \<open>error\<close>, \<open>state\<close> and \<open>code\<close>. \<open>None\<close> is a server without a provider.\<close>

definition takeOIDCState :: "request \<Rightarrow> oidcState option" where
  "takeOIDCState r =
     (case rq_oidc_state r of
        None \<Rightarrow> None
      | Some v \<Rightarrow> if os_state v = [] \<or> os_nonce v = [] then None else Some v)"

definition handleOIDCCallback ::
  "web \<Rightarrow> request \<Rightarrow> string \<Rightarrow> string \<Rightarrow> string \<Rightarrow> auth_db \<Rightarrow> login_page option \<times> auth_db" where
  "handleOIDCCallback W r provErr gotState code s =
     (case wb_exchange W of
        None \<Rightarrow> (None, s)
      | Some exchange \<Rightarrow>
          (case takeOIDCState r of
             None \<Rightarrow> (Some LoginUnverified, s)
           | Some sv \<Rightarrow>
               if provErr \<noteq> [] then (Some LoginUnverified, s)
               else if gotState = [] \<or> \<not> ConstantTimeEqual gotState (os_state sv) then (Some LoginUnverified, s)
               else if code = [] then (Some LoginUnverified, s)
               else let fails = (\<lambda>text. (Some LoginUnverified,
                      AuditWithIP (wb_env W) [] ''auth.oidc_failed'' [] text (rq_ip r) s)) in
               (case exchange code (os_nonce sv) (tick s) of
                  OidcNotAllowed \<Rightarrow> fails ''account is not a member of any permitted group''
                | OidcError text \<Rightarrow> fails text
                | OidcIdentity x \<Rightarrow>
                    attempt (SyncOIDCUser (wb_manager W) x s)
                      (\<lambda>e s. (Some (LoginRefused e), s))
                      (\<lambda>u s. let (page, s) = finishLogin W r u (os_next sv) s in (Some page, s)))))"


section \<open>The password grant\<close>

definition day :: "64 word" where "day = 24 * 3600000000000"

definition loginTokenTTL :: "web \<Rightarrow> 64 word \<Rightarrow> int + 64 word" where
  "loginTokenTTL W days =
     (if sint days < 0 then Inl 400
      else if days = 0
      then let ttl = wb_login_ttl W in Inr (if sint ttl \<le> 0 then 30 * day else ttl)
      else if 0 < sint (wb_login_max_days W) \<and> sint (wb_login_max_days W) < sint days then Inl 400
      else Inr (days * day))"

definition maxTokenNameLen :: nat where "maxTokenNameLen = 64"

definition login_token_name :: "string \<Rightarrow> string" where
  "login_token_name name0 =
     (let name = trim_space name0; name = (if name = [] then ''gocactl login'' else name) in
      if maxTokenNameLen < length name then take maxTokenNameLen name else name)"

datatype api_login = LoginRejected int | LoginToken string APIToken User

definition login_status :: "auth_error \<Rightarrow> int" where
  "login_status e = (case e of AccountDisabled \<Rightarrow> 403 | InvalidCredentials \<Rightarrow> 401 | _ \<Rightarrow> 502)"

definition api_status :: "auth_error \<Rightarrow> int" where
  "api_status e = (if e = AuthStore ErrNotFound then 404 else 400)"

definition apiAuthLogin ::
  "web \<Rightarrow> request \<Rightarrow> string \<Rightarrow> string \<Rightarrow> string \<Rightarrow> 64 word \<Rightarrow> auth_db \<Rightarrow> api_login \<times> auth_db" where
  "apiAuthLogin W r username0 password token_name days s =
     (let E = wb_env W; M = wb_manager W; username = trim_space username0; ip = rq_ip r in
      if username = [] \<or> password = [] then (LoginRejected 400, s)
      else if \<not> LocalEnabled M \<and> \<not> LDAPEnabled M then (LoginRejected 400, s)
      else let (wait, s) = loginThrottle E username ip s in
      if 0 < wait
      then (LoginRejected 429, AuditWithIP E username ''auth.login_throttled'' username ''via=api'' ip s)
      else (case loginTokenTTL W days of
        Inl code \<Rightarrow> (LoginRejected code, s)
      | Inr ttl \<Rightarrow>
          attempt (Authenticate M username password s)
            (\<lambda>e s. (LoginRejected (login_status e),
               AuditWithIP E username ''auth.login_failed'' username (''via=api '' @ auth_error_text e) ip
                 (loginFailed E username ip s)))
            (\<lambda>u s. attempt (IssueAPIToken M u (login_token_name token_name) (u_role u) ttl (loginSucceeded E username ip s))
               (\<lambda>e s. (LoginRejected (api_status e), s))
               (\<lambda>(plain, k) s. (LoginToken plain k u,
                  AuditWithIP E (u_username u) ''token.create'' (tk_name k) (''role='' @ tk_role k @ '' via=login'') ip
                    (AuditWithIP E (u_username u) ''auth.login'' (u_username u)
                      (''via=api source='' @ u_source u @ '' role='' @ u_role u) ip s))))))"


section \<open>The throttle holds\<close>

definition database_works :: "env \<Rightarrow> bool" where
  "database_works E \<longleftrightarrow> (\<forall>n. \<not> fault E n) \<and> (\<forall>m n. m \<le> n \<longrightarrow> clock E m \<le> clock E n)"

text \<open>The failures of a key since a time.\<close>

definition failures_since :: "int \<Rightarrow> string \<Rightarrow> auth_db \<Rightarrow> nat" where
  "failures_since t0 k s = length (filter (\<lambda>f. fl_key f = k \<and> t0 \<le> fl_at f) (auth_failures s))"

lemma failures_since_same: "auth_failures t = auth_failures s \<Longrightarrow> failures_since t0 k t = failures_since t0 k s"
  by (simp add: failures_since_def)

lemma retryAfter_state: "snd (retryAfter E k s) = s\<lparr>tick := Suc (tick s)\<rparr>"
  by (auto simp: retryAfter_def Let_def RecentAuthFailures_def stmt_defs)

lemma failures_in_window:
  assumes "t0 \<le> t" and "t' < t0 + loginFailWindow" and "t \<le> t'"
  shows "failures_since t0 k s \<le> length (filter (\<lambda>f. fl_key f = k \<and> t' - loginFailWindow < fl_at f) (auth_failures s))"
proof -
  have sub: "(fl_key f = k \<and> t0 \<le> fl_at f) \<longrightarrow> (fl_key f = k \<and> t' - loginFailWindow < fl_at f)" for f
    using assms by auto
  have "length (filter p xs) \<le> length (filter q xs)" if "\<And>x. p x \<longrightarrow> q x" for p q and xs :: "AuthFailure list"
    using that by (induction xs) auto
  from this [OF sub] show ?thesis by (simp add: failures_since_def)
qed

lemma retryAfter_blocks:
  assumes "\<not> fault E (tick s)" and "loginFailLimit \<le> failures_since t0 k s"
    and "t0 \<le> now E s" and "now E s < t0 + loginFailWindow"
  shows "0 < fst (retryAfter E k s)"
proof -
  let ?t = "now E s" and ?l = "map fl_at (filter (\<lambda>f. fl_key f = k \<and> now E s - loginFailWindow < fl_at f) (auth_failures s))"
  have n: "loginFailLimit \<le> length ?l"
    using assms(2) failures_in_window [OF assms(3,4) order_refl, of k s] by simp
  then have "0 < length (sort ?l)" unfolding length_sort loginFailLimit_def by linarith
  then have "sort ?l ! 0 \<in> set (sort ?l)" by (rule nth_mem)
  then have "?t - loginFailWindow < sort ?l ! 0" by auto
  with n assms(1) show ?thesis
    by (auto simp: retryAfter_def Let_def RecentAuthFailures_def stmt_defs loginFailLimit_def)
qed

lemma loginThrottle_state: "\<exists>n \<ge> tick s. snd (loginThrottle E u ip s) = s\<lparr>tick := n\<rparr>"
proof -
  obtain w s1 where r: "retryAfter E (user_key u) s = (w, s1)" by (cases "retryAfter E (user_key u) s")
  then have "s1 = s\<lparr>tick := Suc (tick s)\<rparr>" using retryAfter_state [of E "user_key u" s] by simp
  with r show ?thesis
    using retryAfter_state [of E "ip_key ip" s1]
    by (auto simp: loginThrottle_def intro: exI [of _ "Suc (tick s)"] exI [of _ "Suc (Suc (tick s))"])
qed

lemma loginThrottle_blocks:
  assumes "database_works E" and "loginFailLimit \<le> failures_since t0 k s" and "k = user_key u \<or> k = ip_key ip"
    and "t0 \<le> now E s" and "now E (snd (loginThrottle E u ip s)) < t0 + loginFailWindow"
  shows "0 < fst (loginThrottle E u ip s)"
proof -
  obtain w s1 where r: "retryAfter E (user_key u) s = (w, s1)" by (cases "retryAfter E (user_key u) s")
  then have s1: "s1 = s\<lparr>tick := Suc (tick s)\<rparr>" using retryAfter_state [of E "user_key u" s] by simp
  have mono: "clock E m \<le> clock E n" if "m \<le> n" for m n using assms(1) that by (simp add: database_works_def)
  have nf: "\<not> fault E n" for n using assms(1) by (simp add: database_works_def)
  obtain n where n: "n \<ge> tick s" "snd (loginThrottle E u ip s) = s\<lparr>tick := n\<rparr>" using loginThrottle_state by blast
  have t: "now E s < t0 + loginFailWindow" using assms(5) n mono [of "tick s" n] by (simp add: now_def)
  show ?thesis
  proof (cases "0 < w")
    case True
    with r show ?thesis by (simp add: loginThrottle_def)
  next
    case False
    have "k \<noteq> user_key u" using retryAfter_blocks [OF nf assms(2,4) t] r False by auto
    with assms(3) have k: "k = ip_key ip" by simp
    have "snd (loginThrottle E u ip s) = s1\<lparr>tick := Suc (tick s1)\<rparr>"
      using r False retryAfter_state [of E "ip_key ip" s1] by (simp add: loginThrottle_def)
    then have "now E s1 < t0 + loginFailWindow" "t0 \<le> now E s1"
      using assms(4,5) s1 mono [of "tick s1" "Suc (tick s1)"] mono [of "tick s" "Suc (tick s)"] by (auto simp: now_def)
    moreover have "failures_since t0 k s1 = failures_since t0 k s" using s1 by (simp add: failures_since_def)
    ultimately have "0 < fst (retryAfter E (ip_key ip) s1)"
      using retryAfter_blocks [OF nf _, of t0 "ip_key ip" s1] assms(2) k by simp
    with r False show ?thesis by (simp add: loginThrottle_def)
  qed
qed

lemma quiet_no_fault: "database_works E \<Longrightarrow> \<not> fault E n"
  by (simp add: database_works_def)

lemma quiet_clock: "database_works E \<Longrightarrow> m \<le> n \<Longrightarrow> clock E m \<le> clock E n"
  by (simp add: database_works_def)

lemma user_key_not_ip [simp]: "user_key u \<noteq> ip_key i" "ip_key i \<noteq> user_key u"
  by (simp_all add: user_key_def ip_key_def)

lemma user_key_inj [simp]: "user_key u = user_key v \<longleftrightarrow> u = v"
  by (simp add: user_key_def)

lemma ip_key_inj [simp]: "ip_key u = ip_key v \<longleftrightarrow> u = v"
  by (simp add: ip_key_def)

lemma AuditWithIP_failures [simp]: "auth_failures (AuditWithIP E a b c d e s) = auth_failures s"
  by (simp add: AuditWithIP_def stmt_defs)

lemma AuditWithIP_tick [simp]: "tick (AuditWithIP E a b c d e s) = Suc (tick s)"
  by (simp add: AuditWithIP_def stmt_defs)

lemma failures_since_audit [simp]: "failures_since t0 k (AuditWithIP E a b c d e s) = failures_since t0 k s"
  by (simp add: failures_since_def)

lemma loginFailed_quiet:
  assumes "database_works E"
  shows "auth_failures (loginFailed E u ip s) =
      auth_failures s @ [\<lparr>fl_key = user_key u, fl_at = clock E (tick s)\<rparr>, \<lparr>fl_key = ip_key ip, fl_at = clock E (Suc (tick s))\<rparr>]"
    and "tick (loginFailed E u ip s) = Suc (Suc (tick s))"
  using quiet_no_fault [OF assms]
  by (simp_all add: loginFailed_def Fail_def RecordAuthFailure_def stmt_defs now_def)

lemma failures_since_failed:
  assumes "database_works E" and "t0 \<le> now E s"
  shows "failures_since t0 k (loginFailed E u ip s) =
    failures_since t0 k s + (if k = user_key u \<or> k = ip_key ip then 1 else 0)"
  using assms(2) quiet_clock [OF assms(1), of "tick s" "Suc (tick s)"]
  by (auto simp: failures_since_def loginFailed_quiet [OF assms(1)] now_def)

lemma failures_since_succeeded:
  assumes "k \<noteq> user_key u" and "k \<noteq> ip_key ip"
  shows "failures_since t0 k (loginSucceeded E u ip s) = failures_since t0 k s"
proof -
  have *: "filter (\<lambda>f. fl_key f = k \<and> t0 \<le> fl_at f) (delete_where (\<lambda>f. fl_key f = k') fs) =
    filter (\<lambda>f. fl_key f = k \<and> t0 \<le> fl_at f) fs" if "k \<noteq> k'" for k' fs
    using that by (induction fs) (auto simp: delete_where_def)
  show ?thesis
    using assms by (auto simp: loginSucceeded_def Reset_def ClearAuthFailures_def stmt_defs failures_since_def *)
qed

lemma loginSucceeded_tick: "tick (loginSucceeded E u ip s) = Suc (Suc (tick s))"
  by (simp add: loginSucceeded_def Reset_def ClearAuthFailures_def stmt_defs)

lemma spared_by_Authenticate:
  "failures_since t0 k (snd (Authenticate M name pw s)) = failures_since t0 k s \<and> tick s \<le> tick (snd (Authenticate M name pw s))"
proof -
  have "auth_reach (mg_env M) spares_failures s (snd (Authenticate M name pw s))"
    by (intro reach_Authenticate auth_reach.start) simp_all
  then show ?thesis by (auto dest: reach_spares_failures auth_reach_ticks intro: failures_since_same)
qed

lemma spared_by_finishLogin:
  "failures_since t0 k (snd (finishLogin W r u next s)) = failures_since t0 k s \<and> tick s \<le> tick (snd (finishLogin W r u next s))"
proof -
  have "auth_reach (wb_env W) spares_failures s (snd (finishLogin W r u next s))"
    unfolding finishLogin_def wb_env_def
    by (intro reach.acc_attempt reach_CreateUserSession auth_reach.start) (auto intro!: reach_change split: prod.split)
  then show ?thesis by (auto dest: reach_spares_failures auth_reach_ticks intro: failures_since_same)
qed

lemma spared_by_IssueAPIToken:
  "failures_since t0 k (snd (IssueAPIToken M u name role ttl s)) = failures_since t0 k s \<and>
   tick s \<le> tick (snd (IssueAPIToken M u name role ttl s))"
proof -
  have "auth_reach (mg_env M) spares_failures s (snd (IssueAPIToken M u name role ttl s))"
    by (intro reach_IssueAPIToken auth_reach.start) simp_all
  then show ?thesis by (auto dest: reach_spares_failures auth_reach_ticks intro: failures_since_same)
qed

text \<open>The attempts that reach the two endpoints, and the sweep of old failures. \<open>Checked\<close> is one whose password was
  looked at and refused; \<open>Held\<close> is one that did not come that far.\<close>

datatype login_attempt =
    Form request string string string
  | Grant request string string string "64 word"
  | Janitor

datatype verdict = Checked | Held | Passed

fun login_try :: "web \<Rightarrow> login_attempt \<Rightarrow> auth_db \<Rightarrow> verdict \<times> auth_db" where
  "login_try W (Form r u p next) s =
     (case handleLoginSubmit W r u p next s of
        (LoginRefused _, s) \<Rightarrow> (Checked, s)
      | (LoginThrottled _, s) \<Rightarrow> (Held, s)
      | (LoginExpired, s) \<Rightarrow> (Held, s)
      | (_, s) \<Rightarrow> (Passed, s))"
| "login_try W (Grant r u p name days) s =
     (case apiAuthLogin W r u p name days s of
        (LoginRejected c, s) \<Rightarrow>
          if c = 401 \<or> c = 403 \<or> c = 502 then (Checked, s) else if c = 429 then (Held, s) else (Passed, s)
      | (LoginToken _ _ _, s) \<Rightarrow> (Passed, s))"
| "login_try W Janitor s = (Held, snd (PurgeFailures (wb_env W) s))"

fun attempt_keys :: "login_attempt \<Rightarrow> string set" where
  "attempt_keys (Form r u _ _) = {user_key (trim_space u), ip_key (rq_ip r)}"
| "attempt_keys (Grant r u _ _ _) = {user_key (trim_space u), ip_key (rq_ip r)}"
| "attempt_keys Janitor = {}"

definition counts_up :: "int \<Rightarrow> string \<Rightarrow> bool \<Rightarrow> verdict \<times> auth_db \<Rightarrow> auth_db \<Rightarrow> bool" where
  "counts_up t0 k mine r s \<longleftrightarrow>
     tick s \<le> tick (snd r) \<and>
     (mine \<longrightarrow> fst r = Passed \<or>
        failures_since t0 k s + (if fst r = Checked then 1 else 0) \<le> failures_since t0 k (snd r)) \<and>
     (\<not> mine \<longrightarrow> failures_since t0 k s \<le> failures_since t0 k (snd r))"

lemma login_status_codes [simp]: "login_status e = 401 \<or> login_status e = 403 \<or> login_status e = 502"
  by (cases e) (simp_all add: login_status_def)

lemma api_status_codes [simp]: "api_status e \<noteq> 401" "api_status e \<noteq> 403" "api_status e \<noteq> 502" "api_status e \<noteq> 429"
  by (simp_all add: api_status_def)

text \<open>The part that both endpoints share: the throttle, then the check.\<close>

lemma throttled_check:
  assumes E: "database_works E" and th: "loginThrottle E u ip s = (wait, s1)" and au: "Authenticate M name pw s1 = (res, s2)" and t0: "t0 \<le> now E s"
  shows "tick s \<le> tick s1" "tick s1 \<le> tick s2"
    "failures_since t0 k s1 = failures_since t0 k s" "failures_since t0 k s2 = failures_since t0 k s" "t0 \<le> now E s2"
    "k = user_key u \<or> k = ip_key ip \<Longrightarrow> \<not> 0 < wait \<Longrightarrow> now E s1 < t0 + loginFailWindow \<Longrightarrow>
       failures_since t0 k s < loginFailLimit"
proof -
  obtain n where n: "n \<ge> tick s" "s1 = s\<lparr>tick := n\<rparr>" using loginThrottle_state [of s E u ip] th by auto
  then show "tick s \<le> tick s1" and f1: "failures_since t0 k s1 = failures_since t0 k s" by (simp_all add: failures_since_def)
  show "tick s1 \<le> tick s2" and "failures_since t0 k s2 = failures_since t0 k s"
    using spared_by_Authenticate [of t0 k M name pw s1] au f1 by simp_all
  then show "t0 \<le> now E s2"
    using t0 quiet_clock [OF E, of "tick s" "tick s2"] n by (simp add: now_def)
  show "failures_since t0 k s < loginFailLimit"
    if "k = user_key u \<or> k = ip_key ip" "\<not> 0 < wait" "now E s1 < t0 + loginFailWindow"
    using loginThrottle_blocks [OF E _ that(1) t0] that(2,3) th by (metis fst_conv snd_conv not_le)
qed

lemma throttle_only:
  assumes "loginThrottle E u ip s = (wait, s1)"
  shows "tick s \<le> tick s1" "failures_since t0 k s1 = failures_since t0 k s"
  using loginThrottle_state [of s E u ip] assms by (auto simp: failures_since_def)

definition step_ok :: "int \<Rightarrow> string \<Rightarrow> bool \<Rightarrow> verdict \<times> auth_db \<Rightarrow> auth_db \<Rightarrow> bool" where
  "step_ok t0 k mine r s \<longleftrightarrow>
     counts_up t0 k mine r s \<and> (mine \<and> fst r = Checked \<longrightarrow> failures_since t0 k s < loginFailLimit)"

lemma refused_step:
  assumes E: "database_works E" and th: "loginThrottle E u ip s = (wait, s1)" and au: "Authenticate M name pw s1 = (Inl e, s2)"
    and t0: "t0 \<le> now E s" and w: "\<not> 0 < wait"
    and last: "now E (AuditWithIP E a b c d f (loginFailed E u ip s2)) < t0 + loginFailWindow"
  shows "step_ok t0 k (k = user_key u \<or> k = ip_key ip) (Checked, AuditWithIP E a b c d f (loginFailed E u ip s2)) s"
proof -
  note c = throttled_check [OF E th au t0]
  have tk: "tick (AuditWithIP E a b c d f (loginFailed E u ip s2)) = Suc (Suc (Suc (tick s2)))"
    using loginFailed_quiet(2) [OF E] by simp
  then have "now E s1 < t0 + loginFailWindow"
    using last quiet_clock [OF E, of "tick s1" "Suc (Suc (Suc (tick s2)))"] c(2) by (simp add: now_def)
  with c(6) [of k, OF _ w] show ?thesis
    using c(1,2,4) tk failures_since_failed [OF E c(5), of k u ip] by (auto simp: step_ok_def counts_up_def)
qed

lemma passed_step:
  assumes E: "database_works E" and th: "loginThrottle E u ip s = (wait, s1)" and au: "Authenticate M name pw s1 = (Inr x, s2)"
    and t0: "t0 \<le> now E s" and more: "failures_since t0 k s3 = failures_since t0 k (loginSucceeded E u ip s2)"
      "tick (loginSucceeded E u ip s2) \<le> tick s3"
  shows "step_ok t0 k (k = user_key u \<or> k = ip_key ip) (Passed, s3) s"
proof -
  note c = throttled_check [OF E th au t0]
  show ?thesis
    using c(1,2,4) more loginSucceeded_tick [of E u ip s2] failures_since_succeeded [of k u ip t0 E s2]
    by (auto simp: step_ok_def counts_up_def)
qed

lemma Form_step:
  assumes E: "database_works (wb_env W)" and t0: "t0 \<le> now (wb_env W) s"
    and last: "now (wb_env W) (snd (login_try W (Form r u p next) s)) < t0 + loginFailWindow"
  shows "step_ok t0 k (k \<in> attempt_keys (Form r u p next)) (login_try W (Form r u p next) s) s"
proof (cases "checkCSRF r")
  case False
  then show ?thesis by (simp add: handleLoginSubmit_def step_ok_def counts_up_def)
next
  case csrf: True
  let ?E = "wb_env W" and ?u = "trim_space u" and ?ip = "rq_ip r"
  obtain wait s1 where th: "loginThrottle ?E ?u ?ip s = (wait, s1)" by force
  show ?thesis
  proof (cases "0 < wait")
    case True
    with csrf th throttle_only [OF th] show ?thesis
      by (simp add: handleLoginSubmit_def Let_def step_ok_def counts_up_def le_SucI)
  next
    case w: False
    obtain res s2 where au: "Authenticate (wb_manager W) ?u p s1 = (res, s2)" by force
    show ?thesis
    proof (cases res)
      case (Inl e)
      with csrf th w au last refused_step [OF E th _ t0 w] show ?thesis by (simp add: handleLoginSubmit_def Let_def)
    next
      case (Inr x)
      let ?f = "finishLogin W r x next (loginSucceeded ?E ?u ?ip s2)"
      have "step_ok t0 k (k = user_key ?u \<or> k = ip_key ?ip) (Passed, snd ?f) s"
        by (rule passed_step [OF E th au [unfolded Inr] t0])
          (simp_all add: spared_by_finishLogin)
      moreover have "login_try W (Form r u p next) s = (Passed, snd ?f)"
        using csrf th w au Inr by (auto simp: handleLoginSubmit_def Let_def finishLogin_def attempt_def split: prod.splits sum.splits)
      ultimately show ?thesis by simp
    qed
  qed
qed

lemma Grant_step:
  assumes E: "database_works (wb_env W)" and t0: "t0 \<le> now (wb_env W) s"
    and last: "now (wb_env W) (snd (login_try W (Grant r u p name days) s)) < t0 + loginFailWindow"
  shows "step_ok t0 k (k \<in> attempt_keys (Grant r u p name days)) (login_try W (Grant r u p name days) s) s"
proof (cases "trim_space u = [] \<or> p = [] \<or> \<not> LocalEnabled (wb_manager W) \<and> \<not> LDAPEnabled (wb_manager W)")
  case True
  then show ?thesis by (auto simp: apiAuthLogin_def Let_def step_ok_def counts_up_def)
next
  case ok: False
  let ?E = "wb_env W" and ?u = "trim_space u" and ?ip = "rq_ip r"
  obtain wait s1 where th: "loginThrottle ?E ?u ?ip s = (wait, s1)" by force
  show ?thesis
  proof (cases "0 < wait")
    case True
    with ok th throttle_only [OF th] show ?thesis
      by (auto simp: apiAuthLogin_def Let_def step_ok_def counts_up_def le_SucI)
  next
    case w: False
    show ?thesis
    proof (cases "loginTokenTTL W days")
      case (Inl c)
      then have "c = 400" by (auto simp: loginTokenTTL_def Let_def split: if_splits)
      with Inl ok th w throttle_only [OF th] show ?thesis
        by (auto simp: apiAuthLogin_def Let_def step_ok_def counts_up_def)
    next
      case ttl: (Inr ttl)
      obtain res s2 where au: "Authenticate (wb_manager W) ?u p s1 = (res, s2)" by force
      show ?thesis
      proof (cases res)
        case (Inl e)
        with ok th w au ttl last refused_step [OF E th _ t0 w] show ?thesis by (auto simp: apiAuthLogin_def Let_def)
      next
        case (Inr x)
        let ?i = "IssueAPIToken (wb_manager W) x (login_token_name name) (u_role x) ttl (loginSucceeded ?E ?u ?ip s2)"
        let ?t = "login_try W (Grant r u p name days) s"
        have i: "failures_since t0 k (snd ?i) = failures_since t0 k (loginSucceeded ?E ?u ?ip s2)"
          "tick (loginSucceeded ?E ?u ?ip s2) \<le> tick (snd ?i)"
          using spared_by_IssueAPIToken by simp_all
        have "fst ?t = Passed \<and> failures_since t0 k (snd ?t) = failures_since t0 k (snd ?i) \<and> tick (snd ?i) \<le> tick (snd ?t)"
          using ok th w au ttl Inr by (auto simp: apiAuthLogin_def Let_def attempt_def split: prod.splits sum.splits)
        then have "fst ?t = Passed" and f: "failures_since t0 k (snd ?t) = failures_since t0 k (snd ?i)"
          and n: "tick (snd ?i) \<le> tick (snd ?t)" by blast+
        have "step_ok t0 k (k = user_key ?u \<or> k = ip_key ?ip) (Passed, snd ?t) s"
          by (rule passed_step [OF E th au [unfolded Inr] t0 trans [OF f i(1)] order_trans [OF i(2) n]])
        moreover have "?t = (Passed, snd ?t)" using \<open>fst ?t = Passed\<close> by (metis prod.collapse)
        ultimately show ?thesis by simp
      qed
    qed
  qed
qed

lemma Janitor_step:
  assumes E: "database_works (wb_env W)" and t0: "t0 \<le> now (wb_env W) s" and last: "now (wb_env W) s < t0 + loginFailWindow"
  shows "step_ok t0 k False (login_try W Janitor s) s"
proof -
  have "filter (\<lambda>f. fl_key f = k \<and> t0 \<le> fl_at f) (delete_where (\<lambda>f. fl_at f \<le> now (wb_env W) s - loginFailWindow) fs) =
      filter (\<lambda>f. fl_key f = k \<and> t0 \<le> fl_at f) fs" for fs :: "AuthFailure list"
    using last by (induction fs) (auto simp: delete_where_def)
  then show ?thesis
    using quiet_no_fault [OF E]
    by (simp add: PurgeFailures_def PurgeAuthFailures_def stmt_defs step_ok_def counts_up_def failures_since_def)
qed

fun login_run :: "web \<Rightarrow> login_attempt list \<Rightarrow> auth_db \<Rightarrow> verdict list \<times> auth_db" where
  "login_run W [] s = ([], s)"
| "login_run W (a # as) s =
     (let (v, s) = login_try W a s; (vs, s) = login_run W as s in (v # vs, s))"

text \<open>The handlers are sequences of statements, so they keep the tables well formed and never turn the clock back.\<close>

abbreviation any_reach :: "web \<Rightarrow> auth_db \<Rightarrow> auth_db \<Rightarrow> bool" where
  "any_reach W \<equiv> auth_reach (wb_env W) (\<lambda>_. True)"

lemma reach_retryAfter: "any_reach W s0 s \<Longrightarrow> any_reach W s0 (snd (retryAfter E k s))"
  by (simp add: retryAfter_state auth_reach.select)

lemma reach_throttle: "any_reach W s0 s \<Longrightarrow> loginThrottle E u ip s = (w, t) \<Longrightarrow> any_reach W s0 t"
  unfolding loginThrottle_def
  by (auto dest: reach_retryAfter split: prod.splits if_splits) (metis reach_retryAfter snd_conv)+

lemma reach_login_log:
  assumes "any_reach W s0 s"
  shows "any_reach W s0 (loginFailed (wb_env W) u ip s)" "any_reach W s0 (loginSucceeded (wb_env W) u ip s)"
    "any_reach W s0 (AuditWithIP (wb_env W) a b c d e s)" "any_reach W s0 (snd (PurgeFailures (wb_env W) s))"
  unfolding loginFailed_def loginSucceeded_def Fail_def Reset_def PurgeFailures_def
  using assms by (auto intro!: reach_change)

lemma reach_finishLogin: "any_reach W s0 s \<Longrightarrow> any_reach W s0 (snd (finishLogin W r u next s))"
  unfolding finishLogin_def
  by (auto intro!: reach.acc_attempt reach_CreateUserSession [of "wb_manager W", folded wb_env_def] reach_login_log split: prod.split)

lemma reach_Authenticate_any: "any_reach W s0 s \<Longrightarrow> any_reach W s0 (snd (Authenticate (wb_manager W) u p s))"
  using reach_Authenticate [of "wb_manager W"] by (simp add: wb_env_def)

lemma reach_handleLoginSubmit: "any_reach W s0 s \<Longrightarrow> any_reach W s0 (snd (handleLoginSubmit W r u p next s))"
  unfolding handleLoginSubmit_def Let_def
  by (auto intro!: reach.acc_attempt reach_Authenticate_any reach_finishLogin reach_login_log dest: reach_throttle split: prod.split)

lemma reach_apiAuthLogin: "any_reach W s0 s \<Longrightarrow> any_reach W s0 (snd (apiAuthLogin W r u p name days s))"
  unfolding apiAuthLogin_def Let_def
  by (auto intro!: reach.acc_attempt reach_Authenticate_any reach_IssueAPIToken [of "wb_manager W", folded wb_env_def]
      reach_login_log dest: reach_throttle split: prod.split sum.split)

lemma reach_login_try: "any_reach W s0 s \<Longrightarrow> any_reach W s0 (snd (login_try W a s))"
proof (cases a)
  case (Form r u p "next")
  then show "any_reach W s0 s \<Longrightarrow> ?thesis"
    using reach_handleLoginSubmit [of W s0 s r u p "next"] by (auto split: prod.splits login_page.splits)
next
  case (Grant r u p name days)
  then show "any_reach W s0 s \<Longrightarrow> ?thesis"
    using reach_apiAuthLogin [of W s0 s r u p name days] by (auto split: prod.splits api_login.splits)
qed (auto intro: reach_login_log)

lemma login_try_tick: "tick s \<le> tick (snd (login_try W a s))"
  using reach_login_try [OF auth_reach.start] by (rule auth_reach_ticks)

lemma login_run_tick: "tick s \<le> tick (snd (login_run W as s))"
proof (induction "as" arbitrary: s)
  case (Cons a "as")
  then show ?case
    using login_try_tick [of s W a] by (fastforce split: prod.splits intro: order_trans)
qed simp

lemma login_run_length: "length (fst (login_run W as s)) = length as"
  by (induction "as" arbitrary: s) (auto split: prod.splits, metis fst_conv)

lemma login_step:
  assumes "database_works (wb_env W)" and "t0 \<le> now (wb_env W) s" and "now (wb_env W) (snd (login_try W a s)) < t0 + loginFailWindow"
  shows "step_ok t0 k (k \<in> attempt_keys a) (login_try W a s) s"
proof (cases a)
  case Janitor
  have "now (wb_env W) s < t0 + loginFailWindow"
    using assms(3) quiet_clock [OF assms(1) login_try_tick [of s W a]] by (simp add: now_def)
  with Janitor_step [OF assms(1,2)] Janitor show ?thesis by simp
qed (use assms Form_step Grant_step in \<open>auto simp del: login_try.simps\<close>)

definition refused_for :: "string \<Rightarrow> login_attempt list \<Rightarrow> verdict list \<Rightarrow> nat" where
  "refused_for k as vs = length (filter (\<lambda>(a, v). k \<in> attempt_keys a \<and> v = Checked) (zip as vs))"

lemma refused_for_bound:
  assumes "database_works (wb_env W)"
  shows "login_run W as s = (vs, s') \<Longrightarrow> t0 \<le> now (wb_env W) s \<Longrightarrow> now (wb_env W) s' < t0 + loginFailWindow \<Longrightarrow>
    \<forall>(a, v) \<in> set (zip as vs). k \<in> attempt_keys a \<longrightarrow> v \<noteq> Passed \<Longrightarrow>
    refused_for k as vs = 0 \<or> refused_for k as vs + failures_since t0 k s \<le> loginFailLimit"
proof (induction "as" arbitrary: s vs)
  case Nil
  then show ?case by (simp add: refused_for_def)
next
  case (Cons a "as")
  let ?E = "wb_env W"
  obtain v s1 where v: "login_try W a s = (v, s1)" by force
  obtain vs1 where vs: "login_run W as s1 = (vs1, s')" "vs = v # vs1"
    using Cons.prems(1) v by (auto split: prod.splits)
  have n: "tick s \<le> tick s1" "tick s1 \<le> tick s'"
    using login_try_tick [of s W a] login_run_tick [of s1 W "as"] v vs by simp_all
  have t0: "t0 \<le> now ?E s1" and last: "now ?E s1 < t0 + loginFailWindow"
    using Cons.prems(2,3) quiet_clock [OF assms n(1)] quiet_clock [OF assms n(2)] by (simp_all add: now_def)
  have step: "step_ok t0 k (k \<in> attempt_keys a) (v, s1) s"
    using login_step [OF assms Cons.prems(2), of a] v last by simp
  have "refused_for k as vs1 = 0 \<or> refused_for k as vs1 + failures_since t0 k s1 \<le> loginFailLimit"
    using Cons.IH [OF vs(1) t0 Cons.prems(3)] Cons.prems(4) vs(2) by simp
  moreover have "refused_for k (a # as) vs = (if k \<in> attempt_keys a \<and> v = Checked then 1 else 0) + refused_for k as vs1"
    using vs(2) by (simp add: refused_for_def)
  moreover have "k \<in> attempt_keys a \<longrightarrow> v \<noteq> Passed" using Cons.prems(4) vs(2) by simp
  ultimately show ?case using step by (auto simp: step_ok_def counts_up_def split: if_splits)
qed



section \<open>Who gets in\<close>

lemma userFromRequest_Some:
  assumes "userFromRequest W r s = (Some (u, c), s')"
  shows "rq_session r = Some c \<and> c \<noteq> [] \<and> UserFromSession (wb_manager W) c s = (Inr u, s')"
  using assms by (auto simp: userFromRequest_def split: option.splits if_splits attempt_splits)

text \<open>The token that a request presents.\<close>

definition presented_token :: "request \<Rightarrow> string" where
  "presented_token r = trim_space (drop 7 (rq_authorization r))"

text \<open>C9 (api.go, apiAuth; session.go, userFromRequest, checkCSRF): a request that enters the API has one of two
  credentials. With a bearer header, the token presented there carries the prefix of this server's tokens, and its hash is
  that of a stored token, neither revoked nor expired, whose owner is enabled; the request runs as that owner, with the
  lower of the two roles. Without one, the session cookie is that of a stored session that is alive; the request runs as
  its user, who is enabled, and is a read or echoes the CSRF cookie. What is for administrators is entered by an
  administrator, with a token only if the token and its owner both are.\<close>

theorem apiAuth_sound:
  assumes "apiAuth W adminOnly r s = (Entered u tok, s')"
  shows "(adminOnly \<longrightarrow> IsAdmin u) \<and>
    (case tok of
       Some k \<Rightarrow> has_prefix (to_lower (rq_authorization r)) bearer \<and> has_prefix (presented_token r) TokenPrefix \<and>
         (\<exists>x \<in> set (rows (api_tokens s)). \<exists>v \<in> set (rows (users s)).
           tk_token_hash x = HashToken (wb_manager W) (presented_token r) \<and> k = with_owner s x \<and>
           \<not> tk_revoked x \<and> \<not> token_expired (clock (wb_env W) (Suc (tick s))) x \<and> u_id v = tk_user_id x \<and>
           \<not> u_disabled v \<and> u = effective_user v x \<and> (IsAdmin u \<longleftrightarrow> IsAdmin v \<and> tk_role x = RoleAdmin))
     | None \<Rightarrow> \<not> has_prefix (to_lower (rq_authorization r)) bearer \<and>
         (rq_safe r \<or> (\<exists>c. rq_csrf r = Some c \<and> c \<noteq> [] \<and> c = (if rq_csrf_header r = [] then rq_csrf_form r else rq_csrf_header r))) \<and>
         u \<in> set (rows (users s)) \<and> \<not> u_disabled u \<and>
         (\<exists>c. rq_session r = Some c \<and> c \<noteq> [] \<and> (\<exists>x \<in> set (rows (sessions s)).
            ss_token_hash x = HashToken (wb_manager W) c \<and> ss_user_id x = u_id u \<and> now (wb_env W) s < ss_expires_at x)))"
proof (cases "has_prefix (to_lower (rq_authorization r)) bearer")
  case True
  from True assms obtain k where k: "UserFromAPIToken (wb_manager W) (presented_token r) s = (Inr (u, k), s')" "tok = Some k"
    "adminOnly \<longrightarrow> IsAdmin u"
    by (auto simp: apiAuth_def Let_def presented_token_def split: attempt_splits prod.splits if_splits)
  have "trim_space (presented_token r) = presented_token r" by (simp add: presented_token_def)
  with UserFromAPIToken_sound [OF k(1)] k(2,3) True show ?thesis by (simp add: wb_env_def) blast
next
  case False
  then obtain c where c: "userFromRequest W r s = (Some (u, c), s')" and rest: "tok = None" "adminOnly \<longrightarrow> IsAdmin u"
    "rq_safe r \<or> checkCSRF r"
    using assms by (auto simp: apiAuth_def Let_def split: prod.splits option.splits if_splits)
  from userFromRequest_Some [OF c] UserFromSession_Inr [of "wb_manager W" c s u s'] rest False show ?thesis
    by (auto simp: checkCSRF_def ConstantTimeEqual_def Let_def wb_env_def split: option.splits if_splits)
qed

lemma requireAdmin_sound:
  assumes "requireAdmin W r s = (Page u c, s')"
  shows "IsAdmin u \<and> \<not> u_disabled u \<and> u \<in> set (rows (users s)) \<and> (rq_safe r \<or> checkCSRF r)"
proof -
  have "userFromRequest W r s = (Some (u, c), s')" and *: "IsAdmin u" "rq_safe r \<or> checkCSRF r"
    using assms by (auto simp: requireAdmin_def requireUser_def split: prod.splits option.splits if_splits page_gate.splits)
  from userFromRequest_Some [OF this(1)] UserFromSession_Inr [of "wb_manager W" c s u s'] * show ?thesis by auto
qed

text \<open>A sign-in through the provider needs the state that this browser was given, and a code that the provider redeems
  together with the nonce of that state.\<close>

lemma handleOIDCCallback_sound:
  assumes "handleOIDCCallback W r provErr gotState code s = (Some (SignedIn tok dest), s')"
  shows "\<exists>sv exchange x u s1. rq_oidc_state r = Some sv \<and> gotState = os_state sv \<and> gotState \<noteq> [] \<and> os_nonce sv \<noteq> [] \<and>
    wb_exchange W = Some exchange \<and> exchange code (os_nonce sv) (tick s) = OidcIdentity x \<and>
    SyncOIDCUser (wb_manager W) x s = (Inr u, s1) \<and> finishLogin W r u (os_next sv) s1 = (SignedIn tok dest, s')"
  using assms
  by (auto simp: handleOIDCCallback_def takeOIDCState_def ConstantTimeEqual_def Let_def
      split: option.splits if_splits oidc_answer.splits prod.splits attempt_splits)

section \<open>The lifetime of a granted token\<close>

lemma sint_day: "sint day = 86400000000000"
  by (simp add: day_def)

lemma days_in_seconds:
  assumes "0 < sint days" and "sint days \<le> 106751"
  shows "sint (days * day) = sint days * 86400000000000"
proof -
  have "sint (days * day) = signed_take_bit 63 (sint days * sint day)" by (simp add: sint_word_ariths)
  also have "\<dots> = sint days * sint day"
    using assms by (intro signed_take_bit_int_eq_self) (simp_all add: sint_day)
  finally show ?thesis by (simp add: sint_day)
qed

lemma loginTokenTTL_positive:
  assumes "loginTokenTTL W days = Inr ttl" and "0 < sint (wb_login_max_days W)" and "sint (wb_login_max_days W) \<le> 106751"
  shows "0 < sint ttl \<and> (days \<noteq> 0 \<longrightarrow> in_seconds ttl = 86400 * sint days \<and> 0 < sint days \<and> sint days \<le> sint (wb_login_max_days W))"
proof (cases "days = 0")
  case True
  have "sint (30 * day) = 2592000000000000" by (simp add: day_def)
  with True assms(1) show ?thesis by (auto simp: loginTokenTTL_def Let_def split: if_splits)
next
  case False
  have "sint days \<noteq> 0" using False by (metis signed_0 signed_word_eqI)
  with False assms have d: "0 < sint days" "sint days \<le> sint (wb_login_max_days W)" "ttl = days * day"
    by (auto simp: loginTokenTTL_def split: if_splits)
  with assms(3) have "sint ttl = sint days * 86400000000000" by (simp add: days_in_seconds)
  with d show ?thesis by (simp add: in_seconds_def)
qed

text \<open>The comment above the function says that it never returns zero, which would be a token without an end. It does when no
  maximum is configured (or one beyond 106751 days), because the product wraps around.\<close>

lemma loginTokenTTL_wraps:
  assumes "\<not> (0 < sint (wb_login_max_days W) \<and> sint (wb_login_max_days W) < 281474976710656)"
  shows "loginTokenTTL W 281474976710656 = Inr 0"
  using assms by (simp add: loginTokenTTL_def day_def)

text \<open>(api_auth.go, apiAuthLogin, loginTokenTTL; auth.go, IssueAPIToken): with a maximum of 1 to 106751 days, a token granted
  for a password always has an end, which is later than its issue and for a requested number of days exactly those days,
  at most the maximum; and it is an administrator's token only for an administrator.\<close>

theorem login_token_expires:
  assumes "apiAuthLogin W r u p name days s = (LoginToken plain k usr, s')" and "auth_wf s"
    and "0 < sint (wb_login_max_days W)" and "sint (wb_login_max_days W) \<le> 106751"
  shows "\<exists>n ttl. loginTokenTTL W days = Inr ttl \<and> 0 < sint ttl \<and>
    tk_expires_at k = Some (clock (wb_env W) n + in_seconds ttl) \<and>
    (days = 0 \<or> 0 < sint days \<and> sint days \<le> sint (wb_login_max_days W) \<and> in_seconds ttl = 86400 * sint days) \<and>
    (tk_role k = RoleAdmin \<longrightarrow> IsAdmin usr) \<and> tk_user_id k = u_id usr"
proof -
  let ?E = "wb_env W" and ?u = "trim_space u"
  obtain wait s1 where th: "loginThrottle ?E ?u (rq_ip r) s = (wait, s1)" by force
  obtain s2 s3 ttl where ttl: "loginTokenTTL W days = Inr ttl"
    and au: "Authenticate (wb_manager W) ?u p s1 = (Inr usr, s2)"
    and i: "IssueAPIToken (wb_manager W) usr (login_token_name name) (u_role usr) ttl (loginSucceeded ?E ?u (rq_ip r) s2) = (Inr (plain, k), s3)"
    using assms(1) th
    by (auto simp: apiAuthLogin_def Let_def attempt_def split: if_splits sum.splits prod.splits)
  have "any_reach W s s2"
    using reach_Authenticate_any [OF reach_throttle [OF auth_reach.start th], where W = W and u = ?u and p = p] au by simp
  then have "auth_wf (loginSucceeded ?E ?u (rq_ip r) s2)" using reach_login_log(2) auth_reach_wf assms(2) by blast
  from IssueAPIToken_InrD [OF i this] loginTokenTTL_positive [OF ttl assms(3,4)] ttl show ?thesis
    by (auto simp: now_def wb_env_def)
qed


section \<open>Examples\<close>

definition demo_web :: web where
  "demo_web = \<lparr>wb_manager = demo_manager, wb_login_ttl = 2592000000000000, wb_login_max_days = 90, wb_exchange = None\<rparr>"

definition demo_request :: request where
  "demo_request = \<lparr>rq_ip = ''10.0.0.1'', rq_agent = ''ua'', rq_safe = False, rq_session = None, rq_csrf = Some ''c'',
     rq_csrf_header = [], rq_csrf_form = ''c'', rq_authorization = [], rq_oidc_state = None\<rparr>"

definition demo_form :: "string \<Rightarrow> string \<Rightarrow> string \<Rightarrow> login_attempt" where
  "demo_form ip u p = Form (demo_request\<lparr>rq_ip := ip\<rparr>) u p []"

lemma demo_quiet: "database_works (wb_env demo_web)"
  by (simp add: database_works_def wb_env_def demo_web_def demo_manager_def demo_auth_env_def)

text \<open>Five refusals and then the door is shut, from wherever the attempt comes.\<close>

definition demo_attempts :: "login_attempt list" where
  "demo_attempts = [demo_form ''1'' ''alice'' ''a'', demo_form ''2'' ''alice'' ''b'', demo_form ''3'' ''alice'' ''c'',
     demo_form ''4'' ''alice'' ''d'', Janitor, demo_form ''5'' ''alice'' ''e'', demo_form ''6'' ''alice'' ''password'']"


text \<open>The key of the user is the name as it was typed, and accounts are found without regard to case: spelling the name in
  another way opens a new count for the same account.\<close>

lemma throttle_ignores_case:
  "fst (login_run demo_web
     [demo_form ''1'' ''alice'' ''a'', demo_form ''2'' ''alice'' ''b'', demo_form ''3'' ''alice'' ''c'', demo_form ''4'' ''alice'' ''d'',
      demo_form ''5'' ''alice'' ''e'', demo_form ''6'' ''alice'' ''f'', demo_form ''7'' ''Alice'' ''g''] demo_auth_db) =
   [Checked, Checked, Checked, Checked, Checked, Held, Checked]"
  by code_simp

text \<open>Two attempts that are checked before either is recorded both pass on the last free place, and six are counted.\<close>

definition alice_fails :: "auth_db \<Rightarrow> auth_db" where
  "alice_fails = loginFailed (wb_env demo_web) ''alice'' ''1''"

definition alice_waits :: "auth_db \<Rightarrow> int \<times> auth_db" where
  "alice_waits = loginThrottle (wb_env demo_web) ''alice'' ''1''"

lemma overlapping_attempts_pass:
  "let (wait1, s1) = alice_waits (alice_fails (alice_fails (alice_fails (alice_fails demo_auth_db))));
       (wait2, s2) = alice_waits s1 in
   wait1 = 0 \<and> wait2 = 0 \<and> length (filter (\<lambda>f. fl_key f = user_key ''alice'') (auth_failures (alice_fails (alice_fails s2)))) = 6"
  by code_simp

text \<open>A success forgets the count of the address, so who has an account of their own can go on guessing others from one
  address.\<close>

lemma success_resets_address:
  "fst (login_run demo_web
     [demo_form ''1'' ''u1'' ''a'', demo_form ''1'' ''u2'' ''b'', demo_form ''1'' ''u3'' ''c'', demo_form ''1'' ''u4'' ''d'',
      demo_form ''1'' ''alice'' ''password'',
      demo_form ''1'' ''u5'' ''e'', demo_form ''1'' ''u6'' ''f''] demo_auth_db) =
   [Checked, Checked, Checked, Checked, Passed, Checked, Checked]"
  by code_simp

text \<open>What follows the first slash is not looked at beyond a second slash; browsers read a backslash as a slash.\<close>

lemma login_dest_leaves_site: "login_dest (''/'' @ [CHR 0x5C] @ ''evil.example'') = ''/'' @ [CHR 0x5C] @ ''evil.example''"
  by (simp add: login_dest_def has_prefix_def)

lemma login_dest_no_double_slash: "has_prefix (login_dest next) ''/'' \<and> \<not> has_prefix (login_dest next) ''//''"
  by (auto simp: login_dest_def has_prefix_def)

lemma apiAuth_sound_witness:
  "\<exists>x \<in> set (rows (api_tokens (snd (IssueAPIToken demo_manager demo_admin ''ci'' [] 0 demo_auth_db)))). \<not> tk_revoked x \<and> tk_role x = RoleAdmin"
proof -
  let ?s = "snd (IssueAPIToken demo_manager demo_admin ''ci'' [] 0 demo_auth_db)"
  let ?g = "apiAuth demo_web True (demo_request\<lparr>rq_authorization := ''Bearer goca_6162_t0k''\<rparr>) ?s"
  have "case fst ?g of Entered u (Some k) \<Rightarrow> True | _ \<Rightarrow> False" by code_simp
  then obtain u k where "?g = (Entered u (Some k), snd ?g)"
    by (auto split: api_gate.splits option.splits) (metis prod.collapse)
  from apiAuth_sound [OF this] show ?thesis by auto
qed

lemma login_token_expires_witness:
  "\<exists>n ttl. loginTokenTTL demo_web 7 = Inr ttl \<and> 0 < sint ttl \<and> in_seconds ttl = 604800 \<and>
     clock demo_auth_env n + in_seconds ttl > clock demo_auth_env n"
proof -
  let ?r = "apiAuthLogin demo_web demo_request ''alice'' ''password'' [] 7 demo_auth_db"
  have "case fst ?r of LoginToken a b c \<Rightarrow> True | _ \<Rightarrow> False" by code_simp
  then obtain plain k usr where "?r = (LoginToken plain k usr, snd ?r)"
    by (auto split: api_login.splits) (metis prod.collapse)
  moreover have "0 < sint (wb_login_max_days demo_web)" "sint (wb_login_max_days demo_web) \<le> 106751"
    by (simp_all add: demo_web_def)
  ultimately obtain ttl :: "64 word" where "loginTokenTTL demo_web 7 = Inr ttl" "0 < sint ttl" "in_seconds ttl = 604800"
    using login_token_expires [OF _ demo_auth_wf] by fastforce
  then show ?thesis by auto
qed

end
