(* ===== verification/User_Admin.thy ===== *)
theory User_Admin
  imports Login
begin

text \<open>
  The handlers that administer accounts and tokens: the portal's (\<open>internal/web/pages.go\<close>) and the API's
  (\<open>internal/web/api.go\<close>), after the request was admitted by \<open>requireUser\<close>, \<open>requireAdmin\<close> or \<open>apiAuth\<close>. \<open>actor\<close> is the
  user of the request. Decoding, rendering and the text of messages are left out.
\<close>


section \<open>References\<close>

text \<open>\<open>strconv.ParseInt(x, 10, 64)\<close>, which is also \<open>strconv.Atoi\<close>.\<close>

definition ParseInt :: "string \<Rightarrow> int option" where
  "ParseInt x =
     (let neg = (x \<noteq> [] \<and> hd x = CHR ''-'');
          ds = (if x \<noteq> [] \<and> hd x \<in> {CHR ''-'', CHR ''+''} then tl x else x);
          n = (if neg then - int (nat_of_string ds) else int (nat_of_string ds))
      in if ds \<noteq> [] \<and> list_all is_digit ds \<and> - 9223372036854775808 \<le> n \<and> n \<le> 9223372036854775807 then Some n else None)"

definition atoiDefault :: "string \<Rightarrow> int \<Rightarrow> int" where
  "atoiDefault x def = (if x = [] then def else case ParseInt (trim_space x) of None \<Rightarrow> def | Some n \<Rightarrow> n)"

text \<open>No row has a negative key.\<close>

definition GetUserInt :: "env \<Rightarrow> int \<Rightarrow> auth_db \<Rightarrow> User auth_stmt" where
  "GetUserInt E i s = (if i < 0 then query_row E (\<lambda>_. Inl ErrNotFound) s else GetUser E (nat i) s)"

datatype admin_page = BadId | UserNotFound | NotYours | FlashError | FlashSuccess

definition lookupUser :: "env \<Rightarrow> string \<Rightarrow> auth_db \<Rightarrow> (admin_page, User, auth_db) outcome" where
  "lookupUser E ref s =
     (case ParseInt ref of
        None \<Rightarrow> (Inl BadId, s)
      | Some i \<Rightarrow> attempt (GetUserInt E i s) (\<lambda>_ s. (Inl UserNotFound, s)) (\<lambda>u s. (Inr u, s)))"

definition store_status :: "db_error \<Rightarrow> int" where
  "store_status e = (if e = ErrNotFound then 404 else 400)"

type_synonym 'a api_op = "(int, 'a, auth_db) outcome"

definition pathUser :: "env \<Rightarrow> string \<Rightarrow> auth_db \<Rightarrow> User api_op" where
  "pathUser E ref s =
     (let by_name = (\<lambda>s. attempt (GetUserByName E ref s) (\<lambda>e s. (Inl (store_status e), s)) (\<lambda>u s. (Inr u, s))) in
      if ref = [] then (Inl 400, s)
      else case ParseInt ref of
        None \<Rightarrow> by_name s
      | Some i \<Rightarrow> attempt (GetUserInt E i s) (\<lambda>_ s. by_name s) (\<lambda>u s. (Inr u, s)))"


section \<open>Accounts\<close>

definition isLastAdmin :: "env \<Rightarrow> User \<Rightarrow> auth_db \<Rightarrow> bool \<times> auth_db" where
  "isLastAdmin E target s =
     (if \<not> IsAdmin target then (False, s)
      else attempt (ListUsers E s)
        (\<lambda>_ s. (True, s))
        (\<lambda>us s. (length (filter (\<lambda>u. IsAdmin u \<and> \<not> u_disabled u) us) \<le> 1, s)))"

definition known_role :: "string \<Rightarrow> string" where
  "known_role role = (if role \<noteq> RoleAdmin then RoleUser else role)"

definition handleUserRole :: "env \<Rightarrow> User \<Rightarrow> string \<Rightarrow> string \<Rightarrow> string \<Rightarrow> auth_db \<Rightarrow> admin_page \<times> auth_db" where
  "handleUserRole E actor ip ref role0 s =
     attempt (lookupUser E ref s)
       (\<lambda>page s. (page, s))
       (\<lambda>target s.
          let role = known_role role0;
              (lst, s) = (if role = RoleUser then isLastAdmin E target s else (False, s)) in
          if lst then (FlashError, s)
          else attempt (SetUserRole E (u_id target) role s)
            (\<lambda>_ s. (FlashError, s))
            (\<lambda>_ s. (FlashSuccess, AuditWithIP E (u_username actor) ''user.role'' (u_username target) role ip s)))"

definition bool_word :: "bool \<Rightarrow> string" where
  "bool_word b = (if b then ''true'' else ''false'')"

definition handleUserDisable :: "env \<Rightarrow> User \<Rightarrow> string \<Rightarrow> string \<Rightarrow> bool \<Rightarrow> auth_db \<Rightarrow> admin_page \<times> auth_db" where
  "handleUserDisable E actor ip ref disabled s =
     attempt (lookupUser E ref s)
       (\<lambda>page s. (page, s))
       (\<lambda>target s.
          let (lst, s) = (if disabled then isLastAdmin E target s else (False, s)) in
          if lst then (FlashError, s)
          else attempt (SetUserDisabled E (u_id target) disabled s)
            (\<lambda>_ s. (FlashError, s))
            (\<lambda>_ s. let s = (if disabled then snd (DeleteUserSessions E (u_id target) s) else s) in
               (FlashSuccess, AuditWithIP E (u_username actor) ''user.disable'' (u_username target)
                  (''disabled='' @ bool_word disabled) ip s)))"

definition handleUserDelete :: "env \<Rightarrow> User \<Rightarrow> string \<Rightarrow> string \<Rightarrow> auth_db \<Rightarrow> admin_page \<times> auth_db" where
  "handleUserDelete E actor ip ref s =
     attempt (lookupUser E ref s)
       (\<lambda>page s. (page, s))
       (\<lambda>target s.
          let (lst, s) = isLastAdmin E target s in
          if lst then (FlashError, s)
          else attempt (DeleteUser E (u_id target) s)
            (\<lambda>_ s. (FlashError, s))
            (\<lambda>_ s. (FlashSuccess, AuditWithIP E (u_username actor) ''user.delete'' (u_username target) [] ip s)))"

definition handleUserCreate ::
  "manager \<Rightarrow> User \<Rightarrow> string \<Rightarrow> string \<Rightarrow> string \<Rightarrow> string \<Rightarrow> string \<Rightarrow> string \<Rightarrow> auth_db \<Rightarrow> admin_page \<times> auth_db" where
  "handleUserCreate M actor ip username password display email role s =
     attempt (CreateLocalUser M (trim_space username) password (trim_space display) (trim_space email) role s)
       (\<lambda>_ s. (FlashError, s))
       (\<lambda>u s. (FlashSuccess, AuditWithIP (mg_env M) (u_username actor) ''user.create'' (u_username u) (''role='' @ u_role u) ip s))"

definition handleChangePassword :: "manager \<Rightarrow> User \<Rightarrow> string \<Rightarrow> string \<Rightarrow> string \<Rightarrow> auth_db \<Rightarrow> admin_page \<times> auth_db" where
  "handleChangePassword M actor ip current next s =
     attempt (GetUserByName (mg_env M) (u_username actor) s)
       (\<lambda>_ s. (FlashError, s))
       (\<lambda>full s.
          if \<not> CheckPassword M (u_pass_hash full) current then (FlashError, s)
          else attempt (SetPassword M full next s)
            (\<lambda>_ s. (FlashError, s))
            (\<lambda>_ s. (FlashSuccess, AuditWithIP (mg_env M) (u_username actor) ''user.password_change'' (u_username actor) [] ip s)))"

text \<open>The three parts of a patch; what is not named is left.\<close>

definition patch_role :: "env \<Rightarrow> User \<Rightarrow> string option \<Rightarrow> auth_db \<Rightarrow> unit api_op" where
  "patch_role E target role0 s =
     (case role0 of
        None \<Rightarrow> (Inr (), s)
      | Some r \<Rightarrow>
          let role = known_role r;
              (lst, s) = (if role = RoleUser then isLastAdmin E target s else (False, s)) in
          if lst then (Inl 400, s)
          else attempt (SetUserRole E (u_id target) role s) (\<lambda>e s. (Inl (store_status e), s)) (\<lambda>_ s. (Inr (), s)))"

definition patch_disabled :: "env \<Rightarrow> User \<Rightarrow> bool option \<Rightarrow> auth_db \<Rightarrow> unit api_op" where
  "patch_disabled E target d0 s =
     (case d0 of
        None \<Rightarrow> (Inr (), s)
      | Some d \<Rightarrow>
          let (lst, s) = (if d then isLastAdmin E target s else (False, s)) in
          if lst then (Inl 400, s)
          else attempt (SetUserDisabled E (u_id target) d s)
            (\<lambda>e s. (Inl (store_status e), s))
            (\<lambda>_ s. (Inr (), if d then snd (DeleteUserSessions E (u_id target) s) else s)))"

definition patch_password :: "manager \<Rightarrow> User \<Rightarrow> string option \<Rightarrow> auth_db \<Rightarrow> unit api_op" where
  "patch_password M target p0 s =
     (case p0 of
        None \<Rightarrow> (Inr (), s)
      | Some p \<Rightarrow> attempt (SetPassword M target p s) (\<lambda>_ s. (Inl 400, s)) (\<lambda>_ s. (Inr (), s)))"

definition apiUserPatch ::
  "manager \<Rightarrow> User \<Rightarrow> string \<Rightarrow> string \<Rightarrow> string option \<Rightarrow> bool option \<Rightarrow> string option \<Rightarrow> auth_db \<Rightarrow> User api_op" where
  "apiUserPatch M actor ip ref role disabled password s =
     (let E = mg_env M in
      attempt (pathUser E ref s) (\<lambda>c s. (Inl c, s))
        (\<lambda>target s. attempt (patch_role E target role s) (\<lambda>c s. (Inl c, s))
          (\<lambda>_ s. attempt (patch_disabled E target disabled s) (\<lambda>c s. (Inl c, s))
            (\<lambda>_ s. attempt (patch_password M target password s) (\<lambda>c s. (Inl c, s))
              (\<lambda>_ s. attempt (GetUser E (u_id target) s) (\<lambda>e s. (Inl (store_status e), s))
                (\<lambda>u s. (Inr u, AuditWithIP E (u_username actor) ''user.update'' (u_username u) [] ip s)))))))"

definition apiUserDelete :: "env \<Rightarrow> User \<Rightarrow> string \<Rightarrow> string \<Rightarrow> auth_db \<Rightarrow> unit api_op" where
  "apiUserDelete E actor ip ref s =
     attempt (pathUser E ref s) (\<lambda>c s. (Inl c, s))
       (\<lambda>target s.
          let (lst, s) = isLastAdmin E target s in
          if lst then (Inl 400, s)
          else attempt (DeleteUser E (u_id target) s)
            (\<lambda>e s. (Inl (store_status e), s))
            (\<lambda>_ s. (Inr (), AuditWithIP E (u_username actor) ''user.delete'' (u_username target) [] ip s)))"

definition apiUserCreate ::
  "manager \<Rightarrow> User \<Rightarrow> string \<Rightarrow> string \<Rightarrow> string \<Rightarrow> string \<Rightarrow> string \<Rightarrow> string \<Rightarrow> auth_db \<Rightarrow> User api_op" where
  "apiUserCreate M actor ip username password display email role s =
     attempt (CreateLocalUser M username password display email role s)
       (\<lambda>_ s. (Inl 400, s))
       (\<lambda>u s. (Inr u, AuditWithIP (mg_env M) (u_username actor) ''user.create'' (u_username u) (''role='' @ u_role u) ip s))"


section \<open>Tokens\<close>

text \<open>The number of days is a Go \<open>int\<close>; the form takes anything that is not positive for a token without an end.\<close>

definition form_ttl :: "int \<Rightarrow> 64 word" where
  "form_ttl days = (if 0 < days then word_of_int days * day else 0)"

definition handleTokenCreate ::
  "manager \<Rightarrow> User \<Rightarrow> string \<Rightarrow> string \<Rightarrow> string \<Rightarrow> string \<Rightarrow> auth_db \<Rightarrow> (string \<times> APIToken) option \<times> auth_db" where
  "handleTokenCreate M actor ip name role days s =
     attempt (IssueAPIToken M actor (trim_space name) role (form_ttl (atoiDefault days 365)) s)
       (\<lambda>_ s. (None, s))
       (\<lambda>(plain, k) s. (Some (plain, k),
          AuditWithIP (mg_env M) (u_username actor) ''token.create'' (tk_name k) (''role='' @ tk_role k) ip s))"

definition apiTokenCreate ::
  "manager \<Rightarrow> User \<Rightarrow> string \<Rightarrow> string \<Rightarrow> string \<Rightarrow> 64 word \<Rightarrow> auth_db \<Rightarrow> (string \<times> APIToken) api_op" where
  "apiTokenCreate M actor ip name role days s =
     (if sint days < 0 then (Inl 400, s)
      else attempt (IssueAPIToken M actor name role (if 0 < sint days then days * day else 0) s)
       (\<lambda>_ s. (Inl 400, s))
       (\<lambda>(plain, k) s. (Inr (plain, k),
          AuditWithIP (mg_env M) (u_username actor) ''token.create'' (tk_name k) (''role='' @ tk_role k) ip s)))"

text \<open>The test that both handlers make: a failure of the list is an empty list.\<close>

definition may_revoke :: "manager \<Rightarrow> User \<Rightarrow> int \<Rightarrow> auth_db \<Rightarrow> bool \<times> auth_db" where
  "may_revoke M actor i s =
     (if IsAdmin actor then (True, s)
      else attempt (TokensOf M (u_id actor) s) (\<lambda>_ s. (False, s)) (\<lambda>ks s. (\<exists>k \<in> set ks. int (tk_id k) = i, s)))"

definition revoke_by_id :: "manager \<Rightarrow> int \<Rightarrow> auth_db \<Rightarrow> unit auth_op" where
  "revoke_by_id M i s =
     (if i < 0 then stored (query_row (mg_env M) (\<lambda>_. Inl ErrNotFound :: db_error + unit) s) (\<lambda>_ s. (Inr (), s)) else RevokeToken M (nat i) s)"

definition handleTokenRevoke :: "manager \<Rightarrow> User \<Rightarrow> string \<Rightarrow> string \<Rightarrow> auth_db \<Rightarrow> admin_page \<times> auth_db" where
  "handleTokenRevoke M actor ip ref s =
     (case ParseInt ref of
        None \<Rightarrow> (BadId, s)
      | Some i \<Rightarrow>
          let (ok, s) = may_revoke M actor i s in
          if \<not> ok then (NotYours, s)
          else attempt (revoke_by_id M i s)
            (\<lambda>_ s. (FlashError, s))
            (\<lambda>_ s. (FlashSuccess, AuditWithIP (mg_env M) (u_username actor) ''token.revoke''
               (string_of_nat (nat i)) [] ip s)))"

definition apiTokenRevoke :: "manager \<Rightarrow> User \<Rightarrow> string \<Rightarrow> auth_db \<Rightarrow> unit api_op" where
  "apiTokenRevoke M actor ref s =
     (case ParseInt ref of
        None \<Rightarrow> (Inl 400, s)
      | Some i \<Rightarrow>
          let (ok, s) = may_revoke M actor i s in
          if \<not> ok then (Inl 403, s)
          else attempt (revoke_by_id M i s)
            (\<lambda>e s. (Inl (if e = AuthStore ErrNotFound then 404 else 400), s))
            (\<lambda>_ s. (Inr (), s)))"


section \<open>An administrator remains\<close>

definition enabled_admin :: "User \<Rightarrow> bool" where
  "enabled_admin u \<longleftrightarrow> IsAdmin u \<and> \<not> u_disabled u"

definition has_admin :: "auth_db \<Rightarrow> bool" where
  "has_admin s \<longleftrightarrow> (\<exists>u \<in> set (rows (users s)). enabled_admin u)"

definition other_admin :: "nat \<Rightarrow> auth_db \<Rightarrow> bool" where
  "other_admin i s \<longleftrightarrow> (\<exists>u \<in> set (rows (users s)). enabled_admin u \<and> u_id u \<noteq> i)"

lemma other_admin_has: "other_admin i s \<Longrightarrow> has_admin s"
  by (auto simp: other_admin_def has_admin_def)

lemma admin_tick [simp]:
  "has_admin (s\<lparr>tick := n\<rparr>) = has_admin s" "other_admin i (s\<lparr>tick := n\<rparr>) = other_admin i s"
  by (simp_all add: has_admin_def other_admin_def)

text \<open>The statements that take no role and no access from anyone, and those that concern one account.\<close>

fun calm :: "auth_statement \<Rightarrow> bool" where
  "calm (RefreshUser u x) \<longleftrightarrow> False"
| "calm (PutRole i r) \<longleftrightarrow> r = RoleAdmin"
| "calm (PutDisabled i d) \<longleftrightarrow> \<not> d"
| "calm (DropUser i) \<longleftrightarrow> False"
| "calm _ \<longleftrightarrow> True"

fun concerns :: "nat \<Rightarrow> auth_statement \<Rightarrow> bool" where
  "concerns i (RefreshUser u x) \<longleftrightarrow> False"
| "concerns i (PutRole j r) \<longleftrightarrow> j = i"
| "concerns i (PutDisabled j d) \<longleftrightarrow> j = i"
| "concerns i (DropUser j) \<longleftrightarrow> j = i"
| "concerns i _ \<longleftrightarrow> True"

lemma calm_keeps_admin:
  assumes "has_admin s" and "calm st"
  shows "has_admin (auth_exec E st s)"
  using assms
  by (cases st) (auto simp: has_admin_def enabled_admin_def IsAdmin_def auth_stmt_defs stmt_defs bex_update_where)

lemma concerns_keeps_other:
  assumes "other_admin i s" and "concerns i st"
  shows "other_admin i (auth_exec E st s)"
  using assms
  by (cases st) (auto simp: other_admin_def enabled_admin_def IsAdmin_def auth_stmt_defs stmt_defs bex_update_where)

lemma reach_calm: "auth_reach E calm s t \<Longrightarrow> has_admin s \<Longrightarrow> has_admin t"
  by (erule auth_reach_invariant) (auto intro: calm_keeps_admin)

lemma reach_concerns: "auth_reach E (concerns i) s t \<Longrightarrow> other_admin i s \<Longrightarrow> other_admin i t"
  by (erule auth_reach_invariant) (auto intro: concerns_keeps_other)

lemma isLastAdmin_state: "snd (isLastAdmin E target s) = s \<or> snd (isLastAdmin E target s) = s\<lparr>tick := Suc (tick s)\<rparr>"
  by (auto simp: isLastAdmin_def ListUsers_def stmt_defs)

lemma reach_isLastAdmin: "auth_reach E Q s0 s \<Longrightarrow> auth_reach E Q s0 (snd (isLastAdmin F target s))"
  unfolding isLastAdmin_def by (auto intro!: reach.acc_attempt reach_reads)

text \<open>When an administrator is not the last one, there is another one.\<close>

lemma not_last_admin:
  assumes "fst (isLastAdmin E target s) = False" and "IsAdmin target" and "auth_wf s"
  shows "other_admin (u_id target) s"
proof -
  let ?as = "filter (\<lambda>u. IsAdmin u \<and> \<not> u_disabled u) (sort_key u_username (rows (users s)))"
  have n: "\<not> length ?as \<le> 1"
    using assms(1,2) by (auto simp: isLastAdmin_def ListUsers_def stmt_defs split: if_splits)
  have "distinct (map u_id (rows (users s)))" using assms(3) by (simp add: auth_wf_def wf_table_def)
  then have inj: "inj_on u_id (set (rows (users s)))" and d: "distinct (rows (users s))" by (simp_all add: distinct_map)
  have "distinct ?as" using d by simp
  moreover obtain x y zs where xy: "?as = x # y # zs" using n by (cases ?as; cases "tl ?as") auto
  ultimately have "x \<noteq> y" by auto
  moreover have "x \<in> set ?as" "y \<in> set ?as" unfolding xy by simp_all
  then have "x \<in> set (rows (users s))" "y \<in> set (rows (users s))" "enabled_admin x" "enabled_admin y"
    by (auto simp: enabled_admin_def)
  ultimately show ?thesis using inj unfolding other_admin_def by (metis inj_onD)
qed

lemma not_admin_other:
  assumes "has_admin s" and "auth_wf s" and "target \<in> set (rows (users s))" and "\<not> IsAdmin target"
  shows "other_admin (u_id target) s"
  using assms users_unique [OF assms(2)] by (fastforce simp: has_admin_def other_admin_def enabled_admin_def)

lemma guard_leaves_other:
  assumes "isLastAdmin E target s = (False, s1)" and "has_admin s" and "auth_wf s" and "target \<in> set (rows (users s))"
  shows "other_admin (u_id target) s1"
proof -
  have "other_admin (u_id target) s"
    using assms not_last_admin [of E target s] not_admin_other [OF assms(2-4)] by (cases "IsAdmin target") simp_all
  then show ?thesis using isLastAdmin_state [of E target s] assms(1) by auto
qed

lemma guarded_keeps_admin:
  assumes "auth_wf s" and "has_admin s" and "target \<in> set (rows (users s))" and "isLastAdmin E target s = (lst, s1)"
    and "lst \<Longrightarrow> auth_reach F calm s1 t" and "\<not> lst \<Longrightarrow> auth_reach F (concerns (u_id target)) s1 t"
  shows "has_admin t"
proof (cases lst)
  case True
  have "has_admin s1" using assms(2,4) isLastAdmin_state [of E target s] by auto
  then show ?thesis using reach_calm [OF assms(5)] True by simp
next
  case False
  then have "other_admin (u_id target) s1" using guard_leaves_other [OF _ assms(2,1,3)] assms(4) by simp
  then show ?thesis using reach_concerns [OF assms(6)] False other_admin_has by blast
qed

lemma reach_GetUserInt: "auth_reach E Q s0 s \<Longrightarrow> auth_reach E Q s0 (snd (GetUserInt F i s))"
  unfolding GetUserInt_def by (auto intro!: reach_reads reach.acc_query)

lemma reach_lookupUser: "auth_reach E Q s0 s \<Longrightarrow> auth_reach E Q s0 (snd (lookupUser F ref s))"
  unfolding lookupUser_def by (auto intro!: reach.acc_attempt reach_GetUserInt split: option.split)

lemma reach_pathUser: "auth_reach E Q s0 s \<Longrightarrow> auth_reach E Q s0 (snd (pathUser F ref s))"
  unfolding pathUser_def Let_def by (auto intro!: reach.acc_attempt reach_GetUserInt reach_reads split: option.split)

lemma reads_keep_users: "auth_reach E (\<lambda>_. False) s t \<Longrightarrow> \<exists>n. t = s\<lparr>tick := n\<rparr>"
  by (induction rule: auth_reach.induct) (auto intro: exI [of _ "tick s"])

lemma GetUserInt_Inr: "GetUserInt E i s = (Inr u, s') \<Longrightarrow> u \<in> set (rows (users s))"
  by (auto simp: GetUserInt_def dest!: query_row_Inr GetUser_Inr split: if_splits)

lemma lookupUser_Inr:
  assumes "lookupUser E ref s = (Inr u, s')"
  shows "u \<in> set (rows (users s')) \<and> (\<exists>n. s' = s\<lparr>tick := n\<rparr>)"
proof -
  have "u \<in> set (rows (users s))"
    using assms by (auto simp: lookupUser_def dest: GetUserInt_Inr split: option.splits attempt_splits)
  moreover have "\<exists>n. s' = s\<lparr>tick := n\<rparr>"
    using reads_keep_users [OF reach_lookupUser [OF auth_reach.start]] assms by (metis snd_conv)
  ultimately show ?thesis by auto
qed

lemma pathUser_Inr:
  assumes "pathUser E ref s = (Inr u, s')"
  shows "u \<in> set (rows (users s')) \<and> (\<exists>n. s' = s\<lparr>tick := n\<rparr>)"
proof -
  have keep: "\<exists>n. snd (GetUserInt E i s) = s\<lparr>tick := n\<rparr>" for i
    using reads_keep_users [OF reach_GetUserInt [OF auth_reach.start]] .
  have "u \<in> set (rows (users s))"
    using assms
  proof (cases "ParseInt ref")
    case None
    with assms show ?thesis by (auto simp: pathUser_def Let_def dest: GetUserByName_Inr split: if_splits attempt_splits)
  next
    case (Some i)
    obtain res s1 where g: "GetUserInt E i s = (res, s1)" by force
    with keep [of i] have "users s1 = users s" by auto
    with assms Some g show ?thesis
      by (cases res) (auto simp: pathUser_def Let_def dest: GetUserInt_Inr GetUserByName_Inr split: if_splits attempt_splits)
  qed
  moreover have "\<exists>n. s' = s\<lparr>tick := n\<rparr>"
    using reads_keep_users [OF reach_pathUser [OF auth_reach.start]] assms by (metis snd_conv)
  ultimately show ?thesis by auto
qed

text \<open>A handler finds an account and then acts on it.\<close>

lemma acts_on_account:
  assumes "auth_wf s" and "has_admin s"
    and found: "\<And>u s1. r = (Inr u, s1) \<Longrightarrow> u \<in> set (rows (users s1)) \<and> (\<exists>n. s1 = s\<lparr>tick := n\<rparr>)"
    and reads: "auth_reach E calm s (snd r)" and err: "\<And>e s1. snd (h e s1) = s1"
    and act: "\<And>u s1. auth_wf s1 \<Longrightarrow> has_admin s1 \<Longrightarrow> u \<in> set (rows (users s1)) \<Longrightarrow> has_admin (snd (k u s1))"
  shows "has_admin (snd (attempt r h k))"
proof (cases "fst r")
  case (Inl e)
  then have "snd (attempt r h k) = snd r" using err by (metis attempt_simps(1) prod.collapse)
  then show ?thesis using reach_calm [OF reads assms(2)] by simp
next
  case (Inr u)
  then have r: "r = (Inr u, snd r)" by (metis prod.collapse)
  from found [OF r] assms(1,2) have "has_admin (snd (k u (snd r)))" by (intro act) auto
  then show ?thesis using r by (metis attempt_simps(2))
qed

lemma guarded_action:
  assumes "auth_wf s" and "has_admin s" and "target \<in> set (rows (users s))"
    and "\<And>s. auth_reach E (concerns (u_id target)) s (snd (act s))"
  shows "has_admin (snd (case isLastAdmin E target s of (lst, s) \<Rightarrow> if lst then (page, s) else act s))"
proof -
  obtain lst s1 where g: "isLastAdmin E target s = (lst, s1)" by force
  have "has_admin (if lst then s1 else snd (act s1))"
    by (rule guarded_keeps_admin [OF assms(1-3) g]) (auto intro: auth_reach.start assms(4))
  with g show ?thesis by (cases lst) simp_all
qed

lemma calm_action: "auth_reach E calm s (snd r) \<Longrightarrow> has_admin s \<Longrightarrow> has_admin (snd r)"
  by (rule reach_calm)

lemmas reach_action = reach.acc_attempt reach_change auth_reach.start

lemma handleUserRole_keeps_admin:
  assumes "auth_wf s" and "has_admin s"
  shows "has_admin (snd (handleUserRole E actor ip ref role s))"
  unfolding handleUserRole_def
proof (rule acts_on_account [OF assms, where E = E])
  fix target s1
  assume s1: "auth_wf s1" "has_admin s1" "target \<in> set (rows (users s1))"
  let ?put = "\<lambda>role s. attempt (SetUserRole E (u_id target) role s) (\<lambda>_ s. (FlashError, s))
            (\<lambda>_ s. (FlashSuccess, AuditWithIP E (u_username actor) ''user.role'' (u_username target) role ip s))"
  have "has_admin (snd (?put RoleAdmin s1))"
    by (rule calm_action [where E = E, OF _ s1(2)]) (auto intro!: reach_action)
  moreover have "has_admin (snd (case isLastAdmin E target s1 of (lst, s) \<Rightarrow> if lst then (FlashError, s) else ?put RoleUser s))"
    by (rule guarded_action [OF s1]) (auto intro!: reach_action)
  ultimately show "has_admin (snd (let role = known_role role;
      (lst, s) = if role = RoleUser then isLastAdmin E target s1 else (False, s1) in if lst then (FlashError, s) else ?put role s))"
    by (cases "role = RoleAdmin") (simp_all add: known_role_def)
qed (auto intro: reach_lookupUser auth_reach.start dest: lookupUser_Inr)

lemma handleUserDisable_keeps_admin:
  assumes "auth_wf s" and "has_admin s"
  shows "has_admin (snd (handleUserDisable E actor ip ref disabled s))"
  unfolding handleUserDisable_def
proof (rule acts_on_account [OF assms, where E = E])
  fix target s1
  assume s1: "auth_wf s1" "has_admin s1" "target \<in> set (rows (users s1))"
  let ?put = "\<lambda>disabled s. attempt (SetUserDisabled E (u_id target) disabled s) (\<lambda>_ s. (FlashError, s))
            (\<lambda>_ s. let s = (if disabled then snd (DeleteUserSessions E (u_id target) s) else s) in
               (FlashSuccess, AuditWithIP E (u_username actor) ''user.disable'' (u_username target)
                  (''disabled='' @ bool_word disabled) ip s))"
  have "has_admin (snd (?put False s1))"
    by (rule calm_action [where E = E, OF _ s1(2)]) (auto intro!: reach_action)
  moreover have "has_admin (snd (case isLastAdmin E target s1 of (lst, s) \<Rightarrow> if lst then (FlashError, s) else ?put True s))"
    by (rule guarded_action [OF s1]) (auto simp: Let_def intro!: reach_action)
  moreover have "disabled = True \<or> disabled = False" by simp
  ultimately show "has_admin (snd (let (lst, s) = if disabled then isLastAdmin E target s1 else (False, s1)
      in if lst then (FlashError, s) else ?put disabled s))"
    by (elim disjE) (simp_all only: if_True if_False Let_def prod.case)
qed (auto intro: reach_lookupUser auth_reach.start dest: lookupUser_Inr)

lemma handleUserDelete_keeps_admin:
  assumes "auth_wf s" and "has_admin s"
  shows "has_admin (snd (handleUserDelete E actor ip ref s))"
  unfolding handleUserDelete_def Let_def
  by (rule acts_on_account [OF assms, where E = E])
    (auto intro!: guarded_action reach_action intro: reach_lookupUser dest: lookupUser_Inr)

lemma apiUserDelete_keeps_admin:
  assumes "auth_wf s" and "has_admin s"
  shows "has_admin (snd (apiUserDelete E actor ip ref s))"
  unfolding apiUserDelete_def Let_def
  by (rule acts_on_account [OF assms, where E = E])
    (auto intro!: guarded_action reach_action intro: reach_pathUser dest: pathUser_Inr)

text \<open>The parts of a patch. What the guard of the second part looks at is the account as it was read before the first.\<close>

lemma patch_role_keeps:
  assumes "auth_wf s" and "has_admin s" and "target \<in> set (rows (users s))"
  shows "has_admin (snd (patch_role E target role0 s))"
    and "\<not> IsAdmin target \<Longrightarrow> other_admin (u_id target) (snd (patch_role E target role0 s))"
    and "auth_wf (snd (patch_role E target role0 s))"
proof -
  let ?put = "\<lambda>role s. attempt (SetUserRole E (u_id target) role s) (\<lambda>e s. (Inl (store_status e), s)) (\<lambda>_ s. (Inr (), s))"
  have "has_admin (snd (?put RoleAdmin s))"
    by (rule calm_action [where E = E, OF _ assms(2)]) (auto intro!: reach_action)
  moreover have "has_admin (snd (case isLastAdmin E target s of (lst, s) \<Rightarrow> if lst then (Inl 400, s) else ?put RoleUser s))"
    by (rule guarded_action [OF assms]) (auto intro!: reach_action)
  ultimately show "has_admin (snd (patch_role E target role0 s))"
    using assms(2) by (cases role0; cases "the role0 = RoleAdmin") (simp_all add: patch_role_def known_role_def)
  have r: "auth_reach E (concerns (u_id target)) s (snd (patch_role E target role0 s))"
    using reach_isLastAdmin [OF auth_reach.start, of E "concerns (u_id target)" s E target]
    by (auto simp: patch_role_def Let_def intro!: reach_action split: option.split prod.split if_splits)
  show "auth_wf (snd (patch_role E target role0 s))" using auth_reach_wf [OF r assms(1)] .
  assume "\<not> IsAdmin target"
  with not_admin_other [OF assms(2,1,3)] reach_concerns [OF r]
  show "other_admin (u_id target) (snd (patch_role E target role0 s))" by simp
qed

lemma patch_disabled_keeps:
  assumes "auth_wf s" and "has_admin s" and "\<not> IsAdmin target \<Longrightarrow> other_admin (u_id target) s"
  shows "has_admin (snd (patch_disabled E target d0 s))"
proof -
  let ?put = "\<lambda>d s. attempt (SetUserDisabled E (u_id target) d s) (\<lambda>e s. (Inl (store_status e), s))
            (\<lambda>_ s. (Inr (), if d then snd (DeleteUserSessions E (u_id target) s) else s))"
  have f: "has_admin (snd (?put False s))"
    by (rule calm_action [where E = E, OF _ assms(2)]) (auto intro!: reach_action)
  obtain lst s1 where g: "isLastAdmin E target s = (lst, s1)" by force
  have t: "has_admin (if lst then s1 else snd (?put True s1))"
  proof (cases lst)
    case True
    then show ?thesis using isLastAdmin_state [of E target s] assms(2) g by auto
  next
    case False
    then have "other_admin (u_id target) s"
      using assms(3) not_last_admin [of E target s] assms(1) g by (cases "IsAdmin target") simp_all
    then have o: "other_admin (u_id target) s1" using isLastAdmin_state [of E target s] g by auto
    have "auth_reach E (concerns (u_id target)) s1 (snd (?put True s1))" by (auto intro!: reach_action)
    from other_admin_has [OF reach_concerns [OF this o]] show ?thesis using False by simp
  qed
  show ?thesis
  proof (cases d0)
    case None
    then show ?thesis using assms(2) by (simp add: patch_disabled_def)
  next
    case (Some d)
    then show ?thesis using f t g by (cases d; cases lst) (simp_all add: patch_disabled_def)
  qed
qed

lemma apiUserPatch_keeps_admin:
  assumes "auth_wf s" and "has_admin s"
  shows "has_admin (snd (apiUserPatch M actor ip ref role disabled password s))"
  unfolding apiUserPatch_def Let_def
proof (rule acts_on_account [OF assms, where E = "mg_env M"])
  let ?E = "mg_env M"
  fix target s1
  assume s1: "auth_wf s1" "has_admin s1" "target \<in> set (rows (users s1))"
  let ?finish = "\<lambda>s. attempt (patch_password M target password s) (\<lambda>c s. (Inl c, s))
              (\<lambda>_ s. attempt (GetUser ?E (u_id target) s) (\<lambda>e s. (Inl (store_status e), s))
                (\<lambda>u s. (Inr u, AuditWithIP ?E (u_username actor) ''user.update'' (u_username u) [] ip s)))"
  have fin: "has_admin (snd (?finish s))" if "has_admin s" for s
  proof (rule calm_action [where E = ?E, OF _ that])
    show "auth_reach ?E calm s (snd (?finish s))"
      unfolding patch_password_def
      by (auto intro!: reach.acc_attempt reach_SetPassword reach_reads reach_change auth_reach.start split: option.split)
  qed
  note role = patch_role_keeps [OF s1, of ?E role]
  have dis: "has_admin (snd (patch_disabled ?E target disabled (snd (patch_role ?E target role s1))))"
    by (rule patch_disabled_keeps [OF role(3,1,2)])
  show "has_admin (snd (attempt (patch_role ?E target role s1) (\<lambda>c s. (Inl c, s))
          (\<lambda>_ s. attempt (patch_disabled ?E target disabled s) (\<lambda>c s. (Inl c, s)) (\<lambda>_ s. ?finish s))))"
  proof (rule attempt_snd [where Q = has_admin])
    show "has_admin (snd (Inl e, s2))" if "patch_role ?E target role s1 = (Inl e, s2)" for e s2
      using role(1) that by simp
    fix x s2
    assume "patch_role ?E target role s1 = (Inr x, s2)"
    then have d: "has_admin (snd (patch_disabled ?E target disabled s2))" using dis by simp
    show "has_admin (snd (attempt (patch_disabled ?E target disabled s2) (\<lambda>c s. (Inl c, s)) (\<lambda>_ s. ?finish s)))"
      by (rule attempt_snd [where Q = has_admin]) (use d in \<open>auto intro: fin\<close>)
  qed
qed (auto intro: reach_pathUser auth_reach.start dest: pathUser_Inr)

text \<open>The creation of an account looks for the name first; a failure of that statement is taken for a free name.\<close>

lemma upsertUserOnce_fresh:
  assumes nf: "\<And>n. \<not> fault E n"
    and none: "find (\<lambda>u. to_lower (u_username u) = to_lower (u_username x)) (rows (users s)) = None"
  shows "\<exists>v s' y. upsertUserOnce E x s = (Inr v, s') \<and> rows (users s') = rows (users s) @ [y]"
proof -
  let ?s1 = "s\<lparr>tick := Suc (tick s)\<rparr>"
  let ?x = "new_user E ?s1 x"
  let ?s2 = "?s1\<lparr>tick := Suc (Suc (tick s)), users := insert_row (\<lambda>n. u_id_update (\<lambda>_. n)) ?x (users s)\<rparr>"
  have g: "GetUserByName E (u_username x) s = (Inl ErrNotFound, ?s1)"
    using nf none by (simp add: GetUserByName_def stmt_defs select_one_def)
  have "user_insertable ?x ?s1"
    using none by (auto simp: user_insertable_def new_user_def dest: find_NoneD)
  then have i: "insert_user E ?x ?s1 = (Inr (next_id (users s)), ?s2)"
    using nf by (simp add: insert_user_def stmt_defs user_insertable_def)
  obtain v where "GetUser E (next_id (users s)) ?s2 = (Inr v, ?s2\<lparr>tick := Suc (tick ?s2)\<rparr>)"
    using nf by (cases "find (\<lambda>u. u_id u = next_id (users s)) (rows (users s))")
      (auto simp: GetUser_def stmt_defs select_one_def find_append_row)
  with g i have "upsertUserOnce E x s = (Inr v, ?s2\<lparr>tick := Suc (tick ?s2)\<rparr>)" by (simp add: upsertUserOnce_def)
  then show ?thesis by auto
qed

lemma CreateLocalUser_adds:
  assumes nf: "\<And>n. \<not> fault (mg_env M) n"
  shows "\<exists>us. rows (users (snd (CreateLocalUser M name pw d e role s))) = rows (users s) @ us"
proof (cases "find (\<lambda>u. to_lower (u_username u) = to_lower name) (rows (users s))")
  case (Some u)
  with nf show ?thesis
    by (auto simp: CreateLocalUser_def Let_def GetUserByName_def stmt_defs select_one_def)
next
  case None
  let ?s1 = "s\<lparr>tick := Suc (tick s)\<rparr>"
  have g: "GetUserByName (mg_env M) name s = (Inl ErrNotFound, ?s1)"
    using nf None by (simp add: GetUserByName_def stmt_defs select_one_def)
  have up: "\<exists>v s' y. UpsertUser (mg_env M) x ?s1 = (Inr v, s') \<and> rows (users s') = rows (users s) @ [y]" if "u_username x = name" for x
    using upsertUserOnce_fresh [of "mg_env M" x ?s1] nf None that by (auto simp: UpsertUser_def)
  show ?thesis
  proof (cases "trim_space name = [] \<or> \<not> ValidatePassword pw \<or> HashPassword M pw (tick ?s1) = None")
    case True
    with g show ?thesis by (auto simp: CreateLocalUser_def Let_def)
  next
    case False
    then obtain h where h: "HashPassword M pw (Suc (tick s)) = Some h" by auto
    let ?x = "blank_user\<lparr>u_username := name, u_source := SourceLocal, u_display_name := d, u_email := e,
                       u_role := (if role \<noteq> RoleAdmin then RoleUser else role), u_pass_hash := h\<rparr>"
    obtain v s' y where "UpsertUser (mg_env M) ?x ?s1 = (Inr v, s')" "rows (users s') = rows (users s) @ [y]"
      using up [of ?x] by auto
    with False g h show ?thesis by (simp add: CreateLocalUser_def Let_def)
  qed
qed

text \<open>The requests, each with the user who makes it and the address it comes from.\<close>

datatype account_request =
    RoleForm string string
  | DisableForm string bool
  | DeleteForm string
  | CreateForm string string string string string
  | PasswordForm string string
  | PatchApi string "string option" "bool option" "string option"
  | DeleteApi string
  | CreateApi string string string string string
  | TokenForm string string string
  | TokenApi string string "64 word"
  | RevokeForm string
  | RevokeApi string
  | SignOut request

fun account_do :: "web \<Rightarrow> User \<Rightarrow> string \<Rightarrow> account_request \<Rightarrow> auth_db \<Rightarrow> auth_db" where
  "account_do W a ip (RoleForm ref role) s = snd (handleUserRole (wb_env W) a ip ref role s)"
| "account_do W a ip (DisableForm ref d) s = snd (handleUserDisable (wb_env W) a ip ref d s)"
| "account_do W a ip (DeleteForm ref) s = snd (handleUserDelete (wb_env W) a ip ref s)"
| "account_do W a ip (CreateForm u p d e r) s = snd (handleUserCreate (wb_manager W) a ip u p d e r s)"
| "account_do W a ip (PasswordForm old new) s = snd (handleChangePassword (wb_manager W) a ip old new s)"
| "account_do W a ip (PatchApi ref r d p) s = snd (apiUserPatch (wb_manager W) a ip ref r d p s)"
| "account_do W a ip (DeleteApi ref) s = snd (apiUserDelete (wb_env W) a ip ref s)"
| "account_do W a ip (CreateApi u p d e r) s = snd (apiUserCreate (wb_manager W) a ip u p d e r s)"
| "account_do W a ip (TokenForm n r d) s = snd (handleTokenCreate (wb_manager W) a ip n r d s)"
| "account_do W a ip (TokenApi n r d) s = snd (apiTokenCreate (wb_manager W) a ip n r d s)"
| "account_do W a ip (RevokeForm ref) s = snd (handleTokenRevoke (wb_manager W) a ip ref s)"
| "account_do W a ip (RevokeApi ref) s = snd (apiTokenRevoke (wb_manager W) a ref s)"
| "account_do W a ip (SignOut r) s = handleLogout W r s"

fun creates_account :: "account_request \<Rightarrow> bool" where
  "creates_account (CreateForm _ _ _ _ _) \<longleftrightarrow> True"
| "creates_account (CreateApi _ _ _ _ _) \<longleftrightarrow> True"
| "creates_account _ \<longleftrightarrow> False"

fun touches_roles :: "account_request \<Rightarrow> bool" where
  "touches_roles (RoleForm _ _) \<longleftrightarrow> True"
| "touches_roles (DisableForm _ _) \<longleftrightarrow> True"
| "touches_roles (DeleteForm _) \<longleftrightarrow> True"
| "touches_roles (PatchApi _ _ _ _) \<longleftrightarrow> True"
| "touches_roles (DeleteApi _) \<longleftrightarrow> True"
| "touches_roles _ \<longleftrightarrow> False"

fun account_run :: "web \<Rightarrow> (User \<times> string \<times> account_request) list \<Rightarrow> auth_db \<Rightarrow> auth_db" where
  "account_run W [] s = s"
| "account_run W ((a, ip, q) # qs) s = account_run W qs (account_do W a ip q s)"

lemma reach_token_actions:
  assumes "auth_reach (mg_env M) Q s0 s" and "\<And>x. Q (InsertToken x)" and "\<And>i. Q (DropToken i)"
    and "\<And>a b c d e. Q (PutAudit a b c d e)"
  shows "auth_reach (mg_env M) Q s0 (snd (handleTokenCreate M a ip n r d s))"
    "auth_reach (mg_env M) Q s0 (snd (apiTokenCreate M a ip n r w s))"
    "auth_reach (mg_env M) Q s0 (snd (handleTokenRevoke M a ip ref s))"
    "auth_reach (mg_env M) Q s0 (snd (apiTokenRevoke M a ref s))"
proof -
  have may: "auth_reach (mg_env M) Q s0 (snd (may_revoke M a i s))" for i
    unfolding may_revoke_def TokensOf_def using assms(1) by (auto intro!: reach.acc_attempt reach_stored reach_reads)
  have rev: "auth_reach (mg_env M) Q s0 (snd (revoke_by_id M i t))" if "auth_reach (mg_env M) Q s0 t" for i t
    unfolding revoke_by_id_def RevokeToken_def using that assms(3) by (auto intro!: reach_stored reach_change reach.acc_query)
  show "auth_reach (mg_env M) Q s0 (snd (handleTokenCreate M a ip n r d s))"
    "auth_reach (mg_env M) Q s0 (snd (apiTokenCreate M a ip n r w s))"
    unfolding handleTokenCreate_def apiTokenCreate_def
    using assms by (auto intro!: reach.acc_attempt reach_IssueAPIToken reach_change split: prod.split)
  have m: "auth_reach (mg_env M) Q s0 t" if "may_revoke M a i s = (ok, t)" for i ok t using may [of i] that by simp
  show "auth_reach (mg_env M) Q s0 (snd (handleTokenRevoke M a ip ref s))"
    "auth_reach (mg_env M) Q s0 (snd (apiTokenRevoke M a ref s))"
    unfolding handleTokenRevoke_def apiTokenRevoke_def Let_def
    using assms by (auto intro!: reach.acc_attempt rev reach_change dest: m split: prod.split option.split)
qed

lemma reach_handleLogout:
  assumes "auth_reach (wb_env W) Q s0 s" and "\<And>h. Q (DropSession h)" and "\<And>a b c d e. Q (PutAudit a b c d e)"
  shows "auth_reach (wb_env W) Q s0 (handleLogout W r s)"
proof (cases "rq_session r")
  case None
  then show ?thesis using assms(1) by (simp add: handleLogout_def)
next
  case (Some c)
  obtain who s1 where u: "userFromRequest W r s = (who, s1)" by force
  have "auth_reach (wb_env W) Q s0 (snd (userFromRequest W r s))"
    unfolding userFromRequest_def using assms(1)
    by (auto intro!: reach.acc_attempt reach_UserFromSession split: option.split)
  with u have s1: "auth_reach (wb_env W) Q s0 s1" by simp
  have d: "auth_reach (wb_env W) Q s0 (snd (DestroySession (wb_manager W) c t))" if "auth_reach (wb_env W) Q s0 t" for t
    using reach_DestroySession [of "wb_manager W" Q s0 t c] that assms(2) by (simp add: wb_env_def)
  show ?thesis
    using Some u s1 assms(3) by (auto simp: handleLogout_def intro!: d reach_change split: option.split)
qed

lemma reach_account_handlers:
  fixes M :: manager
  defines "Q \<equiv> \<lambda>_ :: auth_statement. True"
  assumes "auth_reach (mg_env M) Q s0 s"
  shows "auth_reach (mg_env M) Q s0 (snd (handleUserRole (mg_env M) a ip ref role s))"
    "auth_reach (mg_env M) Q s0 (snd (handleUserDisable (mg_env M) a ip ref d s))"
    "auth_reach (mg_env M) Q s0 (snd (handleUserDelete (mg_env M) a ip ref s))"
    "auth_reach (mg_env M) Q s0 (snd (handleUserCreate M a ip u p n e r s))"
    "auth_reach (mg_env M) Q s0 (snd (handleChangePassword M a ip old new s))"
    "auth_reach (mg_env M) Q s0 (snd (apiUserPatch M a ip ref rl dis pw s))"
    "auth_reach (mg_env M) Q s0 (snd (apiUserDelete (mg_env M) a ip ref s))"
    "auth_reach (mg_env M) Q s0 (snd (apiUserCreate M a ip u p n e r s))"
proof -
  have Q: "Q st" for st by (simp add: Q_def)
  have last: "auth_reach (mg_env M) Q s0 t" if "isLastAdmin (mg_env M) x s1 = (b, t)" "auth_reach (mg_env M) Q s0 s1" for x s1 b t
    using reach_isLastAdmin [OF that(2), of "mg_env M" x] that(1) by simp
  note step = reach.acc_attempt reach_lookupUser reach_pathUser reach_reads reach_SetPassword reach_CreateLocalUser
    reach_change Q
  show "auth_reach (mg_env M) Q s0 (snd (handleUserRole (mg_env M) a ip ref role s))"
    "auth_reach (mg_env M) Q s0 (snd (handleUserDisable (mg_env M) a ip ref d s))"
    "auth_reach (mg_env M) Q s0 (snd (handleUserDelete (mg_env M) a ip ref s))"
    "auth_reach (mg_env M) Q s0 (snd (apiUserDelete (mg_env M) a ip ref s))"
    unfolding handleUserRole_def handleUserDisable_def handleUserDelete_def apiUserDelete_def Let_def
    using assms(2) by (auto intro!: step dest!: last split: prod.split if_splits)
  show "auth_reach (mg_env M) Q s0 (snd (handleUserCreate M a ip u p n e r s))"
    "auth_reach (mg_env M) Q s0 (snd (handleChangePassword M a ip old new s))"
    "auth_reach (mg_env M) Q s0 (snd (apiUserCreate M a ip u p n e r s))"
    unfolding handleUserCreate_def handleChangePassword_def apiUserCreate_def
    using assms(2) by (auto intro!: step)
  show "auth_reach (mg_env M) Q s0 (snd (apiUserPatch M a ip ref rl dis pw s))"
    unfolding apiUserPatch_def patch_role_def patch_disabled_def patch_password_def Let_def
    using assms(2) by (auto intro!: step dest!: last split: prod.split option.split if_splits)
qed

lemma account_do_wf: "auth_wf s \<Longrightarrow> auth_wf (account_do W a ip q s)"
proof -
  assume wf: "auth_wf s"
  let ?E = "mg_env (wb_manager W)"
  have s: "auth_reach ?E (\<lambda>_. True) s s" by (rule auth_reach.start)
  have "auth_reach ?E (\<lambda>_. True) s (account_do W a ip q s)"
    by (cases q) (auto intro!: reach_account_handlers [OF s] reach_token_actions [OF s] reach_handleLogout [of W, unfolded wb_env_def] s
        simp: wb_env_def)
  then show ?thesis using wf by (rule auth_reach_wf)
qed

lemma account_do_keeps_admin:
  assumes "auth_wf s" and "has_admin s" and "creates_account q \<Longrightarrow> \<forall>n. \<not> fault (wb_env W) n"
  shows "has_admin (account_do W a ip q s)"
proof -
  let ?E = "mg_env (wb_manager W)"
  have s: "auth_reach ?E calm s s" by (rule auth_reach.start)
  have made: "has_admin (snd (attempt (CreateLocalUser (wb_manager W) u p d e r s) (\<lambda>_ s. (x, s)) k))"
    if c: "creates_account q" and k: "\<And>v t. auth_reach ?E calm t (snd (k v t))" for u p d e r and x :: 'b and k
  proof (rule attempt_snd [where Q = has_admin])
    obtain us where "rows (users (snd (CreateLocalUser (wb_manager W) u p d e r s))) = rows (users s) @ us"
      using CreateLocalUser_adds [of "wb_manager W" u p d e r s] assms(3) [OF c, unfolded wb_env_def] by blast
    then have *: "has_admin (snd (CreateLocalUser (wb_manager W) u p d e r s))" using assms(2) by (auto simp: has_admin_def)
    then show "has_admin (snd (x, t))" if "CreateLocalUser (wb_manager W) u p d e r s = (Inl err, t)" for err t using that by simp
    show "has_admin (snd (k v t))" if "CreateLocalUser (wb_manager W) u p d e r s = (Inr v, t)" for v t
      using reach_calm [OF k] * that by simp
  qed
  have pw: "has_admin (snd (handleChangePassword (wb_manager W) a ip old new s))" for old new
    by (rule reach_calm [OF _ assms(2), where E = ?E])
      (auto simp: handleChangePassword_def intro!: reach.acc_attempt reach_SetPassword reach_reads reach_change s)
  note token = reach_token_actions [OF s, THEN reach_calm, OF _ _ _ assms(2), simplified]
  show ?thesis
  proof (cases q)
    case (CreateForm u p d e r)
    then show ?thesis by (auto simp: handleUserCreate_def intro!: made reach_change auth_reach.start)
  next
    case (CreateApi u p d e r)
    then show ?thesis by (auto simp: apiUserCreate_def intro!: made reach_change auth_reach.start)
  next
    case (SignOut r)
    have "auth_reach ?E calm s (handleLogout W r s)"
      using reach_handleLogout [of W calm s s r] s by (simp add: wb_env_def)
    then show ?thesis using SignOut reach_calm assms(2) by simp
  qed (use assms(1,2) pw in \<open>auto intro: handleUserRole_keeps_admin handleUserDisable_keeps_admin handleUserDelete_keeps_admin
      apiUserPatch_keeps_admin apiUserDelete_keeps_admin token\<close>)
qed

text \<open>C13 (pages.go, api.go; isLastAdmin): whatever requests to administer accounts and tokens are handled one after the
  other, by whomever, an enabled administrator remains, even when statements of the database fail on the way; only the
  creation of an account needs the database to work.\<close>

theorem an_administrator_remains:
  assumes "auth_wf s" and "\<exists>u \<in> set (rows (users s)). IsAdmin u \<and> \<not> u_disabled u"
    and "(\<forall>n. \<not> fault (wb_env W) n) \<or> (\<forall>(a, ip, q) \<in> set qs. \<not> creates_account q)"
  shows "\<exists>u \<in> set (rows (users (account_run W qs s))). IsAdmin u \<and> \<not> u_disabled u"
proof -
  have "has_admin (account_run W qs s)" if "auth_wf s" "has_admin s" for s
    using that assms(3)
  proof (induction qs arbitrary: s)
    case (Cons x qs)
    obtain a ip q where x: "x = (a, ip, q)" by (cases x) auto
    have "has_admin (account_do W a ip q s)"
      using Cons.prems x by (intro account_do_keeps_admin) auto
    with Cons account_do_wf [of s W a ip q] x show ?case by auto
  qed simp
  with assms(1,2) show ?thesis by (auto simp: has_admin_def enabled_admin_def)
qed


section \<open>Tokens of others\<close>

lemma may_revoke_own:
  assumes "may_revoke M actor i s = (True, s')" and "\<not> IsAdmin actor" and "u_id actor \<noteq> 0"
  shows "\<exists>k \<in> set (rows (api_tokens s)). int (tk_id k) = i \<and> tk_user_id k = u_id actor"
  using assms
  by (auto simp: may_revoke_def TokensOf_def ListAPITokens_def with_owner_def stmt_defs stored_def attempt_def split: if_splits)

lemma may_revoke_tokens: "api_tokens (snd (may_revoke M actor i s)) = api_tokens s"
  by (auto simp: may_revoke_def TokensOf_def ListAPITokens_def stmt_defs stored_def attempt_def split: if_splits)

lemma revoke_by_id_others:
  assumes "k \<in> set (rows (api_tokens s))" and "int (tk_id k) \<noteq> i"
  shows "k \<in> set (rows (api_tokens (snd (revoke_by_id M i s))))"
  using assms
  by (auto simp: revoke_by_id_def RevokeToken_def RevokeAPIToken_def stored_def attempt_def set_tokens_def stmt_defs
      set_update_where intro!: bexI [of _ k])

text \<open>(pages.go, handleTokenRevoke; api.go, apiTokenRevoke): a user who is not an administrator changes no token of anyone
  else, whatever number the request names.\<close>

theorem revoke_spares_others:
  assumes "auth_wf s" and "\<not> IsAdmin actor" and "u_id actor \<noteq> 0"
    and "k \<in> set (rows (api_tokens s))" and "tk_user_id k \<noteq> u_id actor"
  shows "k \<in> set (rows (api_tokens (snd (handleTokenRevoke M actor ip ref s)))) \<and>
    k \<in> set (rows (api_tokens (snd (apiTokenRevoke M actor ref s))))"
proof (cases "ParseInt ref")
  case None
  then show ?thesis using assms(4) by (simp add: handleTokenRevoke_def apiTokenRevoke_def)
next
  case (Some i)
  obtain ok s1 where m: "may_revoke M actor i s = (ok, s1)" by force
  have t: "api_tokens s1 = api_tokens s" using may_revoke_tokens [of M actor i s] m by simp
  have "int (tk_id k) \<noteq> i" if "ok"
  proof
    assume i: "int (tk_id k) = i"
    have "may_revoke M actor i s = (True, s1)" using m \<open>ok\<close> by simp
    then obtain k' where "k' \<in> set (rows (api_tokens s))" "int (tk_id k') = i" "tk_user_id k' = u_id actor"
      using may_revoke_own [OF _ assms(2,3)] by blast
    with i assms(1,4) have "k' = k" by (auto simp: auth_wf_def wf_table_def distinct_map dest: inj_onD)
    with \<open>tk_user_id k' = u_id actor\<close> assms(5) show False by simp
  qed
  then have r: "k \<in> set (rows (api_tokens (snd (revoke_by_id M i s1))))" if ok
    using that assms(4) t by (intro revoke_by_id_others) auto
  have a: "api_tokens (AuditWithIP E b c d e f t) = api_tokens t" for E b c d e f t
    by (simp add: AuditWithIP_def stmt_defs)
  show ?thesis
    using Some m r t assms(4)
    by (cases ok) (auto simp: handleTokenRevoke_def apiTokenRevoke_def attempt_def a split: prod.splits sum.splits)
qed


section \<open>Examples\<close>

lemma an_administrator_remains_witness:
  "\<exists>u \<in> set (rows (users (account_run demo_web
     [(demo_admin, ''10.0.0.1'', RoleForm ''1'' ''user''), (demo_admin, ''10.0.0.1'', PatchApi ''alice'' (Some ''admin'') (Some True) None),
      (demo_admin, ''10.0.0.1'', DeleteApi ''admin'')] demo_auth_db))). IsAdmin u \<and> \<not> u_disabled u"
  by (rule an_administrator_remains [OF demo_auth_wf])
    (simp_all add: demo_auth_db_def empty_auth_db_def demo_admin_def blank_user_def IsAdmin_def)

lemma revoke_spares_others_witness:
  "map tk_revoked (rows (api_tokens (snd (apiTokenRevoke demo_manager demo_user ''1''
      (snd (IssueAPIToken demo_manager demo_admin ''ci'' [] 0 demo_auth_db)))))) = [False]"
proof -
  let ?s = "snd (IssueAPIToken demo_manager demo_admin ''ci'' [] 0 demo_auth_db)"
  let ?k = "hd (rows (api_tokens ?s))"
  have k: "?k \<in> set (rows (api_tokens ?s))" and f: "tk_user_id ?k = 1" "\<not> tk_revoked ?k" by code_simp+
  have w: "auth_wf ?s" by (rule auth_reach_wf [OF reach_IssueAPIToken [OF auth_reach.start] demo_auth_wf]) simp
  have "\<not> IsAdmin demo_user" "u_id demo_user \<noteq> 0" "tk_user_id ?k \<noteq> u_id demo_user"
    using f by (simp_all add: demo_user_def blank_user_def IsAdmin_def role_defs)
  from revoke_spares_others [OF w this(1,2) k this(3), of demo_manager "[]" "''1''"]
  have "?k \<in> set (rows (api_tokens (snd (apiTokenRevoke demo_manager demo_user ''1'' ?s))))" by blast
  moreover have "length (rows (api_tokens (snd (apiTokenRevoke demo_manager demo_user ''1'' ?s)))) = 1" by code_simp
  ultimately show ?thesis using f by (auto simp: length_Suc_conv)
qed

text \<open>The guard reads and the statement writes later: two administrators that are demoted at the same moment, each by a
  request that still sees the other, leave none.\<close>

definition demo_two_admins :: auth_db where
  "demo_two_admins = demo_auth_db\<lparr>users := \<lparr>rows = [demo_admin, demo_user\<lparr>u_role := RoleAdmin\<rparr>], next_id = 3\<rparr>\<rparr>"

lemma concurrent_demotions_leave_none:
  "let E = demo_auth_env; (last1, s1) = isLastAdmin E demo_admin demo_two_admins;
       (last2, s2) = isLastAdmin E (demo_user\<lparr>u_role := RoleAdmin\<rparr>) s1;
       s3 = auth_exec E (PutRole 1 RoleUser) s2; s4 = auth_exec E (PutRole 2 RoleUser) s3 in
   \<not> last1 \<and> \<not> last2 \<and> \<not> has_admin s4"
  by code_simp

text \<open>A patch whose last part is refused has applied the first ones and leaves no entry in the audit log.\<close>

lemma refused_patch_is_applied:
  "let r = apiUserPatch demo_manager demo_admin ''10.0.0.1'' ''2'' (Some ''admin'') None (Some ''short'') demo_auth_db in
   fst r = Inl 400 \<and> map u_role (rows (users (snd r))) = [RoleAdmin, RoleAdmin] \<and> auth_log (snd r) = []"
  by code_simp

text \<open>The form takes a negative number of days for a token without an end, which the comment in \<open>IssueAPIToken\<close> means to
  rule out; and the number of days of the API wraps around.\<close>

lemma negative_days_never_expire: "days < 0 \<Longrightarrow> form_ttl days = 0"
  by (simp add: form_ttl_def)

lemma api_days_wrap:
  "apiTokenCreate M actor ip name role 281474976710656 s = apiTokenCreate M actor ip name role 0 s"
proof -
  have "(281474976710656 :: 64 word) * day = 0" by (simp add: day_def)
  then show ?thesis by (simp add: apiTokenCreate_def)
qed

end
