(* ===== verification/Webhooks.thy ===== *)
theory Webhooks
  imports Acme_Store Go_Net Secret "HOL-Library.Word"
begin

text \<open>
  Event notifications: the guard on the addresses that a delivery may connect to (\<open>internal/webhooks/ssrf.go\<close>), the
  tables of webhooks and deliveries (\<open>internal/store/webhook.go\<close>), the dispatcher that queues events, claims what is due
  and retries with backoff (\<open>internal/webhooks/dispatcher.go\<close>), and the handlers of the administrators
  (\<open>internal/web/api_webhooks.go\<close>).

  The clock of this theory counts nanoseconds, the unit of \<open>time.Duration\<close>. What a request meets on the network is a
  parameter: the candidate addresses of each connection it makes (one list for the endpoint and one for each redirect),
  which of them answer, and the status of the last response. \<open>wire\<close> keeps the requests that were handed to the HTTP
  client with the addresses it connected to.
\<close>


section \<open>The guard on addresses\<close>

text \<open>\<open>net.SplitHostPort\<close>.\<close>

definition last_colon :: "string \<Rightarrow> (string \<times> string) option" where
  "last_colon s =
     (let port = rev (takeWhile (\<lambda>c. c \<noteq> CHR '':'') (rev s)) in
      if CHR '':'' \<in> set s then Some (take (length s - length port - 1) s, port) else None)"

definition SplitHostPort :: "string \<Rightarrow> (string \<times> string) option" where
  "SplitHostPort s =
     (case last_colon s of
        None \<Rightarrow> None
      | Some (host, port) \<Rightarrow>
          if has_prefix s ''[''
          then let inner = takeWhile (\<lambda>c. c \<noteq> CHR '']'') (tl s) in
               if host = ''['' @ inner @ '']'' \<and> CHR ''['' \<notin> set inner \<and> CHR ''['' \<notin> set port \<and> CHR '']'' \<notin> set port
               then Some (inner, port) else None
          else if CHR '':'' \<in> set host \<or> CHR ''['' \<in> set s \<or> CHR '']'' \<in> set s then None
          else Some (host, port))"

text \<open>The methods of \<open>net.IP\<close>; an address of four bytes is an IPv4 address.\<close>

definition IsLoopback :: "nat list \<Rightarrow> bool" where
  "IsLoopback ip \<longleftrightarrow> (if length ip = 4 then ip ! 0 = 127 else ip = replicate 15 0 @ [1])"

definition IsLinkLocalUnicast :: "nat list \<Rightarrow> bool" where
  "IsLinkLocalUnicast ip \<longleftrightarrow>
     (if length ip = 4 then ip ! 0 = 169 \<and> ip ! 1 = 254
      else length ip = 16 \<and> ip ! 0 = 0xfe \<and> and (ip ! 1) 0xc0 = 0x80)"

definition IsLinkLocalMulticast :: "nat list \<Rightarrow> bool" where
  "IsLinkLocalMulticast ip \<longleftrightarrow>
     (if length ip = 4 then ip ! 0 = 224 \<and> ip ! 1 = 0 \<and> ip ! 2 = 0
      else length ip = 16 \<and> ip ! 0 = 0xff \<and> and (ip ! 1) 0x0f = 0x02)"

definition IsUnspecified :: "nat list \<Rightarrow> bool" where
  "IsUnspecified ip \<longleftrightarrow> ip = replicate 4 0 \<or> ip = replicate 16 0"

definition isBlockedIP :: "nat list \<Rightarrow> bool" where
  "isBlockedIP ip \<longleftrightarrow> IsLoopback ip \<or> IsLinkLocalUnicast ip \<or> IsLinkLocalMulticast ip \<or> IsUnspecified ip"

text \<open>\<open>dialerControl\<close>: whether the dialer may connect to the address.\<close>

definition dialerControl :: "string \<Rightarrow> bool" where
  "dialerControl address =
     (case SplitHostPort address of
        None \<Rightarrow> False
      | Some (host, _) \<Rightarrow> (case ParseIP host of None \<Rightarrow> False | Some ip \<Rightarrow> \<not> isBlockedIP ip))"

text \<open>The check of a new URL; \<open>url.Parse\<close> (scheme and host name) is a parameter.\<close>

definition ValidateWebhookURL :: "(string \<Rightarrow> (string \<times> string) option) \<Rightarrow> string \<Rightarrow> bool" where
  "ValidateWebhookURL url_parse raw =
     (case url_parse (trim_space raw) of
        None \<Rightarrow> False
      | Some (scheme, host) \<Rightarrow>
          if scheme \<noteq> ''http'' \<and> scheme \<noteq> ''https'' then False
          else if host = [] then False
          else (case ParseIP host of None \<Rightarrow> True | Some ip \<Rightarrow> \<not> isBlockedIP ip))"

text \<open>The connections of one request: at every hop the dialer tries the candidate addresses in order and connects to the
  first that its control function lets pass and that is up. The request fails when a hop has none.\<close>

primrec follow :: "(string \<Rightarrow> bool) \<Rightarrow> (string \<Rightarrow> bool) \<Rightarrow> string list list \<Rightarrow> string list \<times> bool" where
  "follow control up [] = ([], True)"
| "follow control up (cands # hops) =
     (case find (\<lambda>a. control a \<and> up a) cands of
        None \<Rightarrow> ([], False)
      | Some a \<Rightarrow> (case follow control up hops of (peers, ok) \<Rightarrow> (a # peers, ok)))"


section \<open>Tables\<close>

record Webhook =
  wh_id :: nat
  wh_name :: string
  wh_url :: string
  wh_events :: string
  wh_secret_enc :: string
  wh_disabled :: bool
  wh_created_by :: string
  wh_created_at :: int
  wh_updated_at :: int

datatype delivery_status =
  WebhookStatusPending | WebhookStatusDelivered | WebhookStatusFailed | WebhookStatusDead

text \<open>\<open>claimed_at\<close> is a column that the Go struct does not carry.\<close>

record WebhookDelivery =
  wd_id :: nat
  wd_webhook_id :: nat
  wd_event :: string
  wd_payload :: string
  wd_status :: delivery_status
  wd_attempts :: nat
  wd_last_status :: int
  wd_last_error :: string
  wd_next_attempt :: "int option"
  wd_claimed_at :: "int option"
  wd_created_at :: int
  wd_updated_at :: int

record hook_post =
  po_url :: string
  po_body :: string
  po_event :: string
  po_delivery :: nat
  po_signature :: "string option"

record hook_sent =
  hs_post :: hook_post
  hs_peers :: "string list"
  hs_answer :: "string + int"

record hook_db = tick_state +
  webhooks :: "Webhook table"
  deliveries :: "WebhookDelivery table"
  wire :: "hook_sent list"

definition empty_hook_db :: hook_db where
  "empty_hook_db = \<lparr>tick = 0, webhooks = empty_table, deliveries = empty_table, wire = []\<rparr>"

type_synonym 'a hook_stmt = "(db_error, 'a, hook_db) outcome"

interpretation webhooks_t: keyed wh_id "\<lambda>n. wh_id_update (\<lambda>_. n)" by unfold_locales simp
interpretation deliveries_t: keyed wd_id "\<lambda>n. wd_id_update (\<lambda>_. n)" by unfold_locales simp

definition set_hooks :: "(Webhook \<Rightarrow> bool) \<Rightarrow> (Webhook \<Rightarrow> Webhook) \<Rightarrow> hook_db \<Rightarrow> hook_db" where
  "set_hooks p f s = s\<lparr>webhooks := update_rows p f (webhooks s)\<rparr>"

definition set_deliveries :: "(WebhookDelivery \<Rightarrow> bool) \<Rightarrow> (WebhookDelivery \<Rightarrow> WebhookDelivery) \<Rightarrow> hook_db \<Rightarrow> hook_db" where
  "set_deliveries p f s = s\<lparr>deliveries := update_rows p f (deliveries s)\<rparr>"

definition affecting :: "nat hook_stmt \<Rightarrow> unit hook_stmt" where
  "affecting r = attempt r (\<lambda>e s. (Inl e, s)) (\<lambda>n s. if n = 0 then (Inl ErrNotFound, s) else (Inr (), s))"


subsection \<open>Webhooks\<close>

definition GetWebhook :: "env \<Rightarrow> nat \<Rightarrow> hook_db \<Rightarrow> Webhook hook_stmt" where
  "GetWebhook E i = query_row E (\<lambda>s. select_one (\<lambda>w. wh_id w = i) (rows (webhooks s)))"

definition GetWebhookByName :: "env \<Rightarrow> string \<Rightarrow> hook_db \<Rightarrow> Webhook hook_stmt" where
  "GetWebhookByName E name = query_row E (\<lambda>s. select_one (\<lambda>w. wh_name w = name) (rows (webhooks s)))"

text \<open>The listing for the API leaves the signing key out.\<close>

definition ListWebhooks :: "env \<Rightarrow> hook_db \<Rightarrow> Webhook list hook_stmt" where
  "ListWebhooks E = query_row E (\<lambda>s.
     Inr (map (\<lambda>w. w\<lparr>wh_secret_enc := []\<rparr>) (sort_key wh_id (rows (webhooks s)))))"

definition ListWebhooksWithSecret :: "env \<Rightarrow> hook_db \<Rightarrow> Webhook list hook_stmt" where
  "ListWebhooksWithSecret E = query_row E (\<lambda>s. Inr (sort_key wh_id (rows (webhooks s))))"

definition new_webhook :: "env \<Rightarrow> hook_db \<Rightarrow> Webhook \<Rightarrow> Webhook" where
  "new_webhook E s w =
     w\<lparr>wh_events := (if wh_events w = [] then ''*'' else wh_events w), wh_created_at := now E s, wh_updated_at := now E s\<rparr>"

definition insert_webhook :: "env \<Rightarrow> Webhook \<Rightarrow> hook_db \<Rightarrow> nat hook_stmt" where
  "insert_webhook E w = exec_insert E (\<lambda>s. \<forall>x \<in> set (rows (webhooks s)). wh_name x \<noteq> wh_name w)
     (\<lambda>s. next_id (webhooks s)) (\<lambda>s. s\<lparr>webhooks := insert_row (\<lambda>n. wh_id_update (\<lambda>_. n)) w (webhooks s)\<rparr>)"

definition CreateWebhook :: "env \<Rightarrow> Webhook \<Rightarrow> hook_db \<Rightarrow> Webhook hook_stmt" where
  "CreateWebhook E w s =
     attempt (insert_webhook E (new_webhook E s w) s) (\<lambda>e s. (Inl e, s)) (\<lambda>i s. GetWebhook E i s)"

definition put_webhook :: "env \<Rightarrow> Webhook \<Rightarrow> hook_db \<Rightarrow> nat hook_stmt" where
  "put_webhook E w = exec_count E (\<lambda>s. affected (\<lambda>x. wh_id x = wh_id w) (rows (webhooks s)))
     (set_hooks (\<lambda>x. wh_id x = wh_id w) (\<lambda>x. x\<lparr>wh_url := wh_url w, wh_events := wh_events w,
        wh_secret_enc := wh_secret_enc w, wh_disabled := wh_disabled w, wh_updated_at := wh_updated_at w\<rparr>))"

text \<open>An empty key keeps the stored one.\<close>

definition UpdateWebhook :: "env \<Rightarrow> Webhook \<Rightarrow> hook_db \<Rightarrow> Webhook hook_stmt" where
  "UpdateWebhook E w s =
     (let write = (\<lambda>key s. attempt (affecting (put_webhook E
            (w\<lparr>wh_secret_enc := key, wh_events := (if wh_events w = [] then ''*'' else wh_events w),
               wh_updated_at := now E s\<rparr>) s)) (\<lambda>e s. (Inl e, s)) (\<lambda>_ s. GetWebhook E (wh_id w) s)) in
      if wh_secret_enc w = []
      then attempt (GetWebhook E (wh_id w) s) (\<lambda>e s. (Inl e, s)) (\<lambda>x s. write (wh_secret_enc x) s)
      else write (wh_secret_enc w) s)"

definition SetWebhookDisabled :: "env \<Rightarrow> nat \<Rightarrow> bool \<Rightarrow> hook_db \<Rightarrow> unit hook_stmt" where
  "SetWebhookDisabled E i d s =
     affecting (exec_count E (\<lambda>s. affected (\<lambda>w. wh_id w = i) (rows (webhooks s)))
       (set_hooks (\<lambda>w. wh_id w = i) (\<lambda>w. w\<lparr>wh_disabled := d, wh_updated_at := now E s\<rparr>)) s)"

definition DeleteWebhook :: "env \<Rightarrow> nat \<Rightarrow> hook_db \<Rightarrow> unit hook_stmt" where
  "DeleteWebhook E i s =
     affecting (exec_count E (\<lambda>s. affected (\<lambda>w. wh_id w = i) (rows (webhooks s)))
       (\<lambda>s. s\<lparr>webhooks := delete_rows (\<lambda>w. wh_id w = i) (webhooks s),
              deliveries := delete_rows (\<lambda>d. wd_webhook_id d = i) (deliveries s)\<rparr>) s)"


subsection \<open>Deliveries\<close>

definition GetWebhookDelivery :: "env \<Rightarrow> nat \<Rightarrow> hook_db \<Rightarrow> WebhookDelivery hook_stmt" where
  "GetWebhookDelivery E i = query_row E (\<lambda>s. select_one (\<lambda>d. wd_id d = i) (rows (deliveries s)))"

definition new_delivery :: "int \<Rightarrow> nat \<Rightarrow> string \<Rightarrow> string \<Rightarrow> WebhookDelivery" where
  "new_delivery t i event payload =
     \<lparr>wd_id = 0, wd_webhook_id = i, wd_event = event, wd_payload = payload, wd_status = WebhookStatusPending,
      wd_attempts = 0, wd_last_status = 0, wd_last_error = [], wd_next_attempt = Some t, wd_claimed_at = None,
      wd_created_at = t, wd_updated_at = t\<rparr>"

definition insert_delivery :: "env \<Rightarrow> WebhookDelivery \<Rightarrow> hook_db \<Rightarrow> nat hook_stmt" where
  "insert_delivery E d = exec_insert E (\<lambda>s. \<exists>w \<in> set (rows (webhooks s)). wh_id w = wd_webhook_id d)
     (\<lambda>s. next_id (deliveries s)) (\<lambda>s. s\<lparr>deliveries := insert_row (\<lambda>n. wd_id_update (\<lambda>_. n)) d (deliveries s)\<rparr>)"

definition CreateWebhookDelivery :: "env \<Rightarrow> nat \<Rightarrow> string \<Rightarrow> string \<Rightarrow> hook_db \<Rightarrow> WebhookDelivery hook_stmt" where
  "CreateWebhookDelivery E i event payload s =
     attempt (insert_delivery E (new_delivery (now E s) i event payload) s)
       (\<lambda>e s. (Inl e, s)) (\<lambda>j s. GetWebhookDelivery E j s)"

definition ListWebhookDeliveries :: "env \<Rightarrow> nat \<Rightarrow> int \<Rightarrow> hook_db \<Rightarrow> WebhookDelivery list hook_stmt" where
  "ListWebhookDeliveries E i limit = query_row E (\<lambda>s. Inr (take (nat (if limit \<le> 0 then 50 else limit))
     (rev (sort_key wd_id (filter (\<lambda>d. wd_webhook_id d = i) (rows (deliveries s)))))))"

text \<open>What a claim at time \<open>t\<close> takes: what is waiting or due for a retry and not held by another claim younger than
  \<open>stale\<close>. The statement repeats the condition outside its subquery, which in one state selects the same rows.\<close>

definition delivery_due :: "int \<Rightarrow> int \<Rightarrow> WebhookDelivery \<Rightarrow> bool" where
  "delivery_due t stale d \<longleftrightarrow>
     (wd_status d = WebhookStatusPending \<or>
      wd_status d = WebhookStatusFailed \<and> (case wd_next_attempt d of None \<Rightarrow> False | Some n \<Rightarrow> n \<le> t)) \<and>
     (case wd_claimed_at d of None \<Rightarrow> True | Some c \<Rightarrow> c \<le> t - stale)"

definition due_ids :: "int \<Rightarrow> int \<Rightarrow> int \<Rightarrow> hook_db \<Rightarrow> nat list" where
  "due_ids t stale limit s =
     take (nat (if limit \<le> 0 then 100 else limit))
       (sort (map wd_id (filter (delivery_due t stale) (rows (deliveries s)))))"

definition claims :: "int \<Rightarrow> int \<Rightarrow> int \<Rightarrow> hook_db \<Rightarrow> WebhookDelivery \<Rightarrow> bool" where
  "claims t stale limit s d \<longleftrightarrow> wd_id d \<in> set (due_ids t stale limit s) \<and> delivery_due t stale d"

definition ClaimDueWebhookDeliveries :: "env \<Rightarrow> int \<Rightarrow> int \<Rightarrow> int \<Rightarrow> hook_db \<Rightarrow> WebhookDelivery list hook_stmt" where
  "ClaimDueWebhookDeliveries E t stale limit =
     run E (\<lambda>s. (Inr (map (\<lambda>d. d\<lparr>wd_claimed_at := Some t\<rparr>) (filter (claims t stale limit s) (rows (deliveries s)))),
                 set_deliveries (claims t stale limit s) (\<lambda>d. d\<lparr>wd_claimed_at := Some t\<rparr>) s))"

definition delivered_row :: "int \<Rightarrow> int \<Rightarrow> WebhookDelivery \<Rightarrow> WebhookDelivery" where
  "delivered_row t status d =
     d\<lparr>wd_status := WebhookStatusDelivered, wd_last_status := status, wd_last_error := [], wd_claimed_at := None,
       wd_updated_at := t\<rparr>"

definition failed_row :: "int \<Rightarrow> int \<Rightarrow> string \<Rightarrow> int option \<Rightarrow> WebhookDelivery \<Rightarrow> WebhookDelivery" where
  "failed_row t status msg next d =
     d\<lparr>wd_status := (if next = None then WebhookStatusDead else WebhookStatusFailed),
       wd_attempts := wd_attempts d + 1, wd_last_status := status, wd_last_error := msg, wd_next_attempt := next,
       wd_claimed_at := None, wd_updated_at := t\<rparr>"

definition RecordWebhookDeliveryResult ::
  "env \<Rightarrow> nat \<Rightarrow> bool \<Rightarrow> int \<Rightarrow> string \<Rightarrow> int option \<Rightarrow> hook_db \<Rightarrow> unit hook_stmt" where
  "RecordWebhookDeliveryResult E i ok status msg next s =
     exec E (set_deliveries (\<lambda>d. wd_id d = i)
       (if ok then delivered_row (now E s) status else failed_row (now E s) status msg next)) s"


section \<open>The dispatcher\<close>

record hook_event =
  ev_id :: string
  ev_ts :: int
  ev_actor :: string
  ev_action :: string
  ev_target :: string
  ev_detail :: string
  ev_ip :: string

text \<open>The durations are those of Go: 64 bits, in nanoseconds.\<close>

record hook_options =
  op_max_attempts :: int
  op_backoff :: "64 word"
  op_interval :: "64 word"
  op_timeout :: "64 word"
  op_claim_stale :: "64 word"

definition second :: "64 word" where "second = 1000000000"

definition withDefaults :: "hook_options \<Rightarrow> hook_options" where
  "withDefaults o1 =
     \<lparr>op_max_attempts = (if op_max_attempts o1 \<le> 0 then 5 else op_max_attempts o1),
      op_backoff = (if op_backoff o1 \<le>s 0 then 30 * second else op_backoff o1),
      op_interval = (if op_interval o1 \<le>s 0 then 5 * second else op_interval o1),
      op_timeout = (if op_timeout o1 \<le>s 0 then 10 * second else op_timeout o1),
      op_claim_stale = (if op_claim_stale o1 \<le>s 0 then 120 * second else op_claim_stale o1)\<rparr>"

text \<open>What the dispatcher works with. \<open>dp_marshal\<close> is \<open>json.Marshal\<close>, \<open>dp_hmac\<close> is HMAC-SHA256, \<open>dp_request\<close> says
  whether \<open>http.NewRequest\<close> takes the URL; the last three are the network.\<close>

record hook_dispatcher =
  dp_env :: env
  dp_box :: aead
  dp_options :: hook_options
  dp_marshal :: "hook_event \<Rightarrow> string option"
  dp_hmac :: "string \<Rightarrow> string \<Rightarrow> string"
  dp_request :: "string \<Rightarrow> bool"
  dp_hops :: "nat \<Rightarrow> hook_post \<Rightarrow> string list list"
  dp_up :: "nat \<Rightarrow> string \<Rightarrow> bool"
  dp_answer :: "nat \<Rightarrow> hook_post \<Rightarrow> string + int"

definition matches :: "string \<Rightarrow> string \<Rightarrow> bool" where
  "matches filter0 action =
     (let flt = trim_space filter0 in
      if flt = [] \<or> flt = ''*'' then True
      else list_ex (\<lambda>tok0. let tok = trim_space tok0 in
             tok \<noteq> [] \<and> (tok = action \<or> has_prefix action (tok @ ''.''))) (split_on CHR '','' flt))"

definition hex_lower :: "char \<Rightarrow> string" where
  "hex_lower c = (let digits = ''0123456789abcdef''; n = val c in [digits ! (n div 16), digits ! (n mod 16)])"

definition sign :: "hook_dispatcher \<Rightarrow> string \<Rightarrow> string \<Rightarrow> string" where
  "sign D key body = ''sha256='' @ concat (map hex_lower (dp_hmac D key body))"

definition emit_one :: "hook_dispatcher \<Rightarrow> string \<Rightarrow> string \<Rightarrow> string \<Rightarrow> string \<Rightarrow> string \<Rightarrow> Webhook \<Rightarrow> hook_db \<Rightarrow> hook_db" where
  "emit_one D actor action target detail ip w s =
     (if wh_disabled w \<or> \<not> matches (wh_events w) action then s
      else let t = now (dp_env D) s in
        case dp_marshal D \<lparr>ev_id = ''evt-'' @ string_of_int t, ev_ts = t, ev_actor = actor, ev_action = action,
               ev_target = target, ev_detail = detail, ev_ip = ip\<rparr> of
          None \<Rightarrow> s
        | Some payload \<Rightarrow> snd (CreateWebhookDelivery (dp_env D) (wh_id w) action payload s))"

definition Emit :: "hook_dispatcher \<Rightarrow> string \<Rightarrow> string \<Rightarrow> string \<Rightarrow> string \<Rightarrow> string \<Rightarrow> hook_db \<Rightarrow> hook_db" where
  "Emit D actor action target detail ip s =
     attempt (ListWebhooksWithSecret (dp_env D) s) (\<lambda>_ s. s)
       (\<lambda>ws s. foldl (\<lambda>s w. emit_one D actor action target detail ip w s) s ws)"

text \<open>\<open>http.Client.Do\<close> with the transport of \<open>newDeliveryTransport\<close>, whose dialer asks \<open>dialerControl\<close> before every
  connection; it takes time. A proxy of the environment, which the cloned transport honours, is not modelled.\<close>

definition http_Do :: "hook_dispatcher \<Rightarrow> hook_post \<Rightarrow> hook_db \<Rightarrow> (string, int, hook_db) outcome" where
  "http_Do D p s =
     (case follow dialerControl (dp_up D (tick s)) (dp_hops D (tick s) p) of
        (peers, ok) \<Rightarrow>
          let r = (if ok then dp_answer D (tick s) p else Inl ''no connection'') in
          (r, s\<lparr>tick := Suc (tick s), wire := wire s @ [\<lparr>hs_post = p, hs_peers = peers, hs_answer = r\<rparr>]\<rparr>))"

definition quarter_hour :: "64 word" where "quarter_hour = 900 * second"

text \<open>\<open>d.backoff << (attempts - 1)\<close>, at most a quarter of an hour.\<close>

definition retry_delay :: "64 word \<Rightarrow> nat \<Rightarrow> 64 word" where
  "retry_delay backoff attempts =
     (let delay = push_bit (attempts - 1) backoff in if quarter_hour <s delay then quarter_hour else delay)"

definition recordFailure :: "hook_dispatcher \<Rightarrow> WebhookDelivery \<Rightarrow> int \<Rightarrow> string \<Rightarrow> hook_db \<Rightarrow> hook_db" where
  "recordFailure D d status msg s =
     (let attempts = wd_attempts d + 1; ops = dp_options D;
          next = (if int attempts < op_max_attempts ops
                  then Some (now (dp_env D) s + sint (retry_delay (op_backoff ops) attempts)) else None) in
      snd (RecordWebhookDeliveryResult (dp_env D) (wd_id d) False status msg next s))"

definition signing_key :: "hook_dispatcher \<Rightarrow> Webhook \<Rightarrow> string option" where
  "signing_key D w =
     (if wh_secret_enc w = [] then Some []
      else (case Decrypt (dp_box D) (wh_secret_enc w) of Inl _ \<Rightarrow> None | Inr key \<Rightarrow> Some key))"

definition post_of :: "hook_dispatcher \<Rightarrow> Webhook \<Rightarrow> string \<Rightarrow> WebhookDelivery \<Rightarrow> hook_post" where
  "post_of D w key d =
     \<lparr>po_url = wh_url w, po_body = wd_payload d, po_event = wd_event d, po_delivery = wd_id d,
      po_signature = (if key = [] then None else Some (sign D key (wd_payload d)))\<rparr>"

definition deliver :: "hook_dispatcher \<Rightarrow> WebhookDelivery \<Rightarrow> hook_db \<Rightarrow> hook_db" where
  "deliver D d s =
     attempt (GetWebhook (dp_env D) (wd_webhook_id d) s)
       (\<lambda>_ s. s)
       (\<lambda>w s. case signing_key D w of
          None \<Rightarrow> s
        | Some key \<Rightarrow>
            if \<not> dp_request D (wh_url w) then recordFailure D d 0 ''invalid request'' s
            else attempt (http_Do D (post_of D w key d) s)
              (\<lambda>msg s. recordFailure D d 0 msg s)
              (\<lambda>status s. if 200 \<le> status \<and> status < 300
                 then snd (RecordWebhookDeliveryResult (dp_env D) (wd_id d) True status [] None s)
                 else recordFailure D d status (''unexpected status '' @ string_of_int status) s))"

definition Tick :: "hook_dispatcher \<Rightarrow> hook_db \<Rightarrow> hook_db" where
  "Tick D s =
     attempt (ClaimDueWebhookDeliveries (dp_env D) (now (dp_env D) s) (sint (op_claim_stale (dp_options D))) 100 s)
       (\<lambda>_ s. s) (\<lambda>due s. foldl (\<lambda>s d. deliver D d s) s due)"


section \<open>The handlers of the administrators\<close>

record hook_input =
  hi_name :: string
  hi_url :: string
  hi_events :: string
  hi_secret :: string
  hi_disabled :: bool

record hook_api =
  ha_dispatcher :: hook_dispatcher
  ha_url_parse :: "string \<Rightarrow> (string \<times> string) option"
  ha_nonce :: "nat \<Rightarrow> string option"

definition encryptWebhookSecret :: "hook_api \<Rightarrow> string \<Rightarrow> hook_db \<Rightarrow> box_error + string" where
  "encryptWebhookSecret A key s =
     (if key = [] \<or> IsEncrypted key then Inr key
      else Encrypt (dp_box (ha_dispatcher A)) (ha_nonce A (tick s)) key)"

definition stored_hook :: "Webhook hook_stmt \<Rightarrow> nat \<Rightarrow> nat \<times> hook_db" where
  "stored_hook r code = attempt r (\<lambda>_ s. (400, s)) (\<lambda>_ s. (code, s))"

text \<open>The handlers answer with a status; a row that does not exist is 404, any other error 400.\<close>

definition missing_row :: "db_error \<Rightarrow> nat" where
  "missing_row e = (if e = ErrNotFound then 404 else 400)"

definition apiWebhookCreate :: "hook_api \<Rightarrow> string \<Rightarrow> hook_input \<Rightarrow> hook_db \<Rightarrow> nat \<times> hook_db" where
  "apiWebhookCreate A user inp s =
     (let E = dp_env (ha_dispatcher A) in
      if hi_name inp = [] then (400, s)
      else if hi_url inp = [] then (400, s)
      else if \<not> ValidateWebhookURL (ha_url_parse A) (hi_url inp) then (400, s)
      else case encryptWebhookSecret A (hi_secret inp) s of
        Inl _ \<Rightarrow> (400, s)
      | Inr key \<Rightarrow> stored_hook (CreateWebhook E
          \<lparr>wh_id = 0, wh_name = hi_name inp, wh_url = hi_url inp, wh_events = hi_events inp, wh_secret_enc = key,
           wh_disabled = hi_disabled inp, wh_created_by = user, wh_created_at = 0, wh_updated_at = 0\<rparr> s) 201)"

definition apiWebhookUpdate :: "hook_api \<Rightarrow> nat \<Rightarrow> hook_input \<Rightarrow> hook_db \<Rightarrow> nat \<times> hook_db" where
  "apiWebhookUpdate A i inp s =
     (let E = dp_env (ha_dispatcher A) in
      attempt (GetWebhook E i s) (\<lambda>e s. (missing_row e, s))
        (\<lambda>existing s. let url = (if hi_url inp = [] then wh_url existing else hi_url inp) in
           if \<not> ValidateWebhookURL (ha_url_parse A) url then (400, s)
           else case encryptWebhookSecret A (hi_secret inp) s of
             Inl _ \<Rightarrow> (400, s)
           | Inr key \<Rightarrow> stored_hook (UpdateWebhook E
               \<lparr>wh_id = i, wh_name = wh_name existing, wh_url = url, wh_events = hi_events inp, wh_secret_enc = key,
                wh_disabled = hi_disabled inp, wh_created_by = [], wh_created_at = 0, wh_updated_at = 0\<rparr> s) 200))"

definition apiWebhookDisable :: "hook_api \<Rightarrow> nat \<Rightarrow> bool option \<Rightarrow> hook_db \<Rightarrow> nat \<times> hook_db" where
  "apiWebhookDisable A i body s =
     (let E = dp_env (ha_dispatcher A); disabled = (case body of None \<Rightarrow> True | Some b \<Rightarrow> b) in
      attempt (GetWebhook E i s) (\<lambda>e s. (missing_row e, s))
        (\<lambda>_ s. attempt (SetWebhookDisabled E i disabled s) (\<lambda>_ s. (400, s)) (\<lambda>_ s. (200, s))))"

definition apiWebhookDelete :: "hook_api \<Rightarrow> nat \<Rightarrow> hook_db \<Rightarrow> nat \<times> hook_db" where
  "apiWebhookDelete A i s =
     (let E = dp_env (ha_dispatcher A) in
      attempt (GetWebhook E i s) (\<lambda>e s. (missing_row e, s))
        (\<lambda>_ s. attempt (DeleteWebhook E i s) (\<lambda>_ s. (400, s)) (\<lambda>_ s. (200, s))))"


section \<open>What the guard keeps out\<close>

text \<open>An address block: the first \<open>n\<close> bits of \<open>net\<close>.\<close>

definition in_block :: "nat list \<Rightarrow> nat list \<times> nat \<Rightarrow> bool" where
  "in_block ip blk \<longleftrightarrow>
     (case blk of (net, n) \<Rightarrow>
        length ip = length net \<and> take (n div 8) ip = take (n div 8) net \<and>
        (n mod 8 \<noteq> 0 \<longrightarrow> ip ! (n div 8) div 2 ^ (8 - n mod 8) = net ! (n div 8) div 2 ^ (8 - n mod 8)))"

text \<open>\<open>127.0.0.0/8\<close>, \<open>169.254.0.0/16\<close>, \<open>224.0.0.0/24\<close>, \<open>0.0.0.0\<close>; \<open>::1\<close>, \<open>::\<close>, \<open>fe80::/10\<close> and the link-local multicast
  groups \<open>ff02::/16\<close> with any flags.\<close>

definition never_receivers :: "(nat list \<times> nat) list" where
  "never_receivers =
     [([127, 0, 0, 0], 8), ([169, 254, 0, 0], 16), ([224, 0, 0, 0], 24), ([0, 0, 0, 0], 32),
      (replicate 15 0 @ [1], 128), (replicate 16 0, 128), (0xfe # 0x80 # replicate 14 0, 10)] @
     map (\<lambda>f. (0xff # (16 * f + 2) # replicate 14 0, 16)) [0..<16]"

lemma and_c0: "and b 0xc0 = 0x80 \<longleftrightarrow> b div 64 mod 4 = 2" for b :: nat
proof -
  have c0: "(0xc0 :: nat) = push_bit 6 (mask 2)" by (simp add: mask_eq_exp_minus_1 push_bit_eq_mult)
  have "and b 0xc0 = push_bit 6 (and (drop_bit 6 b) (mask 2))"
    unfolding c0 by (rule bit_eqI) (auto simp: bit_simps)
  also have "and (drop_bit 6 b) (mask 2) = b div 64 mod 4"
    by (simp add: take_bit_eq_mask [symmetric] take_bit_eq_mod drop_bit_eq_div)
  finally show ?thesis by (simp add: push_bit_eq_mult)
qed

lemma and_0f: "and b 0x0f = b mod 16" for b :: nat
proof -
  have "(0x0f :: nat) = mask 4" by (simp add: mask_eq_exp_minus_1)
  then show ?thesis by (simp only: take_bit_eq_mask [symmetric] take_bit_eq_mod) simp
qed


lemma byte_blocks: "b \<le> 255 \<Longrightarrow> and b 0xc0 = 0x80 \<longleftrightarrow> b div 64 = 2" for b :: nat
  unfolding and_c0 by (simp add: mod_if)

lemma multicast_blocks: "b \<le> 255 \<Longrightarrow> and b 0x0f = 0x02 \<longleftrightarrow> (\<exists>f < 16. b = 16 * f + 2)" for b :: nat
proof
  assume "b \<le> 255" "and b 0x0f = 0x02"
  then have "b = 16 * (b div 16) + 2 \<and> b div 16 < 16" by (simp add: and_0f) presburger
  then show "\<exists>f < 16. b = 16 * f + 2" by blast
qed (clarsimp simp: and_0f, presburger)

lemma length_4: "length ip = 4 \<Longrightarrow> \<exists>a b c d. ip = [a, b, c, d]"
  by (auto simp: numeral_eq_Suc length_Suc_conv)

lemma bex_never_receivers:
  "(\<exists>blk \<in> set never_receivers. P blk) \<longleftrightarrow>
     P ([127, 0, 0, 0], 8) \<or> P ([169, 254, 0, 0], 16) \<or> P ([224, 0, 0, 0], 24) \<or> P ([0, 0, 0, 0], 32) \<or>
     P (replicate 15 0 @ [1], 128) \<or> P (replicate 16 0, 128) \<or> P (0xfe # 0x80 # replicate 14 0, 10) \<or>
     (\<exists>f < 16. P (0xff # (16 * f + 2) # replicate 14 0, 16))"
  unfolding never_receivers_def set_append set_map set_upt bex_Un by (auto simp: atLeast0LessThan)

lemma in_block_other_length: "length ip \<noteq> length net \<Longrightarrow> \<not> in_block ip (net, n)"
  by (simp add: in_block_def)

lemma blocked_v4:
  assumes "length ip = 4"
  shows "isBlockedIP ip \<longleftrightarrow> (\<exists>blk \<in> set never_receivers. in_block ip blk)"
proof -
  obtain a b c d where ip: "ip = [a, b, c, d]" using length_4 [OF assms] by blast
  have no: "\<not> in_block ip (net, n)" if "length net = 16" for net n
    using that assms by (intro in_block_other_length) simp
  have "in_block ip ([127, 0, 0, 0], 8) \<longleftrightarrow> IsLoopback ip"
    by (simp add: ip in_block_def IsLoopback_def)
  moreover have "in_block ip ([169, 254, 0, 0], 16) \<longleftrightarrow> IsLinkLocalUnicast ip"
    by (simp add: ip in_block_def IsLinkLocalUnicast_def)
  moreover have "in_block ip ([224, 0, 0, 0], 24) \<longleftrightarrow> IsLinkLocalMulticast ip"
    by (simp add: ip in_block_def IsLinkLocalMulticast_def)
  moreover have "ip = replicate 4 0 \<longleftrightarrow> ip = [0, 0, 0, 0]" "ip \<noteq> replicate 16 0"
    by (simp_all add: ip numeral_eq_Suc)
  then have "in_block ip ([0, 0, 0, 0], 32) \<longleftrightarrow> IsUnspecified ip"
    by (simp add: ip in_block_def IsUnspecified_def)
  ultimately show ?thesis unfolding bex_never_receivers isBlockedIP_def by (auto simp: no)
qed

lemma blocked_v6:
  assumes "length ip = 16" and "\<forall>b \<in> set ip. b \<le> 255"
  shows "isBlockedIP ip \<longleftrightarrow> (\<exists>blk \<in> set never_receivers. in_block ip blk)"
proof -
  obtain a as where "ip = a # as" using assms(1) by (cases ip) auto
  moreover from this assms(1) obtain b cs where "as = b # cs" by (cases as) auto
  ultimately have ip: "ip = a # b # cs" "length cs = 14" using assms(1) by simp_all
  then have b: "b \<le> 255" using assms(2) by simp
  have no: "\<not> in_block ip (net, n)" if "length net = 4" for net n
    using that assms by (intro in_block_other_length) simp
  have one: "in_block ip (replicate 15 0 @ [1], 128) \<longleftrightarrow> IsLoopback ip"
    and zero: "in_block ip (replicate 16 0, 128) \<longleftrightarrow> IsUnspecified ip"
    using assms(1) by (auto simp: in_block_def IsLoopback_def IsUnspecified_def)
  have local: "in_block ip (0xfe # 0x80 # replicate 14 0, 10) \<longleftrightarrow> IsLinkLocalUnicast ip"
    using ip byte_blocks [OF b] by (auto simp: in_block_def IsLinkLocalUnicast_def)
  have "(\<exists>f < 16. in_block ip (0xff # (16 * f + 2) # replicate 14 0, 16)) \<longleftrightarrow> IsLinkLocalMulticast ip"
    using ip multicast_blocks [OF b] by (auto simp: in_block_def IsLinkLocalMulticast_def)
  with one zero local show ?thesis unfolding bex_never_receivers isBlockedIP_def by (auto simp: no)
qed

text \<open>The bytes that \<open>ParseIP\<close> returns.\<close>

lemma hex_val_less: "hex_val c = Some v \<Longrightarrow> v < 16"
  by (auto simp: hex_val_def Let_def split: if_splits)

lemma hex_number_less: "list_all is_hex s \<Longrightarrow> hex_number s < 16 ^ length s"
proof (induction s rule: rev_induct)
  case Nil
  then show ?case by (simp add: hex_number_def)
next
  case (snoc c s)
  then obtain v where v: "hex_val c = Some v" by (auto simp: is_hex_def)
  with snoc have "hex_number s < 16 ^ length s" "v < 16" by (simp_all add: hex_val_less)
  moreover have "hex_number (s @ [c]) = 16 * hex_number s + v" using v by (simp add: hex_number_def)
  ultimately show ?case by simp
qed

lemma finish_bytes: "finish bs ell s = Some r \<Longrightarrow> \<forall>b \<in> set bs. b \<le> 255 \<Longrightarrow> length bs \<le> 16 \<Longrightarrow> length r = 16 \<and> (\<forall>b \<in> set r. b \<le> 255)"
  by (force simp: finish_def dest: in_set_takeD in_set_dropD split: if_splits option.splits)

lemma groups_step:
  assumes "groups bs ell s = Some r" and "length bs < 16"
  defines "d \<equiv> takeWhile is_hex s"
  defines "bs' \<equiv> bs @ [hex_number d div 256, hex_number d mod 256]"
  shows "(\<exists>q. parse_ipv4 s = Some q \<and> length bs + 4 \<le> 16 \<and> finish (bs @ q) ell [] = Some r) \<or>
     length d \<le> 4 \<and> ((\<exists>e. finish bs' e [] = Some r) \<or> (\<exists>e t. groups bs' e t = Some r))"
  using assms(1,2) unfolding d_def bs'_def
  by (subst (asm) groups.simps) (auto simp: Let_def not_less split: if_splits option.splits)

lemma hex_pair: "length (takeWhile is_hex s) \<le> 4 \<Longrightarrow> hex_number (takeWhile is_hex s) div 256 \<le> 255"
proof -
  assume l: "length (takeWhile is_hex s) \<le> 4"
  have "hex_number (takeWhile is_hex s) < 16 ^ length (takeWhile is_hex s)"
    by (rule hex_number_less) (auto simp: list_all_iff dest: set_takeWhileD)
  also have "\<dots> \<le> 16 ^ 4" using l by (intro power_increasing) simp_all
  finally show ?thesis by simp
qed

definition bytes :: "nat list \<Rightarrow> bool" where
  "bytes bs \<longleftrightarrow> (\<forall>b \<in> set bs. b \<le> 255)"

lemma groups_bytes:
  "groups bs ell s = Some r \<Longrightarrow> bytes bs \<Longrightarrow> length bs \<le> 16 \<Longrightarrow> even (length bs) \<Longrightarrow> length r = 16 \<and> bytes r"
proof (induction "16 - length bs" arbitrary: bs ell s rule: less_induct)
  case less
  show ?case
  proof (cases "16 \<le> length bs")
    case True
    with less.prems show ?thesis by (simp add: groups.simps [of bs ell s] finish_bytes bytes_def)
  next
    case False
    let ?d = "takeWhile is_hex s"
    let ?bs = "bs @ [hex_number ?d div 256, hex_number ?d mod 256]"
    have len: "length ?bs \<le> 16" "even (length ?bs)" using False less.prems(4) by (simp_all, presburger)
    have "bytes ?bs" if "length ?d \<le> 4"
      using hex_pair [OF that] less.prems(2) mod_less_divisor [of 256 "hex_number ?d"] by (auto simp: bytes_def)
    then consider (quad) q where "parse_ipv4 s = Some q" "length bs + 4 \<le> 16" "finish (bs @ q) ell [] = Some r"
      | (last) e where "bytes ?bs" "finish ?bs e [] = Some r"
      | (more) e t where "bytes ?bs" "groups ?bs e t = Some r"
      using groups_step [OF less.prems(1)] False by fastforce
    then show ?thesis
    proof cases
      case quad
      with less.prems(2) parse_ipv4_bytes [of s q] show ?thesis
        unfolding bytes_def by (intro finish_bytes [OF quad(3)]) auto
    next
      case last
      with len(1) show ?thesis unfolding bytes_def by (intro finish_bytes [OF last(2)]) simp_all
    next
      case more
      then show ?thesis using less.hyps [of ?bs e t] len False by simp
    qed
  qed
qed

lemma ParseIP_bytes:
  assumes "ParseIP s = Some ip"
  shows "(length ip = 4 \<or> length ip = 16) \<and> bytes ip"
proof -
  have v4: "length ip = 4 \<and> bytes ip" if "parse_ipv4 s = Some ip" for ip
    using parse_ipv4_bytes [OF that] by (simp add: bytes_def)
  have v6: "length ip = 16 \<and> bytes ip" if "parse_ipv6 s = Some ip" for ip
    using that groups_bytes [of "[]" _ _ ip] by (auto simp: parse_ipv6_def bytes_def split: if_splits)
  have "(length (unmap ip) = 4 \<or> length (unmap ip) = 16) \<and> bytes (unmap ip)" if "parse_ipv6 s = Some ip" for ip
    using v6 [OF that] by (auto simp: unmap_def bytes_def dest: in_set_dropD)
  with assms v4 show ?thesis by (auto simp: ParseIP_def split: option.splits if_splits)
qed

definition reachable_receiver :: "string \<Rightarrow> bool" where
  "reachable_receiver address \<longleftrightarrow>
     (\<exists>host port ip. SplitHostPort address = Some (host, port) \<and> ParseIP host = Some ip \<and>
        \<not> (\<exists>blk \<in> set never_receivers. in_block ip blk))"

lemma dialerControl_iff: "dialerControl a \<longleftrightarrow> reachable_receiver a"
  using blocked_v4 blocked_v6 ParseIP_bytes
  by (fastforce simp: dialerControl_def reachable_receiver_def bytes_def split: option.splits)

lemma follow_controlled: "a \<in> set (fst (follow control up hops)) \<Longrightarrow> control a"
  by (induction hops) (auto dest: find_SomeD split: option.splits prod.splits)


section \<open>Sequences of statements\<close>

datatype hook_statement =
    InsertHook Webhook | PutHook Webhook | PutHookDisabled nat bool | DropHook nat
  | InsertDelivery WebhookDelivery | PutClaim int int int | PutResult nat bool int string "int option"
  | Send hook_dispatcher hook_post

fun hook_exec :: "env \<Rightarrow> hook_statement \<Rightarrow> hook_db \<Rightarrow> hook_db" where
  "hook_exec E (InsertHook w) s = snd (insert_webhook E w s)"
| "hook_exec E (PutHook w) s = snd (put_webhook E w s)"
| "hook_exec E (PutHookDisabled i d) s = snd (SetWebhookDisabled E i d s)"
| "hook_exec E (DropHook i) s = snd (DeleteWebhook E i s)"
| "hook_exec E (InsertDelivery d) s = snd (insert_delivery E d s)"
| "hook_exec E (PutClaim t stale limit) s = snd (ClaimDueWebhookDeliveries E t stale limit s)"
| "hook_exec E (PutResult i ok status msg next) s = snd (RecordWebhookDeliveryResult E i ok status msg next s)"
| "hook_exec E (Send D p) s = snd (http_Do D p s)"

text \<open>The states that the statements of any number of dispatchers and handlers reach, interleaved; those that change a
  table, and the requests, are among \<open>Q\<close>.\<close>

inductive hook_reach :: "env \<Rightarrow> (hook_statement \<Rightarrow> bool) \<Rightarrow> hook_db \<Rightarrow> hook_db \<Rightarrow> bool" for E Q s0 where
  hook_start: "hook_reach E Q s0 s0"
| hook_select: "hook_reach E Q s0 s \<Longrightarrow> hook_reach E Q s0 (s\<lparr>tick := Suc (tick s)\<rparr>)"
| hook_change: "hook_reach E Q s0 s \<Longrightarrow> Q st \<Longrightarrow> hook_reach E Q s0 (hook_exec E st s)"

inductive_cases hook_reachE: "hook_reach E Q s0 s"

lemma hook_reach_trans: "hook_reach E Q t u \<Longrightarrow> hook_reach E Q s t \<Longrightarrow> hook_reach E Q s u"
  by (induction rule: hook_reach.induct) (auto intro: hook_reach.intros)

interpretation hooks: state_frame "hook_reach E Q" for E Q
  by unfold_locales (auto intro: hook_reach.intros elim: hook_reach_trans)

lemma hook_reach_invariant:
  assumes "hook_reach E Q s t" and "P s"
    and "\<And>s. P s \<Longrightarrow> P (s\<lparr>tick := Suc (tick s)\<rparr>)"
    and "\<And>s st. P s \<Longrightarrow> Q st \<Longrightarrow> P (hook_exec E st s)"
  shows "P t"
  using assms by (induction rule: hook_reach.induct) auto

lemmas reach_hook_change =
  hook_change [of _ _ _ _ "InsertHook w" for w, unfolded hook_exec.simps]
  hook_change [of _ _ _ _ "PutHook w" for w, unfolded hook_exec.simps]
  hook_change [of _ _ _ _ "PutHookDisabled i d" for i d, unfolded hook_exec.simps]
  hook_change [of _ _ _ _ "DropHook i" for i, unfolded hook_exec.simps]
  hook_change [of _ _ _ _ "InsertDelivery d" for d, unfolded hook_exec.simps]
  hook_change [of _ _ _ _ "PutClaim t st l" for t st l, unfolded hook_exec.simps]
  hook_change [of _ _ _ _ "PutResult i ok st m n" for i ok st m n, unfolded hook_exec.simps]
  hook_change [of _ _ _ _ "Send D p" for D p, unfolded hook_exec.simps]

lemma reach_deliver:
  assumes "hook_reach (dp_env D) Q s0 s" and "\<And>ok st m n. Q (PutResult (wd_id d) ok st m n)" and "\<And>p. Q (Send D p)"
  shows "hook_reach (dp_env D) Q s0 (deliver D d s)"
proof -
  have frame: "hook_reach (dp_env D) Q s0 (attempt r h k)"
    if "hook_reach (dp_env D) Q s0 (snd r)" "\<And>e s. hook_reach (dp_env D) Q s0 s \<Longrightarrow> hook_reach (dp_env D) Q s0 (h e s)"
      "\<And>x s. hook_reach (dp_env D) Q s0 s \<Longrightarrow> hook_reach (dp_env D) Q s0 (k x s)" for r :: "('e, 'a, hook_db) outcome" and h k
    using that by (cases r; cases "fst r") auto
  show ?thesis
    unfolding deliver_def recordFailure_def Let_def GetWebhook_def
    using assms by (auto intro!: frame hooks.acc_query reach_hook_change split: option.split)
qed


section \<open>Claims\<close>

lemma claim_Inr:
  "ClaimDueWebhookDeliveries E t stale limit s = (Inr ds, s') \<Longrightarrow>
     (let s = s\<lparr>tick := Suc (tick s)\<rparr> in
      ds = map (\<lambda>d. d\<lparr>wd_claimed_at := Some t\<rparr>) (filter (claims t stale limit s) (rows (deliveries s))) \<and>
      s' = set_deliveries (claims t stale limit s) (\<lambda>d. d\<lparr>wd_claimed_at := Some t\<rparr>) s)"
  by (auto simp: ClaimDueWebhookDeliveries_def run_def Let_def split: if_splits)

text \<open>A row that was claimed at \<open>t\<close> keeps a claim of \<open>t\<close> or later until its result is recorded.\<close>

definition claim_held :: "nat \<Rightarrow> int \<Rightarrow> hook_db \<Rightarrow> bool" where
  "claim_held i t s \<longleftrightarrow> i < next_id (deliveries s) \<and>
     (\<forall>d \<in> set (rows (deliveries s)). wd_id d = i \<longrightarrow> (\<exists>c. wd_claimed_at d = Some c \<and> t \<le> c))"

definition unresolved :: "nat \<Rightarrow> int \<Rightarrow> hook_statement \<Rightarrow> bool" where
  "unresolved i t st \<longleftrightarrow>
     (case st of PutResult j _ _ _ _ \<Rightarrow> j \<noteq> i | PutClaim t' _ _ \<Rightarrow> t \<le> t' | _ \<Rightarrow> True)"

lemma claim_held_tick [simp]: "claim_held i t (s\<lparr>tick := n\<rparr>) = claim_held i t s"
  by (simp add: claim_held_def)

lemma claim_held_kept: "claim_held i t s \<Longrightarrow> unresolved i t st \<Longrightarrow> claim_held i t (hook_exec E st s)"
  by (cases st)
     (auto simp: claim_held_def unresolved_def insert_webhook_def put_webhook_def SetWebhookDisabled_def DeleteWebhook_def
       insert_delivery_def ClaimDueWebhookDeliveries_def RecordWebhookDeliveryResult_def http_Do_def affecting_def
       stmt_defs set_hooks_def set_deliveries_def set_update_where delivered_row_def failed_row_def attempt_def
       split: prod.splits sum.splits if_splits)

lemma claim_held_not_claimed: "claim_held i t s \<Longrightarrow> t' - stale < t \<Longrightarrow> d \<in> set (rows (deliveries s)) \<Longrightarrow> wd_id d = i \<Longrightarrow> \<not> delivery_due t' stale d"
  by (auto simp: claim_held_def delivery_due_def)


section \<open>One delivery\<close>

definition faultless :: "env \<Rightarrow> bool" where
  "faultless E \<longleftrightarrow> (\<forall>n. \<not> fault E n)"

definition accepted :: "hook_sent \<Rightarrow> bool" where
  "accepted x \<longleftrightarrow> (case hs_answer x of Inl _ \<Rightarrow> False | Inr st \<Rightarrow> 200 \<le> st \<and> st < 300)"

definition sends :: "nat \<Rightarrow> hook_db \<Rightarrow> nat" where
  "sends i s = length (filter (\<lambda>x. po_delivery (hs_post x) = i) (wire s))"

definition oks :: "nat \<Rightarrow> hook_db \<Rightarrow> nat" where
  "oks i s = length (filter (\<lambda>x. po_delivery (hs_post x) = i \<and> accepted x) (wire s))"

lemma update_rows_id [simp]: "update_rows p id t = t"
  by (simp add: update_rows_def update_where_def id_def)

text \<open>What one attempt does: nothing, when the webhook is gone or its key does not decrypt; a request that is accepted, and
  the row is delivered; or a failure, and the row is tried again or given up.\<close>

datatype attempt_result = Nothing_sent | Accepted hook_sent int int | Refused "hook_sent list" int int string "int option"

fun sent_by :: "attempt_result \<Rightarrow> hook_sent list" where
  "sent_by Nothing_sent = []"
| "sent_by (Accepted x _ _) = [x]"
| "sent_by (Refused xs _ _ _ _) = xs"

fun row_after :: "attempt_result \<Rightarrow> WebhookDelivery \<Rightarrow> WebhookDelivery" where
  "row_after Nothing_sent d = d"
| "row_after (Accepted _ t st) d = delivered_row t st d"
| "row_after (Refused _ t st msg next) d = failed_row t st msg next d"

fun result_ok :: "hook_dispatcher \<Rightarrow> WebhookDelivery \<Rightarrow> attempt_result \<Rightarrow> bool" where
  "result_ok D d Nothing_sent = True"
| "result_ok D d (Accepted x _ _) = (accepted x \<and> po_delivery (hs_post x) = wd_id d)"
| "result_ok D d (Refused xs _ _ _ next) =
     (length xs \<le> 1 \<and> list_all (\<lambda>x. \<not> accepted x \<and> po_delivery (hs_post x) = wd_id d) xs \<and>
      (next = None \<longleftrightarrow> op_max_attempts (dp_options D) \<le> int (wd_attempts d + 1)))"

definition guarded :: "hook_sent \<Rightarrow> bool" where
  "guarded x \<longleftrightarrow> list_all reachable_receiver (hs_peers x)"

lemma row_after_funs [simp]:
  "row_after Nothing_sent = id" "row_after (Accepted x t st) = delivered_row t st"
  "row_after (Refused xs t st msg nx) = failed_row t st msg nx"
  by (rule ext, simp)+

lemma recordFailure_effect:
  assumes "faultless (dp_env D)"
  shows "\<exists>t next. result_ok D d (Refused [] t st msg next) \<and>
     recordFailure D d st msg s =
       s\<lparr>tick := Suc (tick s), deliveries := update_rows (\<lambda>x. wd_id x = wd_id d) (failed_row t st msg next) (deliveries s)\<rparr>"
  using assms by (auto simp: recordFailure_def RecordWebhookDeliveryResult_def stmt_defs faultless_def set_deliveries_def not_less)

lemma http_Do_guarded: "http_Do D p s = (r, s') \<Longrightarrow>
   \<exists>peers. list_all reachable_receiver peers \<and>
     s' = s\<lparr>tick := Suc (tick s), wire := wire s @ [\<lparr>hs_post = p, hs_peers = peers, hs_answer = r\<rparr>]\<rparr>"
  using follow_controlled [of _ dialerControl "dp_up D (tick s)" "dp_hops D (tick s) p"]
  by (auto simp: http_Do_def Let_def list_all_iff dialerControl_iff split: prod.splits)

lemma deliver_effect:
  assumes "faultless (dp_env D)"
  shows "\<exists>r n. result_ok D d r \<and> list_all guarded (sent_by r) \<and>
     deliver D d s = s\<lparr>tick := n, wire := wire s @ sent_by r,
       deliveries := update_rows (\<lambda>x. wd_id x = wd_id d) (row_after r) (deliveries s)\<rparr>"
proof -
  note ok = assms [unfolded faultless_def, rule_format]
  let ?s = "s\<lparr>tick := Suc (tick s)\<rparr>"
  have idle: ?thesis if "deliver D d s = ?s"
    using that by (intro exI [of _ Nothing_sent] exI [of _ "Suc (tick s)"]) simp
  show ?thesis
  proof (cases "find (\<lambda>w. wh_id w = wd_webhook_id d) (rows (webhooks s))")
    case None
    then show ?thesis by - (rule idle, simp add: deliver_def GetWebhook_def stmt_defs ok select_one_def)
  next
    case (Some w)
    then have get: "GetWebhook (dp_env D) (wd_webhook_id d) s = (Inr w, ?s)"
      by (simp add: GetWebhook_def stmt_defs ok select_one_def)
    show ?thesis
    proof (cases "signing_key D w")
      case None
      with get show ?thesis by - (rule idle, simp add: deliver_def)
    next
      case key: (Some key)
      show ?thesis
      proof (cases "dp_request D (wh_url w)")
        case False
        obtain t nx where "result_ok D d (Refused [] t 0 ''invalid request'' nx)" and
          "recordFailure D d 0 ''invalid request'' ?s = ?s\<lparr>tick := Suc (tick ?s),
             deliveries := update_rows (\<lambda>x. wd_id x = wd_id d) (failed_row t 0 ''invalid request'' nx) (deliveries ?s)\<rparr>"
          using recordFailure_effect [OF assms] by blast
        with get key False show ?thesis
          by (intro exI [of _ "Refused [] t 0 ''invalid request'' nx"] exI [of _ "Suc (tick ?s)"])
             (auto simp: deliver_def)
      next
        case True
        obtain a s2 where do: "http_Do D (post_of D w key d) ?s = (a, s2)" by (cases "http_Do D (post_of D w key d) ?s")
        then obtain peers where peers: "list_all reachable_receiver peers"
          and s2: "s2 = ?s\<lparr>tick := Suc (tick ?s), wire := wire ?s @ [\<lparr>hs_post = post_of D w key d, hs_peers = peers, hs_answer = a\<rparr>]\<rparr>"
          using http_Do_guarded by blast
        let ?x = "\<lparr>hs_post = post_of D w key d, hs_peers = peers, hs_answer = a\<rparr>"
        have x: "guarded ?x" "po_delivery (hs_post ?x) = wd_id d" using peers by (simp_all add: guarded_def post_of_def)
        have refused: ?thesis if na: "\<not> accepted ?x" and eq: "deliver D d s = recordFailure D d st msg s2" for st msg
        proof -
          obtain t nx where "result_ok D d (Refused [] t st msg nx)" and
            "recordFailure D d st msg s2 = s2\<lparr>tick := Suc (tick s2),
               deliveries := update_rows (\<lambda>x. wd_id x = wd_id d) (failed_row t st msg nx) (deliveries s2)\<rparr>"
            using recordFailure_effect [OF assms] by blast
          with na eq x s2 show ?thesis
            by (intro exI [of _ "Refused [?x] t st msg nx"] exI [of _ "Suc (tick s2)"]) auto
        qed
        show ?thesis
        proof (cases a)
          case (Inl msg)
          with get key True do show ?thesis by - (rule refused [of 0 msg], simp_all add: deliver_def accepted_def)
        next
          case (Inr st)
          show ?thesis
          proof (cases "200 \<le> st \<and> st < 300")
            case True
            let ?t = "clock (dp_env D) (tick s2)"
            have "deliver D d s = s2\<lparr>tick := Suc (tick s2),
                deliveries := update_rows (\<lambda>x. wd_id x = wd_id d) (delivered_row ?t st) (deliveries s2)\<rparr>"
              using get key \<open>dp_request D (wh_url w)\<close> do Inr True
              by (simp add: deliver_def RecordWebhookDeliveryResult_def stmt_defs ok set_deliveries_def now_def)
            with x s2 Inr True show ?thesis
              by (intro exI [of _ "Accepted ?x ?t st"] exI [of _ "Suc (tick s2)"]) (auto simp: accepted_def)
          next
            case False
            with get key \<open>dp_request D (wh_url w)\<close> do Inr show ?thesis
              by - (rule refused [of st "''unexpected status '' @ string_of_int st"], auto simp: deliver_def accepted_def)
          qed
        qed
      qed
    qed
  qed
qed


section \<open>The queue\<close>

definition max_attempts :: "hook_dispatcher \<Rightarrow> nat" where
  "max_attempts D = nat (op_max_attempts (dp_options D))"

definition row_ok :: "hook_dispatcher \<Rightarrow> hook_db \<Rightarrow> WebhookDelivery \<Rightarrow> bool" where
  "row_ok D s d \<longleftrightarrow>
     sends (wd_id d) s \<le> wd_attempts d + (if wd_status d = WebhookStatusDelivered then 1 else 0) \<and>
     oks (wd_id d) s \<le> (if wd_status d = WebhookStatusDelivered then 1 else 0) \<and>
     (if wd_status d = WebhookStatusDead then wd_attempts d = max_attempts D else wd_attempts d < max_attempts D)"

definition queue_ok :: "hook_dispatcher \<Rightarrow> hook_db \<Rightarrow> bool" where
  "queue_ok D s \<longleftrightarrow>
     wf_table wd_id (deliveries s) \<and>
     (\<forall>x \<in> set (wire s). guarded x \<and> po_delivery (hs_post x) < next_id (deliveries s)) \<and>
     (\<forall>i. sends i s \<le> max_attempts D \<and> oks i s \<le> 1) \<and>
     (\<forall>d \<in> set (rows (deliveries s)). row_ok D s d)"

lemma sends_other [simp]: "sends i (s\<lparr>tick := n\<rparr>) = sends i s" "oks i (s\<lparr>tick := n\<rparr>) = oks i s"
  "sends i (s\<lparr>deliveries := t\<rparr>) = sends i s" "oks i (s\<lparr>deliveries := t\<rparr>) = oks i s"
  "sends i (s\<lparr>webhooks := ws\<rparr>) = sends i s" "oks i (s\<lparr>webhooks := ws\<rparr>) = oks i s"
  by (simp_all add: sends_def oks_def)

lemma row_ok_other [simp]: "row_ok D (s\<lparr>tick := n\<rparr>) = row_ok D s" "row_ok D (s\<lparr>deliveries := t\<rparr>) = row_ok D s"
  "row_ok D (s\<lparr>webhooks := ws\<rparr>) = row_ok D s"
  by (simp_all add: row_ok_def fun_eq_iff)

lemma queue_ok_other [simp]: "queue_ok D (s\<lparr>tick := n\<rparr>) = queue_ok D s" "queue_ok D (s\<lparr>webhooks := ws\<rparr>) = queue_ok D s"
  by (simp_all add: queue_ok_def)

text \<open>Statements that keep the queue in order whenever they come: those of the handlers, a new delivery and a claim.\<close>

definition orderly :: "hook_statement \<Rightarrow> bool" where
  "orderly st \<longleftrightarrow>
     (case st of InsertDelivery d \<Rightarrow> \<exists>t i e p. d = new_delivery t i e p
               | PutResult _ _ _ _ _ \<Rightarrow> False | Send _ _ \<Rightarrow> False | _ \<Rightarrow> True)"

lemma orderly_new [simp]: "orderly (InsertDelivery (new_delivery t i e p))"
  by (auto simp: orderly_def)

lemma unused_id: "queue_ok D s \<Longrightarrow> next_id (deliveries s) \<le> i \<Longrightarrow> sends i s = 0 \<and> oks i s = 0"
  by (auto simp: queue_ok_def sends_def oks_def filter_empty_conv)

lemma queue_ok_insert:
  assumes "queue_ok D s" and "0 < max_attempts D"
  shows "queue_ok D (s\<lparr>deliveries := insert_row (\<lambda>n. wd_id_update (\<lambda>_. n)) (new_delivery t i e p) (deliveries s)\<rparr>)"
  using assms unused_id [OF assms(1), of "next_id (deliveries s)"] deliveries_t.wf_insert [of "deliveries s" "new_delivery t i e p"]
  by (auto simp: queue_ok_def row_ok_def new_delivery_def)

lemma row_ok_claimed [simp]: "row_ok D s (d\<lparr>wd_claimed_at := c\<rparr>) = row_ok D s d"
  by (simp add: row_ok_def)

lemma queue_ok_claim:
  assumes "queue_ok D s"
  shows "queue_ok D (set_deliveries p (\<lambda>d. d\<lparr>wd_claimed_at := c\<rparr>) s)"
  using assms deliveries_t.wf_update [of "deliveries s" p "\<lambda>d. d\<lparr>wd_claimed_at := c\<rparr>"]
  by (auto simp: queue_ok_def set_deliveries_def set_update_where)

lemma queue_ok_delete:
  assumes "queue_ok D s"
  shows "queue_ok D (s\<lparr>deliveries := delete_rows p (deliveries s)\<rparr>)"
  using assms deliveries_t.wf_delete [of "deliveries s" p] by (auto simp: queue_ok_def)

lemma queue_ok_orderly:
  assumes "queue_ok D s" and "orderly st" and "0 < max_attempts D"
  shows "queue_ok D (hook_exec E st s)"
  using assms
proof (cases st)
  case (DropHook i)
  have "queue_ok D (s\<lparr>tick := n, webhooks := ws, deliveries := delete_rows p (deliveries s)\<rparr>)" for n ws p
    using queue_ok_delete [of D "s\<lparr>tick := n, webhooks := ws\<rparr>" p] assms(1) by simp
  with assms(1) DropHook show ?thesis
    by (auto simp: DeleteWebhook_def affecting_def stmt_defs attempt_def split: prod.splits sum.splits if_splits)
next
  case (InsertDelivery d)
  then obtain t i e p where "d = new_delivery t i e p" using assms(2) by (auto simp: orderly_def)
  with InsertDelivery assms(1,3) queue_ok_insert [of D "s\<lparr>tick := Suc (tick s)\<rparr>"] show ?thesis
    by (simp add: insert_delivery_def stmt_defs)
next
  case (PutClaim t stale limit)
  with assms(1) queue_ok_claim [of D "s\<lparr>tick := Suc (tick s)\<rparr>"] show ?thesis
    by (simp add: ClaimDueWebhookDeliveries_def run_def Let_def)
qed (auto simp: orderly_def insert_webhook_def put_webhook_def SetWebhookDisabled_def affecting_def stmt_defs set_hooks_def
    attempt_def split: prod.splits sum.splits if_splits)

lemma queue_ok_reach: "hook_reach E orderly s t \<Longrightarrow> queue_ok D s \<Longrightarrow> 0 < max_attempts D \<Longrightarrow> queue_ok D t"
  by (erule hook_reach_invariant) (auto intro: queue_ok_orderly)

text \<open>An attempt on a row whose state is the one that the claim read.\<close>

definition in_flight :: "hook_db \<Rightarrow> WebhookDelivery \<Rightarrow> bool" where
  "in_flight s d \<longleftrightarrow>
     (\<exists>r \<in> set (rows (deliveries s)). wd_id r = wd_id d \<and> wd_attempts r = wd_attempts d \<and>
        (wd_status r = WebhookStatusPending \<or> wd_status r = WebhookStatusFailed))"

lemma same_key: "wf_table key t \<Longrightarrow> r \<in> set (rows t) \<Longrightarrow> r' \<in> set (rows t) \<Longrightarrow> key r = key r' \<Longrightarrow> r = r'"
  by (auto simp: wf_table_def distinct_map inj_on_def)

lemma result_counts:
  assumes "result_ok D d r"
  shows "length (filter (\<lambda>x. po_delivery (hs_post x) = i) (sent_by r)) = (if i = wd_id d then length (sent_by r) else 0)"
    and "length (filter (\<lambda>x. po_delivery (hs_post x) = i \<and> accepted x) (sent_by r)) =
      (if i = wd_id d \<and> (\<exists>x t st. r = Accepted x t st) then 1 else 0)"
    and "length (sent_by r) \<le> 1"
  using assms by (cases r; auto simp: list_all_iff filter_empty_conv intro: arg_cong [of _ _ length])+


lemma row_after_id [simp]: "wd_id (row_after r d) = wd_id d"
  by (cases r) (simp_all add: delivered_row_def failed_row_def)

lemma row_after_ok:
  assumes res: "result_ok D d r" and st: "wd_status x = WebhookStatusPending \<or> wd_status x = WebhookStatusFailed"
    and x: "wd_id x = wd_id d" "wd_attempts x = wd_attempts d" and row: "row_ok D s x"
    and s': "sends (wd_id d) s' = sends (wd_id d) s + length (sent_by r)"
      "oks (wd_id d) s' = oks (wd_id d) s + (if \<exists>x t st. r = Accepted x t st then 1 else 0)"
  shows "row_ok D s' (row_after r x) \<and> sends (wd_id d) s' \<le> max_attempts D \<and> oks (wd_id d) s' \<le> 1"
proof (cases r)
  case Nothing_sent
  with assms show ?thesis by (auto simp: row_ok_def)
next
  case (Accepted y t st)
  with assms show ?thesis by (auto simp: row_ok_def delivered_row_def)
next
  case (Refused xs t st msg nx)
  have "length xs \<le> 1" and "nx = None \<longleftrightarrow> max_attempts D \<le> wd_attempts d + 1"
    using res Refused by (auto simp: max_attempts_def)
  with assms Refused show ?thesis by (auto simp: row_ok_def failed_row_def)
qed

lemma deliver_keeps:
  assumes E: "faultless (dp_env D)" and q: "queue_ok D s" and fl: "in_flight s d"
  shows "queue_ok D (deliver D d s) \<and> (\<forall>d'. wd_id d' \<noteq> wd_id d \<longrightarrow> in_flight s d' \<longrightarrow> in_flight (deliver D d s) d')"
proof -
  obtain r n where res: "result_ok D d r" "list_all guarded (sent_by r)" and eq: "deliver D d s = s\<lparr>tick := n,
      wire := wire s @ sent_by r, deliveries := update_rows (\<lambda>x. wd_id x = wd_id d) (row_after r) (deliveries s)\<rparr>"
    using deliver_effect [OF E] by blast
  let ?s = "deliver D d s"
  note counts = result_counts [OF res(1)]
  have sends: "sends i ?s = sends i s + (if i = wd_id d then length (sent_by r) else 0)"
    and oks: "oks i ?s = oks i s + (if i = wd_id d \<and> (\<exists>x t st. r = Accepted x t st) then 1 else 0)" for i
    by (simp_all add: eq sends_def oks_def counts)
  obtain x where x: "x \<in> set (rows (deliveries s))" "wd_id x = wd_id d" "wd_attempts x = wd_attempts d"
    "wd_status x = WebhookStatusPending \<or> wd_status x = WebhookStatusFailed"
    using fl by (auto simp: in_flight_def)
  have wf: "wf_table wd_id (deliveries s)" and ok: "\<And>d. d \<in> set (rows (deliveries s)) \<Longrightarrow> row_ok D s d"
    and old: "\<And>i. sends i s \<le> max_attempts D \<and> oks i s \<le> 1"
    and known: "\<And>y. y \<in> set (wire s) \<Longrightarrow> guarded y \<and> po_delivery (hs_post y) < next_id (deliveries s)"
    using q by (simp_all add: queue_ok_def)
  have mine: "row_ok D ?s (row_after r x) \<and> sends (wd_id d) ?s \<le> max_attempts D \<and> oks (wd_id d) ?s \<le> 1"
    by (rule row_after_ok [OF res(1) x(4,2,3) ok [OF x(1)]]) (simp_all add: sends oks)
  have rest: "row_ok D ?s y" if "y \<in> set (rows (deliveries s))" "wd_id y \<noteq> wd_id d" for y
    using ok [OF that(1)] that(2) by (simp add: row_ok_def sends oks)
  have "wf_table wd_id (deliveries ?s)" unfolding eq using deliveries_t.wf_update [OF wf] by simp
  moreover have "row_ok D ?s y" if y: "y \<in> set (rows (deliveries ?s))" for y
  proof -
    obtain z where z: "z \<in> set (rows (deliveries s))" "y = (if wd_id z = wd_id d then row_after r z else z)"
      using y by (auto simp: eq set_update_where)
    show ?thesis
    proof (cases "wd_id z = wd_id d")
      case True
      with z(1) x(1,2) have "z = x" by (auto intro: same_key [OF wf])
      with True z(2) mine show ?thesis by simp
    next
      case False
      with rest [OF z(1)] z(2) show ?thesis by simp
    qed
  qed
  moreover have "sends i ?s \<le> max_attempts D \<and> oks i ?s \<le> 1" for i
    using mine old [of i] by (cases "i = wd_id d") (simp_all add: sends oks)
  moreover have "po_delivery (hs_post y) = wd_id d" if "y \<in> set (sent_by r)" for y
    using res(1) that by (cases r) (auto simp: list_all_iff)
  moreover have "wd_id d < next_id (deliveries s)" using x wf by (auto simp: wf_table_def)
  ultimately have "queue_ok D ?s"
    using known res(2) by (auto simp: queue_ok_def eq list_all_iff)
  moreover have "in_flight ?s d'" if fl': "in_flight s d'" and other: "wd_id d' \<noteq> wd_id d" for d'
  proof -
    obtain z where z: "z \<in> set (rows (deliveries s))" "wd_id z = wd_id d'" "wd_attempts z = wd_attempts d'"
      "wd_status z = WebhookStatusPending \<or> wd_status z = WebhookStatusFailed"
      using fl' by (auto simp: in_flight_def)
    then have "z \<in> set (rows (deliveries ?s))" using other by (auto simp: eq set_update_where intro!: bexI [of _ z])
    with z(2-4) show ?thesis by (auto simp: in_flight_def)
  qed
  ultimately show ?thesis by blast
qed

lemma foldl_deliver_keeps:
  assumes "faultless (dp_env D)"
  shows "queue_ok D s \<Longrightarrow> \<forall>d \<in> set ds. in_flight s d \<Longrightarrow> distinct (map wd_id ds) \<Longrightarrow>
    queue_ok D (foldl (\<lambda>s d. deliver D d s) s ds)"
proof (induction ds arbitrary: s)
  case (Cons d ds)
  have "queue_ok D (deliver D d s)" "\<forall>d' \<in> set ds. in_flight (deliver D d s) d'"
    using deliver_keeps [OF assms Cons.prems(1), of d] Cons.prems(2,3) by (force simp: image_iff)+
  then show ?case using Cons.IH Cons.prems(3) by simp
qed simp

lemma claimed_in_flight:
  assumes "ClaimDueWebhookDeliveries E t stale limit s = (Inr ds, s')" and "wf_table wd_id (deliveries s)"
  shows "\<forall>d \<in> set ds. in_flight s' d" and "distinct (map wd_id ds)"
proof -
  let ?s = "s\<lparr>tick := Suc (tick s)\<rparr>" let ?f = "\<lambda>d. d\<lparr>wd_claimed_at := Some t\<rparr>"
  have ds: "ds = map ?f (filter (claims t stale limit ?s) (rows (deliveries s)))"
    and s': "s' = set_deliveries (claims t stale limit ?s) ?f ?s"
    using claim_Inr [OF assms(1)] by (simp_all add: Let_def)
  show "\<forall>d \<in> set ds. in_flight s' d"
    unfolding ds s' in_flight_def set_deliveries_def
    by (auto simp: bex_update_where claims_def delivery_due_def intro!: bexI)
  have "map wd_id ds = map wd_id (filter (claims t stale limit ?s) (rows (deliveries s)))" by (simp add: ds)
  then show "distinct (map wd_id ds)" using assms(2) by (simp add: wf_table_def distinct_map_filter)
qed

lemma Tick_queue_ok:
  assumes "faultless (dp_env D)" and "queue_ok D s"
  shows "queue_ok D (Tick D s)"
proof -
  let ?c = "ClaimDueWebhookDeliveries (dp_env D) (now (dp_env D) s) (sint (op_claim_stale (dp_options D))) 100 s"
  obtain ds s' where c: "?c = (Inr ds, s')"
    using assms(1) by (auto simp: ClaimDueWebhookDeliveries_def run_def Let_def faultless_def)
  have "queue_ok D s'"
    using claim_Inr [OF c] queue_ok_claim [of D "s\<lparr>tick := Suc (tick s)\<rparr>"] assms(2) by (simp add: Let_def)
  then show ?thesis
    using foldl_deliver_keeps [OF assms(1), of s' ds] claimed_in_flight [OF c] assms(2) c
    by (simp add: Tick_def queue_ok_def)
qed


section \<open>What the dispatcher guarantees\<close>

datatype hook_op =
    OpEmit string string string string string | OpTick
  | OpCreate string hook_input | OpUpdate nat hook_input | OpDisable nat "bool option" | OpDelete nat

fun hook_op_run :: "hook_api \<Rightarrow> hook_op \<Rightarrow> hook_db \<Rightarrow> hook_db" where
  "hook_op_run A (OpEmit actor action target detail ip) s = Emit (ha_dispatcher A) actor action target detail ip s"
| "hook_op_run A OpTick s = Tick (ha_dispatcher A) s"
| "hook_op_run A (OpCreate user inp) s = snd (apiWebhookCreate A user inp s)"
| "hook_op_run A (OpUpdate i inp) s = snd (apiWebhookUpdate A i inp s)"
| "hook_op_run A (OpDisable i b) s = snd (apiWebhookDisable A i b s)"
| "hook_op_run A (OpDelete i) s = snd (apiWebhookDelete A i s)"

lemma reach_affecting: "hook_reach E Q s0 (snd r) \<Longrightarrow> hook_reach E Q s0 (snd (affecting r))"
  unfolding affecting_def by (auto intro!: hooks.acc_attempt)

lemma reach_attempt:
  assumes "hook_reach E Q s0 (snd r)" and "\<And>e s. hook_reach E Q s0 s \<Longrightarrow> hook_reach E Q s0 (h e s)"
    and "\<And>x s. hook_reach E Q s0 s \<Longrightarrow> hook_reach E Q s0 (k x s)"
  shows "hook_reach E Q s0 (attempt r h k)"
  using assms by (cases r; cases "fst r") auto

lemma reach_hook_reads:
  assumes "hook_reach E Q s0 s"
  shows "hook_reach E Q s0 (snd (GetWebhook F i s))" "hook_reach E Q s0 (snd (GetWebhookDelivery F i s))"
    "hook_reach E Q s0 (snd (ListWebhooksWithSecret F s))"
  unfolding GetWebhook_def GetWebhookDelivery_def ListWebhooksWithSecret_def using assms by (auto intro: hooks.acc_query)

lemma reach_emit_one:
  assumes "hook_reach (dp_env D) Q s0 s" and "\<And>t p. Q (InsertDelivery (new_delivery t (wh_id w) action p))"
  shows "hook_reach (dp_env D) Q s0 (emit_one D actor action target detail ip w s)"
  unfolding emit_one_def CreateWebhookDelivery_def Let_def
  using assms by (auto intro!: hooks.acc_attempt reach_hook_reads reach_hook_change split: option.split)

lemma reach_emit_all:
  assumes "hook_reach (dp_env D) Q s0 s" and "\<And>t i p. Q (InsertDelivery (new_delivery t i action p))"
  shows "hook_reach (dp_env D) Q s0 (foldl (\<lambda>s w. emit_one D actor action target detail ip w s) s ws)"
  using assms(1) by (induction ws arbitrary: s) (auto intro: reach_emit_one assms(2))

lemma reach_Emit:
  assumes "hook_reach (dp_env D) Q s0 s" and "\<And>t i p. Q (InsertDelivery (new_delivery t i action p))"
  shows "hook_reach (dp_env D) Q s0 (Emit D actor action target detail ip s)"
  unfolding Emit_def using assms by (auto intro!: reach_attempt reach_hook_reads reach_emit_all)

lemma reach_handlers:
  assumes "hook_reach (dp_env (ha_dispatcher A)) orderly s0 s"
  shows "hook_reach (dp_env (ha_dispatcher A)) orderly s0 (snd (apiWebhookCreate A user inp s))"
    and "hook_reach (dp_env (ha_dispatcher A)) orderly s0 (snd (apiWebhookUpdate A i inp s))"
    and "hook_reach (dp_env (ha_dispatcher A)) orderly s0 (snd (apiWebhookDisable A i b s))"
    and "hook_reach (dp_env (ha_dispatcher A)) orderly s0 (snd (apiWebhookDelete A i s))"
proof -
  have stored: "hook_reach E orderly s0 (snd (stored_hook r c))" if "hook_reach E orderly s0 (snd r)" for E r c
    using that unfolding stored_hook_def by (auto intro!: hooks.acc_attempt)
  have ord: "orderly (InsertHook w)" "orderly (PutHook w)" "orderly (PutHookDisabled i d)" "orderly (DropHook i)" for w i d
    by (simp_all add: orderly_def)
  note intros = hooks.acc_attempt reach_hook_reads stored reach_affecting reach_hook_change assms ord
  show "hook_reach (dp_env (ha_dispatcher A)) orderly s0 (snd (apiWebhookCreate A user inp s))"
    unfolding apiWebhookCreate_def Let_def CreateWebhook_def by (auto intro!: intros split: sum.split)
  show "hook_reach (dp_env (ha_dispatcher A)) orderly s0 (snd (apiWebhookUpdate A i inp s))"
    unfolding apiWebhookUpdate_def Let_def UpdateWebhook_def by (auto intro!: intros split: sum.split)
  show "hook_reach (dp_env (ha_dispatcher A)) orderly s0 (snd (apiWebhookDisable A i b s))"
    unfolding apiWebhookDisable_def Let_def by (auto intro!: intros)
  show "hook_reach (dp_env (ha_dispatcher A)) orderly s0 (snd (apiWebhookDelete A i s))"
    unfolding apiWebhookDelete_def Let_def by (auto intro!: intros)
qed

lemma hook_op_queue_ok:
  assumes "faultless (dp_env (ha_dispatcher A))" and "0 < max_attempts (ha_dispatcher A)" and "queue_ok (ha_dispatcher A) s"
  shows "queue_ok (ha_dispatcher A) (hook_op_run A x s)"
proof (cases "x = OpTick")
  case True
  with assms show ?thesis by (simp add: Tick_queue_ok)
next
  case False
  then have "hook_reach (dp_env (ha_dispatcher A)) orderly s (hook_op_run A x s)"
    by (cases x) (auto intro!: reach_handlers reach_Emit hook_start)
  then show ?thesis using assms(3,2) by (rule queue_ok_reach)
qed

lemma queue_ok_empty: "queue_ok D empty_hook_db"
  by (simp add: queue_ok_def empty_hook_db_def empty_table_def wf_table_def sends_def oks_def)

lemma history_queue_ok:
  assumes "faultless (dp_env (ha_dispatcher A))" and "0 < max_attempts (ha_dispatcher A)"
  shows "queue_ok (ha_dispatcher A) (fold (hook_op_run A) ops empty_hook_db)"
proof -
  have "queue_ok (ha_dispatcher A) (fold (hook_op_run A) ops s)" if "queue_ok (ha_dispatcher A) s" for s
    using that by (induction ops arbitrary: s) (simp_all add: hook_op_queue_ok assms)
  then show ?thesis by (simp add: queue_ok_empty)
qed


text \<open>Who may change the wire: only the requests, and they go through the guard, whatever fails.\<close>

lemma guarded_step: "list_all guarded (wire s) \<Longrightarrow> list_all guarded (wire (hook_exec E st s))"
proof (cases st)
  case (Send D p)
  moreover obtain r s' where "http_Do D p s = (r, s')" by (cases "http_Do D p s")
  moreover assume "list_all guarded (wire s)"
  ultimately show ?thesis using http_Do_guarded [of D p s r s'] by (auto simp: guarded_def)
qed (auto simp: insert_webhook_def put_webhook_def SetWebhookDisabled_def DeleteWebhook_def
    insert_delivery_def ClaimDueWebhookDeliveries_def RecordWebhookDeliveryResult_def affecting_def
    stmt_defs set_hooks_def set_deliveries_def attempt_def split: prod.splits sum.splits if_splits)

lemma reach_guarded: "hook_reach E Q s t \<Longrightarrow> list_all guarded (wire s) \<Longrightarrow> list_all guarded (wire t)"
  by (erule hook_reach_invariant) (auto intro: guarded_step)

lemma hook_reach_any: "hook_reach E Q s t \<Longrightarrow> hook_reach E (\<lambda>_. True) s t"
  by (induction rule: hook_reach.induct) (auto intro: hook_reach.intros)

lemma reach_delivers: "hook_reach (dp_env D) (\<lambda>_. True) s0 s \<Longrightarrow> hook_reach (dp_env D) (\<lambda>_. True) s0 (foldl (\<lambda>s d. deliver D d s) s ds)"
  by (induction ds arbitrary: s) (auto intro: reach_deliver)

lemma reach_Tick: "hook_reach (dp_env D) (\<lambda>_. True) s (Tick D s)"
  unfolding Tick_def by (auto intro!: reach_attempt reach_delivers reach_hook_change hook_start)

lemma reach_hook_op: "hook_reach (dp_env (ha_dispatcher A)) (\<lambda>_. True) s (hook_op_run A x s)"
  by (cases x)
     (auto intro: reach_Tick hook_reach_any [OF reach_Emit [where Q = orderly]] hook_reach_any [OF reach_handlers(1)]
       hook_reach_any [OF reach_handlers(2)] hook_reach_any [OF reach_handlers(3)] hook_reach_any [OF reach_handlers(4)]
       hook_start)

lemma fold_guarded: "list_all guarded (wire s) \<Longrightarrow> list_all guarded (wire (fold (hook_op_run A) ops s))"
  by (induction ops arbitrary: s) (auto intro: reach_guarded [OF reach_hook_op])


text \<open>C17 (ssrf.go, dialerControl; dispatcher.go, deliver; server.go): whatever the administrators configured, whatever the
  endpoints resolve or redirect to and whichever statements of the database fail, no delivery connects to the host itself,
  to a link-local address or to the unspecified address: every address that the dialer of a request connected to parses
  to one outside the blocks. The histories are those of the events, polls and administration of one process, after any
  interleaving of the statements and requests of any number of processes. A proxy named in the environment, which the
  transport would connect to instead, is left out.\<close>

theorem blocked_never_contacted:
  assumes "hook_reach E (\<lambda>_. True) empty_hook_db s"
    and "x \<in> set (wire (fold (hook_op_run A) ops s))" and "address \<in> set (hs_peers x)"
  shows "\<exists>host port ip. SplitHostPort address = Some (host, port) \<and> ParseIP host = Some ip \<and>
           \<not> (\<exists>blk \<in> set never_receivers. in_block ip blk)"
proof -
  have "list_all guarded (wire s)" using reach_guarded [OF assms(1)] by (simp add: empty_hook_db_def)
  then have "list_all guarded (wire (fold (hook_op_run A) ops s))" by (rule fold_guarded)
  with assms(2,3) show ?thesis by (auto simp: list_all_iff guarded_def reachable_receiver_def)
qed

text \<open>C18 (dispatcher.go, recordFailure; webhook.go, RecordWebhookDeliveryResult): while no statement of the database fails and
  there is one dispatcher, whose polls come one after another, over any history of events, polls and administration a
  delivery is sent at most as many times as the dispatcher allows and accepted at most once; it is given up exactly when
  that many attempts have failed. Neither condition can be left out: \<open>unrecorded_sent_again\<close> and \<open>batch_outlives_claim\<close>
  below show a delivery that is accepted twice when its result cannot be recorded, and one that two dispatchers hold.\<close>

theorem attempts_bounded:
  assumes "faultless (dp_env (ha_dispatcher A))" and "dp_options (ha_dispatcher A) = withDefaults ops0"
    and "s = fold (hook_op_run A) ops empty_hook_db"
  shows "int (sends i s) \<le> op_max_attempts (withDefaults ops0) \<and> oks i s \<le> 1 \<and>
    (d \<in> set (rows (deliveries s)) \<longrightarrow>
       (wd_status d = WebhookStatusDead \<longleftrightarrow> int (wd_attempts d) = op_max_attempts (withDefaults ops0)))"
proof -
  have pos: "0 < op_max_attempts (withDefaults ops0)" by (simp add: withDefaults_def)
  then have q: "queue_ok (ha_dispatcher A) s"
    using history_queue_ok [OF assms(1), of ops] assms(2,3) by (simp add: max_attempts_def)
  then have "sends i s \<le> max_attempts (ha_dispatcher A) \<and> oks i s \<le> 1"
    and "d \<in> set (rows (deliveries s)) \<longrightarrow> row_ok (ha_dispatcher A) s d"
    by (simp_all add: queue_ok_def)
  moreover have "int (max_attempts (ha_dispatcher A)) = op_max_attempts (withDefaults ops0)"
    using pos assms(2) by (simp add: max_attempts_def)
  ultimately show ?thesis by (auto simp: row_ok_def split: if_splits)
qed

text \<open>C19 (webhook.go, ClaimDueWebhookDeliveries): a delivery that one dispatcher has claimed is claimed by no other, whatever
  statements of any number of processes come between, until its result is recorded or the claim has grown stale, as long
  as no claim that comes between carries a time before the first one (the clocks of the processes do not run behind).\<close>

theorem claimed_exclusively:
  assumes "wf_table wd_id (deliveries s)"
    and "ClaimDueWebhookDeliveries E t stale limit s = (Inr ds, s1)" and "d \<in> set ds"
    and "hook_reach E (unresolved (wd_id d) t) s1 s2"
    and "ClaimDueWebhookDeliveries E t' stale' limit' s2 = (Inr ds', s3)" and "t' - stale' < t"
  shows "wd_id d \<notin> wd_id ` set ds'"
proof -
  let ?s = "s\<lparr>tick := Suc (tick s)\<rparr>" let ?f = "\<lambda>d. d\<lparr>wd_claimed_at := Some t\<rparr>"
  have ds: "ds = map ?f (filter (claims t stale limit ?s) (rows (deliveries s)))"
    and s1: "s1 = set_deliveries (claims t stale limit ?s) ?f ?s"
    using claim_Inr [OF assms(2)] by (simp_all add: Let_def)
  from assms(3) obtain x where x: "x \<in> set (rows (deliveries s))" "claims t stale limit ?s x" "wd_id d = wd_id x"
    by (auto simp: ds)
  have "claim_held (wd_id d) t s1"
    using x assms(1) same_key [OF assms(1) _ x(1)]
    by (fastforce simp: claim_held_def s1 set_deliveries_def set_update_where wf_table_def)
  then have "claim_held (wd_id d) t s2"
    using assms(4) by (elim hook_reach_invariant [where P = "claim_held (wd_id d) t"]) (auto intro: claim_held_kept)
  then show ?thesis
    using claim_Inr [OF assms(5)] claim_held_not_claimed [OF _ assms(6), of "wd_id d" s2] by (auto simp: Let_def claims_def)
qed

text \<open>The delay before the next attempt with the default options: thirty seconds doubled with every failure.\<close>

lemma default_delays:
  "map (\<lambda>n. sint (retry_delay (op_backoff (withDefaults \<lparr>op_max_attempts = 0, op_backoff = 0, op_interval = 0,
      op_timeout = 0, op_claim_stale = 0\<rparr>)) n)) [1, 2, 3, 4] =
   [30000000000, 60000000000, 120000000000, 240000000000]"
  by (simp add: withDefaults_def retry_delay_def quarter_hour_def second_def push_bit_eq_mult word_sless_alt)

text \<open>A larger number of attempts shifts the delay out of 64 bits: it comes round to zero and below, so that the attempts
  are made at once.\<close>

lemma delay_overflows:
  "sint (retry_delay (30 * second) 30) < 0" "sint (retry_delay (30 * second) 60) = 0"
  by (simp_all add: retry_delay_def quarter_hour_def second_def push_bit_eq_mult word_sless_alt)


section \<open>An event arrives\<close>

text \<open>What the attempts on other deliveries leave alone.\<close>

definition spares :: "nat \<Rightarrow> hook_db \<Rightarrow> hook_db \<Rightarrow> bool" where
  "spares i s s' \<longleftrightarrow> webhooks s' = webhooks s \<and> (\<exists>xs. wire s' = wire s @ xs) \<and>
     (\<forall>r. wd_id r = i \<longrightarrow> r \<in> set (rows (deliveries s)) \<longrightarrow> r \<in> set (rows (deliveries s')))"

lemma other_rows: "r \<in> set (rows t) \<Longrightarrow> \<not> p r \<Longrightarrow> r \<in> set (rows (update_rows p f t))"
  by (auto simp: set_update_where intro!: bexI [of _ r])

lemma deliver_spares:
  assumes "faultless (dp_env D)"
  shows "webhooks (deliver D d s) = webhooks s" and "wd_id d \<noteq> i \<Longrightarrow> spares i s (deliver D d s)"
proof -
  obtain r n where "deliver D d s = s\<lparr>tick := n, wire := wire s @ sent_by r,
      deliveries := update_rows (\<lambda>x. wd_id x = wd_id d) (row_after r) (deliveries s)\<rparr>"
    using deliver_effect [OF assms] by blast
  then show "webhooks (deliver D d s) = webhooks s" and "wd_id d \<noteq> i \<Longrightarrow> spares i s (deliver D d s)"
    by (auto simp: spares_def simp del: rows_update_rows intro: other_rows)
qed

lemma foldl_deliver_spares:
  assumes "faultless (dp_env D)"
  shows "\<forall>d \<in> set ds. wd_id d \<noteq> i \<Longrightarrow> spares i s (foldl (\<lambda>s d. deliver D d s) s ds)"
proof (induction ds arbitrary: s)
  case (Cons d ds)
  then have "spares i s (deliver D d s)" and "spares i (deliver D d s) (foldl (\<lambda>s d. deliver D d s) (deliver D d s) ds)"
    using deliver_spares(2) [OF assms, of d i s] by simp_all
  then show ?case by (auto simp: spares_def)
qed (simp add: spares_def)

definition endpoint_accepts :: "hook_dispatcher \<Rightarrow> string \<Rightarrow> bool" where
  "endpoint_accepts D url \<longleftrightarrow>
     dp_request D url \<and>
     (\<forall>n p. po_url p = url \<longrightarrow> snd (follow dialerControl (dp_up D n) (dp_hops D n p)) \<and>
        (\<exists>st. dp_answer D n p = Inr st \<and> 200 \<le> st \<and> st < 300))"

lemma deliver_accepted:
  assumes "faultless (dp_env D)" and w: "find (\<lambda>w. wh_id w = wd_webhook_id d) (rows (webhooks s)) = Some w"
    and "signing_key D w = Some key" and up: "endpoint_accepts D (wh_url w)"
  shows "\<exists>x t st. hs_post x = post_of D w key d \<and> accepted x \<and> wire (deliver D d s) = wire s @ [x] \<and>
     deliveries (deliver D d s) = update_rows (\<lambda>x. wd_id x = wd_id d) (delivered_row t st) (deliveries s)"
proof -
  note ok = assms(1) [unfolded faultless_def, rule_format]
  let ?p = "post_of D w key d" let ?n = "Suc (tick s)"
  have "po_url ?p = wh_url w" by (simp add: post_of_def)
  then obtain st where st: "dp_answer D ?n ?p = Inr st" "200 \<le> st" "st < 300"
    and through: "snd (follow dialerControl (dp_up D ?n) (dp_hops D ?n ?p))"
    using up unfolding endpoint_accepts_def by blast
  from through obtain peers where "follow dialerControl (dp_up D ?n) (dp_hops D ?n ?p) = (peers, True)"
    by (cases "follow dialerControl (dp_up D ?n) (dp_hops D ?n ?p)") auto
  with st assms ok show ?thesis
    by (intro exI [of _ "\<lparr>hs_post = ?p, hs_peers = peers, hs_answer = Inr st\<rparr>"]
          exI [of _ "clock (dp_env D) (Suc ?n)"] exI [of _ st])
       (auto simp: deliver_def GetWebhook_def stmt_defs select_one_def endpoint_accepts_def http_Do_def accepted_def
         RecordWebhookDeliveryResult_def set_deliveries_def now_def)
qed

lemma Tick_delivers:
  assumes E: "faultless (dp_env D)" and wf: "wf_table wd_id (deliveries s)" and d: "d \<in> set (rows (deliveries s))"
    and due: "delivery_due (now (dp_env D) s) stale d" and stale: "stale = sint (op_claim_stale (dp_options D))"
    and few: "length (filter (delivery_due (now (dp_env D) s) stale) (rows (deliveries s))) \<le> 100"
    and w: "find (\<lambda>w. wh_id w = wd_webhook_id d) (rows (webhooks s)) = Some w"
    and key: "signing_key D w = Some key" and up: "endpoint_accepts D (wh_url w)"
  shows "\<exists>x \<in> set (drop (length (wire s)) (wire (Tick D s))). \<exists>r \<in> set (rows (deliveries (Tick D s))).
     hs_post x = post_of D w key d \<and> accepted x \<and> wd_id r = wd_id d \<and> wd_status r = WebhookStatusDelivered"
proof -
  let ?t = "now (dp_env D) s" let ?s = "s\<lparr>tick := Suc (tick s)\<rparr>" let ?f = "\<lambda>d. d\<lparr>wd_claimed_at := Some ?t\<rparr>"
  let ?run = "foldl (\<lambda>s d. deliver D d s)"
  obtain ds s' where c: "ClaimDueWebhookDeliveries (dp_env D) ?t stale 100 s = (Inr ds, s')"
    using E by (auto simp: ClaimDueWebhookDeliveries_def run_def Let_def faultless_def)
  have ds: "ds = map ?f (filter (claims ?t stale 100 ?s) (rows (deliveries s)))"
    and s': "s' = set_deliveries (claims ?t stale 100 ?s) ?f ?s"
    using claim_Inr [OF c] by (simp_all add: Let_def)
  have "claims ?t stale 100 ?s d"
    using few d due by (auto simp: claims_def due_ids_def)
  with d have in_ds: "?f d \<in> set ds" and row: "?f d \<in> set (rows (deliveries s'))"
    by (auto simp: ds s' set_deliveries_def set_update_where)
  then obtain pre post where split: "ds = pre @ ?f d # post" by (meson split_list)
  then have others: "\<forall>x \<in> set pre. wd_id x \<noteq> wd_id d" "\<forall>x \<in> set post. wd_id x \<noteq> wd_id d"
    using claimed_in_flight(2) [OF c wf] by (auto simp: image_iff)
  let ?a = "?run s' pre" let ?b = "deliver D (?f d) ?a"
  have "spares (wd_id d) s' ?a" and post: "spares (wd_id d) ?b (?run ?b post)"
    using foldl_deliver_spares [OF E] others by blast+
  then obtain xs where hooks: "webhooks ?a = webhooks s" and wire_a: "wire ?a = wire s @ xs" and row_a: "?f d \<in> set (rows (deliveries ?a))"
    using row by (auto simp: spares_def s' set_deliveries_def)
  have "find (\<lambda>w. wh_id w = wd_webhook_id (?f d)) (rows (webhooks ?a)) = Some w" using w hooks by simp
  then obtain x t st where x: "hs_post x = post_of D w key (?f d)" "accepted x" "wire ?b = wire ?a @ [x]"
    and b: "deliveries ?b = update_rows (\<lambda>x. wd_id x = wd_id (?f d)) (delivered_row t st) (deliveries ?a)"
    using deliver_accepted [OF E _ key up] by blast
  have "delivered_row t st (?f d) \<in> set (rows (deliveries ?b))"
    using row_a unfolding b by (auto simp: set_update_where intro!: bexI [of _ "?f d"])
  then have "delivered_row t st (?f d) \<in> set (rows (deliveries (?run ?b post)))" "x \<in> set (drop (length (wire s)) (wire (?run ?b post)))"
    using post x(3) wire_a by (auto simp: spares_def delivered_row_def)
  moreover have "Tick D s = ?run ?b post" using c split by (simp add: Tick_def stale)
  moreover have "hs_post x = post_of D w key d" using x(1) by (simp add: post_of_def)
  moreover have "wd_id (delivered_row t st (?f d)) = wd_id d \<and> wd_status (delivered_row t st (?f d)) = WebhookStatusDelivered"
    by (simp add: delivered_row_def)
  ultimately show ?thesis using x(2) by metis
qed

text \<open>What an event adds to the queue.\<close>

definition event_at :: "int \<Rightarrow> string \<Rightarrow> string \<Rightarrow> string \<Rightarrow> string \<Rightarrow> string \<Rightarrow> hook_event" where
  "event_at t actor action target detail ip =
     \<lparr>ev_id = ''evt-'' @ string_of_int t, ev_ts = t, ev_actor = actor, ev_action = action, ev_target = target,
      ev_detail = detail, ev_ip = ip\<rparr>"

lemma emit_one_event_at:
  "emit_one D actor action target detail ip w s =
     (if wh_disabled w \<or> \<not> matches (wh_events w) action then s
      else case dp_marshal D (event_at (now (dp_env D) s) actor action target detail ip) of
          None \<Rightarrow> s
        | Some payload \<Rightarrow> snd (CreateWebhookDelivery (dp_env D) (wh_id w) action payload s))"
  by (simp add: emit_one_def event_at_def Let_def)

lemma CreateWebhookDelivery_rows:
  assumes "faultless E"
  shows "webhooks (snd (CreateWebhookDelivery E i action p s)) = webhooks s"
    and "wire (snd (CreateWebhookDelivery E i action p s)) = wire s"
    and "deliveries (snd (CreateWebhookDelivery E i action p s)) =
       (if \<exists>w \<in> set (rows (webhooks s)). wh_id w = i
        then insert_row (\<lambda>n. wd_id_update (\<lambda>_. n)) (new_delivery (now E s) i action p) (deliveries s) else deliveries s)"
  using assms
  by (auto simp: CreateWebhookDelivery_def insert_delivery_def GetWebhookDelivery_def stmt_defs faultless_def new_delivery_def)

lemma emit_one_adds:
  assumes "faultless (dp_env D)"
  shows "webhooks (emit_one D actor action target detail ip w s) = webhooks s"
    and "wire (emit_one D actor action target detail ip w s) = wire s"
    and "set (rows (deliveries s)) \<subseteq> set (rows (deliveries (emit_one D actor action target detail ip w s)))"
    and "next_id (deliveries s) \<le> next_id (deliveries (emit_one D actor action target detail ip w s))"
  by (auto simp: emit_one_event_at CreateWebhookDelivery_rows [OF assms] split: option.split)

text \<open>A delivery of the event to a webhook that nobody has tried yet, queued after those numbered below \<open>n\<close>.\<close>

definition queued :: "hook_dispatcher \<Rightarrow> nat \<Rightarrow> nat \<Rightarrow> string \<Rightarrow> string \<Rightarrow> string \<Rightarrow> string \<Rightarrow> string \<Rightarrow> WebhookDelivery \<Rightarrow> bool" where
  "queued D n i actor action target detail ip d \<longleftrightarrow>
     n \<le> wd_id d \<and> wd_webhook_id d = i \<and> wd_event d = action \<and>
     (\<exists>k. dp_marshal D (event_at (clock (dp_env D) k) actor action target detail ip) = Some (wd_payload d)) \<and>
     wd_status d = WebhookStatusPending \<and> wd_claimed_at d = None"

lemma emit_one_queues:
  assumes "faultless (dp_env D)" and "w \<in> set (rows (webhooks s))" and "\<not> wh_disabled w" and "matches (wh_events w) action"
    and "\<forall>e. dp_marshal D e \<noteq> None" and "n \<le> next_id (deliveries s)"
  shows "\<exists>d \<in> set (rows (deliveries (emit_one D actor action target detail ip w s))).
     queued D n (wh_id w) actor action target detail ip d"
proof -
  obtain payload where p: "dp_marshal D (event_at (clock (dp_env D) (tick s)) actor action target detail ip) = Some payload"
    using assms(5) by blast
  then have "\<exists>k. dp_marshal D (event_at (clock (dp_env D) k) actor action target detail ip) = Some payload" by blast
  moreover have "\<exists>x \<in> set (rows (webhooks s)). wh_id x = wh_id w" using assms(2) by blast
  ultimately show ?thesis
    using assms(3,4,6) p
    by (auto simp: emit_one_event_at CreateWebhookDelivery_rows [OF assms(1)] new_delivery_def queued_def now_def)
qed

lemma emit_all_adds:
  fixes D actor action target detail ip
  assumes "faultless (dp_env D)"
  defines "all \<equiv> foldl (\<lambda>s w. emit_one D actor action target detail ip w s)"
  shows "webhooks (all s ws) = webhooks s" and "wire (all s ws) = wire s"
    and "set (rows (deliveries s)) \<subseteq> set (rows (deliveries (all s ws)))"
    and "next_id (deliveries s) \<le> next_id (deliveries (all s ws))"
proof -
  note adds = emit_one_adds [OF assms(1), where actor = actor and action = action and target = target and detail = detail and ip = ip]
  have "webhooks (all s ws) = webhooks s \<and> wire (all s ws) = wire s \<and>
      set (rows (deliveries s)) \<subseteq> set (rows (deliveries (all s ws))) \<and> next_id (deliveries s) \<le> next_id (deliveries (all s ws))"
    unfolding all_def
  proof (induction ws arbitrary: s)
    case (Cons w ws)
    show ?case
      using Cons [of "emit_one D actor action target detail ip w s"] adds [where s = s and w = w] by (auto dest: order_trans)
  qed simp
  then show "webhooks (all s ws) = webhooks s" "wire (all s ws) = wire s"
    "set (rows (deliveries s)) \<subseteq> set (rows (deliveries (all s ws)))"
    "next_id (deliveries s) \<le> next_id (deliveries (all s ws))" by blast+
qed

lemma emit_all_queues:
  assumes E: "faultless (dp_env D)" and m: "\<forall>e. dp_marshal D e \<noteq> None"
    and w: "w \<in> set ws" "set ws \<subseteq> set (rows (webhooks s))" "\<not> wh_disabled w" "matches (wh_events w) action"
  shows "\<exists>d \<in> set (rows (deliveries (foldl (\<lambda>s w. emit_one D actor action target detail ip w s) s ws))).
     queued D (next_id (deliveries s)) (wh_id w) actor action target detail ip d"
proof -
  note adds = emit_all_adds [OF E, where actor = actor and action = action and target = target and detail = detail and ip = ip]
  from w(1) obtain pre post where ws: "ws = pre @ w # post" by (meson split_list)
  let ?a = "foldl (\<lambda>s w. emit_one D actor action target detail ip w s) s pre"
  have "w \<in> set (rows (webhooks ?a))" using w(1,2) adds(1) [where s = s and ws = pre] by auto
  then show ?thesis
    using emit_one_queues [OF E _ w(3,4) m adds(4) [where s = s and ws = pre], of actor target detail ip]
      adds(3) [where s = "emit_one D actor action target detail ip w ?a" and ws = post]
    unfolding ws foldl_append foldl_Cons by blast
qed


text \<open>C20 (dispatcher.go, Emit, tick and deliver): an event whose action a webhook's filter matches is queued for it and
  delivered by the next poll: the poll posts the encoding of that event, with its own delivery number, to the URL of the
  webhook, signed with the key of the webhook, the endpoint accepts it and the new delivery is marked so. This is so when
  no statement of the database fails, the webhook is enabled, its key decrypts, its endpoint is not blocked and accepts,
  and no more is due at the poll than a poll claims.\<close>

theorem emitted_is_delivered:
  fixes D actor action target detail ip s
  defines "s1 \<equiv> Emit D actor action target detail ip s"
  assumes E: "faultless (dp_env D)" and m: "\<forall>e. dp_marshal D e \<noteq> None"
    and wf: "wf_table wh_id (webhooks s)" "wf_table wd_id (deliveries s1)"
    and w: "w \<in> set (rows (webhooks s))" "\<not> wh_disabled w" "matches (wh_events w) action"
    and key: "signing_key D w = Some key" and up: "endpoint_accepts D (wh_url w)"
    and few: "length (filter (delivery_due (now (dp_env D) s1) (sint (op_claim_stale (dp_options D))))
                (rows (deliveries s1))) \<le> 100"
  shows "\<exists>d \<in> set (rows (deliveries s1)). \<exists>x \<in> set (drop (length (wire s)) (wire (Tick D s1))).
     \<exists>r \<in> set (rows (deliveries (Tick D s1))). \<exists>k.
       next_id (deliveries s) \<le> wd_id d \<and> wd_webhook_id d = wh_id w \<and> wd_event d = action \<and>
       dp_marshal D \<lparr>ev_id = ''evt-'' @ string_of_int (clock (dp_env D) k), ev_ts = clock (dp_env D) k, ev_actor = actor,
         ev_action = action, ev_target = target, ev_detail = detail, ev_ip = ip\<rparr> = Some (po_body (hs_post x)) \<and>
       po_url (hs_post x) = wh_url w \<and> po_event (hs_post x) = action \<and> po_delivery (hs_post x) = wd_id d \<and>
       po_signature (hs_post x) = (if key = [] then None else Some (sign D key (po_body (hs_post x)))) \<and>
       accepted x \<and> wd_id r = wd_id d \<and> wd_status r = WebhookStatusDelivered"
proof -
  let ?ws = "sort_key wh_id (rows (webhooks s))"
  have s1: "s1 = foldl (\<lambda>s w. emit_one D actor action target detail ip w s) (s\<lparr>tick := Suc (tick s)\<rparr>) ?ws"
    using E by (simp add: s1_def Emit_def ListWebhooksWithSecret_def stmt_defs faultless_def)
  then have hooks: "webhooks s1 = webhooks s" "wire s1 = wire s" using emit_all_adds(1,2) [OF E] by simp_all
  obtain d where d: "d \<in> set (rows (deliveries s1))" "queued D (next_id (deliveries s)) (wh_id w) actor action target detail ip d"
    using emit_all_queues [OF E m, of w ?ws "s\<lparr>tick := Suc (tick s)\<rparr>"] w unfolding s1 by (simp, blast)
  have "find (\<lambda>x. wh_id x = wd_webhook_id d) (rows (webhooks s1)) = Some w"
    using webhooks_t.find_eq_iff [OF wf(1), of "wh_id w" w] w(1) d(2) hooks by (simp add: queued_def)
  moreover have "delivery_due (now (dp_env D) s1) stale d" for stale using d(2) by (simp add: delivery_due_def queued_def)
  ultimately obtain x r where xr: "x \<in> set (drop (length (wire s)) (wire (Tick D s1)))" "r \<in> set (rows (deliveries (Tick D s1)))"
    "hs_post x = post_of D w key d" "accepted x" "wd_id r = wd_id d" "wd_status r = WebhookStatusDelivered"
    using Tick_delivers [OF E wf(2) d(1) _ refl few _ key up] hooks(2) by auto
  from d(2) obtain k where "dp_marshal D (event_at (clock (dp_env D) k) actor action target detail ip) = Some (wd_payload d)"
    by (auto simp: queued_def)
  with xr d show ?thesis
    by (intro bexI [of _ d] bexI [of _ x] bexI [of _ r] exI [of _ k]) (simp_all add: post_of_def queued_def event_at_def)
qed


section \<open>Where the code and its documents differ\<close>

text \<open>A queued delivery of a webhook that was disabled since is still sent: only \<open>Emit\<close> looks at the flag.\<close>

lemma disabled_still_delivered:
  assumes "faultless (dp_env D)" and "find (\<lambda>w. wh_id w = wd_webhook_id d) (rows (webhooks s)) = Some w" and "wh_disabled w"
    and "signing_key D w = Some key" and "endpoint_accepts D (wh_url w)"
  shows "\<exists>x. x \<in> set (wire (deliver D d s)) \<and> po_url (hs_post x) = wh_url w \<and> po_delivery (hs_post x) = wd_id d \<and> accepted x"
  using deliver_accepted [OF assms(1,2,4,5)] by (fastforce simp: post_of_def)

text \<open>A delivery whose signing key does not decrypt is neither failed nor counted: it stays claimed and comes back when
  the claim is stale, without end.\<close>

lemma undecryptable_never_given_up:
  assumes "faultless (dp_env D)" and "find (\<lambda>w. wh_id w = wd_webhook_id d) (rows (webhooks s)) = Some w"
    and "signing_key D w = None"
  shows "deliver D d s = s\<lparr>tick := Suc (tick s)\<rparr>"
  using assms by (simp add: deliver_def GetWebhook_def stmt_defs faultless_def select_one_def)

text \<open>A poll claims up to a hundred deliveries and sends them one after another; with the default timeout a batch may take
  longer than its claim lasts, and what it has not come to is then due for another dispatcher.\<close>

lemma batch_outlives_claim:
  assumes "ops = withDefaults \<lparr>op_max_attempts = 0, op_backoff = 0, op_interval = 0, op_timeout = 0, op_claim_stale = 0\<rparr>"
  shows "sint (op_claim_stale ops) < 13 * sint (op_timeout ops)"
    and "wd_status d = WebhookStatusPending \<Longrightarrow> wd_claimed_at d = Some t \<Longrightarrow>
           delivery_due (t + 13 * sint (op_timeout ops)) (sint (op_claim_stale ops)) d"
  by (simp_all add: assms withDefaults_def second_def delivery_due_def)

text \<open>A delivery whose result cannot be written stays claimed, and when the claim is stale it is sent and accepted again.\<close>

definition unrecorded_dispatcher :: hook_dispatcher where
  "unrecorded_dispatcher =
     \<lparr>dp_env = \<lparr>fault = (\<lambda>n. n = 3), clock = (\<lambda>n. 100000000000 * int n), random_token = (\<lambda>_. None)\<rparr>, dp_box = demo_aead,
      dp_options = withDefaults \<lparr>op_max_attempts = 0, op_backoff = 0, op_interval = 0, op_timeout = 0, op_claim_stale = 0\<rparr>,
      dp_marshal = (\<lambda>e. Some (ev_action e)), dp_hmac = (\<lambda>k b. k @ b), dp_request = (\<lambda>_. True),
      dp_hops = (\<lambda>_ _. [[''1.2.3.4:80'']]), dp_up = (\<lambda>_ _. True), dp_answer = (\<lambda>_ _. Inr 204)\<rparr>"

lemma unrecorded_sent_again:
  "let w = \<lparr>wh_id = 1, wh_name = ''n'', wh_url = ''u'', wh_events = ''cert'', wh_secret_enc = [], wh_disabled = False,
         wh_created_by = ''admin'', wh_created_at = 0, wh_updated_at = 0\<rparr>;
       s = empty_hook_db\<lparr>webhooks := \<lparr>rows = [w], next_id = 2\<rparr>,
         deliveries := \<lparr>rows = [(new_delivery 0 1 ''cert.issue'' ''{}'')\<lparr>wd_id := 1\<rparr>], next_id = 2\<rparr>\<rparr>;
       D = unrecorded_dispatcher
   in oks 1 (Tick D (Tick D s)) = 2"
  by code_simp

text \<open>The metadata service of one provider has the IPv6 address \<open>fd00:ec2::254\<close>, which is not link-local.\<close>

lemma ipv6_metadata_not_blocked:
  "\<not> isBlockedIP (0xfd # 0 # 0x0e # 0xc2 # replicate 10 0 @ [0x02, 0x54])" "isBlockedIP [169, 254, 169, 254]"
  by (simp_all add: isBlockedIP_def IsLoopback_def IsLinkLocalUnicast_def IsLinkLocalMulticast_def IsUnspecified_def numeral_eq_Suc)


section \<open>Concrete histories\<close>

definition demo_hook_env :: env where
  "demo_hook_env = \<lparr>fault = (\<lambda>_. False), clock = int, random_token = (\<lambda>_. None)\<rparr>"

definition demo_dispatcher :: hook_dispatcher where
  "demo_dispatcher = \<lparr>dp_env = demo_hook_env, dp_box = demo_aead,
     dp_options = withDefaults \<lparr>op_max_attempts = 0, op_backoff = 0, op_interval = 0, op_timeout = 0, op_claim_stale = 0\<rparr>,
     dp_marshal = (\<lambda>e. Some (ev_action e)), dp_hmac = (\<lambda>k b. k @ b), dp_request = (\<lambda>_. True),
     dp_hops = (\<lambda>_ _. [[''127.0.0.1:80'', ''1.2.3.4:80'']]), dp_up = (\<lambda>_ _. True), dp_answer = (\<lambda>_ _. Inr 204)\<rparr>"

definition demo_api :: hook_api where
  "demo_api = \<lparr>ha_dispatcher = demo_dispatcher, ha_url_parse = (\<lambda>_. Some (''http'', ''hooks'')), ha_nonce = (\<lambda>_. Some ''xy'')\<rparr>"

definition demo_ops :: "hook_op list" where
  "demo_ops = [OpCreate ''admin'' \<lparr>hi_name = ''n'', hi_url = ''u'', hi_events = ''cert'', hi_secret = [], hi_disabled = False\<rparr>,
     OpEmit ''admin'' ''cert.issue'' ''t'' ''d'' ''ip'', OpTick]"

definition demo_post :: hook_post where
  "demo_post = \<lparr>po_url = ''u'', po_body = ''cert.issue'', po_event = ''cert.issue'', po_delivery = 1, po_signature = None\<rparr>"

lemma demo_wire: "wire (fold (hook_op_run demo_api) demo_ops empty_hook_db) = [\<lparr>hs_post = demo_post, hs_peers = [''1.2.3.4:80''], hs_answer = Inr 204\<rparr>]"
  by code_simp


lemma demo_faultless [simp]: "faultless demo_hook_env"
  by (simp add: faultless_def demo_hook_env_def)

lemma demo_api_simps [simp]:
  "ha_dispatcher demo_api = demo_dispatcher" "dp_env demo_dispatcher = demo_hook_env"
  "dp_options demo_dispatcher = withDefaults \<lparr>op_max_attempts = 0, op_backoff = 0, op_interval = 0, op_timeout = 0, op_claim_stale = 0\<rparr>"
  by (simp_all add: demo_api_def demo_dispatcher_def)

lemma demo_max [simp]: "op_max_attempts (withDefaults \<lparr>op_max_attempts = 0, op_backoff = 0, op_interval = 0, op_timeout = 0, op_claim_stale = 0\<rparr>) = 5"
  by (simp add: withDefaults_def)

theorem blocked_never_contacted_witness:
  "\<exists>host port ip. SplitHostPort ''1.2.3.4:80'' = Some (host, port) \<and> ParseIP host = Some ip \<and>
     \<not> (\<exists>blk \<in> set never_receivers. in_block ip blk)"
  using blocked_never_contacted [OF hook_start, of "\<lparr>hs_post = demo_post, hs_peers = [''1.2.3.4:80''], hs_answer = Inr 204\<rparr>"
      demo_api demo_ops "''1.2.3.4:80''"] demo_wire by simp

theorem attempts_bounded_witness:
  "int (sends 1 (fold (hook_op_run demo_api) demo_ops empty_hook_db)) \<le> 5 \<and>
   oks 1 (fold (hook_op_run demo_api) demo_ops empty_hook_db) = 1"
  using attempts_bounded [of demo_api "\<lparr>op_max_attempts = 0, op_backoff = 0, op_interval = 0, op_timeout = 0, op_claim_stale = 0\<rparr>"
      "fold (hook_op_run demo_api) demo_ops empty_hook_db" demo_ops 1]
  by (simp add: demo_wire sends_def oks_def accepted_def demo_post_def)

definition demo_row :: "nat \<Rightarrow> int option \<Rightarrow> WebhookDelivery" where
  "demo_row i c = (new_delivery 0 1 ''cert.issue'' ''{}'')\<lparr>wd_id := i, wd_claimed_at := c\<rparr>"

definition demo_queue :: "nat \<Rightarrow> int option \<Rightarrow> int option \<Rightarrow> hook_db" where
  "demo_queue n c1 c2 = \<lparr>tick = n, webhooks = \<lparr>rows = [], next_id = 2\<rparr>,
     deliveries = \<lparr>rows = [demo_row 1 c1, demo_row 2 c2], next_id = 3\<rparr>, wire = []\<rparr>"

lemma demo_claims:
  "ClaimDueWebhookDeliveries demo_hook_env 10 5 1 (demo_queue 0 None None) = (Inr [demo_row 1 (Some 10)], demo_queue 1 (Some 10) None)"
  "ClaimDueWebhookDeliveries demo_hook_env 12 5 1 (demo_queue 1 (Some 10) None) =
     (Inr [demo_row 2 (Some 12)], demo_queue 2 (Some 10) (Some 12))"
  by (simp_all add: ClaimDueWebhookDeliveries_def run_def demo_hook_env_def demo_queue_def claims_def due_ids_def delivery_due_def
      demo_row_def new_delivery_def set_deliveries_def update_rows_def update_where_def)

theorem claimed_exclusively_witness:
  "ClaimDueWebhookDeliveries demo_hook_env 12 5 1 (demo_queue 1 (Some 10) None) =
     (Inr [demo_row 2 (Some 12)], demo_queue 2 (Some 10) (Some 12)) \<and> 1 \<notin> wd_id ` set [demo_row 2 (Some 12)]"
proof -
  have "wf_table wd_id (deliveries (demo_queue 0 None None))"
    by (simp add: demo_queue_def wf_table_def demo_row_def new_delivery_def)
  from claimed_exclusively [OF this demo_claims(1) _ hook_start demo_claims(2)] demo_claims(2) show ?thesis
    by (simp add: demo_row_def)
qed

lemma demo_accepts: "endpoint_accepts demo_dispatcher url"
proof -
  have "dialerControl ''1.2.3.4:80''" by code_simp
  then show ?thesis by (auto simp: endpoint_accepts_def demo_dispatcher_def)
qed

definition demo_hook :: Webhook where
  "demo_hook = \<lparr>wh_id = 1, wh_name = ''n'', wh_url = ''u'', wh_events = ''cert'', wh_secret_enc = [], wh_disabled = False,
     wh_created_by = ''admin'', wh_created_at = 0, wh_updated_at = 0\<rparr>"

definition demo_hooks :: hook_db where
  "demo_hooks = empty_hook_db\<lparr>webhooks := \<lparr>rows = [demo_hook], next_id = 2\<rparr>\<rparr>"

theorem emitted_is_delivered_witness:
  "\<exists>x. x \<in> set (wire (Tick demo_dispatcher (Emit demo_dispatcher ''admin'' ''cert.issue'' ''t'' ''d'' ''ip'' demo_hooks))) \<and>
     po_url (hs_post x) = ''u'' \<and> po_event (hs_post x) = ''cert.issue'' \<and> accepted x"
proof -
  let ?s = "Emit demo_dispatcher ''admin'' ''cert.issue'' ''t'' ''d'' ''ip'' demo_hooks"
  have rows: "map wd_id (rows (deliveries ?s)) = [1]" "next_id (deliveries ?s) = 2" by code_simp+
  then have wf: "wf_table wd_id (deliveries ?s)" by (auto simp: wf_table_def)
  have few: "length (filter p (rows (deliveries ?s))) \<le> 100" for p
    using arg_cong [OF rows(1), of length] length_filter_le [of p "rows (deliveries ?s)"] by simp
  have m: "matches (wh_events demo_hook) ''cert.issue''" by code_simp
  have "wf_table wh_id (webhooks demo_hooks)" "demo_hook \<in> set (rows (webhooks demo_hooks))"
    "signing_key demo_dispatcher demo_hook = Some []" "\<forall>e. dp_marshal demo_dispatcher e \<noteq> None" "\<not> wh_disabled demo_hook"
    by (simp_all add: demo_hooks_def wf_table_def demo_hook_def signing_key_def demo_dispatcher_def)
  then show ?thesis
    using emitted_is_delivered [of demo_dispatcher demo_hooks "''admin''" "''cert.issue''" "''t''" "''d''" "''ip''" demo_hook "[]",
        OF _ _ _ wf _ _ m _ demo_accepts few] by (fastforce simp: demo_hook_def dest: in_set_dropD)
qed

end
