(* ===== verification/Vault_Store.thy ===== *)
theory Vault_Store
  imports Ca_Service Acme_Store
begin

text \<open>
  The tables of the secret manager and of the Kubernetes trust domains and the statements on them
  (\<open>internal/store/secrets.go\<close>, \<open>k8sauth.go\<close>, \<open>models.go\<close>). The tables of the certificate service, which
  certificate secrets read, are the field \<open>ca_part\<close>. A transaction is one step: the row that it locks keeps other
  transactions on the same secret out.
\<close>


section \<open>Rows\<close>

definition SecretTypeKV :: string where "SecretTypeKV = ''kv''"
definition SecretTypeFile :: string where "SecretTypeFile = ''file''"
definition SecretTypeCertificate :: string where "SecretTypeCertificate = ''certificate''"

lemmas secret_type_defs = SecretTypeKV_def SecretTypeFile_def SecretTypeCertificate_def

record VSecret =
  se_id :: nat
  se_name :: string
  se_type :: string
  se_description :: string
  se_labels_json :: string
  se_cert_id :: "nat option"
  se_current_version :: nat
  se_rotation_days :: int
  se_disabled :: bool
  se_created_by :: string
  se_created_at :: int
  se_updated_at :: int

record SecretVersion =
  vr_id :: nat
  vr_secret_id :: nat
  vr_version :: nat
  vr_payload_enc :: string
  vr_payload_sha256 :: string
  vr_size_bytes :: nat
  vr_content_type :: string
  vr_destroyed :: bool
  vr_created_by :: string
  vr_created_at :: int

text \<open>The name of the secret is not a column: the queries join it.\<close>

record SecretBinding =
  bd_id :: nat
  bd_secret_id :: nat
  bd_secret_name :: string
  bd_k8s_namespace :: string
  bd_k8s_service_account :: string
  bd_k8s_auth_method :: string
  bd_expires_at :: "int option"
  bd_created_by :: string
  bd_created_at :: int

record K8sAuthMethod =
  km_id :: nat
  km_name :: string
  km_audience :: string
  km_issuer_url :: string
  km_api_server_url :: string
  km_ca_cert :: string
  km_reviewer_token_enc :: string
  km_insecure_skip_verify :: bool
  km_disabled :: bool
  km_created_by :: string
  km_created_at :: int
  km_updated_at :: int

record vault_db = tick_state +
  secrets :: "VSecret table"
  secret_versions :: "SecretVersion table"
  secret_bindings :: "SecretBinding table"
  k8s_auth_methods :: "K8sAuthMethod table"
  vault_log :: "AuditEntry list"
  ca_part :: db

type_synonym 'a vault_stmt = "(db_error, 'a, vault_db) outcome"

interpretation secrets_t: keyed se_id "\<lambda>n. se_id_update (\<lambda>_. n)" by unfold_locales simp
interpretation versions_t: keyed vr_id "\<lambda>n. vr_id_update (\<lambda>_. n)" by unfold_locales simp
interpretation bindings_t: keyed bd_id "\<lambda>n. bd_id_update (\<lambda>_. n)" by unfold_locales simp
interpretation methods_t: keyed km_id "\<lambda>n. km_id_update (\<lambda>_. n)" by unfold_locales simp

definition some_row :: "nat vault_stmt \<Rightarrow> unit vault_stmt" where
  "some_row r = attempt r (\<lambda>e s. (Inl e, s)) (\<lambda>n s. if n = 0 then (Inl ErrNotFound, s) else (Inr (), s))"


section \<open>Secrets\<close>

definition set_secrets :: "(VSecret \<Rightarrow> bool) \<Rightarrow> (VSecret \<Rightarrow> VSecret) \<Rightarrow> vault_db \<Rightarrow> vault_db" where
  "set_secrets p f s = s\<lparr>secrets := update_rows p f (secrets s)\<rparr>"

definition secret_insertable :: "VSecret \<Rightarrow> vault_db \<Rightarrow> bool" where
  "secret_insertable x s \<longleftrightarrow>
     (\<forall>y \<in> set (rows (secrets s)). se_name y \<noteq> se_name x) \<and>
     (case se_cert_id x of None \<Rightarrow> True | Some c \<Rightarrow> \<exists>r \<in> set (rows (certificates (ca_part s))). c_id r = c)"

definition insert_secret :: "env \<Rightarrow> VSecret \<Rightarrow> vault_db \<Rightarrow> nat vault_stmt" where
  "insert_secret E x = exec_insert E (secret_insertable x) (\<lambda>s. next_id (secrets s))
     (\<lambda>s. s\<lparr>secrets := insert_row (\<lambda>n. se_id_update (\<lambda>_. n)) x (secrets s)\<rparr>)"

definition GetSecret :: "env \<Rightarrow> nat \<Rightarrow> vault_db \<Rightarrow> VSecret vault_stmt" where
  "GetSecret E i = query_row E (\<lambda>s. select_one (\<lambda>x. se_id x = i) (rows (secrets s)))"

definition GetSecretByName :: "env \<Rightarrow> string \<Rightarrow> vault_db \<Rightarrow> VSecret vault_stmt" where
  "GetSecretByName E name = query_row E (\<lambda>s. select_one (\<lambda>x. se_name x = name) (rows (secrets s)))"

definition new_secret :: "int \<Rightarrow> VSecret \<Rightarrow> VSecret" where
  "new_secret t x =
     x\<lparr>se_type := nz (se_type x) SecretTypeKV, se_labels_json := nz (se_labels_json x) ''{}'', se_created_at := t,
       se_updated_at := t\<rparr>"

definition CreateSecret :: "env \<Rightarrow> VSecret \<Rightarrow> vault_db \<Rightarrow> VSecret vault_stmt" where
  "CreateSecret E x s =
     attempt (insert_secret E (new_secret (now E s) x) s) (\<lambda>e s. (Inl e, s)) (\<lambda>i s. GetSecret E i s)"

definition ListSecrets :: "env \<Rightarrow> string \<Rightarrow> vault_db \<Rightarrow> VSecret list vault_stmt" where
  "ListSecrets E typ = query_row E (\<lambda>s.
     Inr (sort_key se_name (filter (\<lambda>x. typ = [] \<or> se_type x = typ) (rows (secrets s)))))"

definition UpdateSecretMeta :: "env \<Rightarrow> nat \<Rightarrow> string \<Rightarrow> string \<Rightarrow> int \<Rightarrow> vault_db \<Rightarrow> unit vault_stmt" where
  "UpdateSecretMeta E i description labels days s =
     some_row (exec_count E (\<lambda>s. affected (\<lambda>x. se_id x = i) (rows (secrets s)))
       (set_secrets (\<lambda>x. se_id x = i) (\<lambda>x. x\<lparr>se_description := description, se_labels_json := nz labels ''{}'',
          se_rotation_days := days, se_updated_at := now E s\<rparr>)) s)"

definition SetSecretDisabled :: "env \<Rightarrow> nat \<Rightarrow> bool \<Rightarrow> vault_db \<Rightarrow> unit vault_stmt" where
  "SetSecretDisabled E i d s =
     some_row (exec_count E (\<lambda>s. affected (\<lambda>x. se_id x = i) (rows (secrets s)))
       (set_secrets (\<lambda>x. se_id x = i) (\<lambda>x. x\<lparr>se_disabled := d\<rparr>)) s)"

text \<open>\<open>ON DELETE CASCADE\<close>.\<close>

definition DeleteSecret :: "env \<Rightarrow> nat \<Rightarrow> vault_db \<Rightarrow> unit vault_stmt" where
  "DeleteSecret E i s =
     some_row (exec_count E (\<lambda>s. affected (\<lambda>x. se_id x = i) (rows (secrets s)))
       (\<lambda>s. s\<lparr>secrets := delete_rows (\<lambda>x. se_id x = i) (secrets s),
              secret_versions := delete_rows (\<lambda>v. vr_secret_id v = i) (secret_versions s),
              secret_bindings := delete_rows (\<lambda>b. bd_secret_id b = i) (secret_bindings s)\<rparr>) s)"


section \<open>Versions\<close>

record SealedVersion =
  sl_payload_enc :: string
  sl_payload_sha256 :: string
  sl_size_bytes :: nat

datatype 'e version_error = VersionDb db_error | VersionSeal 'e

definition GetSecretVersion :: "env \<Rightarrow> nat \<Rightarrow> int \<Rightarrow> vault_db \<Rightarrow> SecretVersion vault_stmt" where
  "GetSecretVersion E i v = query_row E (\<lambda>s.
     select_one (\<lambda>r. vr_secret_id r = i \<and> int (vr_version r) = v) (rows (secret_versions s)))"

definition reserve_version :: "env \<Rightarrow> int \<Rightarrow> nat \<Rightarrow> vault_db \<Rightarrow> nat vault_stmt" where
  "reserve_version E t i = run E (\<lambda>s.
     case find (\<lambda>x. se_id x = i) (rows (secrets s)) of
       None \<Rightarrow> (Inl ErrNotFound, s)
     | Some x \<Rightarrow> (Inr (Suc (se_current_version x)),
         set_secrets (\<lambda>x. se_id x = i) (\<lambda>x. x\<lparr>se_current_version := Suc (se_current_version x), se_updated_at := t\<rparr>) s))"

definition version_insertable :: "SecretVersion \<Rightarrow> vault_db \<Rightarrow> bool" where
  "version_insertable v s \<longleftrightarrow>
     (\<exists>x \<in> set (rows (secrets s)). se_id x = vr_secret_id v) \<and>
     (\<forall>r \<in> set (rows (secret_versions s)). (vr_secret_id r, vr_version r) \<noteq> (vr_secret_id v, vr_version v))"

definition insert_version :: "env \<Rightarrow> SecretVersion \<Rightarrow> vault_db \<Rightarrow> nat vault_stmt" where
  "insert_version E v = exec_insert E (version_insertable v) (\<lambda>s. next_id (secret_versions s))
     (\<lambda>s. s\<lparr>secret_versions := insert_row (\<lambda>n. vr_id_update (\<lambda>_. n)) v (secret_versions s)\<rparr>)"

definition new_version :: "nat \<Rightarrow> nat \<Rightarrow> string \<Rightarrow> string \<Rightarrow> int \<Rightarrow> SealedVersion \<Rightarrow> SecretVersion" where
  "new_version i v ctype actor t sealed =
     \<lparr>vr_id = 0, vr_secret_id = i, vr_version = v, vr_payload_enc = sl_payload_enc sealed,
      vr_payload_sha256 = sl_payload_sha256 sealed, vr_size_bytes = sl_size_bytes sealed, vr_content_type = ctype,
      vr_destroyed = False, vr_created_by = actor, vr_created_at = t\<rparr>"

text \<open>\<open>BEGIN\<close> and \<open>COMMIT\<close> are statements that may fail; \<open>tx.Rollback\<close> brings the tables back.\<close>

definition begin_tx :: "env \<Rightarrow> vault_db \<Rightarrow> unit vault_stmt" where
  "begin_tx E = query_row E (\<lambda>_. Inr ())"

definition commit_tx :: "env \<Rightarrow> vault_db \<Rightarrow> unit vault_stmt" where
  "commit_tx E = query_row E (\<lambda>_. Inr ())"

definition rolled_back :: "vault_db \<Rightarrow> vault_db \<Rightarrow> vault_db" where
  "rolled_back s0 s = s0\<lparr>tick := tick s\<rparr>"

definition CreateSecretVersion ::
  "env \<Rightarrow> nat \<Rightarrow> string \<Rightarrow> string \<Rightarrow> (nat \<Rightarrow> nat \<Rightarrow> nat \<Rightarrow> 'e + SealedVersion) \<Rightarrow> vault_db
     \<Rightarrow> ('e version_error, SecretVersion, vault_db) outcome" where
  "CreateSecretVersion E i ctype actor seal s =
     (let t = now E s in
      attempt (begin_tx E s) (\<lambda>e s. (Inl (VersionDb e), s)) (\<lambda>_ s0.
      attempt (reserve_version E t i s0) (\<lambda>e s. (Inl (VersionDb e), rolled_back s0 s)) (\<lambda>v s.
      case seal (tick s) i v of
        Inl e \<Rightarrow> (Inl (VersionSeal e), rolled_back s0 s)
      | Inr sealed \<Rightarrow>
          attempt (insert_version E (new_version i v ctype actor t sealed) s) (\<lambda>e s. (Inl (VersionDb e), rolled_back s0 s)) (\<lambda>_ s.
          attempt (commit_tx E s) (\<lambda>e s. (Inl (VersionDb e), rolled_back s0 s)) (\<lambda>_ s.
          attempt (GetSecretVersion E i (int v) s) (\<lambda>e s. (Inl (VersionDb e), s)) (\<lambda>r s. (Inr r, s)))))))"

definition GetLatestSecretVersion :: "env \<Rightarrow> nat \<Rightarrow> vault_db \<Rightarrow> SecretVersion vault_stmt" where
  "GetLatestSecretVersion E i = query_row E (\<lambda>s. select_one (\<lambda>_. True)
     (rev (sort_key vr_version (filter (\<lambda>r. vr_secret_id r = i \<and> \<not> vr_destroyed r) (rows (secret_versions s))))))"

definition ListSecretVersions :: "env \<Rightarrow> nat \<Rightarrow> vault_db \<Rightarrow> SecretVersion list vault_stmt" where
  "ListSecretVersions E i = query_row E (\<lambda>s.
     Inr (rev (sort_key vr_version (filter (\<lambda>r. vr_secret_id r = i) (rows (secret_versions s))))))"

definition DestroySecretVersion :: "env \<Rightarrow> nat \<Rightarrow> vault_db \<Rightarrow> unit vault_stmt" where
  "DestroySecretVersion E i s =
     some_row (exec_count E (\<lambda>s. affected (\<lambda>r. vr_id r = i) (rows (secret_versions s)))
       (\<lambda>s. s\<lparr>secret_versions := update_rows (\<lambda>r. vr_id r = i) (\<lambda>r. r\<lparr>vr_destroyed := True, vr_payload_enc := []\<rparr>)
          (secret_versions s)\<rparr>) s)"


section \<open>Bindings\<close>

definition with_secret :: "vault_db \<Rightarrow> SecretBinding \<Rightarrow> SecretBinding" where
  "with_secret s b =
     b\<lparr>bd_secret_name := (case find (\<lambda>x. se_id x = bd_secret_id b) (rows (secrets s)) of None \<Rightarrow> [] | Some x \<Rightarrow> se_name x)\<rparr>"

definition insert_binding :: "env \<Rightarrow> SecretBinding \<Rightarrow> vault_db \<Rightarrow> nat vault_stmt" where
  "insert_binding E b = exec_insert E (\<lambda>s. \<exists>x \<in> set (rows (secrets s)). se_id x = bd_secret_id b)
     (\<lambda>s. next_id (secret_bindings s))
     (\<lambda>s. s\<lparr>secret_bindings := insert_row (\<lambda>n. bd_id_update (\<lambda>_. n)) b (secret_bindings s)\<rparr>)"

definition new_binding :: "int \<Rightarrow> SecretBinding \<Rightarrow> SecretBinding" where
  "new_binding t b =
     b\<lparr>bd_secret_name := [], bd_k8s_namespace := nz (bd_k8s_namespace b) ''*'',
       bd_k8s_service_account := nz (bd_k8s_service_account b) ''*'', bd_k8s_auth_method := nz (bd_k8s_auth_method b) ''*'',
       bd_created_at := t\<rparr>"

definition CreateSecretBinding :: "env \<Rightarrow> SecretBinding \<Rightarrow> vault_db \<Rightarrow> SecretBinding vault_stmt" where
  "CreateSecretBinding E b s =
     attempt (insert_binding E (new_binding (now E s) b) s) (\<lambda>e s. (Inl e, s))
       (\<lambda>i s. query_row E (\<lambda>s. map_sum id (with_secret s) (select_one (\<lambda>b. bd_id b = i) (rows (secret_bindings s)))) s)"

definition ListSecretBindings :: "env \<Rightarrow> nat \<Rightarrow> vault_db \<Rightarrow> SecretBinding list vault_stmt" where
  "ListSecretBindings E i = query_row E (\<lambda>s.
     Inr (map (with_secret s) (sort_key bd_id (filter (\<lambda>b. bd_secret_id b = i) (rows (secret_bindings s))))))"

definition ListAllSecretBindings :: "env \<Rightarrow> vault_db \<Rightarrow> SecretBinding list vault_stmt" where
  "ListAllSecretBindings E = query_row E (\<lambda>s. Inr (map (with_secret s) (sort_key bd_id (rows (secret_bindings s)))))"

definition DeleteSecretBinding :: "env \<Rightarrow> nat \<Rightarrow> vault_db \<Rightarrow> unit vault_stmt" where
  "DeleteSecretBinding E i s =
     some_row (exec_count E (\<lambda>s. affected (\<lambda>b. bd_id b = i) (rows (secret_bindings s)))
       (\<lambda>s. s\<lparr>secret_bindings := delete_rows (\<lambda>b. bd_id b = i) (secret_bindings s)\<rparr>) s)"


section \<open>Trust domains\<close>

definition set_methods :: "(K8sAuthMethod \<Rightarrow> bool) \<Rightarrow> (K8sAuthMethod \<Rightarrow> K8sAuthMethod) \<Rightarrow> vault_db \<Rightarrow> vault_db" where
  "set_methods p f s = s\<lparr>k8s_auth_methods := update_rows p f (k8s_auth_methods s)\<rparr>"

definition GetK8sAuthMethod :: "env \<Rightarrow> nat \<Rightarrow> vault_db \<Rightarrow> K8sAuthMethod vault_stmt" where
  "GetK8sAuthMethod E i = query_row E (\<lambda>s. select_one (\<lambda>m. km_id m = i) (rows (k8s_auth_methods s)))"

definition GetK8sAuthMethodByName :: "env \<Rightarrow> string \<Rightarrow> vault_db \<Rightarrow> K8sAuthMethod vault_stmt" where
  "GetK8sAuthMethodByName E name = query_row E (\<lambda>s. select_one (\<lambda>m. km_name m = name) (rows (k8s_auth_methods s)))"

definition insert_method :: "env \<Rightarrow> K8sAuthMethod \<Rightarrow> vault_db \<Rightarrow> nat vault_stmt" where
  "insert_method E m = exec_insert E (\<lambda>s. \<forall>x \<in> set (rows (k8s_auth_methods s)). km_name x \<noteq> km_name m)
     (\<lambda>s. next_id (k8s_auth_methods s))
     (\<lambda>s. s\<lparr>k8s_auth_methods := insert_row (\<lambda>n. km_id_update (\<lambda>_. n)) m (k8s_auth_methods s)\<rparr>)"

definition CreateK8sAuthMethod :: "env \<Rightarrow> K8sAuthMethod \<Rightarrow> vault_db \<Rightarrow> K8sAuthMethod vault_stmt" where
  "CreateK8sAuthMethod E m s =
     attempt (insert_method E (m\<lparr>km_audience := nz (km_audience m) ''goca-csi'', km_created_at := now E s, km_updated_at := now E s\<rparr>) s)
       (\<lambda>e s. (Inl e, s)) (\<lambda>i s. GetK8sAuthMethod E i s)"

definition put_method :: "env \<Rightarrow> K8sAuthMethod \<Rightarrow> vault_db \<Rightarrow> unit vault_stmt" where
  "put_method E m s =
     some_row (exec_count E (\<lambda>s. affected (\<lambda>x. km_id x = km_id m) (rows (k8s_auth_methods s)))
       (set_methods (\<lambda>x. km_id x = km_id m) (\<lambda>x. x\<lparr>km_audience := nz (km_audience m) ''goca-csi'',
          km_issuer_url := km_issuer_url m, km_api_server_url := km_api_server_url m, km_ca_cert := km_ca_cert m,
          km_reviewer_token_enc := km_reviewer_token_enc m, km_insecure_skip_verify := km_insecure_skip_verify m,
          km_disabled := km_disabled m, km_updated_at := km_updated_at m\<rparr>)) s)"

text \<open>An empty token keeps the stored one.\<close>

definition UpdateK8sAuthMethod :: "env \<Rightarrow> K8sAuthMethod \<Rightarrow> vault_db \<Rightarrow> K8sAuthMethod vault_stmt" where
  "UpdateK8sAuthMethod E m s =
     (let write = (\<lambda>token s. attempt (put_method E (m\<lparr>km_reviewer_token_enc := token, km_updated_at := now E s\<rparr>) s)
            (\<lambda>e s. (Inl e, s)) (\<lambda>_ s. GetK8sAuthMethod E (km_id m) s)) in
      if km_reviewer_token_enc m = []
      then attempt (GetK8sAuthMethod E (km_id m) s) (\<lambda>e s. (Inl e, s)) (\<lambda>x s. write (km_reviewer_token_enc x) s)
      else write (km_reviewer_token_enc m) s)"

definition SetK8sAuthMethodDisabled :: "env \<Rightarrow> nat \<Rightarrow> bool \<Rightarrow> vault_db \<Rightarrow> unit vault_stmt" where
  "SetK8sAuthMethodDisabled E i d s =
     some_row (exec_count E (\<lambda>s. affected (\<lambda>x. km_id x = i) (rows (k8s_auth_methods s)))
       (set_methods (\<lambda>x. km_id x = i) (\<lambda>x. x\<lparr>km_disabled := d, km_updated_at := now E s\<rparr>)) s)"

text \<open>The schema has no foreign key on the name of a trust domain.\<close>

definition DeleteK8sAuthMethod :: "env \<Rightarrow> nat \<Rightarrow> vault_db \<Rightarrow> unit vault_stmt" where
  "DeleteK8sAuthMethod E i s =
     some_row (exec_count E (\<lambda>s. affected (\<lambda>x. km_id x = i) (rows (k8s_auth_methods s)))
       (\<lambda>s. s\<lparr>k8s_auth_methods := delete_rows (\<lambda>x. km_id x = i) (k8s_auth_methods s)\<rparr>) s)"

definition CountSecretBindingsByAuthMethod :: "env \<Rightarrow> string \<Rightarrow> vault_db \<Rightarrow> nat vault_stmt" where
  "CountSecretBindingsByAuthMethod E name = query_row E (\<lambda>s.
     Inr (affected (\<lambda>b. bd_k8s_auth_method b = name) (rows (secret_bindings s))))"

definition vault_audit :: "env \<Rightarrow> string \<Rightarrow> string \<Rightarrow> string \<Rightarrow> string \<Rightarrow> string \<Rightarrow> vault_db \<Rightarrow> vault_db" where
  "vault_audit E actor action target detail ip s = snd (exec E (\<lambda>s. s\<lparr>vault_log := vault_log s @
     [\<lparr>au_actor = actor, au_action = action, au_target = target, au_detail = detail, au_ip = ip\<rparr>]\<rparr>) s)"



section \<open>Sequences of statements\<close>

text \<open>What a transaction that adds a version has done when it commits.\<close>

definition added_version :: "int \<Rightarrow> nat \<Rightarrow> string \<Rightarrow> string \<Rightarrow> SealedVersion \<Rightarrow> vault_db \<Rightarrow> vault_db" where
  "added_version t i ctype actor sealed s =
     (case find (\<lambda>x. se_id x = i) (rows (secrets s)) of
        None \<Rightarrow> s
      | Some x \<Rightarrow>
          let v = new_version i (Suc (se_current_version x)) ctype actor t sealed;
              s' = set_secrets (\<lambda>x. se_id x = i) (\<lambda>x. x\<lparr>se_current_version := Suc (se_current_version x), se_updated_at := t\<rparr>) s in
          if version_insertable v s'
          then s'\<lparr>secret_versions := insert_row (\<lambda>n. vr_id_update (\<lambda>_. n)) v (secret_versions s')\<rparr>
          else s)"

datatype vault_statement =
    InsertSecret VSecret | PutMeta nat string string int | PutSecretDisabled nat bool | DropSecret nat
  | AddVersion int nat string string SealedVersion | ScrubVersion nat
  | InsertBinding SecretBinding | DropBinding nat
  | InsertMethod K8sAuthMethod | PutMethod K8sAuthMethod | PutMethodDisabled nat bool | DropMethod nat
  | PutVaultAudit string string string string string | CaStep db

fun vault_exec :: "env \<Rightarrow> vault_statement \<Rightarrow> vault_db \<Rightarrow> vault_db" where
  "vault_exec E (InsertSecret x) s = snd (insert_secret E x s)"
| "vault_exec E (PutMeta i d l n) s = snd (UpdateSecretMeta E i d l n s)"
| "vault_exec E (PutSecretDisabled i d) s = snd (SetSecretDisabled E i d s)"
| "vault_exec E (DropSecret i) s = snd (DeleteSecret E i s)"
| "vault_exec E (AddVersion t i c a v) s = added_version t i c a v s"
| "vault_exec E (ScrubVersion i) s = snd (DestroySecretVersion E i s)"
| "vault_exec E (InsertBinding b) s = snd (insert_binding E b s)"
| "vault_exec E (DropBinding i) s = snd (DeleteSecretBinding E i s)"
| "vault_exec E (InsertMethod m) s = snd (insert_method E m s)"
| "vault_exec E (PutMethod m) s = snd (put_method E m s)"
| "vault_exec E (PutMethodDisabled i d) s = snd (SetK8sAuthMethodDisabled E i d s)"
| "vault_exec E (DropMethod i) s = snd (DeleteK8sAuthMethod E i s)"
| "vault_exec E (PutVaultAudit a b c d e) s = vault_audit E a b c d e s"
| "vault_exec E (CaStep d) s = s\<lparr>ca_part := d\<rparr>"

inductive vault_reach :: "env \<Rightarrow> (vault_statement \<Rightarrow> bool) \<Rightarrow> vault_db \<Rightarrow> vault_db \<Rightarrow> bool" for E Q s0 where
  vault_start: "vault_reach E Q s0 s0"
| vault_select: "vault_reach E Q s0 s \<Longrightarrow> tick s \<le> n \<Longrightarrow> vault_reach E Q s0 (s\<lparr>tick := n\<rparr>)"
| vault_change: "vault_reach E Q s0 s \<Longrightarrow> Q st \<Longrightarrow> vault_reach E Q s0 (vault_exec E st s)"

lemma vault_reach_trans: "vault_reach E Q t u \<Longrightarrow> vault_reach E Q s t \<Longrightarrow> vault_reach E Q s u"
  by (induction rule: vault_reach.induct) (auto intro: vault_reach.intros)

lemma vault_reach_invariant:
  assumes "vault_reach E Q s t" and "P s" and "\<And>s n. P s \<Longrightarrow> P (s\<lparr>tick := n\<rparr>)"
    and "\<And>s st. P s \<Longrightarrow> Q st \<Longrightarrow> P (vault_exec E st s)"
  shows "P t"
  using assms by (induction rule: vault_reach.induct) auto

interpretation vaults: state_frame "vault_reach E Q" for E Q
  by unfold_locales (auto intro: vault_reach.intros elim: vault_reach_trans)

lemmas reach_vault_change =
  vault_change [of _ _ _ _ "InsertSecret x" for x, unfolded vault_exec.simps]
  vault_change [of _ _ _ _ "PutMeta i d l n" for i d l n, unfolded vault_exec.simps]
  vault_change [of _ _ _ _ "PutSecretDisabled i d" for i d, unfolded vault_exec.simps]
  vault_change [of _ _ _ _ "DropSecret i" for i, unfolded vault_exec.simps]
  vault_change [of _ _ _ _ "AddVersion t i c a v" for t i c a v, unfolded vault_exec.simps]
  vault_change [of _ _ _ _ "ScrubVersion i" for i, unfolded vault_exec.simps]
  vault_change [of _ _ _ _ "InsertBinding b" for b, unfolded vault_exec.simps]
  vault_change [of _ _ _ _ "DropBinding i" for i, unfolded vault_exec.simps]
  vault_change [of _ _ _ _ "InsertMethod m" for m, unfolded vault_exec.simps]
  vault_change [of _ _ _ _ "PutMethod m" for m, unfolded vault_exec.simps]
  vault_change [of _ _ _ _ "PutMethodDisabled i d" for i d, unfolded vault_exec.simps]
  vault_change [of _ _ _ _ "DropMethod i" for i, unfolded vault_exec.simps]
  vault_change [of _ _ _ _ "PutVaultAudit a b c d e" for a b c d e, unfolded vault_exec.simps]
  vault_change [of _ _ _ _ "CaStep d" for d, unfolded vault_exec.simps]

lemma reach_vault_reads:
  assumes "vault_reach E Q s0 s"
  shows "vault_reach E Q s0 (snd (GetSecret F i s))" "vault_reach E Q s0 (snd (GetSecretByName F n s))"
    "vault_reach E Q s0 (snd (GetSecretVersion F i v s))" "vault_reach E Q s0 (snd (GetLatestSecretVersion F i s))"
    "vault_reach E Q s0 (snd (ListSecretVersions F i s))" "vault_reach E Q s0 (snd (ListSecretBindings F i s))"
    "vault_reach E Q s0 (snd (GetK8sAuthMethod F i s))" "vault_reach E Q s0 (snd (GetK8sAuthMethodByName F n s))"
    "vault_reach E Q s0 (snd (ListSecrets F n s))" "vault_reach E Q s0 (snd (CountSecretBindingsByAuthMethod F n s))"
  unfolding GetSecret_def GetSecretByName_def GetSecretVersion_def GetLatestSecretVersion_def ListSecretVersions_def
    ListSecretBindings_def GetK8sAuthMethod_def GetK8sAuthMethodByName_def ListSecrets_def CountSecretBindingsByAuthMethod_def
  using assms by (auto intro: vaults.acc_query)

text \<open>The outcomes of the transaction: it leaves the tables alone, or it adds the version that it sealed.\<close>

lemma set_secrets_simps [simp]:
  "tick (set_secrets p f s) = tick s" "secret_versions (set_secrets p f s) = secret_versions s"
  "secret_bindings (set_secrets p f s) = secret_bindings s" "secrets (set_secrets p f s) = update_rows p f (secrets s)"
  "set_secrets p f (s\<lparr>tick := n\<rparr>) = (set_secrets p f s)\<lparr>tick := n\<rparr>"
  by (cases s; simp add: set_secrets_def)+

lemma version_insertable_other [simp]:
  "version_insertable v (s\<lparr>tick := n\<rparr>) = version_insertable v s"
  "(\<And>x. p x \<Longrightarrow> se_id (f x) = se_id x) \<Longrightarrow> version_insertable v (set_secrets p f s) = version_insertable v s"
  by (auto simp: version_insertable_def bex_update_where if_distrib cong: if_cong)

lemma CreateSecretVersion_eq:
  "CreateSecretVersion E i c a seal s =
     (let n = tick s in
      if fault E n then (Inl (VersionDb ErrIO), s\<lparr>tick := Suc n\<rparr>)
      else if fault E (Suc n) then (Inl (VersionDb ErrIO), s\<lparr>tick := Suc (Suc n)\<rparr>)
      else case find (\<lambda>x. se_id x = i) (rows (secrets s)) of
        None \<Rightarrow> (Inl (VersionDb ErrNotFound), s\<lparr>tick := Suc (Suc n)\<rparr>)
      | Some x \<Rightarrow> (case seal (Suc (Suc n)) i (Suc (se_current_version x)) of
          Inl e \<Rightarrow> (Inl (VersionSeal e), s\<lparr>tick := Suc (Suc n)\<rparr>)
        | Inr sealed \<Rightarrow>
            if fault E (Suc (Suc n)) then (Inl (VersionDb ErrIO), s\<lparr>tick := Suc (Suc (Suc n))\<rparr>)
            else if \<not> version_insertable (new_version i (Suc (se_current_version x)) c a (now E s) sealed) s
            then (Inl (VersionDb ErrConstraint), s\<lparr>tick := Suc (Suc (Suc n))\<rparr>)
            else if fault E (Suc (Suc (Suc n))) then (Inl (VersionDb ErrIO), s\<lparr>tick := Suc (Suc (Suc (Suc n)))\<rparr>)
            else let s' = (added_version (now E s) i c a sealed s)\<lparr>tick := Suc (Suc (Suc (Suc (Suc n))))\<rparr> in
              if fault E (Suc (Suc (Suc (Suc n)))) then (Inl (VersionDb ErrIO), s')
              else (case find (\<lambda>r. vr_secret_id r = i \<and> int (vr_version r) = int (Suc (se_current_version x))) (rows (secret_versions s')) of
                      None \<Rightarrow> (Inl (VersionDb ErrNotFound), s') | Some r \<Rightarrow> (Inr r, s'))))"
  by (auto simp: CreateSecretVersion_def begin_tx_def commit_tx_def reserve_version_def insert_version_def GetSecretVersion_def
      added_version_def stmt_defs rolled_back_def select_one_def split: option.split sum.split)


lemma reach_CreateSecretVersion:
  assumes s: "vault_reach E Q s0 s" and Q: "\<And>t v. Q (AddVersion t i c a v)"
  shows "vault_reach E Q s0 (snd (CreateSecretVersion E i c a seal s))"
proof -
  have "vault_reach E Q s0 (s\<lparr>tick := n\<rparr>)" if "tick s \<le> n" for n using s that by (rule vault_select)
  moreover have "tick (added_version t i c a v s) = tick s" for t v
    by (simp add: added_version_def Let_def split: option.split)
  then have "vault_reach E Q s0 ((added_version t i c a v s)\<lparr>tick := n\<rparr>)" if "tick s \<le> n" for n t v
    using vault_select [OF reach_vault_change(5) [OF s Q], of t v n] that by simp
  ultimately show ?thesis
    by (simp add: CreateSecretVersion_eq Let_def split: option.split sum.split)
qed

text \<open>A version that the transaction returns is the row it added, under the number it reserved.\<close>

lemma CreateSecretVersion_Inr:
  assumes "CreateSecretVersion E i c a seal s = (Inr r, s')" and "wf_table vr_id (secret_versions s)"
  shows "\<exists>x sealed n. find (\<lambda>x. se_id x = i) (rows (secrets s)) = Some x \<and>
     seal (Suc (Suc (tick s))) i (Suc (se_current_version x)) = Inr sealed \<and>
     version_insertable (new_version i (Suc (se_current_version x)) c a (now E s) sealed) s \<and>
     r = (new_version i (Suc (se_current_version x)) c a (now E s) sealed)\<lparr>vr_id := next_id (secret_versions s)\<rparr> \<and>
     s' = (added_version (now E s) i c a sealed s)\<lparr>tick := n\<rparr>"
proof -
  obtain x sealed where x: "find (\<lambda>x. se_id x = i) (rows (secrets s)) = Some x"
    "seal (Suc (Suc (tick s))) i (Suc (se_current_version x)) = Inr sealed"
    "version_insertable (new_version i (Suc (se_current_version x)) c a (now E s) sealed) s"
    and s': "s' = (added_version (now E s) i c a sealed s)\<lparr>tick := Suc (Suc (Suc (Suc (Suc (tick s)))))\<rparr>"
    and r: "find (\<lambda>r. vr_secret_id r = i \<and> int (vr_version r) = int (Suc (se_current_version x))) (rows (secret_versions s')) = Some r"
    using assms(1) by (auto simp: CreateSecretVersion_eq Let_def split: if_splits option.splits sum.splits)
  have "find (\<lambda>r. vr_secret_id r = i \<and> int (vr_version r) = int (Suc (se_current_version x))) (rows (secret_versions s)) = None"
    using x(3) by (fastforce simp: version_insertable_def new_version_def find_None_iff)
  then have "r = (new_version i (Suc (se_current_version x)) c a (now E s) sealed)\<lparr>vr_id := next_id (secret_versions s)\<rparr>"
    using r x by (simp add: s' added_version_def find_append_row new_version_def)
  with x s' show ?thesis by blast
qed


section \<open>The tables stay well formed\<close>

definition vault_wf :: "vault_db \<Rightarrow> bool" where
  "vault_wf s \<longleftrightarrow>
     wf_table se_id (secrets s) \<and> wf_table vr_id (secret_versions s) \<and> wf_table bd_id (secret_bindings s) \<and>
     wf_table km_id (k8s_auth_methods s) \<and>
     distinct (map se_name (rows (secrets s))) \<and> distinct (map km_name (rows (k8s_auth_methods s))) \<and>
     distinct (map (\<lambda>r. (vr_secret_id r, vr_version r)) (rows (secret_versions s))) \<and>
     (\<forall>r \<in> set (rows (secret_versions s)). \<exists>x \<in> set (rows (secrets s)).
        se_id x = vr_secret_id r \<and> 0 < vr_version r \<and> vr_version r \<le> se_current_version x) \<and>
     bd_secret_id ` set (rows (secret_bindings s)) \<subseteq> se_id ` set (rows (secrets s))"

lemma vault_wf_other [simp]: "vault_wf (s\<lparr>tick := n\<rparr>) = vault_wf s" "vault_wf (s\<lparr>ca_part := d\<rparr>) = vault_wf s"
  "vault_wf (s\<lparr>vault_log := l\<rparr>) = vault_wf s"
  by (simp_all add: vault_wf_def)

lemma set_secrets_wf:
  assumes "vault_wf s" and f: "\<And>x. p x \<Longrightarrow> se_id (f x) = se_id x \<and> se_name (f x) = se_name x \<and> se_current_version x \<le> se_current_version (f x)"
  shows "vault_wf (set_secrets p f s)"
proof -
  have "map se_name (update_where p f (rows (secrets s))) = map se_name (rows (secrets s))"
    and ids: "map se_id (update_where p f (rows (secrets s))) = map se_id (rows (secrets s))"
    using f by (auto intro!: map_update_where)
  moreover have "se_id ` set (update_where p f (rows (secrets s))) = se_id ` set (rows (secrets s))"
    using arg_cong [OF ids, of set] by simp
  moreover have "\<exists>x \<in> set (update_where p f (rows (secrets s))). se_id x = i \<and> 0 < v \<and> v \<le> se_current_version x"
    if "\<exists>x \<in> set (rows (secrets s)). se_id x = i \<and> 0 < v \<and> v \<le> se_current_version x" for i v
    using that f by (fastforce simp: bex_update_where)
  ultimately show ?thesis
    using assms secrets_t.wf_update [of "secrets s" p f] by (auto simp: vault_wf_def set_secrets_def)
qed

lemma added_version_wf:
  assumes "vault_wf s"
  shows "vault_wf (added_version t i c a v s)"
proof (cases "find (\<lambda>x. se_id x = i) (rows (secrets s))")
  case None
  with assms show ?thesis by (simp add: added_version_def)
next
  case (Some x)
  let ?f = "\<lambda>x. x\<lparr>se_current_version := Suc (se_current_version x), se_updated_at := t\<rparr>"
  let ?s = "set_secrets (\<lambda>x. se_id x = i) ?f s" let ?v = "new_version i (Suc (se_current_version x)) c a t v"
  have s: "vault_wf ?s" using assms by (rule set_secrets_wf) simp
  have x: "x \<in> set (rows (secrets s))" "se_id x = i" using Some by (auto dest: find_SomeD)
  then have fx: "?f x \<in> set (rows (secrets ?s))" by (auto simp: set_update_where intro!: bexI [of _ x])
  have "vault_wf (?s\<lparr>secret_versions := insert_row (\<lambda>n. vr_id_update (\<lambda>_. n)) ?v (secret_versions ?s)\<rparr>)"
    if "version_insertable ?v ?s"
  proof -
    have "(i, Suc (se_current_version x)) \<notin> (\<lambda>r. (vr_secret_id r, vr_version r)) ` set (rows (secret_versions s))"
      using that by (fastforce simp: version_insertable_def new_version_def)
    moreover have "\<exists>y \<in> set (rows (secrets ?s)). se_id y = i \<and> Suc (se_current_version x) \<le> se_current_version y"
      using fx x(2) by (intro bexI [of _ "?f x"]) simp_all
    ultimately show ?thesis
      using s versions_t.wf_insert [of "secret_versions ?s" ?v] by (auto simp: vault_wf_def new_version_def)
  qed
  with Some assms show ?thesis by (simp add: added_version_def Let_def)
qed

lemma insert_secret_wf:
  assumes "vault_wf s" and "secret_insertable x s"
  shows "vault_wf (s\<lparr>secrets := insert_row (\<lambda>n. se_id_update (\<lambda>_. n)) x (secrets s)\<rparr>)"
proof -
  let ?S = "insert_row (\<lambda>n. se_id_update (\<lambda>_. n)) x (secrets s)"
  have "distinct (map se_name (rows ?S))" using assms by (auto simp: vault_wf_def secret_insertable_def)
  moreover have "\<exists>y \<in> set (rows ?S). P y" if "\<exists>y \<in> set (rows (secrets s)). P y" for P using that by auto
  moreover have "se_id ` set (rows (secrets s)) \<subseteq> se_id ` set (rows ?S)" by auto
  ultimately show ?thesis
    using assms(1) secrets_t.wf_insert [of "secrets s" x] by (simp add: vault_wf_def del: rows_insert_row) blast
qed

lemma delete_secret_wf:
  assumes "vault_wf s"
  shows "vault_wf (s\<lparr>secrets := delete_rows (\<lambda>x. se_id x = i) (secrets s),
    secret_versions := delete_rows (\<lambda>v. vr_secret_id v = i) (secret_versions s),
    secret_bindings := delete_rows (\<lambda>b. bd_secret_id b = i) (secret_bindings s)\<rparr>)"
  using assms secrets_t.wf_delete versions_t.wf_delete bindings_t.wf_delete
  unfolding vault_wf_def by (fastforce simp: distinct_map_delete_where)

lemma scrub_wf:
  assumes "vault_wf s"
  shows "vault_wf (s\<lparr>secret_versions := update_rows p (\<lambda>r. r\<lparr>vr_destroyed := True, vr_payload_enc := []\<rparr>) (secret_versions s)\<rparr>)"
  using assms versions_t.wf_update [of "secret_versions s" p "\<lambda>r. r\<lparr>vr_destroyed := True, vr_payload_enc := []\<rparr>"]
    map_update_where [of p "\<lambda>r. (vr_secret_id r, vr_version r)" "\<lambda>r. r\<lparr>vr_destroyed := True, vr_payload_enc := []\<rparr>"]
  by (fastforce simp: vault_wf_def set_update_where)

lemma insert_binding_wf:
  assumes "vault_wf s" and "\<exists>x \<in> set (rows (secrets s)). se_id x = bd_secret_id b"
  shows "vault_wf (s\<lparr>secret_bindings := insert_row (\<lambda>n. bd_id_update (\<lambda>_. n)) b (secret_bindings s)\<rparr>)"
proof -
  have "bd_secret_id b \<in> se_id ` set (rows (secrets s))" using assms(2) by force
  with assms(1) bindings_t.wf_insert [of "secret_bindings s" b] show ?thesis by (simp add: vault_wf_def)
qed

lemma delete_binding_wf:
  assumes "vault_wf s"
  shows "vault_wf (s\<lparr>secret_bindings := delete_rows p (secret_bindings s)\<rparr>)"
  using assms bindings_t.wf_delete [of "secret_bindings s" p] by (auto simp: vault_wf_def)

lemma methods_wf:
  assumes "vault_wf s"
  shows "\<forall>x \<in> set (rows (k8s_auth_methods s)). km_name x \<noteq> km_name m \<Longrightarrow>
      vault_wf (s\<lparr>k8s_auth_methods := insert_row (\<lambda>n. km_id_update (\<lambda>_. n)) m (k8s_auth_methods s)\<rparr>)"
    and "(\<And>x. km_id (f x) = km_id x \<and> km_name (f x) = km_name x) \<Longrightarrow> vault_wf (set_methods p f s)"
    and "vault_wf (s\<lparr>k8s_auth_methods := delete_rows p (k8s_auth_methods s)\<rparr>)"
  using assms methods_t.wf_insert [of "k8s_auth_methods s" m] methods_t.wf_update [of "k8s_auth_methods s" p f]
    methods_t.wf_delete [of "k8s_auth_methods s" p] map_update_where [of p km_name f "rows (k8s_auth_methods s)"]
  by (auto simp: vault_wf_def set_methods_def distinct_map_delete_where)

lemma snd_some_row [simp]: "snd (some_row r) = snd r"
  by (auto simp: some_row_def attempt_def split: prod.split sum.split)

lemma exec_count_preserves:
  assumes "P (s\<lparr>tick := Suc (tick s)\<rparr>)" and "P (f (s\<lparr>tick := Suc (tick s)\<rparr>))"
  shows "P (snd (exec_count E n f s))"
  using assms by (simp add: stmt_defs)

lemma exec_insert_keeps:
  assumes "P (s\<lparr>tick := Suc (tick s)\<rparr>)" and "ok (s\<lparr>tick := Suc (tick s)\<rparr>) \<Longrightarrow> P (f (s\<lparr>tick := Suc (tick s)\<rparr>))"
  shows "P (snd (exec_insert E ok n f s))"
  using assms by (simp add: stmt_defs)

lemma vault_exec_wf:
  assumes "vault_wf s"
  shows "vault_wf (vault_exec E st s)"
proof -
  have s: "vault_wf (s\<lparr>tick := Suc (tick s)\<rparr>)" using assms by simp
  show ?thesis
  proof (cases st)
    case (InsertSecret x)
    then show ?thesis using insert_secret_wf [OF s]
      by (auto intro!: exec_insert_keeps [where P = vault_wf] simp: insert_secret_def assms)
  next
    case (PutMeta i d l n)
    then show ?thesis using set_secrets_wf [OF s]
      by (auto intro!: exec_count_preserves [where P = vault_wf] simp del: set_secrets_simps simp: UpdateSecretMeta_def assms)
  next
    case (PutSecretDisabled i d)
    then show ?thesis using set_secrets_wf [OF s]
      by (auto intro!: exec_count_preserves [where P = vault_wf] simp del: set_secrets_simps simp: SetSecretDisabled_def assms)
  next
    case (DropSecret i)
    then show ?thesis using delete_secret_wf [OF s]
      by (auto intro!: exec_count_preserves [where P = vault_wf] simp: DeleteSecret_def assms)
  next
    case (AddVersion t i c a v)
    then show ?thesis using assms by (simp add: added_version_wf)
  next
    case (ScrubVersion i)
    then show ?thesis using scrub_wf [OF s]
      by (auto intro!: exec_count_preserves [where P = vault_wf] simp: DestroySecretVersion_def assms)
  next
    case (InsertBinding b)
    with assms insert_binding_wf [OF s, of b] show ?thesis
      by (simp add: insert_binding_def, intro exec_insert_keeps [where P = vault_wf]) simp_all
  next
    case (DropBinding i)
    then show ?thesis using delete_binding_wf [OF s]
      by (auto intro!: exec_count_preserves [where P = vault_wf] simp: DeleteSecretBinding_def assms)
  next
    case (InsertMethod m)
    then show ?thesis using methods_wf(1) [OF s]
      by (auto intro!: exec_insert_keeps [where P = vault_wf] simp: insert_method_def assms)
  next
    case (PutMethod m)
    then show ?thesis using methods_wf(2) [OF s]
      by (auto intro!: exec_count_preserves [where P = vault_wf] simp: put_method_def assms)
  next
    case (PutMethodDisabled i d)
    then show ?thesis using methods_wf(2) [OF s]
      by (auto intro!: exec_count_preserves [where P = vault_wf] simp: SetK8sAuthMethodDisabled_def assms)
  next
    case (DropMethod i)
    then show ?thesis using methods_wf(3) [OF s]
      by (auto intro!: exec_count_preserves [where P = vault_wf] simp: DeleteK8sAuthMethod_def assms)
  next
    case (PutVaultAudit a b c d e)
    then show ?thesis using assms by (simp add: vault_audit_def stmt_defs)
  next
    case (CaStep d)
    then show ?thesis using assms by simp
  qed
qed

lemma vault_reach_wf: "vault_reach E Q s t \<Longrightarrow> vault_wf s \<Longrightarrow> vault_wf t"
  by (erule vault_reach_invariant) (auto intro: vault_exec_wf)

end
