(* ===== verification/Pqcrypt.thy ===== *)
theory Pqcrypt
  imports Secret
begin

text \<open>
  The envelope of the secret manager (\<open>internal/pqcrypt/pqcrypt.go\<close>): a data key of its own for every payload, wrapped
  under a key that is derived from an ML-KEM-768 and an X25519 exchange, both with AES-256-GCM and the same additional
  data. The primitives of the standard library are parameters; \<open>pq_laws\<close> states what is documented of them. A key pair
  is represented by the seed of its private half.
\<close>

record pq_crypto =
  hkdf_key :: "string \<Rightarrow> string \<Rightarrow> string \<Rightarrow> nat \<Rightarrow> string option"
  mlkem_new :: "string \<Rightarrow> string option"
  mlkem_encap :: "string \<Rightarrow> string \<Rightarrow> string \<times> string"
  mlkem_decap :: "string \<Rightarrow> string \<Rightarrow> string option"
  x_new :: "string \<Rightarrow> string option"
  x_public :: "string \<Rightarrow> string"
  x_dh :: "string \<Rightarrow> string \<Rightarrow> string option"
  gcm_seal :: "string \<Rightarrow> string \<Rightarrow> string \<Rightarrow> string \<Rightarrow> string"
  gcm_open :: "string \<Rightarrow> string \<Rightarrow> string \<Rightarrow> string \<Rightarrow> string option"

text \<open>What one sealing draws; \<open>None\<close> is a failing source.\<close>

record pq_random =
  rnd_kem :: string
  rnd_ephemeral :: "string option"
  rnd_salt :: "string option"
  rnd_dek :: "string option"
  rnd_wrap_nonce :: "string option"
  rnd_payload_nonce :: "string option"

record pq_vault =
  vt_mlkem :: string
  vt_x25519 :: string

datatype pq_error =
  BadMasterKey | DeriveFailed | PqRandFailed | ExchangeFailed | BadKeySize
| NotEnvelope | BadEncoding | EnvelopeTooShort | SlicePanic | UnsupportedAlg | DecapFailed | UnwrapFailed | PayloadFailed

definition pq_prefix :: string where "pq_prefix = ''pqenc:v1:''"
definition alg_hybrid :: char where "alg_hybrid = char_of (1 :: nat)"
definition saltSize :: nat where "saltSize = 32"
definition kemCTSize :: nat where "kemCTSize = 1088"
definition x25519PubSize :: nat where "x25519PubSize = 32"
definition gcmNonceSize :: nat where "gcmNonceSize = 12"
definition dekSize :: nat where "dekSize = 32"
definition gcmTagSize :: nat where "gcmTagSize = 16"
definition wrappedDEKSize :: nat where "wrappedDEKSize = dekSize + gcmTagSize"
definition headerSize :: nat where
  "headerSize = 1 + saltSize + kemCTSize + x25519PubSize + gcmNonceSize + wrappedDEKSize"

definition hkdfSalt :: string where "hkdfSalt = ''goca/pq/vault/v1''"
definition infoMLKEMSeed :: string where "infoMLKEMSeed = ''mlkem768-seed''"
definition infoX25519Priv :: string where "infoX25519Priv = ''x25519-priv''"
definition infoDEKWrap :: string where "infoDEKWrap = ''dek-wrap''"

lemmas size_defs = saltSize_def kemCTSize_def x25519PubSize_def gcmNonceSize_def dekSize_def gcmTagSize_def
  wrappedDEKSize_def headerSize_def

text \<open>A step that may fail, in a chain of them.\<close>

definition or_fail :: "'e \<Rightarrow> 'a option \<Rightarrow> ('a \<Rightarrow> 'e + 'b) \<Rightarrow> 'e + 'b" where
  "or_fail e x k = (case x of None \<Rightarrow> Inl e | Some v \<Rightarrow> k v)"

lemma or_fail_simps [simp]: "or_fail e None k = Inl e" "or_fail e (Some v) k = k v"
  by (simp_all add: or_fail_def)

lemma or_fail_InrD: "or_fail e x k = Inr y \<Longrightarrow> \<exists>v. x = Some v \<and> k v = Inr y"
  by (cases x) simp_all

definition DeriveVault :: "pq_crypto \<Rightarrow> string \<Rightarrow> pq_error + pq_vault" where
  "DeriveVault P master =
     (if length master \<noteq> 32 then Inl BadMasterKey
      else or_fail DeriveFailed (hkdf_key P master hkdfSalt infoMLKEMSeed 64) (\<lambda>seed.
           or_fail DeriveFailed (mlkem_new P seed) (\<lambda>dk.
           or_fail DeriveFailed (hkdf_key P master hkdfSalt infoX25519Priv 32) (\<lambda>xseed.
           or_fail DeriveFailed (x_new P xseed) (\<lambda>x. Inr \<lparr>vt_mlkem = dk, vt_x25519 = x\<rparr>)))))"

definition wrapKey :: "pq_crypto \<Rightarrow> string \<Rightarrow> string \<Rightarrow> string \<Rightarrow> string option" where
  "wrapKey P ss xs salt = hkdf_key P (ss @ xs) salt infoDEKWrap 32"

text \<open>\<open>aes.NewCipher\<close> takes keys of 16, 24 and 32 bytes.\<close>

definition newGCM :: "string \<Rightarrow> string option" where
  "newGCM key = (if length key = 16 \<or> length key = 24 \<or> length key = 32 then Some key else None)"

definition pq_Seal :: "pq_crypto \<Rightarrow> pq_vault \<Rightarrow> pq_random \<Rightarrow> string \<Rightarrow> string \<Rightarrow> pq_error + string" where
  "pq_Seal P v R plaintext aad =
     (case mlkem_encap P (vt_mlkem v) (rnd_kem R) of (ss, ct) \<Rightarrow>
      or_fail PqRandFailed (rnd_ephemeral R) (\<lambda>eph.
      or_fail ExchangeFailed (x_dh P eph (x_public P (vt_x25519 v))) (\<lambda>xs.
      or_fail PqRandFailed (rnd_salt R) (\<lambda>salt.
      or_fail DeriveFailed (wrapKey P ss xs salt) (\<lambda>kek0.
      or_fail BadKeySize (newGCM kek0) (\<lambda>kek.
      or_fail PqRandFailed (rnd_dek R) (\<lambda>dek.
      or_fail PqRandFailed (rnd_wrap_nonce R) (\<lambda>wn.
      or_fail BadKeySize (newGCM dek) (\<lambda>dek.
      or_fail PqRandFailed (rnd_payload_nonce R) (\<lambda>pn.
        Inr (pq_prefix @ RawURLEncode
          (alg_hybrid # salt @ ct @ x_public P eph @ wn @ gcm_seal P kek wn dek aad @ pn @ gcm_seal P dek pn plaintext aad))))))))))))"

text \<open>\<open>raw[off : off+n]\<close>.\<close>

definition slice :: "string \<Rightarrow> nat \<Rightarrow> nat \<Rightarrow> string" where
  "slice raw off n = take n (drop off raw)"

text \<open>The size check leaves the nonce of the payload out: a shorter envelope that passes it is sliced out of range, which
  panics.\<close>

definition pq_Open :: "pq_crypto \<Rightarrow> pq_vault \<Rightarrow> string \<Rightarrow> string \<Rightarrow> pq_error + string" where
  "pq_Open P v envelope aad =
     (if \<not> has_prefix envelope pq_prefix then Inl NotEnvelope
      else or_fail BadEncoding (RawURLDecode (drop (length pq_prefix) envelope)) (\<lambda>raw.
      if length raw < headerSize then Inl EnvelopeTooShort
      else if raw ! 0 \<noteq> alg_hybrid then Inl UnsupportedAlg
      else
        let off1 = 1 + saltSize; off2 = off1 + kemCTSize; off3 = off2 + x25519PubSize; off4 = off3 + gcmNonceSize;
            off5 = off4 + wrappedDEKSize; off6 = off5 + gcmNonceSize in
        if length raw < off6 then Inl SlicePanic
        else
        or_fail DecapFailed (mlkem_decap P (vt_mlkem v) (slice raw off1 kemCTSize)) (\<lambda>ss.
        or_fail ExchangeFailed (x_dh P (vt_x25519 v) (slice raw off2 x25519PubSize)) (\<lambda>xs.
        or_fail DeriveFailed (wrapKey P ss xs (slice raw 1 saltSize)) (\<lambda>kek0.
        or_fail BadKeySize (newGCM kek0) (\<lambda>kek.
        or_fail UnwrapFailed (gcm_open P kek (slice raw off3 gcmNonceSize) (slice raw off4 wrappedDEKSize) aad) (\<lambda>dek0.
        or_fail BadKeySize (newGCM dek0) (\<lambda>dek.
        or_fail PayloadFailed (gcm_open P dek (slice raw off5 gcmNonceSize) (drop off6 raw) aad) Inr))))))))"

definition IsEnvelope :: "string \<Rightarrow> bool" where
  "IsEnvelope value \<longleftrightarrow> has_prefix value pq_prefix"


section \<open>Sealing and opening\<close>

definition pq_laws :: "pq_crypto \<Rightarrow> bool" where
  "pq_laws P \<longleftrightarrow>
     (\<forall>sec salt info n. n \<le> 255 * 32 \<longrightarrow> (\<exists>k. hkdf_key P sec salt info n = Some k \<and> length k = n)) \<and>
     (\<forall>seed. length seed = 64 \<longrightarrow> mlkem_new P seed \<noteq> None) \<and>
     (\<forall>seed. length seed = 32 \<longrightarrow> x_new P seed \<noteq> None) \<and>
     (\<forall>dk r ss ct. mlkem_encap P dk r = (ss, ct) \<longrightarrow> length ct = kemCTSize \<and> mlkem_decap P dk ct = Some ss) \<and>
     (\<forall>a b. x_dh P a (x_public P b) = x_dh P b (x_public P a)) \<and>
     (\<forall>a b. x_dh P a (x_public P b) \<noteq> None) \<and>
     (\<forall>a. length (x_public P a) = x25519PubSize) \<and>
     (\<forall>k n p a. length (gcm_seal P k n p a) = length p + gcmTagSize) \<and>
     (\<forall>k n p a. gcm_open P k n (gcm_seal P k n p a) a = Some p)"

text \<open>Authentication, for two given values of the additional data: what is sealed with one does not open with the other.
  (Tags are sixteen bytes, so this cannot hold of all values at once.)\<close>

definition separates :: "pq_crypto \<Rightarrow> string \<Rightarrow> string \<Rightarrow> bool" where
  "separates P a a' \<longleftrightarrow> (\<forall>k n p. gcm_open P k n (gcm_seal P k n p a) a' = None)"

definition good_draws :: "pq_random \<Rightarrow> bool" where
  "good_draws R \<longleftrightarrow>
     rnd_ephemeral R \<noteq> None \<and> (\<exists>s. rnd_salt R = Some s \<and> length s = saltSize) \<and>
     (\<exists>k. rnd_dek R = Some k \<and> length k = dekSize) \<and>
     (\<exists>n. rnd_wrap_nonce R = Some n \<and> length n = gcmNonceSize) \<and>
     (\<exists>n. rnd_payload_nonce R = Some n \<and> length n = gcmNonceSize)"

lemma slice_skip: "length xs \<le> off \<Longrightarrow> slice (xs @ ys) off n = slice ys (off - length xs) n"
  by (simp add: slice_def)

lemma slice_here: "length xs = n \<Longrightarrow> slice (xs @ ys) 0 n = xs"
  by (simp add: slice_def)

text \<open>What opening an envelope of the right shape comes to.\<close>

lemma open_fields:
  assumes len: "length salt = saltSize" "length ct = kemCTSize" "length xp = x25519PubSize" "length wn = gcmNonceSize"
      "length wd = wrappedDEKSize" "length pn = gcmNonceSize"
  shows "pq_Open P v (pq_prefix @ RawURLEncode (alg_hybrid # salt @ ct @ xp @ wn @ wd @ pn @ c)) aad =
     or_fail DecapFailed (mlkem_decap P (vt_mlkem v) ct) (\<lambda>ss.
     or_fail ExchangeFailed (x_dh P (vt_x25519 v) xp) (\<lambda>xs.
     or_fail DeriveFailed (wrapKey P ss xs salt) (\<lambda>kek0.
     or_fail BadKeySize (newGCM kek0) (\<lambda>kek.
     or_fail UnwrapFailed (gcm_open P kek wn wd aad) (\<lambda>dek0.
     or_fail BadKeySize (newGCM dek0) (\<lambda>dek.
     or_fail PayloadFailed (gcm_open P dek pn c aad) Inr))))))"
proof -
  let ?raw = "alg_hybrid # salt @ ct @ xp @ wn @ wd @ pn @ c"
  have "?raw = [alg_hybrid] @ salt @ ct @ xp @ wn @ wd @ pn @ c" by simp
  moreover have "length ?raw = headerSize + gcmNonceSize + length c"
    using len by (simp add: size_defs)
  ultimately show ?thesis
    using len by (simp add: pq_Open_def Let_def slice_skip slice_here size_defs slice_def)
qed

lemma Seal_shape:
  assumes laws: "pq_laws P" and R: "good_draws R"
  shows "\<exists>env. pq_Seal P v R plaintext aad = Inr env \<and> IsEnvelope env \<and> pq_Open P v env aad = Inr plaintext \<and>
     (\<forall>aad'. separates P aad aad' \<longrightarrow> pq_Open P v env aad' = Inl UnwrapFailed)"
proof -
  obtain ss ct where kem: "mlkem_encap P (vt_mlkem v) (rnd_kem R) = (ss, ct)" by (cases "mlkem_encap P (vt_mlkem v) (rnd_kem R)")
  obtain eph salt dek wn pn where R': "rnd_ephemeral R = Some eph" "rnd_salt R = Some salt" "length salt = saltSize"
    "rnd_dek R = Some dek" "length dek = dekSize" "rnd_wrap_nonce R = Some wn" "length wn = gcmNonceSize"
    "rnd_payload_nonce R = Some pn" "length pn = gcmNonceSize"
    using R by (auto simp: good_draws_def)
  obtain xs where xs: "x_dh P eph (x_public P (vt_x25519 v)) = Some xs" "x_dh P (vt_x25519 v) (x_public P eph) = Some xs"
    using laws unfolding pq_laws_def by (metis option.exhaust)
  have "(32 :: nat) \<le> 255 * 32" by simp
  then obtain kek where kek: "wrapKey P ss xs salt = Some kek" "length kek = 32"
    using laws unfolding pq_laws_def wrapKey_def by metis
  have len: "length ct = kemCTSize" "mlkem_decap P (vt_mlkem v) ct = Some ss" "length (x_public P eph) = x25519PubSize"
    "length (gcm_seal P kek wn dek aad) = wrappedDEKSize"
    using laws kem R'(5) by (auto simp: pq_laws_def wrappedDEKSize_def)
  let ?env = "pq_prefix @ RawURLEncode (alg_hybrid # salt @ ct @ x_public P eph @ wn @ gcm_seal P kek wn dek aad @ pn @
     gcm_seal P dek pn plaintext aad)"
  have gcm: "newGCM kek = Some kek" "newGCM dek = Some dek" using kek(2) R'(5) by (simp_all add: newGCM_def dekSize_def)
  have "pq_Seal P v R plaintext aad = Inr ?env"
    using kem R' xs kek gcm by (simp add: pq_Seal_def)
  moreover have "pq_Open P v ?env aad' =
      or_fail UnwrapFailed (gcm_open P kek wn (gcm_seal P kek wn dek aad) aad') (\<lambda>dek0.
      or_fail BadKeySize (newGCM dek0) (\<lambda>dek'.
      or_fail PayloadFailed (gcm_open P dek' pn (gcm_seal P dek pn plaintext aad) aad') Inr))" for aad'
    unfolding open_fields [OF R'(3) len(1,3) R'(7) len(4) R'(9)] using len(2) xs kek gcm by simp
  moreover have "gcm_open P k n (gcm_seal P k n p a) a = Some p" for k n p a using laws by (simp add: pq_laws_def)
  ultimately show ?thesis using gcm(2) by (auto simp: IsEnvelope_def separates_def)
qed

text \<open>The order of the guards of \<open>Open\<close>: the size check passes an envelope that ends inside the nonce of the payload.\<close>

lemma truncated_envelope_panics:
  assumes "headerSize \<le> length raw" and "length raw < headerSize + gcmNonceSize" and "raw ! 0 = alg_hybrid"
  shows "pq_Open P v (pq_prefix @ RawURLEncode raw) aad = Inl SlicePanic"
  using assms by (simp add: pq_Open_def Let_def headerSize_def)


lemma DeriveVault_succeeds:
  assumes "pq_laws P" and "length master = 32"
  shows "\<exists>v. DeriveVault P master = Inr v"
proof -
  have hkdf: "\<exists>k. hkdf_key P master hkdfSalt info n = Some k \<and> length k = n" if "n \<le> 255 * 32" for info n
    using assms(1) that by (simp add: pq_laws_def)
  obtain s1 where s1: "hkdf_key P master hkdfSalt infoMLKEMSeed 64 = Some s1" "length s1 = 64" using hkdf [of 64] by auto
  obtain s2 where s2: "hkdf_key P master hkdfSalt infoX25519Priv 32 = Some s2" "length s2 = 32" using hkdf [of 32] by auto
  obtain dk x where "mlkem_new P s1 = Some dk" "x_new P s2 = Some x"
    using assms(1) s1(2) s2(2) by (fastforce simp: pq_laws_def)
  with s1 s2 assms(2) show ?thesis by (simp add: DeriveVault_def)
qed

text \<open>C25 (pqcrypt.go, DeriveVault, Seal and Open): when the primitives obey their laws and the random source delivers, the key
  pair that a master key of 32 bytes gives seals every payload into an envelope that it opens again under the same
  additional data, and that it refuses under any other data that the cipher tells apart from it (\<open>separates\<close>: nothing
  sealed with the one value opens with the other).\<close>

theorem Open_Seal:
  assumes "pq_laws P" and "length master = 32" and "good_draws R"
  shows "\<exists>v env. DeriveVault P master = Inr v \<and> pq_Seal P v R plaintext aad = Inr env \<and> IsEnvelope env \<and>
     pq_Open P v env aad = Inr plaintext \<and>
     (\<forall>aad'. separates P aad aad' \<longrightarrow> pq_Open P v env aad' = Inl UnwrapFailed)"
  using DeriveVault_succeeds [OF assms(1,2)] Seal_shape [OF assms(1,3)] by metis

definition demo_tag :: "string \<Rightarrow> string" where
  "demo_tag a = rev (take 16 (rev a @ replicate 16 CHR ''-''))"

definition demo_pq :: pq_crypto where
  "demo_pq = \<lparr>hkdf_key = (\<lambda>sec salt info n. Some (replicate n CHR ''k'')), mlkem_new = Some,
     mlkem_encap = (\<lambda>_ _. ([], replicate kemCTSize CHR ''c'')), mlkem_decap = (\<lambda>_ _. Some []),
     x_new = Some, x_public = (\<lambda>_. replicate x25519PubSize CHR ''x''), x_dh = (\<lambda>_ _. Some []),
     gcm_seal = (\<lambda>k n p a. rev p @ demo_tag a),
     gcm_open = (\<lambda>k n c a. if drop (length c - 16) c = demo_tag a then Some (rev (take (length c - 16) c)) else None)\<rparr>"

definition demo_draws :: pq_random where
  "demo_draws = \<lparr>rnd_kem = [], rnd_ephemeral = Some [], rnd_salt = Some (replicate saltSize CHR ''s''),
     rnd_dek = Some (replicate dekSize CHR ''d''), rnd_wrap_nonce = Some (replicate gcmNonceSize CHR ''w''),
     rnd_payload_nonce = Some (replicate gcmNonceSize CHR ''p'')\<rparr>"

lemma length_demo_tag [simp]: "length (demo_tag a) = 16"
  by (simp add: demo_tag_def)

lemma demo_pq_laws: "pq_laws demo_pq"
  by (simp add: pq_laws_def demo_pq_def gcmTagSize_def)

lemma demo_draws_good: "good_draws demo_draws"
  by (simp add: good_draws_def demo_draws_def)

lemma demo_separates: "demo_tag a \<noteq> demo_tag a' \<Longrightarrow> separates demo_pq a a'"
  by (simp add: separates_def demo_pq_def)

definition demo_keys :: pq_vault where
  "demo_keys = \<lparr>vt_mlkem = replicate 64 CHR ''k'', vt_x25519 = replicate 32 CHR ''k''\<rparr>"

lemma demo_keys_derived: "DeriveVault demo_pq (replicate 32 CHR ''m'') = Inr demo_keys"
  by (simp add: DeriveVault_def demo_pq_def demo_keys_def)

theorem Open_Seal_witness:
  "\<exists>v env. DeriveVault demo_pq (replicate 32 CHR ''m'') = Inr v \<and> pq_Seal demo_pq v demo_draws ''hunter2'' ''s|1|1'' = Inr env \<and>
     pq_Open demo_pq v env ''s|1|1'' = Inr ''hunter2'' \<and> pq_Open demo_pq v env ''s|1|2'' = Inl UnwrapFailed"
proof -
  have "separates demo_pq ''s|1|1'' ''s|1|2''" by (rule demo_separates) (simp add: demo_tag_def)
  then show ?thesis
    using Open_Seal [OF demo_pq_laws _ demo_draws_good, of "replicate 32 CHR ''m''" "''hunter2''" "''s|1|1''"] by simp blast
qed

end
