(* ===== verification/Vault.thy ===== *)
theory Vault
  imports Vault_Store Pqcrypt Go_Path Ca_Lifecycle
begin

text \<open>
  The secret manager (\<open>internal/vault/service.go\<close>): named secrets with sealed versions, their materialization into
  files and the bindings that let Kubernetes workloads fetch them. Certificate secrets are resolved through the
  certificate service. The hexadecimal SHA-256 digest and the JSON of a label map are parameters; the metrics counters are
  left out.
\<close>

record vault =
  va_env :: env
  va_pq :: pq_crypto
  va_keys :: pq_vault
  va_random :: "nat \<Rightarrow> pq_random"
  va_digest :: "string \<Rightarrow> string"
  va_labels :: "(string \<times> string) list \<Rightarrow> string option"
  va_ca :: "service option"

datatype vault_error =
  VaultDb db_error | VaultCa ca_error | VaultPq pq_error | NameRequired | CertIdNotAllowed | CertIdRequired
| NoCaService | UnknownSecretType string | WrongType | SecretDisabled | VersionDestroyed | NoLinkedCertificate
| BadPattern

type_synonym 'a vault_op = "(vault_error, 'a, vault_db) outcome"

definition db_op :: "(db_error, 'a, vault_db) outcome \<Rightarrow> ('a \<Rightarrow> vault_db \<Rightarrow> 'b vault_op) \<Rightarrow> 'b vault_op" where
  "db_op r k = attempt r (\<lambda>e s. (Inl (VaultDb e), s)) k"

text \<open>A call of the certificate service.\<close>

definition ca_op :: "(db \<Rightarrow> 'a op) \<Rightarrow> vault_db \<Rightarrow> ('a \<Rightarrow> vault_db \<Rightarrow> 'b vault_op) \<Rightarrow> 'b vault_op" where
  "ca_op f s k =
     (case f (ca_part s) of
        (Inl e, d) \<Rightarrow> (Inl (VaultCa e), s\<lparr>ca_part := d\<rparr>)
      | (Inr x, d) \<Rightarrow> k x (s\<lparr>ca_part := d\<rparr>))"

lemma db_op_simps [simp]: "db_op (Inl e, s) k = (Inl (VaultDb e), s)" "db_op (Inr x, s) k = k x s"
  by (simp_all add: db_op_def)

definition aadPrefix :: string where "aadPrefix = ''goca/secret/v1''"

definition aad :: "nat \<Rightarrow> nat \<Rightarrow> string" where
  "aad i v = aadPrefix @ ''|'' @ string_of_nat i @ ''|'' @ string_of_nat v"

definition normalizeName :: "string \<Rightarrow> string" where
  "normalizeName name = trim_space name"

definition nzGlob :: "string \<Rightarrow> string" where
  "nzGlob v = (if trim_space v = [] then ''*'' else trim_space v)"

definition EncodeLabels :: "vault \<Rightarrow> (string \<times> string) list \<Rightarrow> string" where
  "EncodeLabels V labels =
     (if labels = [] then ''{}'' else case va_labels V labels of None \<Rightarrow> ''{}'' | Some j \<Rightarrow> j)"

definition audited :: "vault \<Rightarrow> string \<Rightarrow> string \<Rightarrow> string \<Rightarrow> string \<Rightarrow> vault_db \<Rightarrow> vault_db" where
  "audited V actor action target detail s =
     vault_audit (va_env V) (if actor = [] then ''system'' else actor) action target detail [] s"


section \<open>Metadata\<close>

record CreateInput =
  ci_name :: string
  ci_type :: string
  ci_description :: string
  ci_labels :: "(string \<times> string) list"
  ci_rotation_days :: int
  ci_cert_id :: "nat option"
  ci_actor :: string

definition create_row :: "vault \<Rightarrow> CreateInput \<Rightarrow> string \<Rightarrow> string \<Rightarrow> VSecret" where
  "create_row V inp name typ =
     \<lparr>se_id = 0, se_name = name, se_type = typ, se_description = ci_description inp,
      se_labels_json = EncodeLabels V (ci_labels inp), se_cert_id = ci_cert_id inp, se_current_version = 0,
      se_rotation_days = ci_rotation_days inp, se_disabled = False, se_created_by = ci_actor inp,
      se_created_at = 0, se_updated_at = 0\<rparr>"

definition vault_Create :: "vault \<Rightarrow> CreateInput \<Rightarrow> vault_db \<Rightarrow> VSecret vault_op" where
  "vault_Create V inp s =
     (let name = normalizeName (ci_name inp); typ = (if ci_type inp = [] then SecretTypeKV else ci_type inp);
          store = (\<lambda>s. db_op (CreateSecret (va_env V) (create_row V inp name typ) s)
            (\<lambda>x s. (Inr x, audited V (ci_actor inp) ''secret.create'' name (''type='' @ typ) s))) in
      if name = [] then (Inl NameRequired, s)
      else if typ = SecretTypeKV \<or> typ = SecretTypeFile
      then (if ci_cert_id inp \<noteq> None then (Inl CertIdNotAllowed, s) else store s)
      else if typ = SecretTypeCertificate
      then (case ci_cert_id inp of
              None \<Rightarrow> (Inl CertIdRequired, s)
            | Some c \<Rightarrow> (case va_ca V of
                None \<Rightarrow> (Inl NoCaService, s)
              | Some K \<Rightarrow> ca_op (\<lambda>d. stmt (GetCertificate (sv_env K) c d) (\<lambda>x d. (Inr x, d))) s (\<lambda>_ s. store s)))
      else (Inl (UnknownSecretType typ), s))"

definition vault_Get :: "vault \<Rightarrow> string \<Rightarrow> vault_db \<Rightarrow> VSecret vault_op" where
  "vault_Get V name s = db_op (GetSecretByName (va_env V) (normalizeName name) s) (\<lambda>x s. (Inr x, s))"

definition GetByID :: "vault \<Rightarrow> nat \<Rightarrow> vault_db \<Rightarrow> VSecret vault_op" where
  "GetByID V i s = db_op (GetSecret (va_env V) i s) (\<lambda>x s. (Inr x, s))"

definition vault_List :: "vault \<Rightarrow> string \<Rightarrow> vault_db \<Rightarrow> VSecret list vault_op" where
  "vault_List V typ s = db_op (ListSecrets (va_env V) typ s) (\<lambda>xs s. (Inr xs, s))"

definition UpdateMeta ::
  "vault \<Rightarrow> string \<Rightarrow> string \<Rightarrow> (string \<times> string) list \<Rightarrow> int \<Rightarrow> string \<Rightarrow> vault_db \<Rightarrow> VSecret vault_op" where
  "UpdateMeta V name description labels days actor s =
     db_op (GetSecretByName (va_env V) (normalizeName name) s) (\<lambda>x s.
     db_op (UpdateSecretMeta (va_env V) (se_id x) description (EncodeLabels V labels) days s) (\<lambda>_ s.
     db_op (GetSecret (va_env V) (se_id x) (audited V actor ''secret.update'' (se_name x) [] s)) (\<lambda>x s. (Inr x, s))))"

definition vault_SetDisabled :: "vault \<Rightarrow> string \<Rightarrow> bool \<Rightarrow> string \<Rightarrow> vault_db \<Rightarrow> unit vault_op" where
  "vault_SetDisabled V name d actor s =
     db_op (GetSecretByName (va_env V) (normalizeName name) s) (\<lambda>x s.
     db_op (SetSecretDisabled (va_env V) (se_id x) d s) (\<lambda>_ s.
       (Inr (), audited V actor (if d then ''secret.disable'' else ''secret.enable'') (se_name x) [] s)))"

definition vault_Delete :: "vault \<Rightarrow> string \<Rightarrow> string \<Rightarrow> vault_db \<Rightarrow> unit vault_op" where
  "vault_Delete V name actor s =
     db_op (GetSecretByName (va_env V) (normalizeName name) s) (\<lambda>x s.
     db_op (DeleteSecret (va_env V) (se_id x) s) (\<lambda>_ s.
       (Inr (), audited V actor ''secret.delete'' (se_name x)
          (''type='' @ se_type x @ '' versions='' @ string_of_nat (se_current_version x)) s)))"


section \<open>Payloads\<close>

text \<open>The function that seals a value for the version that the store reserved; its first argument is the count of the
  statement, on which the random draws depend.\<close>

definition sealer :: "vault \<Rightarrow> string \<Rightarrow> nat \<Rightarrow> nat \<Rightarrow> nat \<Rightarrow> pq_error + SealedVersion" where
  "sealer V value n i v =
     (case pq_Seal (va_pq V) (va_keys V) (va_random V n) value (aad i v) of
        Inl e \<Rightarrow> Inl e
      | Inr envelope \<Rightarrow> Inr \<lparr>sl_payload_enc = envelope, sl_payload_sha256 = va_digest V value, sl_size_bytes = length value\<rparr>)"

definition version_op :: "(pq_error version_error, 'a, vault_db) outcome \<Rightarrow> ('a \<Rightarrow> vault_db \<Rightarrow> 'b vault_op) \<Rightarrow> 'b vault_op" where
  "version_op r k = attempt r (\<lambda>e s. (Inl (case e of VersionDb e \<Rightarrow> VaultDb e | VersionSeal e \<Rightarrow> VaultPq e), s)) k"

definition vault_Put :: "vault \<Rightarrow> string \<Rightarrow> string \<Rightarrow> string \<Rightarrow> string \<Rightarrow> vault_db \<Rightarrow> SecretVersion vault_op" where
  "vault_Put V name value ctype actor s =
     db_op (GetSecretByName (va_env V) (normalizeName name) s) (\<lambda>x s.
     if se_type x = SecretTypeCertificate then (Inl WrongType, s)
     else if se_disabled x then (Inl SecretDisabled, s)
     else version_op (CreateSecretVersion (va_env V) (se_id x) ctype actor (sealer V value) s) (\<lambda>v s.
       (Inr v, audited V actor ''secret.put'' (se_name x)
          (''version='' @ string_of_nat (vr_version v) @ '' size='' @ string_of_nat (length value)) s)))"

definition resolveOpenable :: "vault \<Rightarrow> string \<Rightarrow> vault_db \<Rightarrow> VSecret vault_op" where
  "resolveOpenable V name s =
     db_op (GetSecretByName (va_env V) (normalizeName name) s) (\<lambda>x s.
     if se_type x = SecretTypeCertificate then (Inl WrongType, s)
     else if se_disabled x then (Inl SecretDisabled, s)
     else (Inr x, s))"

definition open_version :: "vault \<Rightarrow> VSecret \<Rightarrow> SecretVersion \<Rightarrow> vault_error + string" where
  "open_version V x r =
     (if vr_destroyed r then Inl VersionDestroyed
      else case pq_Open (va_pq V) (va_keys V) (vr_payload_enc r) (aad (se_id x) (vr_version r)) of
             Inl e \<Rightarrow> Inl (VaultPq e) | Inr pt \<Rightarrow> Inr pt)"

definition opened :: "vault \<Rightarrow> VSecret \<Rightarrow> SecretVersion \<Rightarrow> vault_db \<Rightarrow> (string \<Rightarrow> 'a) \<Rightarrow> 'a vault_op" where
  "opened V x r s f = (case open_version V x r of Inl e \<Rightarrow> (Inl e, s) | Inr pt \<Rightarrow> (Inr (f pt), s))"

definition GetLatest :: "vault \<Rightarrow> string \<Rightarrow> vault_db \<Rightarrow> (VSecret \<times> string) vault_op" where
  "GetLatest V name s =
     attempt (resolveOpenable V name s) (\<lambda>e s. (Inl e, s)) (\<lambda>x s.
     db_op (GetLatestSecretVersion (va_env V) (se_id x) s) (\<lambda>r s. opened V x r s (\<lambda>pt. (x, pt))))"

definition GetVersion :: "vault \<Rightarrow> string \<Rightarrow> int \<Rightarrow> vault_db \<Rightarrow> (VSecret \<times> string) vault_op" where
  "GetVersion V name v s =
     attempt (resolveOpenable V name s) (\<lambda>e s. (Inl e, s)) (\<lambda>x s.
     db_op (GetSecretVersion (va_env V) (se_id x) v s) (\<lambda>r s. opened V x r s (\<lambda>pt. (x, pt))))"

definition Versions :: "vault \<Rightarrow> string \<Rightarrow> vault_db \<Rightarrow> (VSecret \<times> SecretVersion list) vault_op" where
  "Versions V name s =
     db_op (GetSecretByName (va_env V) (normalizeName name) s) (\<lambda>x s.
     db_op (ListSecretVersions (va_env V) (se_id x) s) (\<lambda>rs s. (Inr (x, rs), s)))"

definition DestroyVersion :: "vault \<Rightarrow> string \<Rightarrow> int \<Rightarrow> string \<Rightarrow> vault_db \<Rightarrow> unit vault_op" where
  "DestroyVersion V name v actor s =
     db_op (GetSecretByName (va_env V) (normalizeName name) s) (\<lambda>x s.
     db_op (GetSecretVersion (va_env V) (se_id x) v s) (\<lambda>r s.
     db_op (DestroySecretVersion (va_env V) (vr_id r) s) (\<lambda>_ s.
       (Inr (), audited V actor ''secret.version_destroy'' (se_name x) (''version='' @ string_of_nat (vr_version r)) s))))"


section \<open>Materialization\<close>

record vault_file =
  vf_name :: string
  vf_data :: string

definition materializeCertificate :: "vault \<Rightarrow> VSecret \<Rightarrow> vault_db \<Rightarrow> (vault_file list \<times> string) vault_op" where
  "materializeCertificate V x s =
     (case va_ca V of
        None \<Rightarrow> (Inl NoCaService, s)
      | Some K \<Rightarrow>
          case se_cert_id x of
            None \<Rightarrow> (Inl NoLinkedCertificate, s)
          | Some c \<Rightarrow>
              ca_op (\<lambda>d. stmt (GetCertificate (sv_env K) c d) (\<lambda>r d. (Inr r, d))) s (\<lambda>cert s.
              ca_op (CertChainPEM K cert) s (\<lambda>full s.
              ca_op (CertKeyPEM K cert) s (\<lambda>key s.
              ca_op (\<lambda>d. stmt (GetCA (sv_env K) (c_ca_id cert) d) (\<lambda>r d. (Inr r, d))) s (\<lambda>ca s.
              ca_op (CAChainPEM K ca) s (\<lambda>chain s.
                (Inr ([\<lparr>vf_name = ''tls.crt'', vf_data = full\<rparr>, \<lparr>vf_name = ''tls.key'', vf_data = key\<rparr>,
                       \<lparr>vf_name = ''ca.crt'', vf_data = chain\<rparr>], ''cert:'' @ c_serial_hex cert), s)))))))"

definition Materialize :: "vault \<Rightarrow> string \<Rightarrow> vault_db \<Rightarrow> (VSecret \<times> vault_file list \<times> string) vault_op" where
  "Materialize V name s =
     db_op (GetSecretByName (va_env V) (normalizeName name) s) (\<lambda>x s.
     if se_disabled x then (Inl SecretDisabled, s)
     else if se_type x = SecretTypeCertificate
     then attempt (materializeCertificate V x s) (\<lambda>e s. (Inl e, s)) (\<lambda>(files, marker) s. (Inr (x, files, marker), s))
     else db_op (GetLatestSecretVersion (va_env V) (se_id x) s) (\<lambda>r s.
       opened V x r s (\<lambda>pt.
         let fname = trim_space (vr_content_type r) in
         (x, [\<lparr>vf_name = (if fname = [] then ''value'' else fname), vf_data = pt\<rparr>], vr_payload_sha256 r))))"


section \<open>Bindings\<close>

definition well_formed_glob :: "string \<Rightarrow> bool" where
  "well_formed_glob p \<longleftrightarrow> path_Match p ''probe'' \<noteq> None"

definition Bind ::
  "vault \<Rightarrow> string \<Rightarrow> string \<Rightarrow> string \<Rightarrow> string \<Rightarrow> int option \<Rightarrow> string \<Rightarrow> vault_db \<Rightarrow> SecretBinding vault_op" where
  "Bind V name namespace sa0 method0 expires actor s =
     db_op (GetSecretByName (va_env V) (normalizeName name) s) (\<lambda>x s.
     let ns = nzGlob namespace; sa = nzGlob sa0; method = nzGlob method0 in
     if \<not> well_formed_glob ns \<or> \<not> well_formed_glob sa \<or> \<not> well_formed_glob method then (Inl BadPattern, s)
     else db_op (CreateSecretBinding (va_env V)
            \<lparr>bd_id = 0, bd_secret_id = se_id x, bd_secret_name = [], bd_k8s_namespace = ns, bd_k8s_service_account = sa,
             bd_k8s_auth_method = method, bd_expires_at = expires, bd_created_by = actor, bd_created_at = 0\<rparr> s)
       (\<lambda>b s. (Inr b, audited V actor ''secret.bind'' (se_name x)
          (''namespace='' @ ns @ '' sa='' @ sa @ '' auth_method='' @ method) s)))"

definition Unbind :: "vault \<Rightarrow> nat \<Rightarrow> string \<Rightarrow> vault_db \<Rightarrow> unit vault_op" where
  "Unbind V i actor s =
     db_op (DeleteSecretBinding (va_env V) i s) (\<lambda>_ s. (Inr (), audited V actor ''secret.unbind'' (string_of_nat i) [] s))"

definition Bindings :: "vault \<Rightarrow> string \<Rightarrow> vault_db \<Rightarrow> SecretBinding list vault_op" where
  "Bindings V name s =
     db_op (GetSecretByName (va_env V) (normalizeName name) s) (\<lambda>x s.
     db_op (ListSecretBindings (va_env V) (se_id x) s) (\<lambda>bs s. (Inr bs, s)))"

definition binding_usable :: "int \<Rightarrow> SecretBinding \<Rightarrow> bool" where
  "binding_usable t b \<longleftrightarrow> (case bd_expires_at b of None \<Rightarrow> True | Some x \<Rightarrow> t < x)"

definition glob_ok :: "string \<Rightarrow> string \<Rightarrow> bool" where
  "glob_ok p name \<longleftrightarrow> path_Match p name = Some True"

definition MatchesBinding :: "int \<Rightarrow> SecretBinding \<Rightarrow> string \<Rightarrow> string \<Rightarrow> string \<Rightarrow> bool" where
  "MatchesBinding t b namespace sa method \<longleftrightarrow>
     (if \<not> binding_usable t b then False
      else glob_ok (bd_k8s_namespace b) namespace \<and> glob_ok (bd_k8s_service_account b) sa \<and>
           (bd_k8s_auth_method b = ''*'' \<or> glob_ok (bd_k8s_auth_method b) method))"



section \<open>The operations as sequences of statements\<close>

lemma acc_db_op:
  assumes "vault_reach E Q s0 (snd r)" and "\<And>x s. vault_reach E Q s0 s \<Longrightarrow> vault_reach E Q s0 (snd (k x s))"
  shows "vault_reach E Q s0 (snd (db_op r k))"
  using assms by (cases r; cases "fst r") auto

lemma acc_ca_op:
  assumes "vault_reach E Q s0 s" and "\<And>d. Q (CaStep d)" and "\<And>x s. vault_reach E Q s0 s \<Longrightarrow> vault_reach E Q s0 (snd (k x s))"
  shows "vault_reach E Q s0 (snd (ca_op f s k))"
  using reach_vault_change(14) [OF assms(1,2)] assms(3) by (cases "f (ca_part s)"; cases "fst (f (ca_part s))") (auto simp: ca_op_def)

lemma acc_audited:
  assumes "vault_reach (va_env V) Q s0 s" and "\<And>a b c d e. Q (PutVaultAudit a b c d e)"
  shows "vault_reach (va_env V) Q s0 (audited V actor action target detail s)"
  unfolding audited_def by (rule reach_vault_change(13) [OF assms(1)]) (rule assms(2))

lemma acc_opened: "vault_reach E Q s0 s \<Longrightarrow> vault_reach E Q s0 (snd (opened V x r s f))"
  by (simp add: opened_def split: sum.split)

lemma acc_some_row: "vault_reach E Q s0 (snd r) \<Longrightarrow> vault_reach E Q s0 (snd (some_row r))"
  by simp

lemma acc_version_op:
  assumes "vault_reach E Q s0 (snd r)" and "\<And>x s. vault_reach E Q s0 s \<Longrightarrow> vault_reach E Q s0 (snd (k x s))"
  shows "vault_reach E Q s0 (snd (version_op r k))"
  unfolding version_op_def using assms by (auto intro!: vaults.acc_attempt)

datatype vault_call =
    CallCreate CreateInput | CallUpdateMeta string string "(string \<times> string) list" int string
  | CallSetDisabled string bool string | CallDelete string string
  | CallPut string string string string | CallGetLatest string | CallGetVersion string int
  | CallDestroyVersion string int string | CallMaterialize string
  | CallBind string string string string "int option" string | CallUnbind nat string

fun run_call :: "vault \<Rightarrow> vault_call \<Rightarrow> vault_db \<Rightarrow> vault_db" where
  "run_call V (CallCreate inp) s = snd (vault_Create V inp s)"
| "run_call V (CallUpdateMeta n d l r a) s = snd (UpdateMeta V n d l r a s)"
| "run_call V (CallSetDisabled n d a) s = snd (vault_SetDisabled V n d a s)"
| "run_call V (CallDelete n a) s = snd (vault_Delete V n a s)"
| "run_call V (CallPut n v c a) s = snd (vault_Put V n v c a s)"
| "run_call V (CallGetLatest n) s = snd (GetLatest V n s)"
| "run_call V (CallGetVersion n v) s = snd (GetVersion V n v s)"
| "run_call V (CallDestroyVersion n v a) s = snd (DestroyVersion V n v a s)"
| "run_call V (CallMaterialize n) s = snd (Materialize V n s)"
| "run_call V (CallBind n ns sa m e a) s = snd (Bind V n ns sa m e a s)"
| "run_call V (CallUnbind i a) s = snd (Unbind V i a s)"

lemma reach_Materialize:
  assumes "vault_reach (va_env V) Q s0 s" and "\<And>d. Q (CaStep d)"
  shows "vault_reach (va_env V) Q s0 (snd (Materialize V n s))"
  unfolding Materialize_def materializeCertificate_def
  using assms by (auto intro!: acc_db_op acc_ca_op acc_opened vaults.acc_attempt reach_vault_reads split: option.split prod.split)

lemma reach_vault_call:
  assumes s: "vault_reach (va_env V) (\<lambda>_. True) s0 s"
  shows "vault_reach (va_env V) (\<lambda>_. True) s0 (run_call V c s)"
proof -
  note intros = acc_db_op acc_ca_op acc_audited acc_opened acc_version_op vaults.acc_attempt vaults.acc_query reach_vault_reads
    reach_CreateSecretVersion
  show ?thesis
  proof (cases c)
    case (CallCreate inp)
    have ins: "vault_reach (va_env V) (\<lambda>_. True) s0 (snd (CreateSecret (va_env V) x s))"
      if "vault_reach (va_env V) (\<lambda>_. True) s0 s" for x s
      using that unfolding CreateSecret_def by (auto intro!: intros reach_vault_change)
    show ?thesis
      unfolding CallCreate run_call.simps vault_Create_def Let_def using s by (auto intro!: intros ins split: option.split)
  next
    case (CallUpdateMeta n d l r a)
    then show ?thesis using s by (auto intro!: intros reach_vault_change simp: UpdateMeta_def)
  next
    case (CallSetDisabled n d a)
    then show ?thesis using s by (auto intro!: intros reach_vault_change simp: vault_SetDisabled_def)
  next
    case (CallDelete n a)
    then show ?thesis using s by (auto intro!: intros reach_vault_change simp: vault_Delete_def)
  next
    case (CallPut n v c a)
    then show ?thesis using s by (auto intro!: intros simp: vault_Put_def)
  next
    case (CallGetLatest n)
    then show ?thesis using s by (auto intro!: intros simp: GetLatest_def resolveOpenable_def)
  next
    case (CallGetVersion n v)
    then show ?thesis using s by (auto intro!: intros simp: GetVersion_def resolveOpenable_def)
  next
    case (CallDestroyVersion n v a)
    then show ?thesis using s by (auto intro!: intros reach_vault_change simp: DestroyVersion_def)
  next
    case (CallMaterialize n)
    then show ?thesis using s by (auto intro!: reach_Materialize)
  next
    case (CallBind n ns sa m e a)
    have ins: "vault_reach (va_env V) (\<lambda>_. True) s0 (snd (CreateSecretBinding (va_env V) x s))"
      if "vault_reach (va_env V) (\<lambda>_. True) s0 s" for x s
      using that unfolding CreateSecretBinding_def by (auto intro!: intros reach_vault_change)
    show ?thesis
      unfolding CallBind run_call.simps Bind_def Let_def using s by (auto intro!: intros ins)
  next
    case (CallUnbind i a)
    then show ?thesis using s by (auto intro!: intros reach_vault_change simp: Unbind_def)
  qed
qed

lemma reach_vault_calls: "vault_reach (va_env V) (\<lambda>_. True) s (fold (run_call V) cs s)"
proof -
  have "vault_reach (va_env V) (\<lambda>_. True) s0 (fold (run_call V) cs s)" if "vault_reach (va_env V) (\<lambda>_. True) s0 s" for s0 s
    using that by (induction cs arbitrary: s) (simp_all add: reach_vault_call)
  then show ?thesis by (simp add: vault_start)
qed



section \<open>Writing and reading\<close>

definition vault_works :: "vault \<Rightarrow> bool" where
  "vault_works V \<longleftrightarrow> (\<forall>n. \<not> fault (va_env V) n) \<and> pq_laws (va_pq V) \<and> (\<forall>n. good_draws (va_random V n))"

lemma audited_eq: "vault_works V \<Longrightarrow> audited V actor action target detail s =
   s\<lparr>tick := Suc (tick s), vault_log := vault_log s @ [\<lparr>au_actor = (if actor = [] then ''system'' else actor),
     au_action = action, au_target = target, au_detail = detail, au_ip = []\<rparr>]\<rparr>"
  by (simp add: audited_def vault_audit_def stmt_defs vault_works_def)

lemma sealer_opens:
  assumes "vault_works V"
  shows "\<exists>sl. sealer V value n i v = Inr sl \<and> pq_Open (va_pq V) (va_keys V) (sl_payload_enc sl) (aad i v) = Inr value"
  using Seal_shape [of "va_pq V" "va_random V n" "va_keys V" "value" "aad i v"] assms
  by (auto simp: vault_works_def sealer_def)

text \<open>A version that is above all others of its secret and not destroyed is the latest.\<close>

lemma last_sort_key:
  assumes "r \<in> set xs" and top: "\<And>y. y \<in> set xs \<Longrightarrow> y \<noteq> r \<Longrightarrow> f y < f r"
  shows "last (sort_key f xs) = r"
proof -
  let ?ys = "sort_key f xs"
  obtain k where k: "k < length ?ys" "?ys ! k = r" using assms(1) by (metis in_set_conv_nth set_sort)
  then have ne: "?ys \<noteq> []" by (metis length_0_conv less_nat_zero_code)
  have "map f ?ys ! k \<le> map f ?ys ! (length ?ys - 1)" using k(1) by (intro sorted_nth_mono) auto
  then have "f r \<le> f (last ?ys)" using k ne by (simp add: last_conv_nth)
  moreover have "last ?ys \<in> set xs" using last_in_set [OF ne] by simp
  ultimately show ?thesis using top [of "last ?ys"] by (meson leD)
qed

lemma latest_version:
  assumes "r \<in> set (rows (secret_versions s))" and "vr_secret_id r = i" and "\<not> vr_destroyed r"
    and "\<And>y. y \<in> set (rows (secret_versions s)) \<Longrightarrow> vr_secret_id y = i \<Longrightarrow> y \<noteq> r \<Longrightarrow> vr_version y < vr_version r"
  shows "select_one (\<lambda>_. True)
     (rev (sort_key vr_version (filter (\<lambda>r. vr_secret_id r = i \<and> \<not> vr_destroyed r) (rows (secret_versions s))))) = Inr r"
proof -
  let ?xs = "filter (\<lambda>r. vr_secret_id r = i \<and> \<not> vr_destroyed r) (rows (secret_versions s))"
  have "r \<in> set ?xs" using assms(1-3) by simp
  moreover from this have "last (sort_key vr_version ?xs) = r" by (rule last_sort_key) (use assms(4) in auto)
  moreover from calculation(1) have "rev (sort_key vr_version ?xs) \<noteq> []" by (metis empty_iff list.set(1) rev_is_Nil_conv set_sort)
  ultimately show ?thesis by (cases "rev (sort_key vr_version ?xs)") (auto simp: select_one_def hd_rev dest: arg_cong [of _ _ hd])
qed

text \<open>Writing to a live secret of a well-formed store: the version is the next one, and it is in the table.\<close>

lemma Put_result:
  assumes W: "vault_works V" and wf: "vault_wf s"
    and x: "x \<in> set (rows (secrets s))" "se_name x = normalizeName name"
      "se_type x \<noteq> SecretTypeCertificate" "\<not> se_disabled x"
  shows "\<exists>r s'. vault_Put V name value ctype actor s = (Inr r, s') \<and> vault_wf s' \<and> vr_secret_id r = se_id x \<and>
     vr_version r = Suc (se_current_version x) \<and> \<not> vr_destroyed r \<and> r \<in> set (rows (secret_versions s')) \<and>
     vr_content_type r = ctype \<and> vr_payload_sha256 r = va_digest V value \<and>
     pq_Open (va_pq V) (va_keys V) (vr_payload_enc r) (aad (se_id x) (vr_version r)) = Inr value \<and>
     (\<forall>y \<in> set (rows (secret_versions s')). y = r \<or> y \<in> set (rows (secret_versions s))) \<and>
     (\<exists>x' \<in> set (rows (secrets s')). se_id x' = se_id x \<and> se_name x' = se_name x \<and> se_type x' = se_type x \<and>
        se_disabled x' = se_disabled x)"
proof -
  let ?E = "va_env V" let ?s = "s\<lparr>tick := Suc (tick s)\<rparr>" let ?i = "se_id x" let ?v = "Suc (se_current_version x)"
  have ok: "\<not> fault ?E n" for n using W by (simp add: vault_works_def)
  have named: "find (\<lambda>y. se_name y = normalizeName name) (rows (secrets s)) = Some x"
    using find_key_unique [of se_name "rows (secrets s)" x] wf x(1,2) by (simp add: vault_wf_def)
  have found: "find (\<lambda>y. se_id y = ?i) (rows (secrets ?s)) = Some x"
    using secrets_t.find_eq_iff [of "secrets s" ?i x] wf x(1) by (simp add: vault_wf_def)
  obtain sl where sl: "sealer V value (Suc (Suc (tick ?s))) ?i ?v = Inr sl"
    "pq_Open (va_pq V) (va_keys V) (sl_payload_enc sl) (aad ?i ?v) = Inr value"
    using sealer_opens [OF W] by blast
  have sha: "sl_payload_sha256 sl = va_digest V value" using sl(1) by (auto simp: sealer_def split: sum.splits)
  let ?new = "new_version ?i ?v ctype actor (now ?E ?s) sl" let ?t = "added_version (now ?E ?s) ?i ctype actor sl ?s"
  have below: "vr_version y \<le> se_current_version x"
    if y: "y \<in> set (rows (secret_versions s))" "vr_secret_id y = ?i" for y
  proof -
    obtain z where "z \<in> set (rows (secrets s))" "se_id z = ?i" "vr_version y \<le> se_current_version z"
      using wf y by (auto simp: vault_wf_def)
    moreover from this have "z = x" using wf x(1) by (auto simp: vault_wf_def wf_table_def distinct_map inj_on_def)
    ultimately show ?thesis by simp
  qed
  then have ins: "version_insertable ?new ?s"
    using x(1) by (fastforce simp: version_insertable_def new_version_def)
  let ?r = "?new\<lparr>vr_id := next_id (secret_versions s)\<rparr>"
  have wf_t: "vault_wf ?t" using added_version_wf [of ?s] wf by simp
  have t: "rows (secret_versions ?t) = rows (secret_versions s) @ [?r]"
    "rows (secrets ?t) = update_where (\<lambda>x. se_id x = ?i) (\<lambda>x. x\<lparr>se_current_version := Suc (se_current_version x), se_updated_at := now ?E ?s\<rparr>) (rows (secrets s))"
    using found ins by (simp_all add: added_version_def Let_def new_version_def)
  have "find (\<lambda>r. vr_secret_id r = ?i \<and> int (vr_version r) = int ?v) (rows (secret_versions s)) = None"
    using ins by (fastforce simp: version_insertable_def new_version_def find_None_iff)
  then have "find (\<lambda>r. vr_secret_id r = ?i \<and> int (vr_version r) = int ?v) (rows (secret_versions ?t)) = Some ?r"
    unfolding t(1) find_append_row by (simp add: new_version_def)
  then obtain n where cv: "CreateSecretVersion ?E ?i ctype actor (sealer V value) ?s = (Inr ?r, ?t\<lparr>tick := n\<rparr>)"
    using found sl(1) ins ok unfolding CreateSecretVersion_eq Let_def by simp
  have "vault_Put V name value ctype actor s = (Inr ?r, audited V actor ''secret.put'' (se_name x)
      (''version='' @ string_of_nat (vr_version ?r) @ '' size='' @ string_of_nat (length value)) (?t\<lparr>tick := n\<rparr>))"
    using named x(3,4) ok cv by (simp add: vault_Put_def GetSecretByName_def stmt_defs select_one_def version_op_def)
  moreover have "\<exists>x' \<in> set (rows (secrets ?t)). se_id x' = ?i \<and> se_name x' = se_name x \<and> se_type x' = se_type x \<and> se_disabled x' = se_disabled x"
    using x(1) unfolding t(2) by (auto simp: bex_update_where intro!: bexI [of _ x])
  ultimately show ?thesis
    using wf_t sl(2) sha t(1) by (auto simp: audited_eq [OF W] new_version_def)
qed


lemma resolve_found:
  assumes "vault_works V" and "vault_wf s" and "x \<in> set (rows (secrets s))" and "se_name x = normalizeName name"
    and "se_type x \<noteq> SecretTypeCertificate" and "\<not> se_disabled x"
  shows "resolveOpenable V name s = (Inr x, s\<lparr>tick := Suc (tick s)\<rparr>)"
    and "GetSecretByName (va_env V) (normalizeName name) s = (Inr x, s\<lparr>tick := Suc (tick s)\<rparr>)"
proof -
  have "find (\<lambda>y. se_name y = normalizeName name) (rows (secrets s)) = Some x"
    using find_key_unique [of se_name "rows (secrets s)" x] assms(2-4) by (simp add: vault_wf_def)
  then show get: "GetSecretByName (va_env V) (normalizeName name) s = (Inr x, s\<lparr>tick := Suc (tick s)\<rparr>)"
    using assms(1) by (simp add: GetSecretByName_def stmt_defs select_one_def vault_works_def)
  show "resolveOpenable V name s = (Inr x, s\<lparr>tick := Suc (tick s)\<rparr>)"
    using get assms(5,6) by (simp add: resolveOpenable_def)
qed

text \<open>C21 (service.go, Put, GetLatest, GetVersion and Materialize; secrets.go, CreateSecretVersion): when no statement of the
  database fails, the primitives obey their laws and the random source delivers, a value written to a live secret is stored under the next version number, and is what reading the latest version, that version and the files of
  the secret returns, with the digest of the value as the version marker.\<close>

theorem put_reads_back:
  assumes W: "vault_works V" and wf: "vault_wf s" and x: "x \<in> set (rows (secrets s))"
    and name: "se_name x = normalizeName name" and live: "se_type x \<noteq> SecretTypeCertificate" "\<not> se_disabled x"
  shows "\<exists>r s' x'. vault_Put V name payload ctype actor s = (Inr r, s') \<and> vr_version r = se_current_version x + 1 \<and>
     se_id x' = se_id x \<and>
     fst (GetLatest V name s') = Inr (x', payload) \<and> fst (GetVersion V name (int (vr_version r)) s') = Inr (x', payload) \<and>
     fst (Materialize V name s') = Inr (x', [\<lparr>vf_name = (if trim_space ctype = [] then ''value'' else trim_space ctype),
       vf_data = payload\<rparr>], va_digest V payload)"
proof -
  obtain r s' x' where put: "vault_Put V name payload ctype actor s = (Inr r, s')" and wf': "vault_wf s'"
    and r: "vr_secret_id r = se_id x" "vr_version r = Suc (se_current_version x)" "\<not> vr_destroyed r"
      "r \<in> set (rows (secret_versions s'))" "vr_content_type r = ctype" "vr_payload_sha256 r = va_digest V payload"
      "pq_Open (va_pq V) (va_keys V) (vr_payload_enc r) (aad (se_id x) (vr_version r)) = Inr payload"
    and others: "\<forall>y \<in> set (rows (secret_versions s')). y = r \<or> y \<in> set (rows (secret_versions s))"
    and x': "x' \<in> set (rows (secrets s'))" "se_id x' = se_id x" "se_name x' = se_name x" "se_type x' = se_type x"
      "se_disabled x' = se_disabled x"
    using Put_result [OF W wf x name live, of payload ctype actor] by metis
  have ok: "\<not> fault (va_env V) n" for n using W by (simp add: vault_works_def)
  let ?s = "s'\<lparr>tick := Suc (tick s')\<rparr>"
  have top: "vr_version y < vr_version r" if y: "y \<in> set (rows (secret_versions s'))" "vr_secret_id y = se_id x" "y \<noteq> r" for y
  proof -
    have "y \<in> set (rows (secret_versions s))" using y others by blast
    then obtain z where "z \<in> set (rows (secrets s))" "se_id z = se_id x" "vr_version y \<le> se_current_version z"
      using wf y(2) by (auto simp: vault_wf_def)
    moreover from this have "z = x" using wf x by (auto simp: vault_wf_def wf_table_def distinct_map inj_on_def)
    ultimately show ?thesis using r(2) by simp
  qed
  have latest: "GetLatestSecretVersion (va_env V) (se_id x') ?s = (Inr r, ?s\<lparr>tick := Suc (tick ?s)\<rparr>)"
    using latest_version [OF r(4) r(1) r(3) top] ok x'(2) by (simp add: GetLatestSecretVersion_def stmt_defs)
  have "find (\<lambda>y. (vr_secret_id y, vr_version y) = (se_id x, vr_version r)) (rows (secret_versions s')) = Some r"
    using find_key_unique [of "\<lambda>y. (vr_secret_id y, vr_version y)" "rows (secret_versions s')" r] wf' r(1,4) by (simp add: vault_wf_def)
  then have exact: "GetSecretVersion (va_env V) (se_id x') (int (vr_version r)) ?s = (Inr r, ?s\<lparr>tick := Suc (tick ?s)\<rparr>)"
    using ok x'(2) by (simp add: GetSecretVersion_def stmt_defs select_one_def)
  have opens: "open_version V x' r = Inr payload" using r(3,7) x'(2) by (simp add: open_version_def)
  note found = resolve_found [OF W wf' x'(1), of name]
  have "fst (GetLatest V name s') = Inr (x', payload)"
    using found(1) name live x'(3-5) latest opens by (simp add: GetLatest_def opened_def)
  moreover have "fst (GetVersion V name (int (vr_version r)) s') = Inr (x', payload)"
    using found(1) name live x'(3-5) exact opens by (simp add: GetVersion_def opened_def)
  moreover have "fst (Materialize V name s') = Inr (x', [\<lparr>vf_name = (if trim_space ctype = [] then ''value'' else trim_space ctype),
       vf_data = payload\<rparr>], va_digest V payload)"
    using found(2) name live x'(3-5) latest opens r(5,6) by (simp add: Materialize_def opened_def)
  ultimately show ?thesis using put r(2) x'(2) by auto
qed


section \<open>Numbers are not used twice\<close>

text \<open>Once version \<open>v\<close> of secret \<open>i\<close> is taken, it stays taken: the secret keeps a current version of \<open>v\<close> or more, or
  is gone with its key.\<close>

definition taken :: "nat \<Rightarrow> nat \<Rightarrow> vault_db \<Rightarrow> bool" where
  "taken i v s \<longleftrightarrow> i < next_id (secrets s) \<and> (\<forall>x \<in> set (rows (secrets s)). se_id x = i \<longrightarrow> v \<le> se_current_version x)"

lemma taken_simps [simp]: "taken i v (s\<lparr>tick := n\<rparr>) = taken i v s"
  by (simp add: taken_def)

lemma taken_added:
  assumes "taken i v s"
  shows "taken i v (added_version t j c a sl s)"
proof (cases "find (\<lambda>x. se_id x = j) (rows (secrets s))")
  case (Some x)
  have "x \<in> set (rows (secrets s))" "se_id x = j" using Some by (auto dest: find_SomeD)
  with Some assms show ?thesis
    by (auto simp: added_version_def Let_def taken_def set_update_where le_SucI)
qed (use assms in \<open>simp add: added_version_def\<close>)

lemma taken_kept: "taken i v s \<Longrightarrow> taken i v (vault_exec E st s)"
  by (cases st)
     (auto simp: taken_added, auto simp: taken_def insert_secret_def UpdateSecretMeta_def SetSecretDisabled_def DeleteSecret_def
       DestroySecretVersion_def insert_binding_def DeleteSecretBinding_def insert_method_def put_method_def
       SetK8sAuthMethodDisabled_def DeleteK8sAuthMethod_def vault_audit_def stmt_defs set_methods_def set_update_where)

lemma audited_tables [simp]:
  "secrets (audited V a b c d s) = secrets s" "secret_versions (audited V a b c d s) = secret_versions s"
  "secret_bindings (audited V a b c d s) = secret_bindings s"
  by (simp_all add: audited_def vault_audit_def stmt_defs)

lemma Put_InrD:
  assumes "vault_wf s" and "vault_Put V name payload ctype actor s = (Inr r, s')"
  shows "\<exists>x n t sealed s2. find (\<lambda>y. se_id y = vr_secret_id r) (rows (secrets s)) = Some x \<and> vr_version r = Suc (se_current_version x) \<and>
     sealer V payload n (vr_secret_id r) (vr_version r) = Inr sealed \<and> vr_payload_enc r = sl_payload_enc sealed \<and>
     secrets s' = secrets (added_version t (vr_secret_id r) ctype actor sealed s2) \<and> secrets s2 = secrets s \<and>
     secret_versions s2 = secret_versions s \<and>
     version_insertable (new_version (vr_secret_id r) (vr_version r) ctype actor t sealed) s2"
proof -
  let ?s = "s\<lparr>tick := Suc (tick s)\<rparr>"
  obtain x :: VSecret and s1 b where x: "CreateSecretVersion (va_env V) (se_id x) ctype actor (sealer V payload) ?s = (Inr r, s1)"
    and "s' = audited V actor ''secret.put'' (se_name x) b s1"
    using assms(2)
    by (auto simp: vault_Put_def db_op_def GetSecretByName_def version_op_def dest!: query_row_Inr split: attempt_splits if_splits)
  then have s': "secrets s' = secrets s1" by simp
  show ?thesis
    using CreateSecretVersion_Inr [OF x] assms(1) s' by (fastforce simp: vault_wf_def new_version_def)
qed

lemma Put_takes:
  assumes "vault_wf s" and "vault_Put V name payload ctype actor s = (Inr r, s')"
  shows "taken (vr_secret_id r) (vr_version r) s' \<and> \<not> taken (vr_secret_id r) (vr_version r) s"
proof -
  obtain x n t sealed s2 where x: "find (\<lambda>y. se_id y = vr_secret_id r) (rows (secrets s)) = Some x"
    "vr_version r = Suc (se_current_version x)" "secrets s' = secrets (added_version t (vr_secret_id r) ctype actor sealed s2)"
    "secrets s2 = secrets s" "version_insertable (new_version (vr_secret_id r) (vr_version r) ctype actor t sealed) s2"
    using Put_InrD [OF assms] by blast
  have mem: "x \<in> set (rows (secrets s))" "se_id x = vr_secret_id r" using x(1) by (auto dest: find_SomeD)
  then have "\<not> taken (vr_secret_id r) (vr_version r) s" using x(2) by (auto simp: taken_def)
  have "y = x" if "y \<in> set (rows (secrets s))" "se_id y = vr_secret_id r" for y
    using that mem assms(1) by (auto simp: vault_wf_def wf_table_def distinct_map inj_on_def)
  moreover have "secrets s' = update_rows (\<lambda>y. se_id y = vr_secret_id r)
      (\<lambda>y. y\<lparr>se_current_version := Suc (se_current_version y), se_updated_at := t\<rparr>) (secrets s)"
    using x by (simp add: added_version_def Let_def)
  moreover have "vr_secret_id r < next_id (secrets s)" using mem assms(1) by (auto simp: vault_wf_def wf_table_def)
  ultimately have "taken (vr_secret_id r) (vr_version r) s'"
    using x(2) by (auto simp: taken_def set_update_where)
  with \<open>\<not> taken (vr_secret_id r) (vr_version r) s\<close> show ?thesis by blast
qed

text \<open>C22 (secrets.go, CreateSecretVersion): a version number that was given to a value of a secret is never given again, in
  whatever order other writes, deletions and new secrets come in between, so no two values are ever sealed for the same
  place.\<close>

theorem version_never_reused:
  assumes "vault_wf s" and "vault_Put V name payload ctype actor s = (Inr r, s1)"
    and "vault_reach E (\<lambda>_. True) s1 s2" and "vault_Put V' name' payload' ctype' actor' s2 = (Inr r', s3)"
  shows "(vr_secret_id r', vr_version r') \<noteq> (vr_secret_id r, vr_version r)"
proof -
  have "vault_reach (va_env V) (\<lambda>_. True) s s1"
    using reach_vault_call [of V s s "CallPut name payload ctype actor"] assms(2) by (simp add: vault_start)
  then have "vault_wf s1" using assms(1) by (rule vault_reach_wf)
  with assms(3) have wf: "vault_wf s2" by (rule vault_reach_wf)
  have "taken (vr_secret_id r) (vr_version r) s2"
    using assms(3) conjunct1 [OF Put_takes [OF assms(1,2)]]
    by (rule vault_reach_invariant) (simp_all add: taken_kept)
  then show ?thesis using conjunct2 [OF Put_takes [OF wf assms(4)]] by auto
qed


section \<open>Destroyed versions\<close>

definition gone :: "nat \<Rightarrow> nat \<Rightarrow> vault_db \<Rightarrow> bool" where
  "gone i v s \<longleftrightarrow> taken i v s \<and>
     (\<forall>r \<in> set (rows (secret_versions s)). vr_secret_id r = i \<and> vr_version r = v \<longrightarrow> vr_destroyed r \<and> vr_payload_enc r = [])"

lemma gone_simps [simp]: "gone i v (s\<lparr>tick := n\<rparr>) = gone i v s"
  by (simp add: gone_def)

lemma gone_added:
  assumes "gone i v s"
  shows "gone i v (added_version t j c a sl s)"
proof (cases "find (\<lambda>x. se_id x = j) (rows (secrets s))")
  case (Some x)
  have "x \<in> set (rows (secrets s))" "se_id x = j" using Some by (auto dest: find_SomeD)
  then have "i = j \<longrightarrow> v \<le> se_current_version x" using assms by (auto simp: gone_def taken_def)
  with Some assms show ?thesis
    using taken_added [of i v s t j c a sl] by (auto simp: gone_def added_version_def Let_def new_version_def)
qed (use assms in \<open>simp add: added_version_def\<close>)

lemma gone_kept: "gone i v s \<Longrightarrow> gone i v (vault_exec E st s)"
  using taken_kept [of i v s E st]
  by (cases st)
     (auto simp: gone_added, auto simp: gone_def insert_secret_def UpdateSecretMeta_def SetSecretDisabled_def DeleteSecret_def
       DestroySecretVersion_def insert_binding_def DeleteSecretBinding_def insert_method_def put_method_def
       SetK8sAuthMethodDisabled_def DeleteK8sAuthMethod_def vault_audit_def stmt_defs set_methods_def set_update_where)


lemma destroyed_gone:
  assumes wf: "vault_wf s" and d: "DestroyVersion V name v actor s = (Inr (), s1)"
    and x: "x \<in> set (rows (secrets s))" "se_name x = normalizeName name"
  shows "gone (se_id x) (nat v) s1"
proof -
  let ?s2 = "s\<lparr>tick := Suc (Suc (tick s))\<rparr>"
  have named: "find (\<lambda>y. se_name y = normalizeName name) (rows (secrets s)) = Some x"
    using find_key_unique [of se_name "rows (secrets s)" x] wf x by (simp add: vault_wf_def)
  obtain r :: SecretVersion and s2 b where get: "find (\<lambda>r. vr_secret_id r = se_id x \<and> int (vr_version r) = v) (rows (secret_versions s)) = Some r"
    and del: "DestroySecretVersion (va_env V) (vr_id r) ?s2 = (Inr (), s2)" and s1: "s1 = audited V actor ''secret.version_destroy'' (se_name x) b s2"
    using d named
    by (auto simp: DestroyVersion_def db_op_def GetSecretByName_def GetSecretVersion_def select_one_def dest!: query_row_Inr
        split: attempt_splits option.splits)
  have r: "r \<in> set (rows (secret_versions s))" "vr_secret_id r = se_id x" "int (vr_version r) = v"
    using get by (auto dest!: find_SomeD)
  have s2: "secrets s2 = secrets s" "secret_versions s2 = update_rows (\<lambda>y. vr_id y = vr_id r)
      (\<lambda>y. y\<lparr>vr_destroyed := True, vr_payload_enc := []\<rparr>) (secret_versions s)"
    using del by (auto simp: DestroySecretVersion_def some_row_def stmt_defs split: if_splits)
  have same: "y = r" if "y \<in> set (rows (secret_versions s))" "vr_secret_id y = se_id x" "vr_version y = vr_version r" for y :: SecretVersion
    using that r(1,2) wf by (auto simp: vault_wf_def distinct_map inj_on_def)
  obtain z where "z \<in> set (rows (secrets s))" "se_id z = se_id x" "vr_version r \<le> se_current_version z"
    using wf r by (auto simp: vault_wf_def)
  moreover from this have "z = x" using wf x by (auto simp: vault_wf_def wf_table_def distinct_map inj_on_def)
  ultimately have "vr_version r \<le> se_current_version x" by simp
  then have "taken (se_id x) (vr_version r) s1"
    using wf x(1) by (auto simp: taken_def s1 s2 vault_wf_def wf_table_def distinct_map inj_on_def)
  moreover have "nat v = vr_version r" using r(3) by simp
  moreover have "vr_destroyed y \<and> vr_payload_enc y = []"
    if y: "y \<in> set (rows (secret_versions s1))" "vr_secret_id y = se_id x" "vr_version y = vr_version r" for y :: SecretVersion
  proof -
    obtain w :: SecretVersion where w: "w \<in> set (rows (secret_versions s))"
      "y = (if vr_id w = vr_id r then w\<lparr>vr_destroyed := True, vr_payload_enc := []\<rparr> else w)"
      using y(1) by (auto simp: s1 s2 set_update_where)
    then have "w = r" using same [of w] y(2,3) by (auto split: if_splits)
    then show ?thesis using w(2) by simp
  qed
  ultimately show ?thesis by (simp add: gone_def)
qed

text \<open>C23 (service.go, DestroyVersion and open; secrets.go): once a version of a secret is destroyed it has no payload any more
  and is refused, with whatever keys, after any further history of writes, deletions and bindings.\<close>

theorem destroyed_for_good:
  assumes "vault_wf s" and "DestroyVersion V name v actor s = (Inr (), s1)"
    and "x \<in> set (rows (secrets s))" and "se_name x = normalizeName name" and "vault_reach E (\<lambda>_. True) s1 s2"
    and "r \<in> set (rows (secret_versions s2))" and "vr_secret_id r = se_id x" and "int (vr_version r) = v"
  shows "vr_destroyed r \<and> vr_payload_enc r = [] \<and> open_version V' x' r = Inl VersionDestroyed"
proof -
  have "gone (se_id x) (nat v) s2"
    using assms(5) destroyed_gone [OF assms(1-4)]
    by (rule vault_reach_invariant) (simp_all add: gone_kept)
  then show ?thesis using assms(6-8) by (auto simp: gone_def open_version_def)
qed


section \<open>An envelope opens in its own place only\<close>

lemma aad_inj: "aad i v = aad j w \<longleftrightarrow> i = j \<and> v = w"
proof
  assume eq: "aad i v = aad j w"
  have bar: "CHR ''|'' \<notin> set (string_of_nat n)" for n
    using string_of_nat_digits [of "CHR ''|''" n] by (auto simp: is_digit_def)
  have "string_of_nat i @ CHR ''|'' # string_of_nat v = string_of_nat j @ CHR ''|'' # string_of_nat w"
    using eq by (simp add: aad_def)
  then have "split_on CHR ''|'' (string_of_nat i @ CHR ''|'' # string_of_nat v) = split_on CHR ''|'' (string_of_nat j @ CHR ''|'' # string_of_nat w)"
    by simp
  then have "string_of_nat i = string_of_nat j \<and> string_of_nat v = string_of_nat w"
    by (simp add: split_on_append_sep split_on_atom bar)
  then show "i = j \<and> v = w" by (auto dest: string_of_nat_inj)
qed simp

text \<open>C24 (service.go, Put and open; pqcrypt.go): a payload that was sealed for one version of one secret does not open as any
  other version or secret, wherever its envelope is copied to, provided that the cipher tells the two places apart.\<close>

theorem envelope_is_bound:
  assumes "pq_laws (va_pq V)" and "good_draws (va_random V n)" and "sealer V payload n i v = Inr sealed"
    and "vr_payload_enc r = sl_payload_enc sealed" and "(se_id x, vr_version r) \<noteq> (i, v)"
    and "aad i v \<noteq> aad (se_id x) (vr_version r) \<Longrightarrow> separates (va_pq V) (aad i v) (aad (se_id x) (vr_version r))"
  shows "open_version V x r = Inl (if vr_destroyed r then VersionDestroyed else VaultPq UnwrapFailed)"
proof -
  have "separates (va_pq V) (aad i v) (aad (se_id x) (vr_version r))" using assms(5,6) by (auto simp: aad_inj)
  moreover have "pq_Seal (va_pq V) (va_keys V) (va_random V n) payload (aad i v) = Inr (sl_payload_enc sealed)"
    using assms(3) by (auto simp: sealer_def split: sum.splits)
  ultimately have "pq_Open (va_pq V) (va_keys V) (vr_payload_enc r) (aad (se_id x) (vr_version r)) = Inl UnwrapFailed"
    using Seal_shape [OF assms(1,2), of "va_keys V" payload "aad i v"] assms(4) by auto
  then show ?thesis by (simp add: open_version_def)
qed


section \<open>A vault on which the theorems apply\<close>

definition demo_vault :: vault where
  "demo_vault = \<lparr>va_env = demo_env, va_pq = demo_pq, va_keys = demo_keys, va_random = (\<lambda>_. demo_draws),
     va_digest = (\<lambda>p. ''sha:'' @ p), va_labels = (\<lambda>_. None), va_ca = None\<rparr>"

definition demo_secret :: VSecret where
  "demo_secret = \<lparr>se_id = 1, se_name = ''db'', se_type = ''kv'', se_description = [], se_labels_json = ''{}'',
     se_cert_id = None, se_current_version = 1, se_rotation_days = 0, se_disabled = False, se_created_by = ''ann'',
     se_created_at = 5, se_updated_at = 5\<rparr>"

definition demo_version :: SecretVersion where
  "demo_version = \<lparr>vr_id = 1, vr_secret_id = 1, vr_version = 1, vr_payload_enc = ''pqenc:v1:old'',
     vr_payload_sha256 = ''sha:old'', vr_size_bytes = 3, vr_content_type = [], vr_destroyed = False,
     vr_created_by = ''ann'', vr_created_at = 6\<rparr>"

definition demo_vault_db :: vault_db where
  "demo_vault_db = \<lparr>tick = 0, secrets = \<lparr>rows = [demo_secret], next_id = 2\<rparr>,
     secret_versions = \<lparr>rows = [demo_version], next_id = 2\<rparr>, secret_bindings = empty_table,
     k8s_auth_methods = empty_table, vault_log = [], ca_part = empty_db\<rparr>"

lemma demo_vault_works: "vault_works demo_vault"
  by (simp add: vault_works_def demo_vault_def demo_env_def demo_pq_laws demo_draws_good)

lemma demo_vault_db_wf: "vault_wf demo_vault_db"
  by (simp add: vault_wf_def demo_vault_db_def wf_table_def demo_secret_def demo_version_def empty_table_def)

lemma demo_secret_live:
  "demo_secret \<in> set (rows (secrets demo_vault_db))" "se_name demo_secret = normalizeName '' db ''"
  "se_type demo_secret \<noteq> SecretTypeCertificate" "\<not> se_disabled demo_secret"
  by (simp_all add: demo_vault_db_def, code_simp, simp_all add: demo_secret_def SecretTypeCertificate_def)

theorem put_reads_back_witness:
  "\<exists>r s x. vault_Put demo_vault '' db '' ''hunter2'' ''pw.txt'' ''ann'' demo_vault_db = (Inr r, s) \<and> vr_version r = 2 \<and>
     fst (GetLatest demo_vault '' db '' s) = Inr (x, ''hunter2'') \<and>
     fst (Materialize demo_vault '' db '' s) = Inr (x, [\<lparr>vf_name = ''pw.txt'', vf_data = ''hunter2''\<rparr>], ''sha:hunter2'')"
proof -
  have "trim_space ''pw.txt'' = ''pw.txt''" by code_simp
  then show ?thesis
    using put_reads_back [OF demo_vault_works demo_vault_db_wf demo_secret_live, of "''hunter2''" "''pw.txt''" "''ann''"]
    by (auto simp: demo_secret_def demo_vault_def)
qed

theorem version_never_reused_witness:
  "\<exists>r s1 r' s2. vault_Put demo_vault '' db '' ''one'' [] ''ann'' demo_vault_db = (Inr r, s1) \<and>
     vault_Put demo_vault '' db '' ''two'' [] ''ann'' s1 = (Inr r', s2) \<and>
     (vr_secret_id r', vr_version r') \<noteq> (vr_secret_id r, vr_version r)"
proof -
  obtain r s1 x where 1: "vault_Put demo_vault '' db '' ''one'' [] ''ann'' demo_vault_db = (Inr r, s1)" "vault_wf s1"
    and x: "x \<in> set (rows (secrets s1))" "se_name x = normalizeName '' db ''" "se_type x \<noteq> SecretTypeCertificate" "\<not> se_disabled x"
    using Put_result [OF demo_vault_works demo_vault_db_wf demo_secret_live, of "''one''" "[]" "''ann''"] demo_secret_live by metis
  obtain r' s2 where 2: "vault_Put demo_vault '' db '' ''two'' [] ''ann'' s1 = (Inr r', s2)"
    using Put_result [OF demo_vault_works 1(2) x, of "''two''" "[]" "''ann''"] by metis
  show ?thesis using version_never_reused [OF demo_vault_db_wf 1(1) vault_start 2] 1(1) 2 by blast
qed

lemma demo_destroyed:
  "case DestroyVersion demo_vault ''db'' 1 ''ann'' demo_vault_db of (Inl e, s1) \<Rightarrow> False | (Inr u, s1) \<Rightarrow>
     rows (secret_versions (run_call demo_vault (CallSetDisabled ''db'' True ''ann'') s1)) =
       [demo_version\<lparr>vr_destroyed := True, vr_payload_enc := []\<rparr>]"
  by code_simp

lemma demo_name: "normalizeName ''db'' = ''db''"
  by code_simp

theorem destroyed_for_good_witness:
  "\<exists>r. r \<in> set (rows (secret_versions (run_call demo_vault (CallSetDisabled ''db'' True ''ann'')
       (snd (DestroyVersion demo_vault ''db'' 1 ''ann'' demo_vault_db))))) \<and>
     vr_destroyed r \<and> vr_payload_enc r = [] \<and> open_version demo_vault demo_secret r = Inl VersionDestroyed"
proof -
  obtain s1 where d: "DestroyVersion demo_vault ''db'' 1 ''ann'' demo_vault_db = (Inr (), s1)"
    and rows: "rows (secret_versions (run_call demo_vault (CallSetDisabled ''db'' True ''ann'') s1)) =
      [demo_version\<lparr>vr_destroyed := True, vr_payload_enc := []\<rparr>]"
    using demo_destroyed by (auto split: prod.splits sum.splits)
  have "se_name demo_secret = normalizeName ''db''" by (simp add: demo_name demo_secret_def)
  note good = destroyed_for_good [OF demo_vault_db_wf d demo_secret_live(1) this reach_vault_call [OF vault_start]]
  let ?r = "demo_version\<lparr>vr_destroyed := True, vr_payload_enc := []\<rparr>"
  have "?r \<in> set (rows (secret_versions (run_call demo_vault (CallSetDisabled ''db'' True ''ann'') s1)))"
    by (simp only: rows) simp
  moreover from good [OF this, of demo_vault demo_secret]
  have "vr_destroyed ?r \<and> vr_payload_enc ?r = [] \<and> open_version demo_vault demo_secret ?r = Inl VersionDestroyed"
    by (simp add: demo_secret_def demo_version_def)
  ultimately show ?thesis unfolding d snd_conv by blast
qed

theorem envelope_is_bound_witness:
  "\<exists>sealed. sealer demo_vault ''hunter2'' 0 1 1 = Inr sealed \<and>
     open_version demo_vault demo_secret (demo_version\<lparr>vr_version := 2, vr_payload_enc := sl_payload_enc sealed\<rparr>)
       = Inl (VaultPq UnwrapFailed)"
proof -
  obtain sealed where s: "sealer demo_vault ''hunter2'' 0 1 1 = Inr sealed"
    using sealer_opens [OF demo_vault_works] by blast
  have "demo_tag (aad 1 1) \<noteq> demo_tag (aad 1 2)" by code_simp
  then have "separates demo_pq (aad 1 1) (aad 1 2)" by (rule demo_separates)
  then show ?thesis
    using s envelope_is_bound [OF _ _ s, where r = "demo_version\<lparr>vr_version := 2, vr_payload_enc := sl_payload_enc sealed\<rparr>"
        and x = demo_secret] demo_pq_laws demo_draws_good
    by (simp add: demo_vault_def demo_secret_def demo_version_def open_version_def)
qed

end
