(* ===== verification/Spec2Isabelle.thy ===== *)
theory Spec2Isabelle
  imports Portal Api_Docs Acme_Invariants User_Admin Webhooks Vault
begin

text \<open>
  \<^bold>\<open>goca: a verification development.\<close>

  goca is a certificate authority with a web portal and an ACME server (RFC 8555). The portal is HTML with one script,
  \<open>src/internal/web/static/app.js\<close>; the server is Go. This development models both scripts of the portal, and of the server the
  parts that decide what is certified and revoked and who may ask for it: the stores, the PKI package, the certificate
  service with its lifecycle operations, the ACME server with its administration, sign-in with the administration of
  accounts and tokens, the webhooks, and the secret manager.

  \<^bold>\<open>The portal script.\<close> \<open>Portal\<close> models \<open>app.js\<close> on a document that is the list of its elements in document order,
  each with its parent, attributes, value and flags. Every listener of the script is a definition (\<open>on_nav_toggle\<close>,
  \<open>on_click_copy\<close>, \<open>on_submit\<close>, \<open>on_click_link\<close>, \<open>on_change_show\<close>, \<open>apply_mode\<close>, \<open>apply_kind\<close>, \<open>refresh_bulk\<close>,
  \<open>on_change_select_all\<close>, \<open>on_click_bulk\<close>), composed into \<open>load\<close>, \<open>on_change\<close>, \<open>on_click\<close> and \<open>on_timer\<close> the way the
  script registers them. What the browser does (selector matching, \<open>confirm\<close>, the clipboard) is a parameter. The
  theorems: no field of a hidden section stays enabled, the innermost section decides, the bulk bar agrees with the
  selected rows after every change, a declined prompt cancels the action, and the copy button is restored. \<open>Api_Docs\<close> is
  the other script, \<open>api-docs-init.js\<close>, which hands a configuration to the vendored Swagger UI.

  \<^bold>\<open>Shared.\<close> \<open>Prelude\<close> has strings as the Go functions see them (bytes; case and space on ASCII), decimal numbers, early
  returns (\<open>attempt\<close>) and the row operations. \<open>Tables\<close> has a table with an automatic key and its contract, the locale
  \<open>keyed\<close>, which \<open>Store\<close> interprets for every table; and \<open>run\<close>, one SQL statement, with the forms of statement
  built on it and the locale \<open>state_frame\<close> for what sequences of statements keep. The environment decides for every
  statement whether it fails, so a theorem about an operation covers a failure of the database at every point unless it
  names the condition that none fails (\<open>faultless\<close>, \<open>database_works\<close>, \<open>vault_works\<close>), as those do that say what an
  operation achieves rather than what it never does: the limit on refused passwords, the attempts on a delivery and its
  arrival, and reading back what was written. The clock and the random source are read at the count of statements.

  \<^bold>\<open>Go's standard library\<close> as far as the code relies on it: \<open>Go_Path\<close> is \<open>path.Match\<close> (the backtracking search of the
  library, equal to a declarative pattern semantics by \<open>path_Match_glob_aux\<close>); \<open>Go_Net\<close> is \<open>net.ParseIP\<close>;
  \<open>Secret\<close> has base64.

  \<^bold>\<open>Stores.\<close> \<open>Store\<close> (\<open>internal/store/store.go\<close>, \<open>models.go\<close>) and \<open>Acme_Store\<close> (\<open>internal/store/acme.go\<close>) have one
  record per table and one definition per statement, with the condition of every \<open>UPDATE\<close> and the constraints of every
  \<open>INSERT\<close> and \<open>DELETE\<close> taken from the SQL and the schema. \<open>db\<close> is the whole database.

  \<^bold>\<open>PKI.\<close> \<open>Pki\<close> (\<open>internal/pki\<close>) has key types, names, serial numbers, profiles, reasons, templates, requests,
  \<open>Sign\<close> and \<open>CreateCRL\<close>. The primitives of \<open>crypto/x509\<close> are the record \<open>crypto\<close>; the law \<open>creates_what_it_is_given\<close>
  (a created certificate parses back with the fields of its template) is the hypothesis of the theorems that need it and
  holds of the example instance. \<open>Secret\<close> (\<open>internal/secret/secret.go\<close>) is the box around stored keys; its cipher is
  the record \<open>aead\<close> with the law \<open>opens_sealed\<close>.

  \<^bold>\<open>Certificate service.\<close> \<open>Ca_Service\<close> (\<open>internal/ca/service.go\<close>) and \<open>Ca_Lifecycle\<close> (\<open>internal/ca/lifecycle.go\<close>) have
  the operations; \<open>Ca_Lifecycle\<close> also has the locales for what every operation keeps (a relation on states that each
  statement respects), interpreted for the revocation of a certificate, its content, the authorities and the tables of
  the ACME server. \<open>Ca_Issue\<close> has the theorems on issuance, lists, hold and release, and slugs. Shown: a permanent
  revocation is final under any sequence of the operations on certificates (\<open>svc_step\<close>); the content of a certificate
  never changes, and only the deletion of its authority removes it (\<open>svc_history\<close>); retiring an
  authority terminates and revokes what it listed; what \<open>Issue\<close> stores is what the request and the authority allow; a
  list has exactly the revoked certificates.

  \<^bold>\<open>ACME.\<close> \<open>Acme_Domain\<close> has the scope patterns and identifiers (\<open>domain.go\<close>, \<open>policy.go\<close>) and the problems
  (\<open>errors.go\<close>); \<open>Acme_Jws\<close> signed requests, external account bindings (\<open>jws.go\<close>) and nonces (\<open>nonce.go\<close>);
  \<open>Acme_Service\<close> every handler of \<open>service.go\<close>, with the JOSE library (\<open>jose\<close>) and the JSON decoder (\<open>codec\<close>) as
  parameters. \<open>Acme_Auth\<close> and \<open>Acme_Orders\<close> show what a successful request has proved: possession of the account key,
  the URL, a fresh nonce and a valid account; a binding made with a credential's key for a new account; orders only in
  the scope of the credential; certificates for exactly the names of the order; downloads and revocations only by those
  entitled. \<open>Acme_Concurrency\<close> interleaves the statements of any number of requests (\<open>stmt_step\<close>, \<open>trace\<close>) and shows that
  nonces and orders are used once and that a credential's limit on accounts holds. \<open>Acme_Admin\<close> (\<open>eab_admin.go\<close>)
  has the administration and how it acts on the protocol. \<open>Acme_Invariants\<close> shows that the tables stay well formed in every
  interleaving, that a nonce that was handed out is accepted, and that \<open>Finalize\<close> implements an abstract status machine
  (\<open>finalize_spec\<close>) whatever fails.

  \<^bold>\<open>Sign-in and accounts.\<close> \<open>Auth_Store\<close> has the tables of users, sessions, API tokens and sign-in failures
  (\<open>internal/store/store.go\<close>), in a state of their own, \<open>auth_db\<close>; \<open>auth_reach\<close> are the states that any sequence of
  statements reaches, interleaved from any number of processes, and the locale \<open>state_frame\<close> is interpreted on it.
  \<open>Auth\<close> (\<open>internal/auth/auth.go\<close>) has sign-in, sessions, tokens and passwords; \<open>Login\<close> (\<open>ratelimit.go\<close>, \<open>session.go\<close>,
  \<open>oidc.go\<close>, \<open>api.go\<close>, \<open>api_auth.go\<close>) the throttle, the checks that admit a request, the login form, the callback of a
  provider and the password grant; \<open>User_Admin\<close> (\<open>pages.go\<close>, \<open>api.go\<close>) the administration of accounts and tokens. Shown:
  who is admitted and as what; what a refusal may say; a session and a token work until they end and never after; at
  most five refused passwords for a name or an address in fifteen minutes when attempts do not overlap; a granted token has an end; an enabled
  administrator remains. Lemmas show where the code falls short of its comments (\<open>directory_takes_over\<close>,
  \<open>failed_read_demotes\<close>, \<open>throttle_ignores_case\<close>, \<open>overlapping_attempts_pass\<close>, \<open>loginTokenTTL_wraps\<close>, \<open>concurrent_demotions_leave_none\<close> and others).

  \<^bold>\<open>Webhooks.\<close> \<open>Webhooks\<close> (\<open>internal/webhooks\<close>, \<open>internal/store/webhook.go\<close>, \<open>api_webhooks.go\<close>) has the guard on
  the addresses a delivery may connect to, the tables, the dispatcher and the handlers of the administrators. The state is
  \<open>hook_db\<close>, whose field \<open>wire\<close> is what went over the network; \<open>hook_reach\<close> interleaves statements of any number of
  dispatchers. Shown: no connection of the dialer ever reaches a loopback, link-local or unspecified address, whatever
  names resolve to, redirects say and statements fail (a proxy of the environment is not modelled); with one dispatcher
  and a database that does not fail, a delivery is attempted a bounded number of times and accepted once; a claim is
  exclusive while it is fresh; with such a database an event is delivered, signed, to a reachable receiver that
  subscribed to it. Lemmas show the shortfalls (\<open>disabled_still_delivered\<close>, \<open>undecryptable_never_given_up\<close>,
  \<open>unrecorded_sent_again\<close>, \<open>batch_outlives_claim\<close>, \<open>delay_overflows\<close>).

  \<^bold>\<open>The secret manager.\<close> \<open>Pqcrypt\<close> (\<open>internal/pqcrypt/pqcrypt.go\<close>) has the envelope: lengths, order and guards are those
  of the code, the primitives are the record \<open>pq_crypto\<close> with their documented laws \<open>pq_laws\<close>. \<open>Vault_Store\<close>
  (\<open>internal/store/secrets.go\<close>, \<open>k8sauth.go\<close>) has the tables and statements, \<open>vault_db\<close>, with the tables of the certificate
  service as a part, \<open>vault_reach\<close> and the invariant \<open>vault_wf\<close>; \<open>Vault\<close> (\<open>internal/vault/service.go\<close>) the operations. Shown: a
  sealed payload opens again, and not with additional data that the cipher tells apart from its own; what is written is what is read back; a version
  number is never given twice, so an envelope has one place and opens in no other; a destroyed version stays destroyed.

  \<^bold>\<open>Bounds.\<close> Times are seconds as integers; ids are natural numbers; Go's \<open>int64\<close> matters where a number is parsed
  (\<open>sscanf_int64\<close>, \<open>parseInt64\<close>, \<open>scan_int64\<close>, \<open>ParseInt\<close>), and there the range is checked, and in the lifetimes of tokens,
  which are 64-bit words of nanoseconds. The loops with a fuel argument are those
  the code bounds itself (16 links of a chain, 64 steps of a renewal history, 98 slugs). The recursion of
  \<open>RevokeCA\<close> over subordinates has no bound in the code: the definition recurses on an amount of fuel and gives
  \<open>None\<close> when it runs out, and \<open>RevokeCA_returns\<close> shows how much is enough (one more than the next free key, parents being older than their children). The limits of the code on listings (1000 renewals, 10000 certificates of a retired authority) are in the
  model.

  \<^bold>\<open>Not modelled.\<close> HTTP routing, templates, the command line and its client, the CSI provider, configuration, metrics and
  service installation: input and output around the operations above. The LDAP and OpenID Connect clients (parameters of
  \<open>Auth\<close> and \<open>Login\<close>) and the review of Kubernetes tokens: calls to other systems. Import of foreign certificates:
  decoding by \<open>crypto/x509\<close>. The vendored Swagger bundles. The text of errors and problems is modelled only where the code
  branches on it.
\<close>

end
